(* ===== verification/TrxPrelude.thy ===== *)
theory TrxPrelude
  imports
    Main
    "HOL-Library.Word"
    "HOL-Library.Multiset"
    "HOL-Library.Char_ord"
    "HOL-Library.List_Lexorder"
    "HOL-Library.Product_Lexorder"
begin

text \<open>
  Shared base of the development: the status codes and the error-propagation macro of
  \<open>include/trxreg/result.hpp\<close>, the identifiers of \<open>include/trxreg/ids.hpp\<close>, the model of
  \<open>std::map\<close> as a key-sorted association list, grouping and stable sorting of evidence, and the
  lemma collections the component theories use.

  A \<open>Status\<close> or \<open>Result\<close> is modelled by its \<open>StatusCode\<close>: a sum whose left side is the
  code of the failure. The free-text message of an error is a diagnostic that no code under
  \<open>src/src\<close> branches on, and it is left out.
\<close>

named_theorems omap_simps \<open>laws of the ordered map\<close>
named_theorems res_elims \<open>inversion of successful results\<close>

section \<open>Status codes and results\<close>

datatype StatusCode =
    Ok | InvalidArgument | NotFound | Conflict | StaleAuthority | StaleGeneration
  | StaleIncarnation | Fenced | CapacityExceeded | Malformed | Corrupt | Unsupported
  | Refused | IoError | ClockSkew | InvalidTransition | KnowledgeOpen | Internal

type_synonym 'a res = "StatusCode + 'a"

text \<open>\<open>TRXREG_TRY\<close> and \<open>TRXREG_TRY_ASSIGN\<close>: return the failure, or continue with the value.\<close>

definition try_res :: "'a res \<Rightarrow> ('a \<Rightarrow> 'b res) \<Rightarrow> 'b res" where
  "try_res r k = (case r of Inl e \<Rightarrow> Inl e | Inr x \<Rightarrow> k x)"

lemma try_res_simps [simp]:
  "try_res (Inl e) k = Inl e"
  "try_res (Inr x) k = k x"
  by (simp_all add: try_res_def)

lemma try_res_Inr [res_elims]: "try_res r k = Inr y \<longleftrightarrow> (\<exists>x. r = Inr x \<and> k x = Inr y)"
  by (cases r) auto

lemma try_res_Inl: "try_res r k = Inl e \<longleftrightarrow> r = Inl e \<or> (\<exists>x. r = Inr x \<and> k x = Inl e)"
  by (cases r) auto

lemma if_Inl_Inr [res_elims]: "(if b then Inl e else r) = Inr y \<longleftrightarrow> \<not> b \<and> r = Inr y"
  by auto

lemma if_Inr_Inl [res_elims]: "(if b then r else Inl e) = Inr y \<longleftrightarrow> b \<and> r = Inr y"
  by auto

text \<open>\<open>for (x : xs) TRXREG_TRY(check(x))\<close>: the first failing element decides.\<close>

fun try_all :: "('a \<Rightarrow> unit res) \<Rightarrow> 'a list \<Rightarrow> unit res" where
  "try_all check [] = Inr ()"
| "try_all check (x # xs) = try_res (check x) (\<lambda>_. try_all check xs)"

lemma try_all_Inr [res_elims]: "try_all check xs = Inr u \<longleftrightarrow> (\<forall>x \<in> set xs. check x = Inr ())"
  by (induction xs) (auto simp: try_res_Inr)

section \<open>Identifiers\<close>

text \<open>
  \<open>StrongId<Tag, Rep>\<close> is its representation; zero is the invalid identifier. \<open>WallNs\<close> is a
  signed 64-bit nanosecond count: signed overflow is undefined behaviour in C++, so it is modelled
  as an unbounded integer and the 64-bit range is a hypothesis where a codec needs it.
\<close>

type_synonym SourceId = "32 word"
type_synonym SourceEpoch = "32 word"
type_synonym ModuleUid = "64 word"
type_synonym IncarnationId = "32 word"
type_synonym RuleId = "32 word"
type_synonym Generation = "64 word"
type_synonym Sequence = "64 word"
type_synonym ClockDomainId = "64 word"
type_synonym WallNs = int
type_synonym lane = "16 word"
type_synonym byte = "8 word"

definition id_valid :: "'a::len word \<Rightarrow> bool" where
  "id_valid i \<longleftrightarrow> i \<noteq> 0"

definition kMaxKeyBytes :: nat where
  "kMaxKeyBytes = 128"

definition byte_of_char :: "char \<Rightarrow> byte" where
  "byte_of_char c = word_of_nat (of_char c)"

definition char_of_byte :: "byte \<Rightarrow> char" where
  "char_of_byte b = char_of (unat b)"

lemma char_of_byte_of_char [simp]: "char_of_byte (byte_of_char c) = c"
proof -
  have "(of_char c :: nat) < 256" by simp
  then show ?thesis
    by (simp add: char_of_byte_def byte_of_char_def unat_of_nat)
qed

lemma byte_of_char_of_byte [simp]: "byte_of_char (char_of_byte b) = b"
proof -
  have "unat b < 2 ^ LENGTH(8)" by (rule unsigned_less)
  then have "unat b < 256" by simp
  then show ?thesis
    by (simp add: char_of_byte_def byte_of_char_def of_char_of)
qed

lemma byte_of_char_inject [simp]: "byte_of_char c = byte_of_char d \<longleftrightarrow> c = d"
  by (metis char_of_byte_of_char)

lemma map_char_of_byte_of_char [simp]: "map (char_of_byte \<circ> byte_of_char) s = s"
  by (induction s) auto

lemma byte_of_char_less: "byte_of_char c < byte_of_char d \<longleftrightarrow> c < d"
proof -
  have "(of_char c :: nat) < 256" "(of_char d :: nat) < 256" by simp_all
  then show ?thesis
    by (simp add: byte_of_char_def word_less_nat_alt unat_of_nat less_char_def)
qed

text \<open>\<open>validate_key_text\<close>: the grammar of module, slot and port keys.\<close>

definition validate_key_text :: "string \<Rightarrow> unit res" where
  "validate_key_text text =
     (if text = [] then Inl InvalidArgument
      else if length text > kMaxKeyBytes then Inl InvalidArgument
      else if \<exists>c \<in> set text. byte_of_char c < 0x21 \<or> byte_of_char c > 0x7e then Inl InvalidArgument
      else Inr ())"

text \<open>\<open>TextKey::parse\<close>; a key is its text.\<close>

definition parse_key :: "string \<Rightarrow> string res" where
  "parse_key text = try_res (validate_key_text text) (\<lambda>_. Inr text)"

lemma parse_key_Inr:
  "parse_key s = Inr k \<longleftrightarrow>
     k = s \<and> s \<noteq> [] \<and> length s \<le> 128 \<and>
     (\<forall>c \<in> set s. 0x21 \<le> byte_of_char c \<and> byte_of_char c \<le> 0x7e)"
  by (auto simp: parse_key_def validate_key_text_def kMaxKeyBytes_def res_elims not_less)

section \<open>The ordered map\<close>

text \<open>
  \<open>std::map\<close>: unique keys, iteration in key order. The interface is a locale; the
  implementation is an association list kept strictly sorted by key. A reference into the map
  (\<open>it->second.x = v\<close>) is a lookup followed by \<open>oput\<close> of the changed value.
\<close>

locale ordered_store =
  fixes empty :: "'m"
    and get :: "'m \<Rightarrow> 'k::linorder \<Rightarrow> 'v option"
    and put :: "'k \<Rightarrow> 'v \<Rightarrow> 'm \<Rightarrow> 'm"
    and entries :: "'m \<Rightarrow> ('k \<times> 'v) list"
    and invar :: "'m \<Rightarrow> bool"
  assumes get_empty: "get empty k = None"
    and get_put: "get (put k v m) k' = (if k' = k then Some v else get m k')"
    and invar_empty: "invar empty"
    and invar_put: "invar m \<Longrightarrow> invar (put k v m)"
    and entries_get: "invar m \<Longrightarrow> get m k = Some v \<longleftrightarrow> (k, v) \<in> set (entries m)"
    and entries_sorted: "invar m \<Longrightarrow> sorted_wrt (<) (map fst (entries m))"
begin

lemma distinct_keys: "invar m \<Longrightarrow> distinct (map fst (entries m))"
  using entries_sorted strict_sorted_iff by blast

lemma keys_get: "invar m \<Longrightarrow> fst ` set (entries m) = {k. get m k \<noteq> None}"
  by (force simp: entries_get)

lemma keys_put: "invar m \<Longrightarrow> fst ` set (entries (put k v m)) = insert k (fst ` set (entries m))"
  by (auto simp: keys_get invar_put get_put)

lemma size_card: "invar m \<Longrightarrow> length (entries m) = card {k. get m k \<noteq> None}"
proof -
  assume i: "invar m"
  have "length (entries m) = card (set (map fst (entries m)))"
    using distinct_card [OF distinct_keys [OF i]] by simp
  then show ?thesis using keys_get [OF i] by simp
qed

lemma size_put:
  assumes "invar m"
  shows "length (entries (put k v m)) =
           (if get m k = None then Suc (length (entries m)) else length (entries m))"
proof -
  have fin: "finite {k. get m k \<noteq> None}"
    using keys_get [OF assms] by (metis List.finite_set finite_imageI)
  have "{k'. get (put k v m) k' \<noteq> None} = insert k {k. get m k \<noteq> None}"
    by (auto simp: get_put)
  with fin show ?thesis
    using assms by (simp add: size_card invar_put card_insert_if)
qed

lemma values_put:
  assumes "invar m" "v' \<in> snd ` set (entries (put k v m))"
  shows "v' = v \<or> v' \<in> snd ` set (entries m)"
proof -
  obtain k' where "(k', v') \<in> set (entries (put k v m))" using assms(2) by force
  then have "get (put k v m) k' = Some v'" using assms(1) by (simp add: entries_get invar_put)
  then show ?thesis
    using assms(1) by (auto simp: get_put entries_get split: if_splits) force
qed

end

type_synonym ('k, 'v) omap = "('k \<times> 'v) list"

definition oget :: "('k, 'v) omap \<Rightarrow> 'k \<Rightarrow> 'v option" where
  "oget m k = map_of m k"

fun oput :: "'k::linorder \<Rightarrow> 'v \<Rightarrow> ('k, 'v) omap \<Rightarrow> ('k, 'v) omap" where
  "oput k v [] = [(k, v)]"
| "oput k v ((k', v') # m) =
     (if k < k' then (k, v) # (k', v') # m
      else if k = k' then (k, v) # m
      else (k', v') # oput k v m)"

definition osorted :: "('k::linorder, 'v) omap \<Rightarrow> bool" where
  "osorted m \<longleftrightarrow> sorted_wrt (<) (map fst m)"

lemma oget_Nil [simp]: "oget [] k = None"
  by (simp add: oget_def)

lemma oget_oput [simp]: "oget (oput k v m) k' = (if k' = k then Some v else oget m k')"
  by (induction k v m rule: oput.induct) (auto simp: oget_def)

lemma oput_keys: "fst ` set (oput k v m) = insert k (fst ` set m)"
  by (induction k v m rule: oput.induct) auto

lemma osorted_Nil [simp]: "osorted []"
  by (simp add: osorted_def)

lemma osorted_Cons: "osorted ((k, v) # m) \<longleftrightarrow> (\<forall>k' \<in> fst ` set m. k < k') \<and> osorted m"
  by (auto simp: osorted_def)

lemma osorted_oput [simp, intro]: "osorted m \<Longrightarrow> osorted (oput k v m)"
  by (induction k v m rule: oput.induct) (auto simp: osorted_Cons oput_keys)

lemma osorted_distinct: "osorted m \<Longrightarrow> distinct (map fst m)"
  by (simp add: osorted_def strict_sorted_iff)

lemma oget_entries: "osorted m \<Longrightarrow> oget m k = Some v \<longleftrightarrow> (k, v) \<in> set m"
  by (simp add: oget_def osorted_distinct)

interpretation om: ordered_store "[]" oget oput "\<lambda>m. m" osorted
  by unfold_locales (auto simp: oget_entries osorted_def [symmetric])

lemmas omap_laws = om.size_put om.keys_put om.values_put oget_entries

section \<open>Grouping and stable sorting of evidence\<close>

text \<open>
  \<open>grouped[key(x)].push_back(x)\<close> over a vector: each group holds its elements in the order of
  the vector, and the groups come out in key order.
\<close>

definition group_push :: "('a \<Rightarrow> 'k::linorder) \<Rightarrow> ('k, 'a list) omap \<Rightarrow> 'a \<Rightarrow> ('k, 'a list) omap" where
  "group_push key m x =
     oput (key x) ((case oget m (key x) of None \<Rightarrow> [] | Some ys \<Rightarrow> ys) @ [x]) m"

definition group_by :: "('a \<Rightarrow> 'k::linorder) \<Rightarrow> 'a list \<Rightarrow> ('k, 'a list) omap" where
  "group_by key xs = foldl (group_push key) [] xs"

lemma group_by_Nil [simp]: "group_by key [] = []"
  by (simp add: group_by_def)

lemma group_by_snoc: "group_by key (xs @ [x]) = group_push key (group_by key xs) x"
  by (simp add: group_by_def)

lemma osorted_group_by [simp, intro]: "osorted (group_by key xs)"
  by (induction xs rule: rev_induct) (auto simp: group_by_snoc group_push_def)

lemma oget_group_by:
  "oget (group_by key xs) k =
     (if k \<in> key ` set xs then Some (filter (\<lambda>x. key x = k) xs) else None)"
proof (induction xs rule: rev_induct)
  case Nil
  then show ?case by simp
next
  case (snoc x xs)
  have none: "key x \<notin> key ` set xs \<Longrightarrow> filter (\<lambda>y. key y = key x) xs = []"
    by (metis (mono_tags, lifting) filter_False image_eqI)
  show ?case
    using snoc none by (auto simp: group_by_snoc group_push_def)
qed

lemma group_by_member:
  "(k, ys) \<in> set (group_by key xs) \<longleftrightarrow>
     k \<in> key ` set xs \<and> ys = filter (\<lambda>x. key x = k) xs"
  using oget_entries [of "group_by key xs" k ys] by (auto simp: oget_group_by split: if_splits)

lemma group_by_keys: "fst ` set (group_by key xs) = key ` set xs"
proof -
  have "k \<in> fst ` set (group_by key xs) \<longleftrightarrow> k \<in> key ` set xs" for k
  proof -
    have "k \<in> fst ` set (group_by key xs) \<longleftrightarrow> (\<exists>ys. (k, ys) \<in> set (group_by key xs))"
      by (auto intro: rev_image_eqI)
    then show ?thesis by (simp add: group_by_member)
  qed
  then show ?thesis by blast
qed

lemma group_by_perm_keys:
  assumes "mset xs = mset ys"
  shows "map fst (group_by key xs) = map fst (group_by key ys)"
proof -
  have "set (map fst (group_by key xs)) = set (map fst (group_by key ys))"
    using mset_eq_setD [OF assms] by (simp add: group_by_keys)
  moreover have "sorted_wrt (<) (map fst (group_by key xs))"
    "sorted_wrt (<) (map fst (group_by key ys))"
    using osorted_group_by [of key] unfolding osorted_def by blast+
  ultimately show ?thesis
    by (metis strict_sorted_equal)
qed

text \<open>
  \<open>std::stable_sort\<close> by a key is HOL's \<open>sort_key\<close>; where the keys are distinct its result
  depends on the elements only, so an unstable \<open>std::sort\<close> gives the same list.
\<close>

lemma sort_key_perm_unique:
  assumes "mset xs = mset ys" "inj_on f (set xs)"
  shows "sort_key f xs = sort_key f ys"
  using assms by (intro sort_key_inj_key_eq) simp_all

end
