(* ===== verification/Doubles.thy ===== *)
theory Doubles
  imports TrxPrelude
begin

text \<open>
  The C++ \<open>double\<close> as its IEEE 754 binary64 bit pattern (what \<open>std::bit_cast\<close> shows). A
  pattern that is not NaN denotes an integer multiple of \<open>2 ^ (-1074)\<close>, the smallest subnormal,
  so its value is kept exactly as that integer; infinity is the integer one exponent above the
  largest finite double, which orders it correctly. Comparisons, subtraction and the conversions
  from 64-bit integers follow IEEE 754 with rounding to nearest, ties to even.
\<close>

type_synonym double = "64 word"

definition dbl_neg :: "double \<Rightarrow> bool" where
  "dbl_neg d \<longleftrightarrow> 2 ^ 63 \<le> unat d"

definition dbl_bits :: "double \<Rightarrow> nat" where
  "dbl_bits d = unat d mod 2 ^ 63"

definition dbl_inf_bits :: nat where
  "dbl_inf_bits = 2047 * 2 ^ 52"

definition isnan :: "double \<Rightarrow> bool" where
  "isnan d \<longleftrightarrow> dbl_inf_bits < dbl_bits d"

definition isfinite :: "double \<Rightarrow> bool" where
  "isfinite d \<longleftrightarrow> dbl_bits d < dbl_inf_bits"

text \<open>The magnitude of a pattern without its sign, in units of \<open>2 ^ (-1074)\<close>.\<close>

definition mag_of_bits :: "nat \<Rightarrow> nat" where
  "mag_of_bits b =
     (let e = b div 2 ^ 52; m = b mod 2 ^ 52
      in if e = 0 then m else (2 ^ 52 + m) * 2 ^ (e - 1))"

definition dval :: "double \<Rightarrow> int" where
  "dval d = (if dbl_neg d then - int (mag_of_bits (dbl_bits d)) else int (mag_of_bits (dbl_bits d)))"

definition dbl_le :: "double \<Rightarrow> double \<Rightarrow> bool" where
  "dbl_le a b \<longleftrightarrow> \<not> isnan a \<and> \<not> isnan b \<and> dval a \<le> dval b"

definition dbl_lt :: "double \<Rightarrow> double \<Rightarrow> bool" where
  "dbl_lt a b \<longleftrightarrow> \<not> isnan a \<and> \<not> isnan b \<and> dval a < dval b"

definition dbl_eq :: "double \<Rightarrow> double \<Rightarrow> bool" where
  "dbl_eq a b \<longleftrightarrow> \<not> isnan a \<and> \<not> isnan b \<and> dval a = dval b"

definition dbl_zero :: double where
  "dbl_zero = 0"

text \<open>\<open>std::min\<close> and \<open>std::max\<close> on doubles: the first argument unless the second is better.\<close>

definition dbl_min :: "double \<Rightarrow> double \<Rightarrow> double" where
  "dbl_min a b = (if dbl_lt b a then b else a)"

definition dbl_max :: "double \<Rightarrow> double \<Rightarrow> double" where
  "dbl_max a b = (if dbl_lt a b then b else a)"

section \<open>Rounding\<close>

text \<open>
  The number of low bits that a 53-bit significand cannot hold, and the bit pattern of the nearest
  double (ties to even). The pattern of a magnitude \<open>q * 2 ^ k\<close> with a 53-bit \<open>q\<close> is
  \<open>k * 2 ^ 52 + q\<close>; a carry out of the significand increments the exponent field by itself, and
  everything beyond the largest finite pattern is infinity.
\<close>

fun bit_length :: "nat \<Rightarrow> nat" where
  "bit_length n = (if n = 0 then 0 else Suc (bit_length (n div 2)))"

declare bit_length.simps [simp del]

definition round_mag :: "nat \<Rightarrow> nat" where
  "round_mag x =
     (let k = bit_length x - 53;
          q = x div 2 ^ k;
          r = x mod 2 ^ k;
          q' = (if 2 * r > 2 ^ k \<or> 2 * r = 2 ^ k \<and> odd q then q + 1 else q)
      in min (k * 2 ^ 52 + q') dbl_inf_bits)"

definition make_double :: "bool \<Rightarrow> nat \<Rightarrow> double" where
  "make_double neg b = word_of_nat ((if neg then 2 ^ 63 else 0) + b)"

text \<open>The sign of a zero result is \<open>zneg\<close>.\<close>

definition round_int :: "bool \<Rightarrow> int \<Rightarrow> double" where
  "round_int zneg x =
     (if x = 0 then make_double zneg 0
      else make_double (x < 0) (round_mag (nat \<bar>x\<bar>)))"

text \<open>\<open>static_cast<double>\<close> of an integer.\<close>

definition dbl_of_int :: "int \<Rightarrow> double" where
  "dbl_of_int i = round_int False (i * 2 ^ 1074)"

definition dbl_nan :: double where
  "dbl_nan = 0x7ff8000000000000"

definition dbl_sub :: "double \<Rightarrow> double \<Rightarrow> double" where
  "dbl_sub a b =
     (if isnan a \<or> isnan b then dbl_nan
      else if \<not> isfinite a then
        (if \<not> isfinite b \<and> dbl_neg a = dbl_neg b then dbl_nan else a)
      else if \<not> isfinite b then make_double (\<not> dbl_neg b) dbl_inf_bits
      else round_int (dbl_neg a \<and> \<not> dbl_neg b) (dval a - dval b))"

section \<open>Order\<close>

definition mag_of_fields :: "nat \<Rightarrow> nat \<Rightarrow> nat" where
  "mag_of_fields e m = (if e = 0 then m else (2 ^ 52 + m) * 2 ^ (e - 1))"

lemma mag_of_bits_fields: "mag_of_bits b = mag_of_fields (b div 2 ^ 52) (b mod 2 ^ 52)"
  by (simp add: mag_of_bits_def mag_of_fields_def Let_def)

lemma mag_of_fields_lower: "0 < e \<Longrightarrow> 2 ^ (51 + e) \<le> mag_of_fields e m"
  by (cases e) (simp_all add: mag_of_fields_def power_add)

lemma mag_of_fields_upper: "m < 2 ^ 52 \<Longrightarrow> mag_of_fields e m < 2 ^ (52 + e)"
proof (cases e)
  case (Suc f)
  assume "m < 2 ^ 52"
  then have "(2 ^ 52 + m) * 2 ^ f < 2 ^ 53 * (2 ^ f :: nat)"
    by (intro mult_strict_right_mono) simp_all
  then show ?thesis by (simp add: Suc mag_of_fields_def power_add)
qed (simp add: mag_of_fields_def)

lemma mag_of_fields_less:
  assumes "e < e' \<or> e = e' \<and> m < m'" "m < 2 ^ 52"
  shows "mag_of_fields e m < mag_of_fields e' m'"
proof (cases "e < e'")
  case True
  have "mag_of_fields e m < 2 ^ (52 + e)" using assms(2) by (rule mag_of_fields_upper)
  also have "\<dots> \<le> (2 :: nat) ^ (51 + e')" using True by (intro power_increasing) simp_all
  also have "\<dots> \<le> mag_of_fields e' m'" using True by (intro mag_of_fields_lower) simp
  finally show ?thesis .
next
  case False
  then show ?thesis using assms(1) by (auto simp: mag_of_fields_def)
qed

lemma div_mod_less:
  fixes b c k :: nat
  assumes "b < c" "0 < k"
  shows "b div k < c div k \<or> b div k = c div k \<and> b mod k < c mod k"
proof (cases "b div k = c div k")
  case True
  then show ?thesis
    using assms div_mult_mod_eq [of b k] div_mult_mod_eq [of c k] by (metis nat_add_left_cancel_less)
next
  case False
  then show ?thesis using assms div_le_mono [of b c k] by simp
qed

lemma mag_of_bits_strict_mono: "b < c \<Longrightarrow> mag_of_bits b < mag_of_bits c"
  unfolding mag_of_bits_fields by (intro mag_of_fields_less div_mod_less) simp_all

lemma mag_of_bits_less_iff [simp]: "mag_of_bits b < mag_of_bits c \<longleftrightarrow> b < c"
  by (metis mag_of_bits_strict_mono not_less_iff_gr_or_eq)

lemma mag_of_bits_le_iff [simp]: "mag_of_bits b \<le> mag_of_bits c \<longleftrightarrow> b \<le> c"
  by (meson mag_of_bits_less_iff not_less)

lemma mag_of_bits_eq_iff [simp]: "mag_of_bits b = mag_of_bits c \<longleftrightarrow> b = c"
  by (metis mag_of_bits_less_iff nat_neq_iff)

lemma mag_of_bits_0 [simp]: "mag_of_bits 0 = 0"
  by (simp add: mag_of_bits_def)

text \<open>
  The well-known sign-magnitude trick: on patterns that are not NaN the IEEE order is the order of
  the sign-adjusted patterns. Evaluation uses this form, which needs no large powers.
\<close>

definition dkey :: "double \<Rightarrow> int" where
  "dkey d = (if dbl_neg d then - int (dbl_bits d) else int (dbl_bits d))"

lemma mag_of_bits_eq_0 [simp]: "mag_of_bits b = 0 \<longleftrightarrow> b = 0"
  using mag_of_bits_eq_iff [of b 0] by simp

lemma dval_less_iff: "dval a < dval b \<longleftrightarrow> dkey a < dkey b"
proof -
  have signs: "- int x < int y \<longleftrightarrow> x \<noteq> 0 \<or> y \<noteq> 0" "\<not> int x < - int y" for x y
    by arith+
  show ?thesis
    by (cases "dbl_neg a"; cases "dbl_neg b") (simp_all add: dval_def dkey_def signs)
qed

lemma dval_le_iff: "dval a \<le> dval b \<longleftrightarrow> dkey a \<le> dkey b"
  using dval_less_iff by (meson not_less)

lemma dval_eq_iff: "dval a = dval b \<longleftrightarrow> dkey a = dkey b"
  by (metis dval_less_iff less_irrefl linorder_cases)

lemma dbl_le_code [code]: "dbl_le a b \<longleftrightarrow> \<not> isnan a \<and> \<not> isnan b \<and> dkey a \<le> dkey b"
  by (simp add: dbl_le_def dval_le_iff)

lemma dbl_lt_code [code]: "dbl_lt a b \<longleftrightarrow> \<not> isnan a \<and> \<not> isnan b \<and> dkey a < dkey b"
  by (simp add: dbl_lt_def dval_less_iff)

lemma dbl_eq_code [code]: "dbl_eq a b \<longleftrightarrow> \<not> isnan a \<and> \<not> isnan b \<and> dkey a = dkey b"
  by (simp add: dbl_eq_def dval_eq_iff)

lemmas dbl_eval = dbl_le_code dbl_lt_code dbl_eq_code dkey_def isnan_def isfinite_def dbl_bits_def
  dbl_neg_def dbl_inf_bits_def

lemma isfinite_not_nan [simp]: "isfinite d \<Longrightarrow> \<not> isnan d"
  by (simp add: isfinite_def isnan_def)

lemma dbl_le_refl: "\<not> isnan a \<Longrightarrow> dbl_le a a"
  by (simp add: dbl_le_def)

lemma dbl_le_trans: "dbl_le a b \<Longrightarrow> dbl_le b c \<Longrightarrow> dbl_le a c"
  by (auto simp: dbl_le_def)

lemma dbl_not_le: "\<not> isnan a \<Longrightarrow> \<not> isnan b \<Longrightarrow> \<not> dbl_le a b \<longleftrightarrow> dbl_lt b a"
  by (auto simp: dbl_le_def dbl_lt_def)

section \<open>Rounding is exact on doubles and monotone\<close>

lemma bit_length_0 [simp]: "bit_length 0 = 0"
  by (simp add: bit_length.simps)

lemma bit_length_upper: "n < 2 ^ bit_length n"
proof (induction n rule: bit_length.induct)
  case (1 n)
  then show ?case by (cases "n = 0") (auto simp: bit_length.simps [of n])
qed

lemma bit_length_lower: "0 < n \<Longrightarrow> 2 ^ (bit_length n - 1) \<le> n"
proof (induction n rule: bit_length.induct)
  case (1 n)
  show ?case
  proof (cases "n div 2 = 0")
    case True
    with 1 show ?thesis by (simp add: bit_length.simps [of n])
  next
    case False
    then have ih: "2 ^ (bit_length (n div 2) - 1) \<le> n div 2" using 1 by simp
    have "bit_length (n div 2) = Suc (bit_length (n div 2) - 1)"
      using False by (simp add: bit_length.simps [of "n div 2"])
    then have "(2 :: nat) ^ bit_length (n div 2) = 2 * 2 ^ (bit_length (n div 2) - 1)"
      by (metis power_Suc)
    also have "\<dots> \<le> n" using ih by linarith
    finally show ?thesis using 1 by (simp add: bit_length.simps [of n])
  qed
qed

lemma bit_length_unique: "2 ^ p \<le> n \<Longrightarrow> n < 2 ^ Suc p \<Longrightarrow> bit_length n = Suc p"
proof -
  assume n: "2 ^ p \<le> n" "n < 2 ^ Suc p"
  then have n0: "0 < n" by (metis gr0I leD power_eq_0_iff zero_less_numeral zero_less_power)
  have "2 ^ p < (2 :: nat) ^ bit_length n" using n(1) bit_length_upper [of n] by linarith
  moreover have "2 ^ (bit_length n - 1) < (2 :: nat) ^ Suc p"
    using n(2) bit_length_lower [OF n0] by linarith
  ultimately show ?thesis
    by (simp add: power_strict_increasing_iff del: power_Suc)
qed

lemma bit_length_le: "n < 2 ^ p \<Longrightarrow> bit_length n \<le> p"
proof (cases "n = 0")
  case False
  assume "n < 2 ^ p"
  then have "2 ^ (bit_length n - 1) < (2 :: nat) ^ p" using bit_length_lower [of n] False by linarith
  then show ?thesis by (simp add: power_strict_increasing_iff)
qed simp

lemma bit_length_mono: "m \<le> n \<Longrightarrow> bit_length m \<le> bit_length n"
proof (cases "m = 0")
  case False
  assume "m \<le> n"
  then have "2 ^ (bit_length m - 1) < (2 :: nat) ^ bit_length n"
    using False bit_length_lower [of m] bit_length_upper [of n] by linarith
  then show ?thesis by (simp add: power_strict_increasing_iff)
qed simp

definition round_quot :: "nat \<Rightarrow> nat \<Rightarrow> nat" where
  "round_quot k x =
     (let q = x div 2 ^ k; r = x mod 2 ^ k
      in if 2 * r > 2 ^ k \<or> 2 * r = 2 ^ k \<and> odd q then q + 1 else q)"

lemma round_mag_quot:
  "round_mag x = min ((bit_length x - 53) * 2 ^ 52 + round_quot (bit_length x - 53) x) dbl_inf_bits"
  by (simp add: round_mag_def round_quot_def Let_def)

lemma round_quot_mono: "x \<le> y \<Longrightarrow> round_quot k x \<le> round_quot k y"
proof -
  assume "x \<le> y"
  then consider "x div 2 ^ k < y div 2 ^ k" | "x div 2 ^ k = y div 2 ^ k" "x mod 2 ^ k \<le> y mod 2 ^ k"
    using div_mod_less [of x y "2 ^ k"] by (cases "x = y") auto
  then show ?thesis
    by cases (auto simp: round_quot_def Let_def)
qed

lemma round_quot_bounds: "x div 2 ^ k \<le> round_quot k x" "round_quot k x \<le> Suc (x div 2 ^ k)"
  by (auto simp: round_quot_def Let_def)

lemma scaled_step:
  fixes k l P a b :: nat
  assumes "k < l" "a \<le> 2 * P" "P \<le> b"
  shows "k * P + a \<le> l * P + b"
proof -
  have "Suc k * P \<le> l * P" using assms(1) by (intro mult_le_mono1) simp
  then show ?thesis using assms(2,3) by simp
qed

lemma round_quot_upper: "round_quot (bit_length x - 53) x \<le> 2 * 2 ^ 52"
proof -
  let ?k = "bit_length x - 53"
  have "x < 2 ^ bit_length x" by (rule bit_length_upper)
  also have "\<dots> \<le> 2 ^ (53 + ?k)" by (intro power_increasing) simp_all
  finally have "x < 2 ^ 53 * 2 ^ ?k" by (simp only: power_add)
  then have "x div 2 ^ ?k < 2 ^ 53" by (rule less_mult_imp_div_less)
  then show ?thesis using round_quot_bounds(2) [of ?k x] by simp
qed

lemma round_quot_lower:
  assumes "53 < bit_length y"
  shows "2 ^ 52 \<le> round_quot (bit_length y - 53) y"
proof -
  let ?l = "bit_length y - 53"
  have "y \<noteq> 0" using assms by (intro notI) simp
  then have "2 ^ (bit_length y - 1) \<le> y" by (intro bit_length_lower) simp
  moreover have "bit_length y - 1 = 52 + ?l" using assms by simp
  ultimately have "2 ^ 52 * 2 ^ ?l \<le> y" by (simp only: power_add)
  then have "2 ^ 52 \<le> y div 2 ^ ?l" by (simp only: less_eq_div_iff_mult_less_eq zero_less_numeral zero_less_power)
  then show ?thesis using round_quot_bounds(1) [of y ?l] by (rule order_trans)
qed

lemma round_mag_mono: "x \<le> y \<Longrightarrow> round_mag x \<le> round_mag y"
proof -
  assume xy: "x \<le> y"
  let ?k = "bit_length x - 53" and ?l = "bit_length y - 53"
  have kl: "?k \<le> ?l" using bit_length_mono [OF xy] by (rule diff_le_mono)
  have "?k * 2 ^ 52 + round_quot ?k x \<le> ?l * 2 ^ 52 + round_quot ?l y"
  proof (cases "?k = ?l")
    case True
    then show ?thesis using round_quot_mono [OF xy, of ?l] by (simp only: add_le_cancel_left)
  next
    case False
    with kl have lt: "?k < ?l" by (simp only: less_le simp_thms)
    then have "53 < bit_length y" by arith
    with lt show ?thesis by (intro scaled_step round_quot_upper round_quot_lower)
  qed
  then show ?thesis unfolding round_mag_quot by (rule min.mono) (rule order_refl)
qed

lemma round_mag_le_inf: "round_mag x \<le> dbl_inf_bits"
  by (simp add: round_mag_quot)

lemma round_quot_exact: "round_quot k (q * 2 ^ k) = q"
  by (simp add: round_quot_def)

lemma round_mag_fields:
  assumes "m < 2 ^ 52" "e * 2 ^ 52 + m \<le> dbl_inf_bits"
  shows "round_mag (mag_of_fields e m) = e * 2 ^ 52 + m"
proof (cases e)
  case 0
  have "bit_length m \<le> 52" using assms(1) by (rule bit_length_le)
  then show ?thesis
    using assms(2) round_quot_exact [of 0 m] by (simp add: 0 mag_of_fields_def round_mag_quot)
next
  case (Suc f)
  let ?q = "2 ^ 52 + m"
  have "bit_length (?q * 2 ^ f) = Suc (52 + f)"
  proof (rule bit_length_unique)
    show "2 ^ (52 + f) \<le> ?q * 2 ^ f" by (simp add: power_add)
    have "?q * 2 ^ f < 2 ^ 53 * (2 ^ f :: nat)"
      using assms(1) by (intro mult_strict_right_mono) simp_all
    then show "?q * 2 ^ f < 2 ^ Suc (52 + f)" by (simp add: power_add)
  qed
  then show ?thesis
    using assms(2) round_quot_exact [of f ?q] by (simp add: Suc mag_of_fields_def round_mag_quot)
qed

lemma round_mag_exact: "b \<le> dbl_inf_bits \<Longrightarrow> round_mag (mag_of_bits b) = b"
  using round_mag_fields [of "b mod 2 ^ 52" "b div 2 ^ 52"]
  by (simp add: mag_of_bits_fields div_mult_mod_eq)

lemma unat_make_double:
  "b \<le> dbl_inf_bits \<Longrightarrow> unat (make_double neg b) = (if neg then 2 ^ 63 else 0) + b"
  unfolding make_double_def unat_of_nat by (cases neg) (simp_all add: dbl_inf_bits_def)

lemma make_double_parts:
  assumes "b \<le> dbl_inf_bits"
  shows "dbl_neg (make_double neg b) = neg" "dbl_bits (make_double neg b) = b"
    "\<not> isnan (make_double neg b)"
proof -
  have b: "b < 2 ^ 63" using assms by (simp add: dbl_inf_bits_def)
  show "dbl_neg (make_double neg b) = neg"
    using b by (simp add: dbl_neg_def unat_make_double [OF assms])
  show bits: "dbl_bits (make_double neg b) = b"
    using b by (simp add: dbl_bits_def unat_make_double [OF assms])
  show "\<not> isnan (make_double neg b)" using assms by (simp add: isnan_def bits)
qed

lemma round_mag_0 [simp]: "round_mag 0 = 0"
  using round_mag_exact [of 0] by simp

lemma dkey_round_int:
  "dkey (round_int z x) = (if x < 0 then - int (round_mag (nat \<bar>x\<bar>)) else int (round_mag (nat \<bar>x\<bar>)))"
  using round_mag_le_inf
  by (auto simp: round_int_def dkey_def make_double_parts dbl_inf_bits_def)

lemma round_int_not_nan [simp]: "\<not> isnan (round_int z x)"
  using round_mag_le_inf by (auto simp: round_int_def make_double_parts dbl_inf_bits_def)

lemma dkey_round_int_mono: "x \<le> y \<Longrightarrow> dkey (round_int z x) \<le> dkey (round_int z' y)"
proof -
  assume xy: "x \<le> y"
  consider "0 \<le> x" | "x < 0" "0 \<le> y" | "y < 0" by linarith
  then show ?thesis
  proof cases
    case 1
    then show ?thesis using xy by (simp add: dkey_round_int round_mag_mono)
  next
    case 2
    then show ?thesis by (simp add: dkey_round_int)
  next
    case 3
    then show ?thesis using xy by (simp add: dkey_round_int round_mag_mono)
  qed
qed

lemma dkey_round_dval: "\<not> isnan d \<Longrightarrow> dkey (round_int z (dval d)) = dkey d"
proof -
  assume "\<not> isnan d"
  then have "round_mag (mag_of_bits (dbl_bits d)) = dbl_bits d"
    by (intro round_mag_exact) (simp add: isnan_def)
  then show ?thesis
    by (cases "dbl_neg d") (simp_all add: dkey_round_int dval_def dkey_def [of d])
qed

text \<open>Conversion from integers is monotone: comparing converted counts never inverts an order.\<close>

lemma dbl_of_int_not_nan [simp]: "\<not> isnan (dbl_of_int i)"
  by (simp add: dbl_of_int_def)

lemma dbl_of_int_mono: "i \<le> j \<Longrightarrow> dbl_le (dbl_of_int i) (dbl_of_int j)"
  by (simp add: dbl_le_code dbl_of_int_def dkey_round_int_mono)

lemma dkey_inject: "dkey a = dkey b \<Longrightarrow> dkey b \<noteq> 0 \<Longrightarrow> a = b"
proof -
  assume eq: "dkey a = dkey b" and nz: "dkey b \<noteq> 0"
  have "unat d = (if dbl_neg d then 2 ^ 63 else 0) + dbl_bits d" for d :: double
  proof -
    have lt: "unat d < 2 ^ LENGTH(64)" by (rule unsigned_less)
    have "unat d = unat d div 2 ^ 63 * 2 ^ 63 + dbl_bits d"
      unfolding dbl_bits_def by (rule div_mult_mod_eq [symmetric])
    moreover have "unat d div 2 ^ 63 = (if dbl_neg d then 1 else 0)"
      using lt by (auto simp: dbl_neg_def div_nat_eqI)
    ultimately show ?thesis by simp
  qed
  moreover have "dbl_neg a = dbl_neg b" "dbl_bits a = dbl_bits b"
    using eq nz by (auto simp: dkey_def split: if_splits)
  ultimately show "a = b" by (metis word_unat_eq_iff)
qed

text \<open>Recognising the double of an integer constant.\<close>

lemma dbl_of_intI:
  assumes "dval d = i * 2 ^ 1074" "\<not> isnan d" "i \<noteq> 0"
  shows "dbl_of_int i = d"
proof -
  have "dval d \<noteq> 0" using assms(1,3) by simp
  then have "dkey d \<noteq> 0"
    by (cases "dbl_neg d") (simp_all add: dval_def dkey_def)
  moreover have "dkey (dbl_of_int i) = dkey d"
    unfolding dbl_of_int_def assms(1) [symmetric] by (rule dkey_round_dval [OF assms(2)])
  ultimately show ?thesis by (rule dkey_inject [rotated])
qed

lemma dbl_of_int_0 [simp]: "dbl_of_int 0 = 0"
  by (simp add: dbl_of_int_def round_int_def make_double_def)

lemmas dval_eval = dval_def mag_of_bits_def dbl_neg_def dbl_bits_def isnan_def dbl_inf_bits_def

lemma dbl_of_int_consts:
  "dbl_of_int (-40) = 0xC044000000000000" "dbl_of_int 150 = 0x4062C00000000000"
  "dbl_of_int 5 = 0x4014000000000000" "dbl_of_int 20 = 0x4034000000000000"
  "dbl_of_int 500 = 0x407F400000000000" "dbl_of_int 10000000 = 0x416312D000000000"
  by (rule dbl_of_intI; simp add: dval_eval)+

text \<open>The same tests over \<open>int\<close>, for evaluation.\<close>

lemma dbl_bits_code: "int (dbl_bits d) = uint d mod 2 ^ 63"
  by (simp add: dbl_bits_def zmod_int)

lemma isnan_code [code]: "isnan d \<longleftrightarrow> 0x7ff0000000000000 < uint d mod 2 ^ 63"
  unfolding isnan_def dbl_inf_bits_def dbl_bits_code [symmetric] by simp

lemma isfinite_code [code]: "isfinite d \<longleftrightarrow> uint d mod 2 ^ 63 < 0x7ff0000000000000"
  unfolding isfinite_def dbl_inf_bits_def dbl_bits_code [symmetric] by simp

lemma dbl_neg_code [code]: "dbl_neg d \<longleftrightarrow> 2 ^ 63 \<le> uint d"
proof -
  have "dbl_neg d \<longleftrightarrow> int (2 ^ 63) \<le> int (unat d)" unfolding dbl_neg_def by (rule of_nat_le_iff [symmetric])
  also have "\<dots> \<longleftrightarrow> 2 ^ 63 \<le> uint d" by (simp only: uint_nat of_nat_power of_nat_numeral)
  finally show ?thesis .
qed

lemma dkey_code [code]:
  "dkey d = (if dbl_neg d then - (uint d mod 2 ^ 63) else uint d mod 2 ^ 63)"
  unfolding dkey_def dbl_bits_code ..

text \<open>Subtraction rounds, and rounding never crosses a double: the test \<open>a - b > t\<close> of the code is
  false whenever the exact difference is at most \<open>t\<close>.\<close>

lemma dbl_sub_finite: "isfinite a \<Longrightarrow> isfinite b \<Longrightarrow>
    dbl_sub a b = round_int (dbl_neg a \<and> \<not> dbl_neg b) (dval a - dval b)"
  by (simp add: dbl_sub_def)

lemma dbl_sub_le:
  assumes "isfinite a" "isfinite b" "\<not> isnan t" "dval a - dval b \<le> dval t"
  shows "dbl_le (dbl_sub a b) t"
  using assms dkey_round_int_mono [OF assms(4)] dkey_round_dval [of t]
  by (simp add: dbl_le_code dbl_sub_finite)

lemma dbl_sub_ge:
  assumes "isfinite a" "isfinite b" "\<not> isnan t" "dval t \<le> dval a - dval b"
  shows "dbl_le t (dbl_sub a b)"
  using assms dkey_round_int_mono [OF assms(4)] dkey_round_dval [of t]
  by (simp add: dbl_le_code dbl_sub_finite)

lemma dbl_sub_self_le:
  assumes "isfinite a" "\<not> isnan t" "dbl_le dbl_zero t"
  shows "\<not> dbl_lt t (dbl_sub a a)"
proof -
  have "dval a - dval a \<le> dval t"
    using assms(3) by (simp add: dbl_le_def dval_def dbl_zero_def dbl_neg_def dbl_bits_def)
  then have "dbl_le (dbl_sub a a) t" using assms by (intro dbl_sub_le)
  then show ?thesis by (auto simp: dbl_le_def dbl_lt_def)
qed

end
