(* ===== verification/Taxonomy.thy ===== *)
theory Taxonomy
  imports Doubles
begin

text \<open>
  The vendor-neutral vocabulary (\<open>include/trxreg/taxonomy.hpp\<close>, \<open>src/taxonomy.cpp\<close>): every
  enumeration as a datatype with its enumerators in order, the numeric code \<open>static_cast\<close> gives
  them, the name tables with rendering and case-insensitive parsing, and the fixed properties of
  capability keys, metrics, speeds and metric states. C++ admits out-of-range values of an
  enumeration; every decoder of the source range-checks before it casts, so the datatypes hold the
  enumerators only. The lemmas show that rendering and parsing are inverse on every vocabulary.
\<close>

section \<open>Enumerations\<close>

datatype ModuleFamily =
    MF_Unknown | MF_OpticalTransceiver | MF_ActiveOpticalCable | MF_DirectAttachCopper
  | MF_PassiveCopperCable | MF_ElectricalTransceiver | MF_LoopbackModule | MF_BackplaneAssembly
  | MF_Unsupported

datatype MediaClass =
    MC_Unknown | MC_MultimodeFiber | MC_SingleModeFiber | MC_TwinaxialCopper
  | MC_ShieldedTwistedPair | MC_BackplaneCopper | MC_Unsupported

datatype ConnectorClass =
    CC_Unknown | CC_Lc | CC_Sc | CC_Mpo12 | CC_Mpo16 | CC_Cs | CC_Sn | CC_Mdc | CC_Rj45
  | CC_Twinax | CC_Backplane | CC_Unsupported

datatype SpeedClass =
    SC_Unknown | SC_Mb100 | SC_Gb1 | SC_Gb10 | SC_Gb25 | SC_Gb40 | SC_Gb50 | SC_Gb100
  | SC_Gb200 | SC_Gb400 | SC_Gb800 | SC_Gb1600 | SC_Unsupported

datatype EncodingClass =
    EC_Unknown | EC_Nrz | EC_Pam4 | EC_Unsupported

datatype FecClass =
    FC_Unknown | FC_None | FC_Firecode | FC_RsFec528 | FC_RsFec544 | FC_BaseR | FC_Unsupported

datatype ReachClass =
    RC_Unknown | RC_VeryShortReach | RC_ShortReach | RC_IntermediateReach | RC_LongReach
  | RC_ExtendedReach | RC_Unsupported

datatype PowerClass =
    PC_Unknown | PC_Class1 | PC_Class2 | PC_Class3 | PC_Class4 | PC_Class5 | PC_Class6
  | PC_Class7 | PC_Class8 | PC_Unsupported

datatype WavelengthGrid =
    WG_Unknown | WG_None | WG_Cwdm4 | WG_LanWdm | WG_Dwdm | WG_Swdm | WG_Unsupported

datatype HealthMetric =
    HM_Unknown | HM_TemperatureCelsius | HM_SupplyVoltageVolts | HM_TxPowerDbm | HM_RxPowerDbm
  | HM_TxBiasCurrentMilliamps | HM_LaneSkewPicoseconds | HM_Unsupported

datatype IdentityField =
    IF_Unknown | IF_Vendor | IF_PartNumber | IF_SerialNumber | IF_Revision | IF_VendorOui
  | IF_DateCode | IF_FirmwareVersion | IF_FirmwareBuild | IF_EepromContentDigest
  | IF_VendorSpecific

datatype CapabilityKey =
    CK_Unknown | CK_ModuleFamily | CK_MediaClass | CK_ConnectorClass | CK_LaneCount
  | CK_SpeedClasses | CK_Encodings | CK_FecModes | CK_Wavelengths | CK_WavelengthGrid
  | CK_WavelengthTunable | CK_ReachClass | CK_PowerClass | CK_MaxPowerMilliWatts
  | CK_OperatingTemperatureMinCelsius | CK_OperatingTemperatureMaxCelsius
  | CK_TemperatureTelemetry | CK_VoltageTelemetry | CK_TxPowerTelemetry | CK_RxPowerTelemetry
  | CK_BiasCurrentTelemetry | CK_LaneSkewTelemetry | CK_DigitalDiagnosticMonitoring
  | CK_VendorSpecific | CK_Unsupported

datatype CapabilityValueKind =
    CVK_None | CVK_Boolean | CVK_Count | CVK_Real | CVK_Enum | CVK_EnumSet | CVK_Text
  | CVK_TextSet | CVK_Spectrum

datatype RequirementSubject =
    RSub_Module | RSub_Port

datatype RequirementOp =
    RO_Unknown | RO_Equals | RO_NotEquals | RO_In | RO_NotIn | RO_SupersetOf | RO_SubsetOf
  | RO_Overlaps | RO_DisjointFrom | RO_AtMost | RO_AtLeast

datatype CompatVerdict =
    CV_Unknown | CV_Compatible | CV_Incompatible | CV_Unsupported

datatype ConsensusOutcome =
    CO_Unknown | CO_SingleSource | CO_Agreed | CO_Conflicting | CO_Superseded

datatype MetricState =
    MS_Unknown | MS_Ok | MS_Degraded | MS_Critical | MS_Stale | MS_Conflicting
  | MS_Unclassified | MS_Fenced

datatype HealthOutcome =
    HO_Unknown | HO_Fresh | HO_Partial | HO_Stale | HO_Conflicting | HO_Fenced

datatype SamplePresence =
    SP_Present | SP_NotAvailable | SP_ReadError | SP_NotSupported

datatype EvidenceKind =
    EK_Real | EK_Synthetic | EK_Unsupported

datatype LifecycleState =
    LS_Discovered | LS_Registered | LS_Attached | LS_Active | LS_Degraded | LS_Quarantined
  | LS_Removed | LS_Retired | LS_Replaced

datatype MutationPolicy =
    MP_RequireGeneration | MP_AutoRetry

section \<open>Numeric codes\<close>

text \<open>\<open>static_cast<std::uint8_t>(value)\<close>, the position of the enumerator.\<close>

fun ModuleFamily_code :: "ModuleFamily \<Rightarrow> nat" where
  "ModuleFamily_code MF_Unknown = 0"
| "ModuleFamily_code MF_OpticalTransceiver = 1"
| "ModuleFamily_code MF_ActiveOpticalCable = 2"
| "ModuleFamily_code MF_DirectAttachCopper = 3"
| "ModuleFamily_code MF_PassiveCopperCable = 4"
| "ModuleFamily_code MF_ElectricalTransceiver = 5"
| "ModuleFamily_code MF_LoopbackModule = 6"
| "ModuleFamily_code MF_BackplaneAssembly = 7"
| "ModuleFamily_code MF_Unsupported = 8"

fun MediaClass_code :: "MediaClass \<Rightarrow> nat" where
  "MediaClass_code MC_Unknown = 0"
| "MediaClass_code MC_MultimodeFiber = 1"
| "MediaClass_code MC_SingleModeFiber = 2"
| "MediaClass_code MC_TwinaxialCopper = 3"
| "MediaClass_code MC_ShieldedTwistedPair = 4"
| "MediaClass_code MC_BackplaneCopper = 5"
| "MediaClass_code MC_Unsupported = 6"

fun ConnectorClass_code :: "ConnectorClass \<Rightarrow> nat" where
  "ConnectorClass_code CC_Unknown = 0"
| "ConnectorClass_code CC_Lc = 1"
| "ConnectorClass_code CC_Sc = 2"
| "ConnectorClass_code CC_Mpo12 = 3"
| "ConnectorClass_code CC_Mpo16 = 4"
| "ConnectorClass_code CC_Cs = 5"
| "ConnectorClass_code CC_Sn = 6"
| "ConnectorClass_code CC_Mdc = 7"
| "ConnectorClass_code CC_Rj45 = 8"
| "ConnectorClass_code CC_Twinax = 9"
| "ConnectorClass_code CC_Backplane = 10"
| "ConnectorClass_code CC_Unsupported = 11"

fun SpeedClass_code :: "SpeedClass \<Rightarrow> nat" where
  "SpeedClass_code SC_Unknown = 0"
| "SpeedClass_code SC_Mb100 = 1"
| "SpeedClass_code SC_Gb1 = 2"
| "SpeedClass_code SC_Gb10 = 3"
| "SpeedClass_code SC_Gb25 = 4"
| "SpeedClass_code SC_Gb40 = 5"
| "SpeedClass_code SC_Gb50 = 6"
| "SpeedClass_code SC_Gb100 = 7"
| "SpeedClass_code SC_Gb200 = 8"
| "SpeedClass_code SC_Gb400 = 9"
| "SpeedClass_code SC_Gb800 = 10"
| "SpeedClass_code SC_Gb1600 = 11"
| "SpeedClass_code SC_Unsupported = 12"

fun EncodingClass_code :: "EncodingClass \<Rightarrow> nat" where
  "EncodingClass_code EC_Unknown = 0"
| "EncodingClass_code EC_Nrz = 1"
| "EncodingClass_code EC_Pam4 = 2"
| "EncodingClass_code EC_Unsupported = 3"

fun FecClass_code :: "FecClass \<Rightarrow> nat" where
  "FecClass_code FC_Unknown = 0"
| "FecClass_code FC_None = 1"
| "FecClass_code FC_Firecode = 2"
| "FecClass_code FC_RsFec528 = 3"
| "FecClass_code FC_RsFec544 = 4"
| "FecClass_code FC_BaseR = 5"
| "FecClass_code FC_Unsupported = 6"

fun ReachClass_code :: "ReachClass \<Rightarrow> nat" where
  "ReachClass_code RC_Unknown = 0"
| "ReachClass_code RC_VeryShortReach = 1"
| "ReachClass_code RC_ShortReach = 2"
| "ReachClass_code RC_IntermediateReach = 3"
| "ReachClass_code RC_LongReach = 4"
| "ReachClass_code RC_ExtendedReach = 5"
| "ReachClass_code RC_Unsupported = 6"

fun PowerClass_code :: "PowerClass \<Rightarrow> nat" where
  "PowerClass_code PC_Unknown = 0"
| "PowerClass_code PC_Class1 = 1"
| "PowerClass_code PC_Class2 = 2"
| "PowerClass_code PC_Class3 = 3"
| "PowerClass_code PC_Class4 = 4"
| "PowerClass_code PC_Class5 = 5"
| "PowerClass_code PC_Class6 = 6"
| "PowerClass_code PC_Class7 = 7"
| "PowerClass_code PC_Class8 = 8"
| "PowerClass_code PC_Unsupported = 9"

fun WavelengthGrid_code :: "WavelengthGrid \<Rightarrow> nat" where
  "WavelengthGrid_code WG_Unknown = 0"
| "WavelengthGrid_code WG_None = 1"
| "WavelengthGrid_code WG_Cwdm4 = 2"
| "WavelengthGrid_code WG_LanWdm = 3"
| "WavelengthGrid_code WG_Dwdm = 4"
| "WavelengthGrid_code WG_Swdm = 5"
| "WavelengthGrid_code WG_Unsupported = 6"

fun HealthMetric_code :: "HealthMetric \<Rightarrow> nat" where
  "HealthMetric_code HM_Unknown = 0"
| "HealthMetric_code HM_TemperatureCelsius = 1"
| "HealthMetric_code HM_SupplyVoltageVolts = 2"
| "HealthMetric_code HM_TxPowerDbm = 3"
| "HealthMetric_code HM_RxPowerDbm = 4"
| "HealthMetric_code HM_TxBiasCurrentMilliamps = 5"
| "HealthMetric_code HM_LaneSkewPicoseconds = 6"
| "HealthMetric_code HM_Unsupported = 7"

fun IdentityField_code :: "IdentityField \<Rightarrow> nat" where
  "IdentityField_code IF_Unknown = 0"
| "IdentityField_code IF_Vendor = 1"
| "IdentityField_code IF_PartNumber = 2"
| "IdentityField_code IF_SerialNumber = 3"
| "IdentityField_code IF_Revision = 4"
| "IdentityField_code IF_VendorOui = 5"
| "IdentityField_code IF_DateCode = 6"
| "IdentityField_code IF_FirmwareVersion = 7"
| "IdentityField_code IF_FirmwareBuild = 8"
| "IdentityField_code IF_EepromContentDigest = 9"
| "IdentityField_code IF_VendorSpecific = 10"

fun CapabilityKey_code :: "CapabilityKey \<Rightarrow> nat" where
  "CapabilityKey_code CK_Unknown = 0"
| "CapabilityKey_code CK_ModuleFamily = 1"
| "CapabilityKey_code CK_MediaClass = 2"
| "CapabilityKey_code CK_ConnectorClass = 3"
| "CapabilityKey_code CK_LaneCount = 4"
| "CapabilityKey_code CK_SpeedClasses = 5"
| "CapabilityKey_code CK_Encodings = 6"
| "CapabilityKey_code CK_FecModes = 7"
| "CapabilityKey_code CK_Wavelengths = 8"
| "CapabilityKey_code CK_WavelengthGrid = 9"
| "CapabilityKey_code CK_WavelengthTunable = 10"
| "CapabilityKey_code CK_ReachClass = 11"
| "CapabilityKey_code CK_PowerClass = 12"
| "CapabilityKey_code CK_MaxPowerMilliWatts = 13"
| "CapabilityKey_code CK_OperatingTemperatureMinCelsius = 14"
| "CapabilityKey_code CK_OperatingTemperatureMaxCelsius = 15"
| "CapabilityKey_code CK_TemperatureTelemetry = 16"
| "CapabilityKey_code CK_VoltageTelemetry = 17"
| "CapabilityKey_code CK_TxPowerTelemetry = 18"
| "CapabilityKey_code CK_RxPowerTelemetry = 19"
| "CapabilityKey_code CK_BiasCurrentTelemetry = 20"
| "CapabilityKey_code CK_LaneSkewTelemetry = 21"
| "CapabilityKey_code CK_DigitalDiagnosticMonitoring = 22"
| "CapabilityKey_code CK_VendorSpecific = 23"
| "CapabilityKey_code CK_Unsupported = 24"

fun CapabilityValueKind_code :: "CapabilityValueKind \<Rightarrow> nat" where
  "CapabilityValueKind_code CVK_None = 0"
| "CapabilityValueKind_code CVK_Boolean = 1"
| "CapabilityValueKind_code CVK_Count = 2"
| "CapabilityValueKind_code CVK_Real = 3"
| "CapabilityValueKind_code CVK_Enum = 4"
| "CapabilityValueKind_code CVK_EnumSet = 5"
| "CapabilityValueKind_code CVK_Text = 6"
| "CapabilityValueKind_code CVK_TextSet = 7"
| "CapabilityValueKind_code CVK_Spectrum = 8"

fun RequirementSubject_code :: "RequirementSubject \<Rightarrow> nat" where
  "RequirementSubject_code RSub_Module = 0"
| "RequirementSubject_code RSub_Port = 1"

fun RequirementOp_code :: "RequirementOp \<Rightarrow> nat" where
  "RequirementOp_code RO_Unknown = 0"
| "RequirementOp_code RO_Equals = 1"
| "RequirementOp_code RO_NotEquals = 2"
| "RequirementOp_code RO_In = 3"
| "RequirementOp_code RO_NotIn = 4"
| "RequirementOp_code RO_SupersetOf = 5"
| "RequirementOp_code RO_SubsetOf = 6"
| "RequirementOp_code RO_Overlaps = 7"
| "RequirementOp_code RO_DisjointFrom = 8"
| "RequirementOp_code RO_AtMost = 9"
| "RequirementOp_code RO_AtLeast = 10"

fun CompatVerdict_code :: "CompatVerdict \<Rightarrow> nat" where
  "CompatVerdict_code CV_Unknown = 0"
| "CompatVerdict_code CV_Compatible = 1"
| "CompatVerdict_code CV_Incompatible = 2"
| "CompatVerdict_code CV_Unsupported = 3"

fun ConsensusOutcome_code :: "ConsensusOutcome \<Rightarrow> nat" where
  "ConsensusOutcome_code CO_Unknown = 0"
| "ConsensusOutcome_code CO_SingleSource = 1"
| "ConsensusOutcome_code CO_Agreed = 2"
| "ConsensusOutcome_code CO_Conflicting = 3"
| "ConsensusOutcome_code CO_Superseded = 4"

fun MetricState_code :: "MetricState \<Rightarrow> nat" where
  "MetricState_code MS_Unknown = 0"
| "MetricState_code MS_Ok = 1"
| "MetricState_code MS_Degraded = 2"
| "MetricState_code MS_Critical = 3"
| "MetricState_code MS_Stale = 4"
| "MetricState_code MS_Conflicting = 5"
| "MetricState_code MS_Unclassified = 6"
| "MetricState_code MS_Fenced = 7"

fun HealthOutcome_code :: "HealthOutcome \<Rightarrow> nat" where
  "HealthOutcome_code HO_Unknown = 0"
| "HealthOutcome_code HO_Fresh = 1"
| "HealthOutcome_code HO_Partial = 2"
| "HealthOutcome_code HO_Stale = 3"
| "HealthOutcome_code HO_Conflicting = 4"
| "HealthOutcome_code HO_Fenced = 5"

fun SamplePresence_code :: "SamplePresence \<Rightarrow> nat" where
  "SamplePresence_code SP_Present = 0"
| "SamplePresence_code SP_NotAvailable = 1"
| "SamplePresence_code SP_ReadError = 2"
| "SamplePresence_code SP_NotSupported = 3"

fun EvidenceKind_code :: "EvidenceKind \<Rightarrow> nat" where
  "EvidenceKind_code EK_Real = 0"
| "EvidenceKind_code EK_Synthetic = 1"
| "EvidenceKind_code EK_Unsupported = 2"

fun LifecycleState_code :: "LifecycleState \<Rightarrow> nat" where
  "LifecycleState_code LS_Discovered = 0"
| "LifecycleState_code LS_Registered = 1"
| "LifecycleState_code LS_Attached = 2"
| "LifecycleState_code LS_Active = 3"
| "LifecycleState_code LS_Degraded = 4"
| "LifecycleState_code LS_Quarantined = 5"
| "LifecycleState_code LS_Removed = 6"
| "LifecycleState_code LS_Retired = 7"
| "LifecycleState_code LS_Replaced = 8"

fun MutationPolicy_code :: "MutationPolicy \<Rightarrow> nat" where
  "MutationPolicy_code MP_RequireGeneration = 0"
| "MutationPolicy_code MP_AutoRetry = 1"

section \<open>Name tables\<close>

text \<open>\<open>to_lower_ascii\<close>: ASCII only, independent of any locale.\<close>

definition to_lower_ascii :: "char \<Rightarrow> char" where
  "to_lower_ascii c =
     (if CHR ''A'' \<le> c \<and> c \<le> CHR ''Z'' then char_of (of_char c + (32 :: nat)) else c)"

text \<open>\<open>equals_ascii_case_insensitive\<close>: the sizes first, then byte by byte.\<close>

definition equals_ascii_case_insensitive :: "string \<Rightarrow> string \<Rightarrow> bool" where
  "equals_ascii_case_insensitive l r \<longleftrightarrow>
     length l = length r \<and> list_all2 (\<lambda>a b. to_lower_ascii a = to_lower_ascii b) l r"

definition kUnknownName :: string where
  "kUnknownName = ''unknown''"

fun canonical_name_of :: "(string \<times> 'e) list \<Rightarrow> 'e \<Rightarrow> string" where
  "canonical_name_of [] value = kUnknownName"
| "canonical_name_of ((name, v) # table) value =
     (if v = value then name else canonical_name_of table value)"

fun enum_scan :: "string \<Rightarrow> (string \<times> 'e) list \<Rightarrow> 'e option" where
  "enum_scan text [] = None"
| "enum_scan text ((name, v) # table) =
     (if equals_ascii_case_insensitive text name then Some v else enum_scan text table)"

text \<open>\<open>enum_from_string\<close>: \<open>None\<close> is the \<open>false\<close> return that leaves \<open>out\<close> untouched.\<close>

definition enum_from_string :: "string \<Rightarrow> (string \<times> 'e) list \<Rightarrow> 'e option" where
  "enum_from_string text table = (if text = [] then None else enum_scan text table)"

definition kModuleFamilyNames :: "(string \<times> ModuleFamily) list" where
  "kModuleFamilyNames =
    [(''unknown'', MF_Unknown),
     (''optical_transceiver'', MF_OpticalTransceiver),
     (''active_optical_cable'', MF_ActiveOpticalCable),
     (''direct_attach_copper'', MF_DirectAttachCopper),
     (''passive_copper_cable'', MF_PassiveCopperCable),
     (''electrical_transceiver'', MF_ElectricalTransceiver),
     (''loopback_module'', MF_LoopbackModule),
     (''backplane_assembly'', MF_BackplaneAssembly),
     (''unsupported'', MF_Unsupported)]"

definition kMediaClassNames :: "(string \<times> MediaClass) list" where
  "kMediaClassNames =
    [(''unknown'', MC_Unknown),
     (''multimode_fiber'', MC_MultimodeFiber),
     (''single_mode_fiber'', MC_SingleModeFiber),
     (''twinaxial_copper'', MC_TwinaxialCopper),
     (''shielded_twisted_pair'', MC_ShieldedTwistedPair),
     (''backplane_copper'', MC_BackplaneCopper),
     (''unsupported'', MC_Unsupported)]"

definition kConnectorClassNames :: "(string \<times> ConnectorClass) list" where
  "kConnectorClassNames =
    [(''unknown'', CC_Unknown),
     (''lc'', CC_Lc),
     (''sc'', CC_Sc),
     (''mpo12'', CC_Mpo12),
     (''mpo16'', CC_Mpo16),
     (''cs'', CC_Cs),
     (''sn'', CC_Sn),
     (''mdc'', CC_Mdc),
     (''rj45'', CC_Rj45),
     (''twinax'', CC_Twinax),
     (''backplane'', CC_Backplane),
     (''unsupported'', CC_Unsupported)]"

definition kSpeedClassNames :: "(string \<times> SpeedClass) list" where
  "kSpeedClassNames =
    [(''unknown'', SC_Unknown),
     (''mb100'', SC_Mb100),
     (''gb1'', SC_Gb1),
     (''gb10'', SC_Gb10),
     (''gb25'', SC_Gb25),
     (''gb40'', SC_Gb40),
     (''gb50'', SC_Gb50),
     (''gb100'', SC_Gb100),
     (''gb200'', SC_Gb200),
     (''gb400'', SC_Gb400),
     (''gb800'', SC_Gb800),
     (''gb1600'', SC_Gb1600),
     (''unsupported'', SC_Unsupported)]"

definition kEncodingClassNames :: "(string \<times> EncodingClass) list" where
  "kEncodingClassNames =
    [(''unknown'', EC_Unknown),
     (''nrz'', EC_Nrz),
     (''pam4'', EC_Pam4),
     (''unsupported'', EC_Unsupported)]"

definition kFecClassNames :: "(string \<times> FecClass) list" where
  "kFecClassNames =
    [(''unknown'', FC_Unknown),
     (''none'', FC_None),
     (''firecode'', FC_Firecode),
     (''rs_fec528'', FC_RsFec528),
     (''rs_fec544'', FC_RsFec544),
     (''base_r'', FC_BaseR),
     (''unsupported'', FC_Unsupported)]"

definition kReachClassNames :: "(string \<times> ReachClass) list" where
  "kReachClassNames =
    [(''unknown'', RC_Unknown),
     (''very_short_reach'', RC_VeryShortReach),
     (''short_reach'', RC_ShortReach),
     (''intermediate_reach'', RC_IntermediateReach),
     (''long_reach'', RC_LongReach),
     (''extended_reach'', RC_ExtendedReach),
     (''unsupported'', RC_Unsupported)]"

definition kPowerClassNames :: "(string \<times> PowerClass) list" where
  "kPowerClassNames =
    [(''unknown'', PC_Unknown),
     (''class1'', PC_Class1),
     (''class2'', PC_Class2),
     (''class3'', PC_Class3),
     (''class4'', PC_Class4),
     (''class5'', PC_Class5),
     (''class6'', PC_Class6),
     (''class7'', PC_Class7),
     (''class8'', PC_Class8),
     (''unsupported'', PC_Unsupported)]"

definition kWavelengthGridNames :: "(string \<times> WavelengthGrid) list" where
  "kWavelengthGridNames =
    [(''unknown'', WG_Unknown),
     (''none'', WG_None),
     (''cwdm4'', WG_Cwdm4),
     (''lan_wdm'', WG_LanWdm),
     (''dwdm'', WG_Dwdm),
     (''swdm'', WG_Swdm),
     (''unsupported'', WG_Unsupported)]"

definition kHealthMetricNames :: "(string \<times> HealthMetric) list" where
  "kHealthMetricNames =
    [(''unknown'', HM_Unknown),
     (''temperature_celsius'', HM_TemperatureCelsius),
     (''supply_voltage_volts'', HM_SupplyVoltageVolts),
     (''tx_power_dbm'', HM_TxPowerDbm),
     (''rx_power_dbm'', HM_RxPowerDbm),
     (''tx_bias_current_milliamps'', HM_TxBiasCurrentMilliamps),
     (''lane_skew_picoseconds'', HM_LaneSkewPicoseconds),
     (''unsupported'', HM_Unsupported)]"

definition kIdentityFieldNames :: "(string \<times> IdentityField) list" where
  "kIdentityFieldNames =
    [(''unknown'', IF_Unknown),
     (''vendor'', IF_Vendor),
     (''part_number'', IF_PartNumber),
     (''serial_number'', IF_SerialNumber),
     (''revision'', IF_Revision),
     (''vendor_oui'', IF_VendorOui),
     (''date_code'', IF_DateCode),
     (''firmware_version'', IF_FirmwareVersion),
     (''firmware_build'', IF_FirmwareBuild),
     (''eeprom_content_digest'', IF_EepromContentDigest),
     (''vendor_specific'', IF_VendorSpecific)]"

definition kCapabilityKeyNames :: "(string \<times> CapabilityKey) list" where
  "kCapabilityKeyNames =
    [(''unknown'', CK_Unknown),
     (''module_family'', CK_ModuleFamily),
     (''media_class'', CK_MediaClass),
     (''connector_class'', CK_ConnectorClass),
     (''lane_count'', CK_LaneCount),
     (''speed_classes'', CK_SpeedClasses),
     (''encodings'', CK_Encodings),
     (''fec_modes'', CK_FecModes),
     (''wavelengths'', CK_Wavelengths),
     (''wavelength_grid'', CK_WavelengthGrid),
     (''wavelength_tunable'', CK_WavelengthTunable),
     (''reach_class'', CK_ReachClass),
     (''power_class'', CK_PowerClass),
     (''max_power_milli_watts'', CK_MaxPowerMilliWatts),
     (''operating_temperature_min_celsius'', CK_OperatingTemperatureMinCelsius),
     (''operating_temperature_max_celsius'', CK_OperatingTemperatureMaxCelsius),
     (''temperature_telemetry'', CK_TemperatureTelemetry),
     (''voltage_telemetry'', CK_VoltageTelemetry),
     (''tx_power_telemetry'', CK_TxPowerTelemetry),
     (''rx_power_telemetry'', CK_RxPowerTelemetry),
     (''bias_current_telemetry'', CK_BiasCurrentTelemetry),
     (''lane_skew_telemetry'', CK_LaneSkewTelemetry),
     (''digital_diagnostic_monitoring'', CK_DigitalDiagnosticMonitoring),
     (''vendor_specific'', CK_VendorSpecific),
     (''unsupported'', CK_Unsupported)]"

definition kCapabilityValueKindNames :: "(string \<times> CapabilityValueKind) list" where
  "kCapabilityValueKindNames =
    [(''none'', CVK_None),
     (''boolean'', CVK_Boolean),
     (''count'', CVK_Count),
     (''real'', CVK_Real),
     (''enum'', CVK_Enum),
     (''enum_set'', CVK_EnumSet),
     (''text'', CVK_Text),
     (''text_set'', CVK_TextSet),
     (''spectrum'', CVK_Spectrum)]"

definition kRequirementSubjectNames :: "(string \<times> RequirementSubject) list" where
  "kRequirementSubjectNames =
    [(''module'', RSub_Module),
     (''port'', RSub_Port)]"

definition kRequirementOpNames :: "(string \<times> RequirementOp) list" where
  "kRequirementOpNames =
    [(''unknown'', RO_Unknown),
     (''equals'', RO_Equals),
     (''not_equals'', RO_NotEquals),
     (''in'', RO_In),
     (''not_in'', RO_NotIn),
     (''superset_of'', RO_SupersetOf),
     (''subset_of'', RO_SubsetOf),
     (''overlaps'', RO_Overlaps),
     (''disjoint_from'', RO_DisjointFrom),
     (''at_most'', RO_AtMost),
     (''at_least'', RO_AtLeast)]"

definition kCompatVerdictNames :: "(string \<times> CompatVerdict) list" where
  "kCompatVerdictNames =
    [(''unknown'', CV_Unknown),
     (''compatible'', CV_Compatible),
     (''incompatible'', CV_Incompatible),
     (''unsupported'', CV_Unsupported)]"

definition kConsensusOutcomeNames :: "(string \<times> ConsensusOutcome) list" where
  "kConsensusOutcomeNames =
    [(''unknown'', CO_Unknown),
     (''single_source'', CO_SingleSource),
     (''agreed'', CO_Agreed),
     (''conflicting'', CO_Conflicting),
     (''superseded'', CO_Superseded)]"

definition kMetricStateNames :: "(string \<times> MetricState) list" where
  "kMetricStateNames =
    [(''unknown'', MS_Unknown),
     (''ok'', MS_Ok),
     (''degraded'', MS_Degraded),
     (''critical'', MS_Critical),
     (''stale'', MS_Stale),
     (''conflicting'', MS_Conflicting),
     (''unclassified'', MS_Unclassified),
     (''fenced'', MS_Fenced)]"

definition kHealthOutcomeNames :: "(string \<times> HealthOutcome) list" where
  "kHealthOutcomeNames =
    [(''unknown'', HO_Unknown),
     (''fresh'', HO_Fresh),
     (''partial'', HO_Partial),
     (''stale'', HO_Stale),
     (''conflicting'', HO_Conflicting),
     (''fenced'', HO_Fenced)]"

definition kSamplePresenceNames :: "(string \<times> SamplePresence) list" where
  "kSamplePresenceNames =
    [(''present'', SP_Present),
     (''not_available'', SP_NotAvailable),
     (''read_error'', SP_ReadError),
     (''not_supported'', SP_NotSupported)]"

definition kEvidenceKindNames :: "(string \<times> EvidenceKind) list" where
  "kEvidenceKindNames =
    [(''real'', EK_Real),
     (''synthetic'', EK_Synthetic),
     (''unsupported'', EK_Unsupported)]"

definition kLifecycleStateNames :: "(string \<times> LifecycleState) list" where
  "kLifecycleStateNames =
    [(''discovered'', LS_Discovered),
     (''registered'', LS_Registered),
     (''attached'', LS_Attached),
     (''active'', LS_Active),
     (''degraded'', LS_Degraded),
     (''quarantined'', LS_Quarantined),
     (''removed'', LS_Removed),
     (''retired'', LS_Retired),
     (''replaced'', LS_Replaced)]"

definition kMutationPolicyNames :: "(string \<times> MutationPolicy) list" where
  "kMutationPolicyNames =
    [(''require_generation'', MP_RequireGeneration),
     (''auto_retry'', MP_AutoRetry)]"

definition to_string_ModuleFamily :: "ModuleFamily \<Rightarrow> string" where
  "to_string_ModuleFamily value = canonical_name_of kModuleFamilyNames value"

definition to_string_MediaClass :: "MediaClass \<Rightarrow> string" where
  "to_string_MediaClass value = canonical_name_of kMediaClassNames value"

definition to_string_ConnectorClass :: "ConnectorClass \<Rightarrow> string" where
  "to_string_ConnectorClass value = canonical_name_of kConnectorClassNames value"

definition to_string_SpeedClass :: "SpeedClass \<Rightarrow> string" where
  "to_string_SpeedClass value = canonical_name_of kSpeedClassNames value"

definition to_string_EncodingClass :: "EncodingClass \<Rightarrow> string" where
  "to_string_EncodingClass value = canonical_name_of kEncodingClassNames value"

definition to_string_FecClass :: "FecClass \<Rightarrow> string" where
  "to_string_FecClass value = canonical_name_of kFecClassNames value"

definition to_string_ReachClass :: "ReachClass \<Rightarrow> string" where
  "to_string_ReachClass value = canonical_name_of kReachClassNames value"

definition to_string_PowerClass :: "PowerClass \<Rightarrow> string" where
  "to_string_PowerClass value = canonical_name_of kPowerClassNames value"

definition to_string_WavelengthGrid :: "WavelengthGrid \<Rightarrow> string" where
  "to_string_WavelengthGrid value = canonical_name_of kWavelengthGridNames value"

definition to_string_HealthMetric :: "HealthMetric \<Rightarrow> string" where
  "to_string_HealthMetric value = canonical_name_of kHealthMetricNames value"

definition to_string_IdentityField :: "IdentityField \<Rightarrow> string" where
  "to_string_IdentityField value = canonical_name_of kIdentityFieldNames value"

definition to_string_CapabilityKey :: "CapabilityKey \<Rightarrow> string" where
  "to_string_CapabilityKey value = canonical_name_of kCapabilityKeyNames value"

definition to_string_CapabilityValueKind :: "CapabilityValueKind \<Rightarrow> string" where
  "to_string_CapabilityValueKind value = canonical_name_of kCapabilityValueKindNames value"

definition to_string_RequirementSubject :: "RequirementSubject \<Rightarrow> string" where
  "to_string_RequirementSubject value = canonical_name_of kRequirementSubjectNames value"

definition to_string_RequirementOp :: "RequirementOp \<Rightarrow> string" where
  "to_string_RequirementOp value = canonical_name_of kRequirementOpNames value"

definition to_string_CompatVerdict :: "CompatVerdict \<Rightarrow> string" where
  "to_string_CompatVerdict value = canonical_name_of kCompatVerdictNames value"

definition to_string_ConsensusOutcome :: "ConsensusOutcome \<Rightarrow> string" where
  "to_string_ConsensusOutcome value = canonical_name_of kConsensusOutcomeNames value"

definition to_string_MetricState :: "MetricState \<Rightarrow> string" where
  "to_string_MetricState value = canonical_name_of kMetricStateNames value"

definition to_string_HealthOutcome :: "HealthOutcome \<Rightarrow> string" where
  "to_string_HealthOutcome value = canonical_name_of kHealthOutcomeNames value"

definition to_string_SamplePresence :: "SamplePresence \<Rightarrow> string" where
  "to_string_SamplePresence value = canonical_name_of kSamplePresenceNames value"

definition to_string_EvidenceKind :: "EvidenceKind \<Rightarrow> string" where
  "to_string_EvidenceKind value = canonical_name_of kEvidenceKindNames value"

definition to_string_LifecycleState :: "LifecycleState \<Rightarrow> string" where
  "to_string_LifecycleState value = canonical_name_of kLifecycleStateNames value"

definition to_string_MutationPolicy :: "MutationPolicy \<Rightarrow> string" where
  "to_string_MutationPolicy value = canonical_name_of kMutationPolicyNames value"

definition module_family_from_string :: "string \<Rightarrow> ModuleFamily option" where
  "module_family_from_string text = enum_from_string text kModuleFamilyNames"

definition media_class_from_string :: "string \<Rightarrow> MediaClass option" where
  "media_class_from_string text = enum_from_string text kMediaClassNames"

definition connector_class_from_string :: "string \<Rightarrow> ConnectorClass option" where
  "connector_class_from_string text = enum_from_string text kConnectorClassNames"

definition speed_class_from_string :: "string \<Rightarrow> SpeedClass option" where
  "speed_class_from_string text = enum_from_string text kSpeedClassNames"

definition encoding_class_from_string :: "string \<Rightarrow> EncodingClass option" where
  "encoding_class_from_string text = enum_from_string text kEncodingClassNames"

definition fec_class_from_string :: "string \<Rightarrow> FecClass option" where
  "fec_class_from_string text = enum_from_string text kFecClassNames"

definition reach_class_from_string :: "string \<Rightarrow> ReachClass option" where
  "reach_class_from_string text = enum_from_string text kReachClassNames"

definition power_class_from_string :: "string \<Rightarrow> PowerClass option" where
  "power_class_from_string text = enum_from_string text kPowerClassNames"

definition wavelength_grid_from_string :: "string \<Rightarrow> WavelengthGrid option" where
  "wavelength_grid_from_string text = enum_from_string text kWavelengthGridNames"

definition health_metric_from_string :: "string \<Rightarrow> HealthMetric option" where
  "health_metric_from_string text = enum_from_string text kHealthMetricNames"

definition identity_field_from_string :: "string \<Rightarrow> IdentityField option" where
  "identity_field_from_string text = enum_from_string text kIdentityFieldNames"

definition capability_key_from_string :: "string \<Rightarrow> CapabilityKey option" where
  "capability_key_from_string text = enum_from_string text kCapabilityKeyNames"

definition requirement_subject_from_string :: "string \<Rightarrow> RequirementSubject option" where
  "requirement_subject_from_string text = enum_from_string text kRequirementSubjectNames"

definition requirement_op_from_string :: "string \<Rightarrow> RequirementOp option" where
  "requirement_op_from_string text = enum_from_string text kRequirementOpNames"

definition compat_verdict_from_string :: "string \<Rightarrow> CompatVerdict option" where
  "compat_verdict_from_string text = enum_from_string text kCompatVerdictNames"

definition sample_presence_from_string :: "string \<Rightarrow> SamplePresence option" where
  "sample_presence_from_string text = enum_from_string text kSamplePresenceNames"

definition evidence_kind_from_string :: "string \<Rightarrow> EvidenceKind option" where
  "evidence_kind_from_string text = enum_from_string text kEvidenceKindNames"

definition lifecycle_state_from_string :: "string \<Rightarrow> LifecycleState option" where
  "lifecycle_state_from_string text = enum_from_string text kLifecycleStateNames"

definition mutation_policy_from_string :: "string \<Rightarrow> MutationPolicy option" where
  "mutation_policy_from_string text = enum_from_string text kMutationPolicyNames"

section \<open>Rendering and parsing are inverse\<close>

lemma equals_ascii_map: "equals_ascii_case_insensitive l r \<longleftrightarrow> map to_lower_ascii l = map to_lower_ascii r"
proof -
  have "list_all2 (\<lambda>a b. to_lower_ascii a = to_lower_ascii b) l r \<longleftrightarrow>
      map to_lower_ascii l = map to_lower_ascii r"
    by (simp add: list.rel_map flip: list.rel_eq)
  then show ?thesis
    unfolding equals_ascii_case_insensitive_def by (metis length_map)
qed

text \<open>
  What a table of the source promises: distinct lower-case names and every enumerator exactly once.
\<close>

locale name_table =
  fixes tbl :: "(string \<times> 'e) list"
  assumes names_distinct: "distinct (map fst tbl)"
    and names_lower: "list_all (\<lambda>(n, v). n \<noteq> [] \<and> map to_lower_ascii n = n) tbl"
    and values_distinct: "distinct (map snd tbl)"
    and values_total: "v \<in> set (map snd tbl)"
begin

lemma scan_lookup: "enum_scan text tbl = map_of tbl (map to_lower_ascii text)"
proof -
  have "list_all (\<lambda>(n, v). map to_lower_ascii n = n) t \<Longrightarrow>
      enum_scan text t = map_of t (map to_lower_ascii text)" for t :: "(string \<times> 'e) list"
    by (induction t) (auto simp: equals_ascii_map)
  moreover have "list_all (\<lambda>(n, v). map to_lower_ascii n = n) tbl"
    using names_lower by (auto simp: list_all_iff)
  ultimately show ?thesis by blast
qed

lemma name_in_table: "(canonical_name_of tbl v, v) \<in> set tbl"
proof -
  have "\<exists>n. (n, v) \<in> set t \<Longrightarrow> (canonical_name_of t v, v) \<in> set t" for t :: "(string \<times> 'e) list"
  proof (induction t)
    case (Cons p t)
    then show ?case by (cases p; cases "snd p = v") simp_all
  qed simp
  moreover have "\<exists>n. (n, v) \<in> set tbl" using values_total [of v] by auto
  ultimately show ?thesis by blast
qed

lemma name_unique: "(n, v) \<in> set tbl \<Longrightarrow> n = canonical_name_of tbl v"
  using name_in_table values_distinct
  by (metis distinct_map inj_onD prod.sel(1) prod.sel(2))

lemma parse_iff: "enum_from_string text tbl = Some v \<longleftrightarrow> map to_lower_ascii text = canonical_name_of tbl v"
proof -
  have "enum_scan text tbl = Some v \<longleftrightarrow> map to_lower_ascii text = canonical_name_of tbl v"
    unfolding scan_lookup using names_distinct name_in_table name_unique by auto
  moreover have "canonical_name_of tbl v \<noteq> []"
    using name_in_table names_lower by (force simp: list_all_iff)
  ultimately show ?thesis by (auto simp: enum_from_string_def)
qed

lemma parse_render [simp]: "enum_from_string (canonical_name_of tbl v) tbl = Some v"
  using name_in_table names_lower by (fastforce simp: parse_iff list_all_iff)

lemma render_inject: "canonical_name_of tbl v = canonical_name_of tbl w \<Longrightarrow> v = w"
  by (metis option.inject parse_render)

end


text \<open>Every table of \<open>taxonomy.cpp\<close> keeps that promise.\<close>

interpretation moduleFamilyNames: name_table kModuleFamilyNames
  by unfold_locales (code_simp, code_simp, code_simp, (case_tac v; simp add: kModuleFamilyNames_def))

interpretation mediaClassNames: name_table kMediaClassNames
  by unfold_locales (code_simp, code_simp, code_simp, (case_tac v; simp add: kMediaClassNames_def))

interpretation connectorClassNames: name_table kConnectorClassNames
  by unfold_locales (code_simp, code_simp, code_simp, (case_tac v; simp add: kConnectorClassNames_def))

interpretation speedClassNames: name_table kSpeedClassNames
  by unfold_locales (code_simp, code_simp, code_simp, (case_tac v; simp add: kSpeedClassNames_def))

interpretation encodingClassNames: name_table kEncodingClassNames
  by unfold_locales (code_simp, code_simp, code_simp, (case_tac v; simp add: kEncodingClassNames_def))

interpretation fecClassNames: name_table kFecClassNames
  by unfold_locales (code_simp, code_simp, code_simp, (case_tac v; simp add: kFecClassNames_def))

interpretation reachClassNames: name_table kReachClassNames
  by unfold_locales (code_simp, code_simp, code_simp, (case_tac v; simp add: kReachClassNames_def))

interpretation powerClassNames: name_table kPowerClassNames
  by unfold_locales (code_simp, code_simp, code_simp, (case_tac v; simp add: kPowerClassNames_def))

interpretation wavelengthGridNames: name_table kWavelengthGridNames
  by unfold_locales (code_simp, code_simp, code_simp, (case_tac v; simp add: kWavelengthGridNames_def))

interpretation healthMetricNames: name_table kHealthMetricNames
  by unfold_locales (code_simp, code_simp, code_simp, (case_tac v; simp add: kHealthMetricNames_def))

interpretation identityFieldNames: name_table kIdentityFieldNames
  by unfold_locales (code_simp, code_simp, code_simp, (case_tac v; simp add: kIdentityFieldNames_def))

interpretation capabilityKeyNames: name_table kCapabilityKeyNames
  by unfold_locales (code_simp, code_simp, code_simp, (case_tac v; simp add: kCapabilityKeyNames_def))

interpretation capabilityValueKindNames: name_table kCapabilityValueKindNames
  by unfold_locales (code_simp, code_simp, code_simp, (case_tac v; simp add: kCapabilityValueKindNames_def))

interpretation requirementSubjectNames: name_table kRequirementSubjectNames
  by unfold_locales (code_simp, code_simp, code_simp, (case_tac v; simp add: kRequirementSubjectNames_def))

interpretation requirementOpNames: name_table kRequirementOpNames
  by unfold_locales (code_simp, code_simp, code_simp, (case_tac v; simp add: kRequirementOpNames_def))

interpretation compatVerdictNames: name_table kCompatVerdictNames
  by unfold_locales (code_simp, code_simp, code_simp, (case_tac v; simp add: kCompatVerdictNames_def))

interpretation consensusOutcomeNames: name_table kConsensusOutcomeNames
  by unfold_locales (code_simp, code_simp, code_simp, (case_tac v; simp add: kConsensusOutcomeNames_def))

interpretation metricStateNames: name_table kMetricStateNames
  by unfold_locales (code_simp, code_simp, code_simp, (case_tac v; simp add: kMetricStateNames_def))

interpretation healthOutcomeNames: name_table kHealthOutcomeNames
  by unfold_locales (code_simp, code_simp, code_simp, (case_tac v; simp add: kHealthOutcomeNames_def))

interpretation samplePresenceNames: name_table kSamplePresenceNames
  by unfold_locales (code_simp, code_simp, code_simp, (case_tac v; simp add: kSamplePresenceNames_def))

interpretation evidenceKindNames: name_table kEvidenceKindNames
  by unfold_locales (code_simp, code_simp, code_simp, (case_tac v; simp add: kEvidenceKindNames_def))

interpretation lifecycleStateNames: name_table kLifecycleStateNames
  by unfold_locales (code_simp, code_simp, code_simp, (case_tac v; simp add: kLifecycleStateNames_def))

interpretation mutationPolicyNames: name_table kMutationPolicyNames
  by unfold_locales (code_simp, code_simp, code_simp, (case_tac v; simp add: kMutationPolicyNames_def))

section \<open>Casting back from a code\<close>

text \<open>
  \<open>static_cast<Enum>(raw)\<close> after the range check \<open>raw \<le> Enum::<last>\<close>; the tables list the
  enumerators in declaration order.
\<close>

definition enum_of_code :: "(string \<times> 'e) list \<Rightarrow> nat \<Rightarrow> 'e option" where
  "enum_of_code table n = (if n < length table then Some (snd (table ! n)) else None)"

text \<open>The enumerations used as keys of ordered containers are ordered by their codes.\<close>

lemma IdentityField_of_code [simp]: "enum_of_code kIdentityFieldNames (IdentityField_code v) = Some v"
  by (cases v) (simp_all add: enum_of_code_def kIdentityFieldNames_def)

lemma IdentityField_code_inject [simp]: "IdentityField_code v = IdentityField_code w \<longleftrightarrow> v = w"
  by (metis IdentityField_of_code option.inject)

instantiation IdentityField :: linorder
begin

definition less_eq_IdentityField :: "IdentityField \<Rightarrow> IdentityField \<Rightarrow> bool" where
  "less_eq_IdentityField v w \<longleftrightarrow> IdentityField_code v \<le> IdentityField_code w"

definition less_IdentityField :: "IdentityField \<Rightarrow> IdentityField \<Rightarrow> bool" where
  "less_IdentityField v w \<longleftrightarrow> IdentityField_code v < IdentityField_code w"

instance
  by standard (auto simp: less_eq_IdentityField_def less_IdentityField_def)

end

lemma CapabilityKey_of_code [simp]: "enum_of_code kCapabilityKeyNames (CapabilityKey_code v) = Some v"
  by (cases v) (simp_all add: enum_of_code_def kCapabilityKeyNames_def)

lemma CapabilityKey_code_inject [simp]: "CapabilityKey_code v = CapabilityKey_code w \<longleftrightarrow> v = w"
  by (metis CapabilityKey_of_code option.inject)

instantiation CapabilityKey :: linorder
begin

definition less_eq_CapabilityKey :: "CapabilityKey \<Rightarrow> CapabilityKey \<Rightarrow> bool" where
  "less_eq_CapabilityKey v w \<longleftrightarrow> CapabilityKey_code v \<le> CapabilityKey_code w"

definition less_CapabilityKey :: "CapabilityKey \<Rightarrow> CapabilityKey \<Rightarrow> bool" where
  "less_CapabilityKey v w \<longleftrightarrow> CapabilityKey_code v < CapabilityKey_code w"

instance
  by standard (auto simp: less_eq_CapabilityKey_def less_CapabilityKey_def)

end

lemma HealthMetric_of_code [simp]: "enum_of_code kHealthMetricNames (HealthMetric_code v) = Some v"
  by (cases v) (simp_all add: enum_of_code_def kHealthMetricNames_def)

lemma HealthMetric_code_inject [simp]: "HealthMetric_code v = HealthMetric_code w \<longleftrightarrow> v = w"
  by (metis HealthMetric_of_code option.inject)

instantiation HealthMetric :: linorder
begin

definition less_eq_HealthMetric :: "HealthMetric \<Rightarrow> HealthMetric \<Rightarrow> bool" where
  "less_eq_HealthMetric v w \<longleftrightarrow> HealthMetric_code v \<le> HealthMetric_code w"

definition less_HealthMetric :: "HealthMetric \<Rightarrow> HealthMetric \<Rightarrow> bool" where
  "less_HealthMetric v w \<longleftrightarrow> HealthMetric_code v < HealthMetric_code w"

instance
  by standard (auto simp: less_eq_HealthMetric_def less_HealthMetric_def)

end

lemma RequirementSubject_of_code [simp]: "enum_of_code kRequirementSubjectNames (RequirementSubject_code v) = Some v"
  by (cases v) (simp_all add: enum_of_code_def kRequirementSubjectNames_def)

lemma RequirementSubject_code_inject [simp]: "RequirementSubject_code v = RequirementSubject_code w \<longleftrightarrow> v = w"
  by (metis RequirementSubject_of_code option.inject)

instantiation RequirementSubject :: linorder
begin

definition less_eq_RequirementSubject :: "RequirementSubject \<Rightarrow> RequirementSubject \<Rightarrow> bool" where
  "less_eq_RequirementSubject v w \<longleftrightarrow> RequirementSubject_code v \<le> RequirementSubject_code w"

definition less_RequirementSubject :: "RequirementSubject \<Rightarrow> RequirementSubject \<Rightarrow> bool" where
  "less_RequirementSubject v w \<longleftrightarrow> RequirementSubject_code v < RequirementSubject_code w"

instance
  by standard (auto simp: less_eq_RequirementSubject_def less_RequirementSubject_def)

end

section \<open>Exact-match vocabularies\<close>

text \<open>
  The renderers declared outside the taxonomy header are switches, and their parsers scan the
  enumerators for an exact match.
\<close>

fun scan_exact :: "('e \<Rightarrow> string) \<Rightarrow> 'e list \<Rightarrow> string \<Rightarrow> 'e option" where
  "scan_exact render [] text = None"
| "scan_exact render (v # vs) text = (if render v = text then Some v else scan_exact render vs text)"

lemma scan_exact_Some: "scan_exact render vs text = Some v \<Longrightarrow> render v = text"
  by (induction vs) (auto split: if_splits)

lemma scan_exact_render:
  "inj_on render (set vs) \<Longrightarrow> v \<in> set vs \<Longrightarrow> scan_exact render vs (render v) = Some v"
  by (induction vs) (auto simp: inj_on_def)

datatype HealthIssueKind = HI_Missing | HI_Stale | HI_Fenced | HI_SourceConflict | HI_NoThreshold | HI_NotAvailable | HI_ReadError | HI_NotSupported | HI_FutureTimestamp | HI_OutOfRange | HI_SupersededThreshold

fun HealthIssueKind_code :: "HealthIssueKind \<Rightarrow> nat" where
  "HealthIssueKind_code HI_Missing = 0"
| "HealthIssueKind_code HI_Stale = 1"
| "HealthIssueKind_code HI_Fenced = 2"
| "HealthIssueKind_code HI_SourceConflict = 3"
| "HealthIssueKind_code HI_NoThreshold = 4"
| "HealthIssueKind_code HI_NotAvailable = 5"
| "HealthIssueKind_code HI_ReadError = 6"
| "HealthIssueKind_code HI_NotSupported = 7"
| "HealthIssueKind_code HI_FutureTimestamp = 8"
| "HealthIssueKind_code HI_OutOfRange = 9"
| "HealthIssueKind_code HI_SupersededThreshold = 10"

fun to_string_HealthIssueKind :: "HealthIssueKind \<Rightarrow> string" where
  "to_string_HealthIssueKind HI_Missing = ''missing''"
| "to_string_HealthIssueKind HI_Stale = ''stale''"
| "to_string_HealthIssueKind HI_Fenced = ''fenced''"
| "to_string_HealthIssueKind HI_SourceConflict = ''source_conflict''"
| "to_string_HealthIssueKind HI_NoThreshold = ''no_threshold''"
| "to_string_HealthIssueKind HI_NotAvailable = ''not_available''"
| "to_string_HealthIssueKind HI_ReadError = ''read_error''"
| "to_string_HealthIssueKind HI_NotSupported = ''not_supported''"
| "to_string_HealthIssueKind HI_FutureTimestamp = ''future_timestamp''"
| "to_string_HealthIssueKind HI_OutOfRange = ''out_of_range''"
| "to_string_HealthIssueKind HI_SupersededThreshold = ''superseded_threshold''"

definition health_issue_kind_from_string :: "string \<Rightarrow> HealthIssueKind option" where
  "health_issue_kind_from_string text =
     scan_exact to_string_HealthIssueKind
       [HI_Missing, HI_Stale, HI_Fenced, HI_SourceConflict, HI_NoThreshold,
        HI_NotAvailable, HI_ReadError, HI_NotSupported, HI_FutureTimestamp, HI_OutOfRange,
        HI_SupersededThreshold] text"

lemma health_issue_kind_from_string_render [simp]: "health_issue_kind_from_string (to_string_HealthIssueKind v) = Some v"
  by (cases v) (simp_all add: health_issue_kind_from_string_def)

datatype CompatOutcome = CoO_Unknown | CoO_Compatible | CoO_Incompatible | CoO_Unsupported

fun CompatOutcome_code :: "CompatOutcome \<Rightarrow> nat" where
  "CompatOutcome_code CoO_Unknown = 0"
| "CompatOutcome_code CoO_Compatible = 1"
| "CompatOutcome_code CoO_Incompatible = 2"
| "CompatOutcome_code CoO_Unsupported = 3"

fun to_string_CompatOutcome :: "CompatOutcome \<Rightarrow> string" where
  "to_string_CompatOutcome CoO_Unknown = ''unknown''"
| "to_string_CompatOutcome CoO_Compatible = ''compatible''"
| "to_string_CompatOutcome CoO_Incompatible = ''incompatible''"
| "to_string_CompatOutcome CoO_Unsupported = ''unsupported''"

definition compat_outcome_from_string :: "string \<Rightarrow> CompatOutcome option" where
  "compat_outcome_from_string text =
     scan_exact to_string_CompatOutcome
       [CoO_Unknown, CoO_Compatible, CoO_Incompatible, CoO_Unsupported] text"

lemma compat_outcome_from_string_render [simp]: "compat_outcome_from_string (to_string_CompatOutcome v) = Some v"
  by (cases v) (simp_all add: compat_outcome_from_string_def)

datatype KnowledgeClosure = KC_Open | KC_Partial | KC_Closed

fun KnowledgeClosure_code :: "KnowledgeClosure \<Rightarrow> nat" where
  "KnowledgeClosure_code KC_Open = 0"
| "KnowledgeClosure_code KC_Partial = 1"
| "KnowledgeClosure_code KC_Closed = 2"

fun to_string_KnowledgeClosure :: "KnowledgeClosure \<Rightarrow> string" where
  "to_string_KnowledgeClosure KC_Open = ''open''"
| "to_string_KnowledgeClosure KC_Partial = ''partial''"
| "to_string_KnowledgeClosure KC_Closed = ''closed''"

definition knowledge_closure_from_string :: "string \<Rightarrow> KnowledgeClosure option" where
  "knowledge_closure_from_string text =
     scan_exact to_string_KnowledgeClosure
       [KC_Open, KC_Partial, KC_Closed] text"

lemma knowledge_closure_from_string_render [simp]: "knowledge_closure_from_string (to_string_KnowledgeClosure v) = Some v"
  by (cases v) (simp_all add: knowledge_closure_from_string_def)

datatype RequirementState = RSt_Satisfied | RSt_Violated | RSt_Indeterminate

fun RequirementState_code :: "RequirementState \<Rightarrow> nat" where
  "RequirementState_code RSt_Satisfied = 0"
| "RequirementState_code RSt_Violated = 1"
| "RequirementState_code RSt_Indeterminate = 2"

fun to_string_RequirementState :: "RequirementState \<Rightarrow> string" where
  "to_string_RequirementState RSt_Satisfied = ''satisfied''"
| "to_string_RequirementState RSt_Violated = ''violated''"
| "to_string_RequirementState RSt_Indeterminate = ''indeterminate''"

definition requirement_state_from_string :: "string \<Rightarrow> RequirementState option" where
  "requirement_state_from_string text =
     scan_exact to_string_RequirementState
       [RSt_Satisfied, RSt_Violated, RSt_Indeterminate] text"

lemma requirement_state_from_string_render [simp]: "requirement_state_from_string (to_string_RequirementState v) = Some v"
  by (cases v) (simp_all add: requirement_state_from_string_def)

datatype RegisterIntent = RI_EnsureCurrent | RI_NewIncarnation

fun RegisterIntent_code :: "RegisterIntent \<Rightarrow> nat" where
  "RegisterIntent_code RI_EnsureCurrent = 0"
| "RegisterIntent_code RI_NewIncarnation = 1"

fun to_string_RegisterIntent :: "RegisterIntent \<Rightarrow> string" where
  "to_string_RegisterIntent RI_EnsureCurrent = ''current''"
| "to_string_RegisterIntent RI_NewIncarnation = ''new_incarnation''"

definition register_intent_from_string :: "string \<Rightarrow> RegisterIntent option" where
  "register_intent_from_string text =
     (if text = ''current'' then Some RI_EnsureCurrent
      else if text = ''new_incarnation'' then Some RI_NewIncarnation
      else None)"

lemma register_intent_from_string_render [simp]: "register_intent_from_string (to_string_RegisterIntent v) = Some v"
  by (cases v) (simp_all add: register_intent_from_string_def)

datatype ThresholdDirection = TD_Above | TD_Below

fun ThresholdDirection_code :: "ThresholdDirection \<Rightarrow> nat" where
  "ThresholdDirection_code TD_Above = 0"
| "ThresholdDirection_code TD_Below = 1"

fun to_string_StatusCode :: "StatusCode \<Rightarrow> string" where
  "to_string_StatusCode Ok = ''ok''"
| "to_string_StatusCode InvalidArgument = ''invalid_argument''"
| "to_string_StatusCode NotFound = ''not_found''"
| "to_string_StatusCode Conflict = ''conflict''"
| "to_string_StatusCode StaleAuthority = ''stale_authority''"
| "to_string_StatusCode StaleGeneration = ''stale_generation''"
| "to_string_StatusCode StaleIncarnation = ''stale_incarnation''"
| "to_string_StatusCode Fenced = ''fenced''"
| "to_string_StatusCode CapacityExceeded = ''capacity_exceeded''"
| "to_string_StatusCode Malformed = ''malformed''"
| "to_string_StatusCode Corrupt = ''corrupt''"
| "to_string_StatusCode Unsupported = ''unsupported''"
| "to_string_StatusCode Refused = ''refused''"
| "to_string_StatusCode IoError = ''io_error''"
| "to_string_StatusCode ClockSkew = ''clock_skew''"
| "to_string_StatusCode InvalidTransition = ''invalid_transition''"
| "to_string_StatusCode KnowledgeOpen = ''knowledge_open''"
| "to_string_StatusCode Internal = ''internal''"

definition status_code_from_string :: "string \<Rightarrow> StatusCode option" where
  "status_code_from_string text =
     scan_exact to_string_StatusCode
       [Ok, InvalidArgument, NotFound, Conflict, StaleAuthority,
        StaleGeneration, StaleIncarnation, Fenced, CapacityExceeded, Malformed,
        Corrupt, Unsupported, Refused, IoError, ClockSkew,
        InvalidTransition, KnowledgeOpen, Internal] text"

lemma status_code_from_string_render [simp]: "status_code_from_string (to_string_StatusCode c) = Some c"
  by (cases c) (simp_all add: status_code_from_string_def)

section \<open>Fixed properties of the vocabulary\<close>

fun capability_value_kind :: "CapabilityKey \<Rightarrow> CapabilityValueKind" where
  "capability_value_kind CK_ModuleFamily = CVK_Enum"
| "capability_value_kind CK_MediaClass = CVK_Enum"
| "capability_value_kind CK_ConnectorClass = CVK_Enum"
| "capability_value_kind CK_ReachClass = CVK_Enum"
| "capability_value_kind CK_PowerClass = CVK_Enum"
| "capability_value_kind CK_WavelengthGrid = CVK_Enum"
| "capability_value_kind CK_LaneCount = CVK_Count"
| "capability_value_kind CK_SpeedClasses = CVK_EnumSet"
| "capability_value_kind CK_Encodings = CVK_EnumSet"
| "capability_value_kind CK_FecModes = CVK_EnumSet"
| "capability_value_kind CK_Wavelengths = CVK_Spectrum"
| "capability_value_kind CK_WavelengthTunable = CVK_Boolean"
| "capability_value_kind CK_TemperatureTelemetry = CVK_Boolean"
| "capability_value_kind CK_VoltageTelemetry = CVK_Boolean"
| "capability_value_kind CK_TxPowerTelemetry = CVK_Boolean"
| "capability_value_kind CK_RxPowerTelemetry = CVK_Boolean"
| "capability_value_kind CK_BiasCurrentTelemetry = CVK_Boolean"
| "capability_value_kind CK_LaneSkewTelemetry = CVK_Boolean"
| "capability_value_kind CK_DigitalDiagnosticMonitoring = CVK_Boolean"
| "capability_value_kind CK_MaxPowerMilliWatts = CVK_Real"
| "capability_value_kind CK_OperatingTemperatureMinCelsius = CVK_Real"
| "capability_value_kind CK_OperatingTemperatureMaxCelsius = CVK_Real"
| "capability_value_kind CK_VendorSpecific = CVK_Text"
| "capability_value_kind CK_Unknown = CVK_None"
| "capability_value_kind CK_Unsupported = CVK_None"

text \<open>\<open>Some (min_value, max_value)\<close> where the C++ function returns \<open>true\<close>.\<close>

fun metric_plausible_range :: "HealthMetric \<Rightarrow> (double \<times> double) option" where
  "metric_plausible_range HM_TemperatureCelsius = Some (dbl_of_int (-40), dbl_of_int 150)"
| "metric_plausible_range HM_SupplyVoltageVolts = Some (dbl_of_int 0, dbl_of_int 5)"
| "metric_plausible_range HM_TxPowerDbm = Some (dbl_of_int (-40), dbl_of_int 20)"
| "metric_plausible_range HM_RxPowerDbm = Some (dbl_of_int (-40), dbl_of_int 20)"
| "metric_plausible_range HM_TxBiasCurrentMilliamps = Some (dbl_of_int 0, dbl_of_int 500)"
| "metric_plausible_range HM_LaneSkewPicoseconds = Some (dbl_of_int 0, dbl_of_int 10000000)"
| "metric_plausible_range HM_Unknown = None"
| "metric_plausible_range HM_Unsupported = None"

lemma metric_plausible_range_wf:
  "metric_plausible_range m = Some (lo, hi) \<Longrightarrow> dbl_lt lo hi \<and> isfinite lo \<and> isfinite hi"
  by (cases m) (auto simp: dbl_of_int_consts dbl_eval)

fun speed_class_bits_per_second :: "SpeedClass \<Rightarrow> 64 word" where
  "speed_class_bits_per_second SC_Mb100 = 100000000"
| "speed_class_bits_per_second SC_Gb1 = 1000000000"
| "speed_class_bits_per_second SC_Gb10 = 10000000000"
| "speed_class_bits_per_second SC_Gb25 = 25000000000"
| "speed_class_bits_per_second SC_Gb40 = 40000000000"
| "speed_class_bits_per_second SC_Gb50 = 50000000000"
| "speed_class_bits_per_second SC_Gb100 = 100000000000"
| "speed_class_bits_per_second SC_Gb200 = 200000000000"
| "speed_class_bits_per_second SC_Gb400 = 400000000000"
| "speed_class_bits_per_second SC_Gb800 = 800000000000"
| "speed_class_bits_per_second SC_Gb1600 = 1600000000000"
| "speed_class_bits_per_second SC_Unknown = 0"
| "speed_class_bits_per_second SC_Unsupported = 0"

fun metric_state_severity :: "MetricState \<Rightarrow> nat" where
  "metric_state_severity MS_Critical = 5"
| "metric_state_severity MS_Degraded = 4"
| "metric_state_severity MS_Conflicting = 3"
| "metric_state_severity MS_Stale = 2"
| "metric_state_severity MS_Fenced = 2"
| "metric_state_severity MS_Unknown = 1"
| "metric_state_severity MS_Unclassified = 1"
| "metric_state_severity MS_Ok = 0"

end
