(* ===== verification/Lifecycle.thy ===== *)
theory Lifecycle
  imports Taxonomy
begin

text \<open>
  The lifecycle state machine of \<open>src/src/lifecycle.cpp\<close>: the bit table \<open>kTargets\<close>, the
  predicates that read it and the listing of allowed targets. \<open>documented_targets\<close> is the
  transition table of the file's comment; the lemmas show that the bit table, the predicate and
  the listing all say what the comment says.
\<close>

unbundle bit_operations_syntax

section \<open>The bit table\<close>

definition kStateCount :: nat where
  "kStateCount = 9"

fun lifecycle_index :: "LifecycleState \<Rightarrow> nat" where
  "lifecycle_index LS_Discovered = 0"
| "lifecycle_index LS_Registered = 1"
| "lifecycle_index LS_Attached = 2"
| "lifecycle_index LS_Active = 3"
| "lifecycle_index LS_Degraded = 4"
| "lifecycle_index LS_Quarantined = 5"
| "lifecycle_index LS_Removed = 6"
| "lifecycle_index LS_Retired = 7"
| "lifecycle_index LS_Replaced = 8"

definition state_bit :: "nat \<Rightarrow> 32 word" where
  "state_bit index = push_bit index 1"

definition kTargets :: "(32 word) list" where
  "kTargets =
    [state_bit 1 OR state_bit 6,
     state_bit 2 OR state_bit 5 OR state_bit 6 OR state_bit 7 OR state_bit 8,
     state_bit 3 OR state_bit 4 OR state_bit 5 OR state_bit 6 OR state_bit 8,
     state_bit 4 OR state_bit 5 OR state_bit 6 OR state_bit 7 OR state_bit 8,
     state_bit 3 OR state_bit 5 OR state_bit 6 OR state_bit 8,
     state_bit 1 OR state_bit 2 OR state_bit 3 OR state_bit 6 OR state_bit 7 OR state_bit 8,
     state_bit 1 OR state_bit 7,
     0,
     state_bit 6 OR state_bit 7]"

text \<open>
  A \<open>LifecycleState\<close> of the model is always an enumerator, so the out-of-range exits of the
  code (\<open>kStateCount\<close>) are kept as the code has them and never taken.
\<close>

definition lifecycle_transition_allowed :: "LifecycleState \<Rightarrow> LifecycleState \<Rightarrow> bool" where
  "lifecycle_transition_allowed from to =
     (let from_index = lifecycle_index from; to_index = lifecycle_index to in
      if from_index = kStateCount \<or> to_index = kStateCount then False
      else (kTargets ! from_index) AND state_bit to_index \<noteq> 0)"

definition lifecycle_state_is_terminal :: "LifecycleState \<Rightarrow> bool" where
  "lifecycle_state_is_terminal state =
     (let index = lifecycle_index state in index \<noteq> kStateCount \<and> kTargets ! index = 0)"

definition lifecycle_state_implies_attachment :: "LifecycleState \<Rightarrow> bool" where
  "lifecycle_state_implies_attachment state \<longleftrightarrow>
     state = LS_Attached \<or> state = LS_Active \<or> state = LS_Degraded"

text \<open>\<open>static_cast<LifecycleState>(index)\<close>: the enumerator with that value.\<close>

definition lifecycle_states :: "LifecycleState list" where
  "lifecycle_states =
     [LS_Discovered, LS_Registered, LS_Attached, LS_Active, LS_Degraded, LS_Quarantined,
      LS_Removed, LS_Retired, LS_Replaced]"

definition lifecycle_allowed_targets :: "LifecycleState \<Rightarrow> LifecycleState list" where
  "lifecycle_allowed_targets from =
     (let from_index = lifecycle_index from in
      if from_index = kStateCount then []
      else
        let mask = kTargets ! from_index in
        map (\<lambda>index. lifecycle_states ! index)
          (filter (\<lambda>index. mask AND state_bit index \<noteq> 0) [0..<kStateCount]))"

section \<open>The documented table\<close>

fun documented_targets :: "LifecycleState \<Rightarrow> LifecycleState list" where
  "documented_targets LS_Discovered = [LS_Registered, LS_Removed]"
| "documented_targets LS_Registered =
     [LS_Attached, LS_Quarantined, LS_Removed, LS_Retired, LS_Replaced]"
| "documented_targets LS_Attached =
     [LS_Active, LS_Degraded, LS_Quarantined, LS_Removed, LS_Replaced]"
| "documented_targets LS_Active =
     [LS_Degraded, LS_Quarantined, LS_Removed, LS_Retired, LS_Replaced]"
| "documented_targets LS_Degraded = [LS_Active, LS_Quarantined, LS_Removed, LS_Replaced]"
| "documented_targets LS_Quarantined =
     [LS_Registered, LS_Attached, LS_Active, LS_Removed, LS_Retired, LS_Replaced]"
| "documented_targets LS_Removed = [LS_Registered, LS_Retired]"
| "documented_targets LS_Retired = []"
| "documented_targets LS_Replaced = [LS_Removed, LS_Retired]"

lemma lifecycle_index_code: "lifecycle_index s = LifecycleState_code s"
  by (cases s) simp_all

lemma lifecycle_index_less: "lifecycle_index s < kStateCount"
  by (cases s) (simp_all add: kStateCount_def)

lemma lifecycle_states_index: "lifecycle_states ! lifecycle_index s = s"
  by (cases s) (simp_all add: lifecycle_states_def)

lemma UNIV_LifecycleState: "s \<in> set lifecycle_states"
  by (cases s) (simp_all add: lifecycle_states_def)

lemma allowed_targets_documented: "lifecycle_allowed_targets s = documented_targets s"
  by (cases s; hypsubst; code_simp)

lemma allowed_targets_iff:
  "lifecycle_transition_allowed from to \<longleftrightarrow> to \<in> set (lifecycle_allowed_targets from)"
proof -
  let ?mask = "kTargets ! lifecycle_index from"
  have "lifecycle_index from \<noteq> kStateCount" "lifecycle_index to \<noteq> kStateCount"
    using lifecycle_index_less [of "from"] lifecycle_index_less [of to] by simp_all
  moreover have "to = lifecycle_states ! index \<longleftrightarrow> index = lifecycle_index to"
    if "index < kStateCount" for index
  proof -
    have "\<forall>i \<in> set [0..<9]. lifecycle_index (lifecycle_states ! i) = i"
      by (simp add: lifecycle_states_def upt_rec)
    then have "lifecycle_index (lifecycle_states ! index) = index"
      using that by (simp add: kStateCount_def)
    then show ?thesis using lifecycle_states_index [of to] by metis
  qed
  ultimately show ?thesis
    using lifecycle_index_less [of to]
    by (auto simp: lifecycle_transition_allowed_def lifecycle_allowed_targets_def Let_def image_iff)
qed

lemma transition_allowed_targets:
  "lifecycle_transition_allowed from to \<longleftrightarrow> to \<in> set (documented_targets from)"
  by (simp add: allowed_targets_iff allowed_targets_documented)

lemma terminal_iff: "lifecycle_state_is_terminal s \<longleftrightarrow> s = LS_Retired"
  by (cases s; hypsubst; code_simp)

lemma transition_allowed_irrefl: "\<not> lifecycle_transition_allowed s s"
  by (cases s) (simp_all add: transition_allowed_targets)

section \<open>Reachability\<close>

text \<open>The states a module can come through by legal moves.\<close>

inductive lifecycle_path :: "LifecycleState \<Rightarrow> LifecycleState \<Rightarrow> bool" where
  path_here: "lifecycle_path s s"
| path_move: "lifecycle_path s t \<Longrightarrow> lifecycle_transition_allowed t u \<Longrightarrow> lifecycle_path s u"

lemma path_trans: "lifecycle_path t u \<Longrightarrow> lifecycle_path s t \<Longrightarrow> lifecycle_path s u"
  by (induction rule: lifecycle_path.induct) (auto intro: path_move)

lemma path_from_retired:
  assumes "lifecycle_path s t" "s = LS_Retired"
  shows "t = LS_Retired"
  using assms by (induction rule: lifecycle_path.induct) (auto simp: transition_allowed_targets)

lemma path_steps:
  assumes "successively lifecycle_transition_allowed (s # ts)"
  shows "lifecycle_path s (last (s # ts))"
  using assms
proof (induction ts rule: rev_induct)
  case Nil
  then show ?case by (simp add: path_here)
next
  case (snoc t ts)
  from snoc.prems have "successively lifecycle_transition_allowed (s # ts)"
    and "lifecycle_transition_allowed (last (s # ts)) t"
    using successively_append_iff [of _ "s # ts" "[t]"] by auto
  then show ?case using snoc.IH by (auto intro: path_move)
qed

lemma path_to_retired: "lifecycle_path s LS_Retired"
proof -
  have direct: "lifecycle_path s LS_Retired" if "lifecycle_transition_allowed s LS_Retired" for s
    using path_move [OF path_here that] .
  have via: "lifecycle_path s LS_Retired" if "lifecycle_transition_allowed s LS_Removed" for s
    using path_steps [of s "[LS_Removed, LS_Retired]"] that
    by (simp add: transition_allowed_targets)
  show ?thesis
    by (cases s) (auto simp: transition_allowed_targets path_here intro: direct via)
qed

text \<open>
  The bit table of the lifecycle machine is the documented one: a move is allowed exactly
  when the target is listed in the comment's row, the listing returns that row in order, a state
  never moves to itself, and only \<open>Retired\<close> is terminal, which holds exactly when its row is
  empty.
\<close>

theorem lifecycle_table_documented:
  "(lifecycle_transition_allowed from to \<longleftrightarrow> to \<in> set (documented_targets from)) \<and>
   lifecycle_allowed_targets from = documented_targets from \<and>
   \<not> lifecycle_transition_allowed from from \<and>
   (lifecycle_state_is_terminal from \<longleftrightarrow> from = LS_Retired) \<and>
   (lifecycle_state_is_terminal from \<longleftrightarrow> lifecycle_allowed_targets from = [])"
  by (cases "from"; cases "to")
    (simp_all add: transition_allowed_targets allowed_targets_documented terminal_iff)

text \<open>
  Retirement is final and always possible: from every state there is a sequence of legal moves
  to \<open>Retired\<close>, and from \<open>Retired\<close> no sequence of legal moves leads anywhere else.
\<close>

theorem lifecycle_retirement:
  "lifecycle_path s LS_Retired \<and> (lifecycle_path LS_Retired t \<longleftrightarrow> t = LS_Retired)"
  using path_to_retired path_from_retired path_here by blast

end
