(* ===== verification/Digests.thy ===== *)
theory Digests
  imports TrxPrelude
begin

text \<open>
  Digests and checksums of \<open>src/src/digest.cpp\<close>: the incremental SHA-256 hasher, the hexadecimal
  form of a digest, the table-driven CRC-32C and FNV-1a. A byte buffer is a list of bytes, and the
  hasher's 64-byte buffer is modelled by its used prefix, so that \<open>buffer_used_\<close> is its length.

  The lemmas show that splitting the input over several \<open>update\<close> calls never changes the digest
  and that the padding loop of \<open>finish\<close> ends and produces the padded message of FIPS 180-4; that the
  CRC table computes the bitwise polynomial division and can be continued from a partial checksum;
  and that the hexadecimal form round-trips.
\<close>

unbundle bit_operations_syntax

section \<open>SHA-256\<close>

text \<open>The round constants, the hexadecimal literals of the source written in decimal.\<close>

definition kSha256K :: "(32 word) list" where
  "kSha256K =
    [
     1116352408, 1899447441, 3049323471, 3921009573, 961987163, 1508970993,
     2453635748, 2870763221, 3624381080, 310598401, 607225278, 1426881987,
     1925078388, 2162078206, 2614888103, 3248222580, 3835390401, 4022224774,
     264347078, 604807628, 770255983, 1249150122, 1555081692, 1996064986,
     2554220882, 2821834349, 2952996808, 3210313671, 3336571891, 3584528711,
     113926993, 338241895, 666307205, 773529912, 1294757372, 1396182291,
     1695183700, 1986661051, 2177026350, 2456956037, 2730485921, 2820302411,
     3259730800, 3345764771, 3516065817, 3600352804, 4094571909, 275423344,
     430227734, 506948616, 659060556, 883997877, 958139571, 1322822218,
     1537002063, 1747873779, 1955562222, 2024104815, 2227730452, 2361852424,
     2428436474, 2756734187, 3204031479, 3329325298]"

definition rotr :: "32 word \<Rightarrow> nat \<Rightarrow> 32 word" where
  "rotr x bits = drop_bit bits x OR push_bit (32 - bits) x"

text \<open>Big-endian words of a block.\<close>

fun block_words :: "byte list \<Rightarrow> (32 word) list" where
  "block_words (a # b # c # d # rest) =
     (push_bit 24 (ucast a) OR push_bit 16 (ucast b) OR push_bit 8 (ucast c) OR ucast d)
       # block_words rest"
| "block_words _ = []"

text \<open>One step of the message schedule: \<open>w\<close> holds the words below index \<open>i = length w\<close>.\<close>

definition schedule_step :: "(32 word) list \<Rightarrow> (32 word) list" where
  "schedule_step w =
     (let i = length w;
          s0 = rotr (w ! (i - 15)) 7 XOR rotr (w ! (i - 15)) 18 XOR drop_bit 3 (w ! (i - 15));
          s1 = rotr (w ! (i - 2)) 17 XOR rotr (w ! (i - 2)) 19 XOR drop_bit 10 (w ! (i - 2))
      in w @ [w ! (i - 16) + s0 + w ! (i - 7) + s1])"

definition message_schedule :: "byte list \<Rightarrow> (32 word) list" where
  "message_schedule block = (schedule_step ^^ 48) (block_words block)"

type_synonym sha_vars =
  "32 word \<times> 32 word \<times> 32 word \<times> 32 word \<times> 32 word \<times> 32 word \<times> 32 word \<times> 32 word"

fun sha_round :: "sha_vars \<Rightarrow> 32 word \<times> 32 word \<Rightarrow> sha_vars" where
  "sha_round (a, b, c, d, e, f, g, h) (k, w) =
     (let s1 = rotr e 6 XOR rotr e 11 XOR rotr e 25;
          ch = (e AND f) XOR (NOT e AND g);
          temp1 = h + s1 + ch + k + w;
          s0 = rotr a 2 XOR rotr a 13 XOR rotr a 22;
          maj = (a AND b) XOR (a AND c) XOR (b AND c);
          temp2 = s0 + maj
      in (temp1 + temp2, a, b, c, d + temp1, e, f, g))"

fun add_vars :: "sha_vars \<Rightarrow> sha_vars \<Rightarrow> sha_vars" where
  "add_vars (a, b, c, d, e, f, g, h) (a', b', c', d', e', f', g', h') =
     (a + a', b + b', c + c', d + d', e + e', f + f', g + g', h + h')"

definition compress :: "sha_vars \<Rightarrow> byte list \<Rightarrow> sha_vars" where
  "compress st block =
     add_vars st (foldl sha_round st (zip kSha256K (message_schedule block)))"

record Sha256 =
  sha_state :: sha_vars
  sha_buffer :: "byte list"
  sha_total :: "64 word"

definition Sha256_init :: Sha256 where
  "Sha256_init =
     \<lparr>sha_state = (0x6a09e667, 0xbb67ae85, 0x3c6ef372, 0xa54ff53a,
                0x510e527f, 0x9b05688c, 0x1f83d9ab, 0x5be0cd19),
      sha_buffer = [], sha_total = 0\<rparr>"

text \<open>\<open>while (length >= 64) { compress(bytes); ... }\<close>: the state and the unread tail.\<close>

function compress_blocks :: "sha_vars \<Rightarrow> byte list \<Rightarrow> sha_vars \<times> byte list" where
  "compress_blocks st bytes =
     (if 64 \<le> length bytes then compress_blocks (compress st (take 64 bytes)) (drop 64 bytes)
      else (st, bytes))"
  by auto
termination by (relation "measure (\<lambda>(_, bytes). length bytes)") auto

declare compress_blocks.simps [simp del]

definition sha_update :: "Sha256 \<Rightarrow> byte list \<Rightarrow> Sha256" where
  "sha_update h bytes =
     (if bytes = [] then h
      else
        let total = sha_total h + word_of_nat (length bytes);
            (st, buffer, rest) =
              (if sha_buffer h \<noteq> [] then
                 let want = 64 - length (sha_buffer h);
                     taken = min (length bytes) want;
                     buffer = sha_buffer h @ take taken bytes;
                     rest = drop taken bytes
                 in if length buffer = 64 then (compress (sha_state h) buffer, [], rest)
                    else (sha_state h, buffer, rest)
               else (sha_state h, [], bytes));
            (st', tail) = compress_blocks st rest
        in \<lparr>sha_state = st', sha_buffer = (if tail \<noteq> [] then tail else buffer),
            sha_total = total\<rparr>)"

text \<open>
  \<open>while (buffer_used_ != 56) update(&zero, 1)\<close>, with fuel: \<open>pad_zeros_done\<close> shows that 64 rounds
  always reach the loop's exit.
\<close>

fun pad_zeros :: "nat \<Rightarrow> Sha256 \<Rightarrow> Sha256" where
  "pad_zeros 0 h = h"
| "pad_zeros (Suc fuel) h =
     (if length (sha_buffer h) \<noteq> 56 then pad_zeros fuel (sha_update h [0]) else h)"

definition be_bytes64 :: "64 word \<Rightarrow> byte list" where
  "be_bytes64 n = map (\<lambda>i. ucast (drop_bit (56 - 8 * i) n AND 0xff)) [0..<8]"

definition be_bytes32 :: "32 word \<Rightarrow> byte list" where
  "be_bytes32 n =
     [ucast (drop_bit 24 n AND 0xff), ucast (drop_bit 16 n AND 0xff),
      ucast (drop_bit 8 n AND 0xff), ucast (n AND 0xff)]"

fun digest_of_vars :: "sha_vars \<Rightarrow> byte list" where
  "digest_of_vars (a, b, c, d, e, f, g, h) = concat (map be_bytes32 [a, b, c, d, e, f, g, h])"

type_synonym Digest = "byte list"

definition sha_finish :: "Sha256 \<Rightarrow> Digest" where
  "sha_finish h =
     (let bit_length = sha_total h * 8;
          h1 = sha_update h [0x80];
          h2 = pad_zeros 64 h1;
          h3 = sha_update h2 (be_bytes64 bit_length)
      in digest_of_vars (sha_state h3))"

definition sha256 :: "byte list \<Rightarrow> Digest" where
  "sha256 bytes = sha_finish (sha_update Sha256_init bytes)"

definition sha256_text :: "string \<Rightarrow> Digest" where
  "sha256_text s = sha256 (map byte_of_char s)"


section \<open>Hexadecimal form, CRC-32C and FNV-1a\<close>

definition digest_is_zero :: "Digest \<Rightarrow> bool" where
  "digest_is_zero d \<longleftrightarrow> (\<forall>b \<in> set d. b = 0)"

definition zero_digest :: Digest where
  "zero_digest = replicate 32 0"

definition kHex :: string where
  "kHex = ''0123456789abcdef''"

definition to_hex :: "Digest \<Rightarrow> string" where
  "to_hex d =
     concat (map (\<lambda>b. [kHex ! unat (drop_bit 4 b AND 0x0f), kHex ! unat (b AND 0x0f)]) d)"

definition nibble :: "char \<Rightarrow> byte option" where
  "nibble ch =
     (let c = byte_of_char ch in
      if byte_of_char CHR ''0'' \<le> c \<and> c \<le> byte_of_char CHR ''9''
      then Some (c - byte_of_char CHR ''0'')
      else if byte_of_char CHR ''a'' \<le> c \<and> c \<le> byte_of_char CHR ''f''
      then Some (c - byte_of_char CHR ''a'' + 10)
      else if byte_of_char CHR ''A'' \<le> c \<and> c \<le> byte_of_char CHR ''F''
      then Some (c - byte_of_char CHR ''A'' + 10)
      else None)"

fun hex_pairs :: "string \<Rightarrow> byte list res" where
  "hex_pairs (h # l # rest) =
     (case (nibble h, nibble l) of
        (Some hi, Some lo) \<Rightarrow> try_res (hex_pairs rest) (\<lambda>bs. Inr ((push_bit 4 hi OR lo) # bs))
      | _ \<Rightarrow> Inl InvalidArgument)"
| "hex_pairs _ = Inr []"

definition from_hex :: "string \<Rightarrow> Digest res" where
  "from_hex text = (if length text \<noteq> 64 then Inl InvalidArgument else hex_pairs text)"

definition crc_shift :: "32 word \<Rightarrow> 32 word" where
  "crc_shift crc =
     (if crc AND 1 \<noteq> 0 then drop_bit 1 crc XOR 0x82f63b78 else drop_bit 1 crc)"

definition kCrc32cTable :: "(32 word) list" where
  "kCrc32cTable = map (\<lambda>i. (crc_shift ^^ 8) (word_of_nat i)) [0..<256]"

definition crc32c_byte :: "32 word \<Rightarrow> byte \<Rightarrow> 32 word" where
  "crc32c_byte crc b =
     kCrc32cTable ! unat ((crc XOR ucast b) AND 0xff) XOR drop_bit 8 crc"

definition crc32c :: "byte list \<Rightarrow> 32 word \<Rightarrow> 32 word" where
  "crc32c bytes seed = NOT (foldl crc32c_byte (NOT seed) bytes)"

definition fnv1a64 :: "string \<Rightarrow> 64 word" where
  "fnv1a64 text =
     foldl (\<lambda>hash ch. (hash XOR ucast (byte_of_char ch)) * 0x100000001b3) 0xcbf29ce484222325 text"

section \<open>Incremental hashing\<close>

text \<open>The hasher after exactly the message \<open>msg\<close>, however it was fed.\<close>

definition sha_after :: "byte list \<Rightarrow> Sha256" where
  "sha_after msg =
     \<lparr>sha_state = fst (compress_blocks (sha_state Sha256_init) msg),
      sha_buffer = snd (compress_blocks (sha_state Sha256_init) msg),
      sha_total = word_of_nat (length msg)\<rparr>"

lemma compress_blocks_short: "length bs < 64 \<Longrightarrow> compress_blocks st bs = (st, bs)"
  by (simp add: compress_blocks.simps)

lemma compress_blocks_full:
  "64 \<le> length bs \<Longrightarrow>
   compress_blocks st bs = compress_blocks (compress st (take 64 bs)) (drop 64 bs)"
  by (subst compress_blocks.simps) simp

lemma compress_blocks_append:
  "compress_blocks st (a @ b) =
     compress_blocks (fst (compress_blocks st a)) (snd (compress_blocks st a) @ b)"
proof (induction st a rule: compress_blocks.induct)
  case (1 st a)
  show ?case
  proof (cases "64 \<le> length a")
    case True
    then show ?thesis
      using 1 compress_blocks_full [of "a @ b" st] compress_blocks_full [of a st] by simp
  next
    case False
    then show ?thesis by (simp add: compress_blocks_short)
  qed
qed

lemma compress_blocks_tail: "length (snd (compress_blocks st a)) = length a mod 64"
proof (induction st a rule: compress_blocks.induct)
  case (1 st a)
  show ?case
    using 1 compress_blocks_full [of a st]
    by (cases "64 \<le> length a") (simp_all add: compress_blocks_short le_mod_geq)
qed

text \<open>The number of zero bytes that brings a message of length \<open>n\<close> to 56 modulo 64.\<close>

definition pad_count :: "nat \<Rightarrow> nat" where
  "pad_count n = (if n mod 64 \<le> 56 then 56 - n mod 64 else 120 - n mod 64)"

lemma pad_count_less: "pad_count n < 64"
proof -
  have "n mod 64 < 64" by simp
  then show ?thesis unfolding pad_count_def by (cases "n mod 64 \<le> 56"; simp; linarith)
qed

lemma pad_count_Suc: "n mod 64 \<noteq> 56 \<Longrightarrow> pad_count n = Suc (pad_count (Suc n))"
proof -
  assume n: "n mod 64 \<noteq> 56"
  have l: "n mod 64 < 64" by simp
  consider "n mod 64 < 56" | "n mod 64 = 63" | "56 < n mod 64" "n mod 64 < 63" using n l by linarith
  then show ?thesis by cases (simp_all add: pad_count_def mod_Suc)
qed

lemma pad_count_zero: "n mod 64 = 56 \<Longrightarrow> pad_count n = 0"
  by (simp add: pad_count_def)

lemma pad_count_sum: "(n + pad_count n) mod 64 = 56"
proof -
  have "(n + pad_count n) mod 64 = (n mod 64 + pad_count n) mod 64" by presburger
  also have "n mod 64 + pad_count n = 56 \<or> n mod 64 + pad_count n = 120"
    using mod_less_divisor [of 64 n] by (simp add: pad_count_def del: mod_less_divisor)
  then have "(n mod 64 + pad_count n) mod 64 = 56" by auto
  finally show ?thesis .
qed

lemma sha_after_Nil: "sha_after [] = Sha256_init"
  by (simp add: sha_after_def compress_blocks_short Sha256_init_def)

lemma sha_after_buffer: "length (sha_buffer (sha_after msg)) = length msg mod 64"
  by (simp add: sha_after_def compress_blocks_tail)

lemma sha_update_after: "sha_update (sha_after a) b = sha_after (a @ b)"
proof (cases "b = []")
  case True
  then show ?thesis by (simp add: sha_update_def)
next
  case False
  let ?st = "fst (compress_blocks (sha_state Sha256_init) a)"
  let ?t = "snd (compress_blocks (sha_state Sha256_init) a)"
  have t: "length ?t < 64" by (simp add: compress_blocks_tail)
  have ab: "compress_blocks (sha_state Sha256_init) (a @ b) = compress_blocks ?st (?t @ b)"
    by (rule compress_blocks_append)
  consider "?t = []" | "?t \<noteq> []" "length ?t + length b < 64" | "?t \<noteq> []" "64 \<le> length ?t + length b"
    by linarith
  then show ?thesis
  proof cases
    case 1
    with False ab show ?thesis
      by (simp add: sha_update_def sha_after_def split_beta)
  next
    case 2
    with False ab show ?thesis
      by (simp add: sha_update_def sha_after_def split_beta compress_blocks_short)
  next
    case 3
    have "compress_blocks ?st (?t @ b) =
        compress_blocks (compress ?st (?t @ take (64 - length ?t) b)) (drop (64 - length ?t) b)"
      using 3 t compress_blocks_full [of "?t @ b" ?st] by simp
    moreover have "length (?t @ take (64 - length ?t) b) = 64" using 3 t by simp
    ultimately show ?thesis
      using 3 t False ab
      by (simp add: sha_update_def sha_after_def split_beta Let_def min_def)
  qed
qed

lemma pad_zeros_after:
  "pad_count (length m) \<le> fuel \<Longrightarrow>
   pad_zeros fuel (sha_after m) = sha_after (m @ replicate (pad_count (length m)) 0)"
proof (induction fuel arbitrary: m)
  case 0
  then show ?case by simp
next
  case (Suc fuel)
  show ?case
  proof (cases "length m mod 64 = 56")
    case True
    then show ?thesis by (simp add: sha_after_buffer pad_count_zero)
  next
    case False
    note k = pad_count_Suc [OF this]
    then have "pad_zeros fuel (sha_after (m @ [0])) =
        sha_after ((m @ [0]) @ replicate (pad_count (length (m @ [0]))) 0)"
      using Suc.prems by (intro Suc.IH) simp
    then show ?thesis
      using False unfolding k by (simp add: sha_after_buffer sha_update_after)
  qed
qed

text \<open>The padding of FIPS 180-4: a one bit, zeros up to 56 modulo 64, the length in bits.\<close>

definition sha_padding :: "byte list \<Rightarrow> byte list" where
  "sha_padding m =
     0x80 # replicate (pad_count (Suc (length m))) 0 @ be_bytes64 (word_of_nat (8 * length m))"

lemma be_bytes64_length [simp]: "length (be_bytes64 n) = 8"
  by (simp add: be_bytes64_def)

lemma padded_length: "64 dvd length (m @ sha_padding m)"
proof -
  let ?n = "Suc (length m)"
  have "(?n + pad_count ?n + 8) mod 64 = ((?n + pad_count ?n) mod 64 + 8) mod 64"
    by (simp only: mod_add_left_eq)
  also have "\<dots> = 0" by (simp only: pad_count_sum) simp
  finally have "64 dvd ?n + pad_count ?n + 8" by (rule mod_0_imp_dvd)
  moreover have "length (m @ sha_padding m) = ?n + pad_count ?n + 8"
    by (simp add: sha_padding_def)
  ultimately show ?thesis by (simp only:)
qed

lemma digest_of_vars_length [simp]: "length (digest_of_vars v) = 32"
  by (induction v rule: digest_of_vars.induct) (simp add: be_bytes32_def)

lemma sha_finish_after:
  "sha_finish (sha_after m) =
     digest_of_vars (fst (compress_blocks (sha_state Sha256_init) (m @ sha_padding m)))"
proof -
  let ?m = "m @ [0x80]"
  have "pad_zeros 64 (sha_after ?m) = sha_after (?m @ replicate (pad_count (length ?m)) 0)"
    using pad_zeros_after [of ?m 64] pad_count_less [of "length ?m"] by simp
  moreover have "sha_total (sha_after m) * 8 = word_of_nat (8 * length m)"
    by (simp add: sha_after_def)
  ultimately show ?thesis
    by (simp add: sha_finish_def sha_update_after sha_padding_def) (simp add: sha_after_def)
qed

lemma sha256_length [simp]: "length (sha256 m) = 32"
  by (simp add: sha256_def sha_finish_def Let_def)

section \<open>Hexadecimal round trip\<close>

lemma nibble_kHex:
  assumes "n < 16"
  shows "nibble (kHex ! n) = Some (word_of_nat n)"
proof -
  have "\<forall>n \<in> set [0..<16]. nibble (kHex ! n) = Some (word_of_nat n)" by code_simp
  with assms show ?thesis by simp
qed

lemma and_nibble: "b AND 0x0f = take_bit 4 (b :: byte)"
  by (simp add: take_bit_eq_mask mask_eq_exp_minus_1)

lemma byte_nibbles: "push_bit 4 (take_bit 4 (drop_bit 4 b)) OR take_bit 4 b = (b :: byte)"
  by (rule bit_word_eqI) (auto simp: bit_simps)

lemma nibble_less: "unat (b AND 0x0f :: byte) < 16"
proof -
  have "b AND 0x0f \<le> 0x0f" by (rule word_and_le1)
  then show ?thesis by (simp add: word_le_nat_alt)
qed

lemma hex_pairs_to_hex: "hex_pairs (to_hex d) = Inr d"
proof (induction d)
  case Nil
  then show ?case by (simp add: to_hex_def)
next
  case (Cons b d)
  then show ?case
    using nibble_less [of b] nibble_less [of "drop_bit 4 b"] byte_nibbles [of b]
    by (simp add: to_hex_def nibble_kHex and_nibble)
qed

lemma to_hex_length [simp]: "length (to_hex d) = 2 * length d"
  by (induction d) (simp_all add: to_hex_def)

lemma from_hex_to_hex: "length d = 32 \<Longrightarrow> from_hex (to_hex d) = Inr d"
  by (simp add: from_hex_def hex_pairs_to_hex)

lemma hex_pairs_Inr_length: "hex_pairs s = Inr d \<Longrightarrow> length d = length s div 2"
  by (induction s arbitrary: d rule: hex_pairs.induct)
    (auto simp: try_res_Inr split: option.splits)

section \<open>CRC-32C\<close>

lemma crc_shift_alt: "crc_shift x = drop_bit 1 x XOR (if bit x 0 then 0x82f63b78 else 0)"
  by (simp add: crc_shift_def bit_0 and_one_eq odd_iff_mod_2_eq_one)

lemma crc_shift_xor: "crc_shift (x XOR y) = crc_shift x XOR crc_shift y"
  by (simp add: crc_shift_alt bit_xor_iff drop_bit_xor xor.assoc xor.left_commute)

lemma crc_shifts_xor: "(crc_shift ^^ n) (x XOR y) = (crc_shift ^^ n) x XOR (crc_shift ^^ n) y"
  by (induction n) (simp_all add: crc_shift_xor)

lemma crc_shifts_high:
  "\<forall>i < n. \<not> bit x i \<Longrightarrow> (crc_shift ^^ n) x = drop_bit n x"
proof (induction n arbitrary: x)
  case 0
  then show ?case by simp
next
  case (Suc n)
  then have "(crc_shift ^^ Suc n) x = crc_shift (drop_bit n x)" by simp
  also have "\<not> bit (drop_bit n x) 0" using Suc.prems by (simp add: bit_drop_bit_eq)
  then have "crc_shift (drop_bit n x) = drop_bit (Suc n) x"
    by (simp add: crc_shift_alt)
  finally show ?case .
qed

lemma crc32c_byte_bitwise: "crc32c_byte crc b = (crc_shift ^^ 8) (crc XOR ucast b)"
proof -
  let ?x = "crc XOR ucast b"
  let ?low = "?x AND 0xff"
  let ?high = "?x AND NOT 0xff"
  have m: "(0xff :: 32 word) = mask 8" by (simp add: mask_eq_exp_minus_1)
  have "?x = ?low XOR ?high"
    by (rule bit_word_eqI) (auto simp: bit_simps)
  moreover have "\<forall>i < 8. \<not> bit ?high i"
    by (simp only: m) (simp add: bit_simps)
  moreover have "drop_bit 8 ?high = drop_bit 8 crc"
    by (simp only: m, rule bit_word_eqI) (auto simp: bit_simps dest: bit_imp_le_length)
  ultimately have split: "(crc_shift ^^ 8) ?x = (crc_shift ^^ 8) ?low XOR drop_bit 8 crc"
    by (metis crc_shifts_high crc_shifts_xor)
  have "?low \<le> 0xff" by (rule word_and_le1)
  then have "unat ?low < 256" by (simp add: word_le_nat_alt)
  then have "kCrc32cTable ! unat ?low = (crc_shift ^^ 8) ?low"
    by (simp add: kCrc32cTable_def)
  with split show ?thesis by (simp add: crc32c_byte_def)
qed

lemma crc32c_append: "crc32c (a @ b) seed = crc32c b (crc32c a seed)"
  by (simp add: crc32c_def)

text \<open>
  SHA-256 is independent of how the input is split: feeding \<open>a\<close> and then \<open>b\<close> leaves the
  same hasher as feeding \<open>a @ b\<close>, so the digest of a list of pieces is the digest of their
  concatenation.
\<close>

theorem sha256_chunking:
  "sha_update (sha_update Sha256_init a) b = sha_update Sha256_init (a @ b) \<and>
   sha_finish (foldl sha_update Sha256_init pieces) = sha256 (concat pieces)"
proof -
  have "foldl sha_update (sha_after m) pieces = sha_after (m @ concat pieces)" for m
    by (induction pieces arbitrary: m) (simp_all add: sha_update_after)
  from this [of "[]"] show ?thesis
    using sha_update_after [of "[]"] sha_update_after [of a b]
    by (simp add: sha_after_Nil sha256_def)
qed

text \<open>
  C39. The digest is that of the padded message: the padding loop of \<open>finish\<close> reaches its exit,
  the blocks compressed are exactly the message, a one bit, the least number of zero bytes and the
  64-bit length, a whole number of blocks; and a digest has 32 bytes.
\<close>

theorem sha256_padded:
  "sha256 m = digest_of_vars (fst (compress_blocks (sha_state Sha256_init) (m @ sha_padding m))) \<and>
   64 dvd length (m @ sha_padding m) \<and>
   length (sha_buffer (pad_zeros 64 (sha_update (sha_update Sha256_init m) [0x80]))) = 56 \<and>
   length (sha256 m) = 32"
proof -
  have "sha_update (sha_update Sha256_init m) [0x80] = sha_after (m @ [0x80])"
    using sha_update_after [of "[]" m] sha_update_after [of m "[0x80]"] by (simp add: sha_after_Nil)
  then have "length (sha_buffer (pad_zeros 64 (sha_update (sha_update Sha256_init m) [0x80]))) = 56"
    using pad_zeros_after [of "m @ [0x80]" 64] pad_count_less [of "length (m @ [0x80])"]
      pad_count_sum [of "length (m @ [0x80])"]
    by (simp add: sha_after_buffer)
  moreover have "sha256 m = sha_finish (sha_after m)"
    using sha_update_after [of "[]" m] by (simp add: sha256_def sha_after_Nil)
  ultimately show ?thesis
    by (simp only: sha_finish_after padded_length digest_of_vars_length simp_thms)
qed

text \<open>
  The table-driven CRC-32C is the bitwise division: each byte shifts the checksum eight times
  through the reflected polynomial, and a checksum can be continued from that of a prefix.
\<close>

theorem crc32c_bitwise:
  "crc32c bytes seed =
     NOT (foldl (\<lambda>crc b. (crc_shift ^^ 8) (crc XOR ucast b)) (NOT seed) bytes) \<and>
   crc32c (bytes @ rest) seed = crc32c rest (crc32c bytes seed)"
proof -
  have "crc32c_byte = (\<lambda>crc b. (crc_shift ^^ 8) (crc XOR ucast b))"
    by (intro ext) (rule crc32c_byte_bitwise)
  then show ?thesis using crc32c_append [of bytes rest seed] by (simp only: crc32c_def simp_thms)
qed

text \<open>
  A digest survives its hexadecimal form: \<open>from_hex\<close> reads back what \<open>to_hex\<close> wrote, and
  whatever \<open>from_hex\<close> accepts has 64 characters and gives 32 bytes.
\<close>

theorem digest_hex_roundtrip:
  "(length d = 32 \<longrightarrow> from_hex (to_hex d) = Inr d) \<and>
   (from_hex s = Inr d' \<longrightarrow> length s = 64 \<and> length d' = 32)"
  using from_hex_to_hex [of d] hex_pairs_Inr_length [of s d'] by (auto simp: from_hex_def)

lemma digest_hex_roundtrip_witness:
  "from_hex (to_hex zero_digest) = Inr zero_digest \<and>
   length (to_hex zero_digest) = 64 \<and> length zero_digest = 32"
proof -
  have "length zero_digest = 32" by (simp add: zero_digest_def)
  then show ?thesis
    using digest_hex_roundtrip [of zero_digest "to_hex zero_digest" zero_digest] by blast
qed

end
