(* ===== verification/Utf8.thy ===== *)
theory Utf8
  imports TrxPrelude
begin

text \<open>
  \<open>is_valid_utf8\<close> of \<open>src/src/canonical.cpp\<close> and the byte-wise string comparison beside it. The
  validator's index loop is a recursion on the unread bytes, consuming a whole sequence per step.
  The specification is the encoding itself: \<open>utf8_encode\<close> writes one Unicode scalar value, and the
  validator accepts exactly the concatenations of such encodings.
\<close>

unbundle bit_operations_syntax

section \<open>The validator\<close>

text \<open>
  The classification of a lead byte: the number of continuation bytes and the range of the first
  of them; \<open>None\<close> for a byte that starts no sequence.
\<close>

definition utf8_lead :: "byte \<Rightarrow> (nat \<times> byte \<times> byte) option" where
  "utf8_lead b =
     (if 0xc2 \<le> b \<and> b \<le> 0xdf then Some (1, 0x80, 0xbf)
      else if b = 0xe0 then Some (2, 0xa0, 0xbf)
      else if 0xe1 \<le> b \<and> b \<le> 0xec then Some (2, 0x80, 0xbf)
      else if b = 0xed then Some (2, 0x80, 0x9f)
      else if 0xee \<le> b \<and> b \<le> 0xef then Some (2, 0x80, 0xbf)
      else if b = 0xf0 then Some (3, 0x90, 0xbf)
      else if 0xf1 \<le> b \<and> b \<le> 0xf3 then Some (3, 0x80, 0xbf)
      else if b = 0xf4 then Some (3, 0x80, 0x8f)
      else None)"

function utf8_valid :: "byte list \<Rightarrow> bool" where
  "utf8_valid [] = True"
| "utf8_valid (b # rest) =
     (if b < 0x80 then utf8_valid rest
      else
        case utf8_lead b of
          None \<Rightarrow> False
        | Some (extra, lower, upper) \<Rightarrow>
            if extra \<ge> length (b # rest) then False
            else if rest ! 0 < lower \<or> rest ! 0 > upper then False
            else if \<exists>k \<in> set [2..<extra + 1]. rest ! (k - 1) < 0x80 \<or> rest ! (k - 1) > 0xbf
            then False
            else utf8_valid (drop extra rest))"
  by pat_completeness auto
termination by (relation "measure length") auto

definition is_valid_utf8 :: "string \<Rightarrow> bool" where
  "is_valid_utf8 s = utf8_valid (map byte_of_char s)"

section \<open>Byte-wise comparison\<close>

text \<open>
  \<open>compare_bytes\<close>: the sign of the first differing byte, else of the length difference.
\<close>

fun compare_bytes :: "string \<Rightarrow> string \<Rightarrow> int" where
  "compare_bytes [] [] = 0"
| "compare_bytes [] (_ # _) = -1"
| "compare_bytes (_ # _) [] = 1"
| "compare_bytes (a # as) (b # bs) =
     (if byte_of_char a \<noteq> byte_of_char b
      then (if byte_of_char a < byte_of_char b then -1 else 1)
      else compare_bytes as bs)"

lemma compare_bytes_less: "compare_bytes a b < 0 \<longleftrightarrow> a < b"
  by (induction a b rule: compare_bytes.induct) (auto simp: byte_of_char_less)

lemma compare_bytes_eq: "compare_bytes a b = 0 \<longleftrightarrow> a = b"
  by (induction a b rule: compare_bytes.induct) auto

lemma compare_bytes_ge: "compare_bytes a b \<ge> 0 \<longleftrightarrow> b \<le> a"
  using compare_bytes_less [of a b] by auto

section \<open>The encoding\<close>

definition unicode_scalar :: "nat \<Rightarrow> bool" where
  "unicode_scalar c \<longleftrightarrow> c < 0xd800 \<or> (0xe000 \<le> c \<and> c < 0x110000)"

definition utf8_encode :: "nat \<Rightarrow> nat list" where
  "utf8_encode c =
     (if c < 0x80 then [c]
      else if c < 0x800 then [0xc0 + c div 64, 0x80 + c mod 64]
      else if c < 0x10000 then [0xe0 + c div 4096, 0x80 + c div 64 mod 64, 0x80 + c mod 64]
      else [0xf0 + c div 262144, 0x80 + c div 4096 mod 64, 0x80 + c div 64 mod 64, 0x80 + c mod 64])"

definition utf8_bytes :: "nat list \<Rightarrow> byte list" where
  "utf8_bytes cs = map word_of_nat (concat (map utf8_encode cs))"

section \<open>One well-formed sequence\<close>

text \<open>The byte ranges the validator accepts for one sequence, as numbers.\<close>

definition cont :: "nat \<Rightarrow> bool" where
  "cont x \<longleftrightarrow> 0x80 \<le> x \<and> x \<le> 0xbf"

fun utf8_seq :: "nat list \<Rightarrow> bool" where
  "utf8_seq [a] = (a < 0x80)"
| "utf8_seq [a, b] = (0xc2 \<le> a \<and> a \<le> 0xdf \<and> cont b)"
| "utf8_seq [a, b, c] =
     (0xe0 \<le> a \<and> a \<le> 0xef \<and> cont b \<and> cont c \<and> (a = 0xe0 \<longrightarrow> 0xa0 \<le> b) \<and> (a = 0xed \<longrightarrow> b \<le> 0x9f))"
| "utf8_seq [a, b, c, d] =
     (0xf0 \<le> a \<and> a \<le> 0xf4 \<and> cont b \<and> cont c \<and> cont d \<and> (a = 0xf0 \<longrightarrow> 0x90 \<le> b) \<and>
      (a = 0xf4 \<longrightarrow> b \<le> 0x8f))"
| "utf8_seq _ = False"

lemma utf8_seq_cases:
  assumes "utf8_seq s"
  obtains a where "s = [a]" | a b where "s = [a, b]" | a b c where "s = [a, b, c]"
    | a b c d where "s = [a, b, c, d]"
  using assms by (cases s rule: utf8_seq.cases) auto

lemma cont_digit: "cont x \<Longrightarrow> x - 0x80 < 64"
  by (auto simp: cont_def)

lemma cont_add: "y < 64 \<Longrightarrow> cont (0x80 + y)"
  by (auto simp: cont_def)

lemma radix64:
  fixes x y z :: nat
  assumes "y < 64" "z < 64"
  shows "(x * 4096 + y * 64 + z) div 4096 = x"
    "(x * 4096 + y * 64 + z) div 64 mod 64 = y"
    "(x * 4096 + y * 64 + z) mod 64 = z"
proof -
  have "x * 4096 + y * 64 + z = z + 64 * (x * 64 + y)" by simp
  then have "(x * 4096 + y * 64 + z) div 64 = x * 64 + y" "(x * 4096 + y * 64 + z) mod 64 = z"
    using assms by (simp_all only: div_mult_self2 mod_mult_self2) simp_all
  moreover have "(x * 64 + y) mod 64 = y" "(x * 64 + y) div 64 = x" using assms by simp_all
  moreover have "(x * 4096 + y * 64 + z) div 4096 = (x * 4096 + y * 64 + z) div 64 div 64"
    by (simp add: div_mult2_eq [symmetric])
  ultimately show "(x * 4096 + y * 64 + z) div 4096 = x"
    "(x * 4096 + y * 64 + z) div 64 mod 64 = y"
    "(x * 4096 + y * 64 + z) mod 64 = z" by simp_all
qed

lemma split64:
  fixes c :: nat
  obtains x y z where "c = x * 4096 + y * 64 + z" "y < 64" "z < 64"
    "c div 4096 = x" "c div 64 mod 64 = y" "c mod 64 = z"
proof -
  have "c = c div 64 * 64 + c mod 64" "c div 64 = c div 64 div 64 * 64 + c div 64 mod 64"
    by simp_all
  moreover have "c div 64 div 64 = c div 4096" by (simp add: div_mult2_eq [symmetric])
  ultimately have "c = c div 4096 * 4096 + c div 64 mod 64 * 64 + c mod 64" by linarith
  then show thesis by (rule that) simp_all
qed

lemma surrogate_free:
  assumes "y < 64" "z < 64" "x < 16" "x = 13 \<longrightarrow> y < 32"
  shows "unicode_scalar (x * 4096 + y * 64 + z)"
proof (rule ccontr)
  assume "\<not> ?thesis"
  then have "0xd800 \<le> x * 4096 + y * 64 + z" "x * 4096 + y * 64 + z < 0xe000"
    using assms unfolding unicode_scalar_def by linarith+
  then have "x = 13" using assms by linarith
  then show False using assms \<open>0xd800 \<le> _\<close> \<open>_ < 0xe000\<close> by linarith
qed

lemma utf8_seq_encode:
  assumes "unicode_scalar c"
  shows "utf8_seq (utf8_encode c)"
proof -
  obtain x y z where c: "c = x * 4096 + y * 64 + z" "y < 64" "z < 64"
    "c div 4096 = x" "c div 64 mod 64 = y" "c mod 64 = z" by (rule split64)
  obtain u v where x: "x = u * 64 + v" "v < 64" "x div 64 = u" "x mod 64 = v"
    by (metis div_mod_decomp mod_less_divisor zero_less_numeral)
  have d: "c div 262144 = u" "c div 4096 mod 64 = v" "c div 64 = x * 64 + y"
    using c x by (simp_all add: div_mult2_eq [symmetric])
  note sc = assms [unfolded unicode_scalar_def]
  consider "c < 0x80" | "0x80 \<le> c" "c < 0x800" | "0x800 \<le> c" "c < 0x10000" | "0x10000 \<le> c"
    by linarith
  then show ?thesis
  proof cases
    case 1
    then show ?thesis by (simp add: utf8_encode_def)
  next
    case 2
    then have x0: "x = 0" using c(1) by linarith
    then have "2 \<le> y" "y < 32" using 2 c(1,2,3) by linarith+
    with x0 show ?thesis using 2 c(3,6) d(3) by (simp add: utf8_encode_def cont_add)
  next
    case 3
    then have "u = 0" using c(1) x(1) by linarith
    moreover have "x < 16" "x = 0 \<longrightarrow> 0x20 \<le> y" "x = 0xd \<longrightarrow> y < 0x20" using 3 c(1,2,3) sc by linarith+
    ultimately show ?thesis using 3 c(2-6) by (auto simp: utf8_encode_def cont_add)
  next
    case 4
    have "u < 5" "u = 0 \<longrightarrow> 0x10 \<le> v" "u = 4 \<longrightarrow> v < 0x10" using 4 c(1,2,3) x(1,2) sc by linarith+
    then show ?thesis using 4 c(2,3,5,6) d(1,2) x(2) by (auto simp: utf8_encode_def cont_add)
  qed
qed

lemma utf8_seq_decode:
  assumes "utf8_seq s"
  shows "\<exists>c. unicode_scalar c \<and> s = utf8_encode c"
  using assms
proof (cases rule: utf8_seq_cases)
  case (1 a)
  then show ?thesis using assms
    by (intro exI [of _ a]) (auto simp: unicode_scalar_def utf8_encode_def)
next
  case (2 a b)
  define c where "c = (a - 0xc0) * 64 + (b - 0x80)"
  have ab: "0xc2 \<le> a" "a \<le> 0xdf" "cont b" using assms 2 by auto
  then have "b - 0x80 < 64" by (auto simp: cont_def)
  moreover have "c = (b - 0x80) + 64 * (a - 0xc0)" by (simp add: c_def)
  ultimately have "c div 64 = a - 0xc0" "c mod 64 = b - 0x80"
    by (simp_all only: div_mult_self2 mod_mult_self2) simp_all
  moreover have "0x80 \<le> c" "c < 0x800" using ab by (auto simp: c_def cont_def)
  ultimately show ?thesis using 2 ab
    by (intro exI [of _ c]) (auto simp: unicode_scalar_def utf8_encode_def cont_def)
next
  case (3 a b c)
  define n where "n = (a - 0xe0) * 4096 + (b - 0x80) * 64 + (c - 0x80)"
  have abc: "0xe0 \<le> a" "a \<le> 0xef" "cont b" "cont c" "a = 0xe0 \<longrightarrow> 0xa0 \<le> b" "a = 0xed \<longrightarrow> b \<le> 0x9f"
    using assms 3 by auto
  then have "n div 4096 = a - 0xe0" "n div 64 mod 64 = b - 0x80" "n mod 64 = c - 0x80"
    unfolding n_def using radix64 [OF cont_digit cont_digit] by blast+
  moreover have "b - 0x80 < 64" "c - 0x80 < 64" using abc cont_digit by blast+
  moreover have "a - 0xe0 < 0x10" "a - 0xe0 = 0 \<longrightarrow> 0x20 \<le> b - 0x80"
    "a - 0xe0 = 0xd \<longrightarrow> b - 0x80 < 0x20"
    using abc by (auto simp: cont_def)
  then have "unicode_scalar n" "0x800 \<le> n" "n < 0x10000"
    using surrogate_free [of "b - 0x80" "c - 0x80" "a - 0xe0"] \<open>b - 0x80 < 64\<close> \<open>c - 0x80 < 64\<close>
    unfolding n_def by (blast, linarith+)
  ultimately show ?thesis using 3 abc
    by (intro exI [of _ n]) (auto simp: utf8_encode_def cont_def)
next
  case (4 a b c d)
  define x where "x = (a - 0xf0) * 64 + (b - 0x80)"
  define n where "n = x * 4096 + (c - 0x80) * 64 + (d - 0x80)"
  have abcd: "0xf0 \<le> a" "a \<le> 0xf4" "cont b" "cont c" "cont d" "a = 0xf0 \<longrightarrow> 0x90 \<le> b"
    "a = 0xf4 \<longrightarrow> b \<le> 0x8f"
    using assms 4 by auto
  then have n: "n div 4096 = x" "n div 64 mod 64 = c - 0x80" "n mod 64 = d - 0x80"
    unfolding n_def using radix64 [OF cont_digit cont_digit] by blast+
  have "x = (b - 0x80) + 64 * (a - 0xf0)" "b - 0x80 < 64"
    using abcd by (simp_all add: x_def cont_digit)
  then have x: "x div 64 = a - 0xf0" "x mod 64 = b - 0x80"
    by (simp_all only: div_mult_self2 mod_mult_self2) simp_all
  have "n div 262144 = n div 4096 div 64" by (simp add: div_mult2_eq [symmetric])
  moreover have "0x10 \<le> x" "x < 0x110" using abcd by (auto simp: x_def cont_def)
  then have "unicode_scalar n" "0x10000 \<le> n"
    using abcd by (auto simp: unicode_scalar_def n_def cont_def)
  ultimately show ?thesis using 4 abcd n x
    by (intro exI [of _ n]) (auto simp: utf8_encode_def cont_def)
qed

section \<open>The validator against the encoding\<close>

lemmas byte_nat = word_less_nat_alt word_le_nat_alt

lemma utf8_lead_nat:
  "utf8_lead b =
     (let a = unat b in
      if 0xc2 \<le> a \<and> a \<le> 0xdf then Some (1, 0x80, 0xbf)
      else if 0xe0 \<le> a \<and> a \<le> 0xef
      then Some (2, if a = 0xe0 then 0xa0 else 0x80, if a = 0xed then 0x9f else 0xbf)
      else if 0xf0 \<le> a \<and> a \<le> 0xf4
      then Some (3, if a = 0xf0 then 0x90 else 0x80, if a = 0xf4 then 0x8f else 0xbf)
      else None)"
proof -
  have e: "b = w \<longleftrightarrow> unat b = unat w" for w :: byte by (simp add: word_unat_eq_iff)
  show ?thesis by (auto simp: utf8_lead_def byte_nat e Let_def)
qed

lemma utf8_lead_extra: "utf8_lead b = Some (extra, lo, hi) \<Longrightarrow> extra \<in> {1, 2, 3}"
  by (auto simp: utf8_lead_nat Let_def split: if_splits)

lemma utf8_seq_lead:
  assumes "\<not> b < 0x80" "utf8_seq (map unat (b # s))"
  shows "\<exists>lo hi. utf8_lead b = Some (length s, lo, hi)"
  using assms(2)
proof (cases rule: utf8_seq_cases)
qed (use assms in \<open>auto simp: utf8_lead_nat byte_nat Let_def\<close>)

lemma utf8_lead_seq:
  assumes lead: "utf8_lead b = Some (extra, lo, hi)" and len: "extra \<le> length rest"
  shows "(\<not> (rest ! 0 < lo \<or> rest ! 0 > hi) \<and>
          \<not> (\<exists>k \<in> set [2..<extra + 1]. rest ! (k - 1) < 0x80 \<or> rest ! (k - 1) > 0xbf)) \<longleftrightarrow>
         utf8_seq (map unat (b # take extra rest))"
proof -
  consider "extra = 1" | "extra = 2" | "extra = 3" using utf8_lead_extra [OF lead] by auto
  then show ?thesis
  proof cases
    case 1
    then obtain x xs where "rest = x # xs" using len by (cases rest) auto
    then show ?thesis using 1 lead
      by (auto simp: utf8_lead_nat byte_nat Let_def cont_def split: if_splits)
  next
    case 2
    then obtain x y xs where "rest = x # y # xs"
      using len by (metis Suc_le_length_iff numeral_2_eq_2)
    then show ?thesis using 2 lead
      by (auto simp: utf8_lead_nat byte_nat Let_def cont_def split: if_splits)
  next
    case 3
    then obtain x y z xs where "rest = x # y # z # xs"
      using len by (metis Suc_le_length_iff numeral_3_eq_3)
    then show ?thesis using 3 lead
      by (auto simp: utf8_lead_nat byte_nat Let_def cont_def upt_rec split: if_splits)
  qed
qed

lemma utf8_valid_low: "b < 0x80 \<Longrightarrow> utf8_valid (b # rest) \<longleftrightarrow> utf8_valid rest"
  by simp

lemma utf8_valid_high:
  assumes "\<not> b < 0x80" "utf8_lead b = Some (extra, lo, hi)"
  shows "utf8_valid (b # rest) \<longleftrightarrow>
    extra \<le> length rest \<and> utf8_seq (map unat (b # take extra rest)) \<and> utf8_valid (drop extra rest)"
proof (cases "extra \<le> length rest")
  case True
  have "utf8_valid (b # rest) \<longleftrightarrow>
      (\<not> (rest ! 0 < lo \<or> rest ! 0 > hi) \<and>
       \<not> (\<exists>k \<in> set [2..<extra + 1]. rest ! (k - 1) < 0x80 \<or> rest ! (k - 1) > 0xbf)) \<and>
      utf8_valid (drop extra rest)"
    using True assms by (simp del: upt_Suc set_upt)
  then show ?thesis using utf8_lead_seq [OF assms(2) True] True by blast
next
  case False
  then show ?thesis using assms by simp
qed

lemma utf8_valid_no_lead: "\<not> b < 0x80 \<Longrightarrow> utf8_lead b = None \<Longrightarrow> \<not> utf8_valid (b # rest)"
  by simp

declare utf8_valid.simps(2) [simp del]

lemma utf8_valid_seq:
  assumes "utf8_seq (map unat s)"
  shows "utf8_valid (s @ rest) \<longleftrightarrow> utf8_valid rest"
proof -
  obtain b t where s: "s = b # t" using assms by (cases s) auto
  show ?thesis
  proof (cases "b < 0x80")
    case True
    have "t = []" using assms
      by (cases rule: utf8_seq_cases) (use assms s True in \<open>auto simp: byte_nat cont_def\<close>)
    with True s show ?thesis by (simp add: utf8_valid_low)
  next
    case False
    obtain lo hi where lead: "utf8_lead b = Some (length t, lo, hi)"
      using utf8_seq_lead [OF False] assms s by blast
    show ?thesis using utf8_valid_high [OF False lead, of "t @ rest"] assms s by simp
  qed
qed

lemma utf8_valid_split:
  "utf8_valid bs \<longleftrightarrow> (\<exists>ss. (\<forall>s \<in> set ss. utf8_seq (map unat s)) \<and> bs = concat ss)"
proof
  show "utf8_valid bs \<Longrightarrow> \<exists>ss. (\<forall>s \<in> set ss. utf8_seq (map unat s)) \<and> bs = concat ss"
  proof (induction bs rule: length_induct)
    case (1 bs)
    have seqs: "\<exists>ss. (\<forall>s \<in> set ss. utf8_seq (map unat s)) \<and> cs = concat ss"
      if "length cs < length bs" "utf8_valid cs" for cs
      using 1(1) that by blast
    show ?case
    proof (cases bs)
      case Nil
      then show ?thesis by (intro exI [of _ "[]"]) simp
    next
      case (Cons b rest)
      obtain n where n: "n \<le> length rest" "utf8_seq (map unat (b # take n rest))"
        "utf8_valid (drop n rest)"
      proof (cases "b < 0x80")
        case True
        then show thesis using 1(2) Cons by (intro that [of 0]) (simp_all add: utf8_valid_low byte_nat)
      next
        case False
        with 1(2) Cons obtain extra lo hi where lead: "utf8_lead b = Some (extra, lo, hi)"
          using utf8_valid_no_lead by (cases "utf8_lead b") auto
        then show thesis using that 1(2) Cons utf8_valid_high [OF False lead, of rest] by blast
      qed
      have "length (drop n rest) < length bs" by (simp add: Cons)
      from seqs [OF this n(3)] obtain ss
        where ss: "\<forall>s \<in> set ss. utf8_seq (map unat s)" "drop n rest = concat ss" by blast
      from ss(2) have "bs = concat ((b # take n rest) # ss)"
        using append_take_drop_id [of n rest] Cons by simp
      then show ?thesis using n(2) ss(1) by (intro exI [of _ "(b # take n rest) # ss"]) simp
    qed
  qed
next
  have "(\<forall>s \<in> set ss. utf8_seq (map unat s)) \<Longrightarrow> utf8_valid (concat ss)" for ss
    by (induction ss) (auto simp: utf8_valid_seq)
  then show "\<exists>ss. (\<forall>s \<in> set ss. utf8_seq (map unat s)) \<and> bs = concat ss \<Longrightarrow> utf8_valid bs"
    by blast
qed

lemma utf8_seq_less: "utf8_seq s \<Longrightarrow> \<forall>x \<in> set s. x < 256"
  by (cases s rule: utf8_seq.cases) (auto simp: cont_def)

lemma unat_of_bytes: "\<forall>x \<in> set xs. x < 256 \<Longrightarrow> map unat (map (word_of_nat :: nat \<Rightarrow> byte) xs) = xs"
  by (induction xs) (auto simp: unat_of_nat)

lemma utf8_seqs_decode:
  "\<forall>s \<in> set ss. utf8_seq (map unat s) \<Longrightarrow>
   \<exists>cs. list_all unicode_scalar cs \<and> concat ss = utf8_bytes cs"
proof (induction ss)
  case Nil
  show ?case by (intro exI [of _ "[]"]) (simp add: utf8_bytes_def)
next
  case (Cons s ss)
  then obtain cs where cs: "list_all unicode_scalar cs" "concat ss = utf8_bytes cs" by auto
  obtain c where c: "unicode_scalar c" "map unat s = utf8_encode c"
    using utf8_seq_decode [of "map unat s"] Cons.prems by auto
  have "s = map word_of_nat (map unat s)" by (simp add: o_def)
  then have "s = map word_of_nat (utf8_encode c)" by (simp only: c(2))
  with cs c show ?case
    by (intro exI [of _ "c # cs"]) (simp add: utf8_bytes_def)
qed

text \<open>
  C40. The UTF-8 validator accepts exactly the encodings of sequences of Unicode scalar values: no
  overlong form, no surrogate, nothing above U+10FFFF and no truncated sequence.
\<close>

theorem utf8_valid_iff_encoding:
  "utf8_valid bs \<longleftrightarrow> (\<exists>cs. list_all unicode_scalar cs \<and> bs = utf8_bytes cs)"
proof
  assume "utf8_valid bs"
  then obtain ss where "\<forall>s \<in> set ss. utf8_seq (map unat s)" "bs = concat ss"
    using utf8_valid_split by blast
  then show "\<exists>cs. list_all unicode_scalar cs \<and> bs = utf8_bytes cs"
    using utf8_seqs_decode by blast
next
  assume "\<exists>cs. list_all unicode_scalar cs \<and> bs = utf8_bytes cs"
  then obtain cs where cs: "list_all unicode_scalar cs" "bs = utf8_bytes cs" by blast
  define ss where "ss = map (\<lambda>c. map (word_of_nat :: nat \<Rightarrow> byte) (utf8_encode c)) cs"
  have "utf8_seq (map unat s)" if "s \<in> set ss" for s
  proof -
    from that obtain c where "unicode_scalar c" "s = map word_of_nat (utf8_encode c)"
      using cs(1) by (auto simp: ss_def list_all_iff)
    then show ?thesis
      using utf8_seq_encode [of c] unat_of_bytes [OF utf8_seq_less, of "utf8_encode c"] by simp
  qed
  moreover have "bs = concat ss" by (simp add: cs(2) utf8_bytes_def ss_def map_concat o_def)
  ultimately show "utf8_valid bs" using utf8_valid_split by blast
qed

end
