(* ===== verification/Varint.thy ===== *)
theory Varint
  imports TrxPrelude
begin

text \<open>
  Variable-length integers of \<open>src/src/canonical.cpp\<close>: the base-128 encoding written low digits
  first, its strict reader, and the zigzag mapping of signed values. A signed 64-bit integer is
  its bit pattern. The loop of \<open>read_varint\<close> recurses on the unread bytes and carries the
  code's accumulator, shift and byte count.
\<close>

unbundle bit_operations_syntax

section \<open>Varints and zigzag\<close>

function varint :: "64 word \<Rightarrow> byte list" where
  "varint v =
     (if v \<ge> 0x80 then ucast ((v AND 0x7f) OR 0x80) # varint (drop_bit 7 v) else [ucast v])"
  by auto
termination
proof (relation "measure unat")
  fix v :: "64 word" assume "0x80 \<le> v"
  then have "0 < unat v" by (simp add: word_le_nat_alt)
  moreover have "unat (drop_bit 7 v) = drop_bit 7 (unat v)" by (rule unat_drop_bit_eq)
  moreover have "drop_bit 7 (unat v) = unat v div 2 ^ 7" by (rule drop_bit_eq_div)
  moreover have "unat v div 2 ^ 7 < unat v" using \<open>0 < unat v\<close> by (intro div_less_dividend) simp_all
  ultimately have "unat (drop_bit 7 v) < unat v" by (simp only:)
  then show "(drop_bit 7 v, v) \<in> measure unat" by (simp only: in_measure)
qed simp

declare varint.simps [simp del]

definition zigzag_encode :: "64 word \<Rightarrow> 64 word" where
  "zigzag_encode v = push_bit 1 v XOR signed_drop_bit 63 v"

definition zigzag_decode :: "64 word \<Rightarrow> 64 word" where
  "zigzag_decode v = drop_bit 1 v XOR (NOT (v AND 1) + 1)"

fun varint_loop :: "64 word \<Rightarrow> nat \<Rightarrow> nat \<Rightarrow> byte list \<Rightarrow> (64 word \<times> nat \<times> byte list) res" where
  "varint_loop v shift used [] = Inl Corrupt"
| "varint_loop v shift used (b # bs) =
     (let used' = used + 1 in
      if shift > 63 then Inl Malformed
      else if shift = 63 \<and> b AND 0x7e \<noteq> 0 then Inl Malformed
      else
        let v' = v OR push_bit shift (ucast (b AND 0x7f)) in
        if b AND 0x80 = 0 then Inr (v', used', bs)
        else if used' \<ge> 10 then Inl Malformed
        else varint_loop v' (shift + 7) used' bs)"

definition read_varint :: "byte list \<Rightarrow> (64 word \<times> byte list) res" where
  "read_varint bs =
     try_res (varint_loop 0 0 0 bs)
       (\<lambda>(v, used, rest).
          if used > 1 \<and> drop_bit (7 * (used - 1)) v = 0 then Inl Malformed else Inr (v, rest))"

section \<open>Zigzag\<close>

lemma bit_zigzag_encode:
  "bit (zigzag_encode v) n \<longleftrightarrow> n < 64 \<and> ((0 < n \<and> bit v (n - 1)) \<noteq> bit v 63)"
  unfolding zigzag_encode_def bit_xor_iff bit_push_bit_iff bit_signed_drop_bit_iff
  using bit_imp_le_length [of v n] bit_imp_le_length [of v "63 + n"]
  by (cases n) (auto dest: bit_imp_le_length)

lemma bit_zigzag_decode:
  "bit (zigzag_decode v) n \<longleftrightarrow> n < 64 \<and> (bit v (n + 1) \<noteq> bit v 0)"
proof -
  have "v AND 1 = (if bit v 0 then 1 else 0)"
    by (rule bit_word_eqI) (auto simp: bit_and_iff bit_1_iff intro: gr0I)
  then have "zigzag_decode v = drop_bit 1 v XOR (if bit v 0 then - 1 else 0)"
    by (simp add: zigzag_decode_def)
  then show ?thesis
    by (auto simp: bit_xor_iff bit_drop_bit_eq dest: bit_imp_le_length)
qed

lemma zigzag_inverse [simp]: "zigzag_decode (zigzag_encode v) = v"
proof (rule bit_word_eqI)
  fix n assume n: "n < LENGTH(64)"
  show "bit (zigzag_decode (zigzag_encode v)) n = bit v n"
    using n by (cases "n = 63") (auto simp: bit_zigzag_decode bit_zigzag_encode)
qed

lemma zigzag_inverse' [simp]: "zigzag_encode (zigzag_decode v) = v"
proof (rule bit_word_eqI)
  fix n assume n: "n < LENGTH(64)"
  have "\<not> bit v 64" using bit_imp_le_length [of v 64] by auto
  then show "bit (zigzag_encode (zigzag_decode v)) n = bit v n"
    using n by (cases n) (auto simp: bit_zigzag_decode bit_zigzag_encode)
qed

section \<open>Varints\<close>

text \<open>The bit masks of the varint code, as the simplifier meets them.\<close>

lemma bit_7f [simp]: "bit (127 :: int) n \<longleftrightarrow> n < 7"
proof -
  have "(127 :: int) = mask 7" by (simp add: mask_eq_exp_minus_1)
  then show ?thesis by (simp only: bit_mask_iff) auto
qed

lemma bit_80 [simp]: "bit (128 :: int) n \<longleftrightarrow> n = 7"
proof -
  have "(128 :: int) = push_bit 7 1" by simp
  then show ?thesis by (simp only: bit_push_bit_iff bit_1_iff) auto
qed

lemma bit_7e [simp]: "bit (126 :: int) n \<longleftrightarrow> 0 < n \<and> n < 7"
proof -
  have "(126 :: int) = push_bit 1 (mask 6)" by (simp add: mask_eq_exp_minus_1)
  then show ?thesis by (simp only: bit_push_bit_iff bit_mask_iff) auto
qed

lemma and_80_zero: "b AND 0x80 = 0 \<longleftrightarrow> \<not> bit (b :: byte) 7"
proof -
  have "bit (b AND 0x80) n \<longleftrightarrow> n = 7 \<and> bit b 7" for n by (auto simp: bit_and_iff)
  then show ?thesis by (metis bit_0_eq bit_word_eqI bot_apply bot_bool_def)
qed

lemma less_80_drop: "v < 0x80 \<longleftrightarrow> drop_bit 7 (v :: 64 word) = 0"
proof -
  have "unat (drop_bit 7 v) = drop_bit 7 (unat v)" by (rule unat_drop_bit_eq)
  moreover have "drop_bit 7 (unat v) = unat v div 2 ^ 7" by (rule drop_bit_eq_div)
  moreover have "v < 0x80 \<longleftrightarrow> unat v < 128" by (simp add: word_less_nat_alt)
  moreover have "unat v < 128 \<longleftrightarrow> unat v div 2 ^ 7 = 0" by (simp add: div_eq_0_iff)
  ultimately show ?thesis by (metis unat_0_iff)
qed

lemma varint_small: "drop_bit 7 v = 0 \<Longrightarrow> varint v = [ucast v]"
  by (subst varint.simps) (use less_80_drop [of v] in auto)

lemma varint_large:
  "drop_bit 7 v \<noteq> 0 \<Longrightarrow> varint v = ucast ((v AND 0x7f) OR 0x80) # varint (drop_bit 7 v)"
  by (subst varint.simps) (use less_80_drop [of v] in auto)

text \<open>What the loop adds to the accumulator is the bytes' digits; the digits below stay.\<close>

lemma ucast_7bits: "ucast (v AND 0x7f OR 0x80 :: 64 word) AND (0x7f :: byte) = ucast (v AND 0x7f)"
  by (rule bit_word_eqI) (auto simp: bit_and_iff bit_or_iff bit_ucast_iff)

lemma varint_loop_step:
  assumes "shift \<le> 63" "shift = 63 \<longrightarrow> b AND 0x7e = 0"
  shows "varint_loop v shift used (b # bs) =
    (if \<not> bit b 7 then Inr (v OR push_bit shift (ucast (b AND 0x7f)), used + 1, bs)
     else if used + 1 \<ge> 10 then Inl Malformed
     else varint_loop (v OR push_bit shift (ucast (b AND 0x7f))) (shift + 7) (used + 1) bs)"
  using assms by (auto simp: varint_loop.simps and_80_zero Let_def)

declare varint_loop.simps(2) [simp del]

lemma varint_loop_varint:
  assumes "used < 10" "drop_bit (64 - 7 * used) v = 0"
  shows "varint_loop acc (7 * used) used (varint v @ rest) =
    Inr (acc OR push_bit (7 * used) v, used + length (varint v), rest)"
  using assms
proof (induction v arbitrary: acc used rule: varint.induct)
  case (1 v)
  have top: "\<not> bit v i" if "64 - 7 * used \<le> i" for i
  proof -
    have "\<not> bit (drop_bit (64 - 7 * used) v) (i - (64 - 7 * used))" using 1 by simp
    then show ?thesis using that by (simp add: bit_drop_bit_eq)
  qed
  have le: "7 * used \<le> 63" using 1 by simp
  show ?case
  proof (cases "drop_bit 7 v = 0")
    case True
    have hi: "i < 7" if "bit v i" for i
    proof (rule ccontr)
      assume "\<not> i < 7"
      then have "bit (drop_bit 7 v) (i - 7)" using that by (simp add: bit_drop_bit_eq)
      with True show False by simp
    qed
    have "(ucast (ucast v AND 0x7f :: byte) :: 64 word) = v"
      by (rule bit_word_eqI) (auto simp: bit_ucast_iff bit_and_iff dest: hi)
    moreover have "7 * used = 63 \<longrightarrow> (ucast v :: byte) AND 0x7e = 0"
    proof
      assume "7 * used = 63"
      then have "\<not> bit v i" if "1 \<le> i" for i using top that by simp
      then have "\<not> bit ((ucast v :: byte) AND 0x7e) i" for i
        by (cases i) (auto simp: bit_and_iff bit_ucast_iff)
      then show "(ucast v :: byte) AND 0x7e = 0" by (intro bit_word_eqI) simp
    qed
    moreover have "\<not> bit (ucast v :: byte) 7" using hi [of 7] by (auto simp: bit_ucast_iff)
    ultimately show ?thesis
      using le by (simp only: varint_small [OF True] append_Cons append_Nil)
        (subst varint_loop_step, auto)
  next
    case False
    let ?b = "ucast ((v AND 0x7f) OR 0x80) :: byte"
    have b: "bit ?b 7" "?b AND 0x7f = ucast (v AND 0x7f)"
      by (simp_all add: bit_ucast_iff bit_or_iff ucast_7bits)
    have "used \<le> 8"
    proof (rule ccontr)
      assume "\<not> used \<le> 8"
      then have "used = 9" using 1(2) by simp
      then have "drop_bit 1 v = 0" using 1(3) by simp
      then have "drop_bit 6 (drop_bit 1 v) = 0" by simp
      with False show False by (simp add: drop_bit_drop_bit)
    qed
    moreover have "drop_bit (64 - 7 * (used + 1)) (drop_bit 7 v) = 0"
      using 1(3) \<open>used \<le> 8\<close> by (simp add: drop_bit_drop_bit algebra_simps)
    moreover have "0x80 \<le> v" using False less_80_drop [of v] by (simp add: not_less)
    ultimately have IH: "varint_loop acc' (7 * (used + 1)) (used + 1) (varint (drop_bit 7 v) @ rest) =
        Inr (acc' OR push_bit (7 * (used + 1)) (drop_bit 7 v),
             used + 1 + length (varint (drop_bit 7 v)), rest)" for acc'
      by (intro 1(1)) simp_all
    have "(acc OR push_bit (7 * used) (ucast (?b AND 0x7f))) OR
        push_bit (7 * (used + 1)) (drop_bit 7 v) = acc OR push_bit (7 * used) v"
      unfolding b(2)
    proof (rule bit_word_eqI)
      fix n assume n: "n < LENGTH(64)"
      consider "n < 7 * used" | m where "n = 7 * used + m" "m < 7"
        | m where "n = 7 * used + 7 + m"
        by (metis add.assoc le_add_diff_inverse not_less)
      then show "bit ((acc OR push_bit (7 * used) (ucast (ucast (v AND 0x7f) :: byte))) OR
          push_bit (7 * (used + 1)) (drop_bit 7 v)) n = bit (acc OR push_bit (7 * used) v) n"
        using n by cases (auto simp: bit_or_iff bit_push_bit_iff bit_drop_bit_eq
          bit_ucast_iff bit_and_iff)
    qed
    moreover have "varint_loop acc (7 * used) used (varint v @ rest) =
        varint_loop (acc OR push_bit (7 * used) (ucast (?b AND 0x7f))) (7 * (used + 1)) (used + 1)
          (varint (drop_bit 7 v) @ rest)"
      using \<open>used \<le> 8\<close> b(1)
      by (simp only: varint_large [OF False] append_Cons) (subst varint_loop_step, auto simp: add.commute)
    ultimately show ?thesis
      by (simp only: IH varint_large [OF False]) simp
  qed
qed

lemma varint_loop_Inr:
  assumes "varint_loop acc (7 * used) used bs = Inr (v', used', rest)"
    "used < 10" "drop_bit (7 * used) acc = 0"
  shows "used < used' \<and> take_bit (7 * used) v' = acc \<and>
    (used' = used + 1 \<or> drop_bit (7 * (used' - 1)) v' \<noteq> 0 \<longrightarrow>
     bs = varint (drop_bit (7 * used) v') @ rest)"
  using assms
proof (induction bs arbitrary: acc used)
  case Nil
  then show ?case by simp
next
  case (Cons b bs)
  let ?s = "7 * used"
  let ?acc = "acc OR push_bit ?s (ucast (b AND 0x7f))"
  have acc: "i < ?s" if "bit acc i" for i
  proof (rule ccontr)
    assume "\<not> i < ?s"
    then have "bit (drop_bit ?s acc) (i - ?s)" using that by (simp add: bit_drop_bit_eq)
    with Cons.prems(3) show False by simp
  qed
  have s: "?s \<le> 63" using Cons.prems(2) by simp
  have last: "?s = 63 \<longrightarrow> b AND 0x7e = 0"
    using Cons.prems(1) s by (auto simp: varint_loop.simps Let_def split: if_splits)
  note step = Cons.prems(1) [unfolded varint_loop_step [OF s last]]
  show ?case
  proof (cases "bit b 7")
    case False
    with step have r: "v' = ?acc" "used' = used + 1" "rest = bs" by auto
    have low: "i < 7" if "bit b i" for i
      using that False bit_imp_le_length [of b i] by (cases "i = 7") auto
    have last': "i = 0" if "?s = 63" "bit b i" for i
    proof (rule ccontr)
      assume "i \<noteq> 0"
      then have "bit (b AND 0x7e) i" using that low [of i] by (simp add: bit_and_iff)
      then show False using last that by simp
    qed
    have "take_bit ?s v' = acc" unfolding r
      by (rule bit_word_eqI) (auto simp: bit_take_bit_iff bit_or_iff bit_push_bit_iff dest: acc)
    moreover have d: "drop_bit ?s v' = ucast b" unfolding r
    proof (rule bit_word_eqI)
      fix n assume "n < LENGTH(64)"
      have "bit b n \<Longrightarrow> ?s + n < 64"
        using low [of n] last' [of n] s by (cases "?s = 63") auto
      then show "bit (drop_bit ?s ?acc) n = bit (ucast b :: 64 word) n"
        using \<open>n < _\<close> acc [of "?s + n"] low [of n]
        by (auto simp: bit_drop_bit_eq bit_or_iff bit_push_bit_iff bit_ucast_iff bit_and_iff)
    qed
    moreover have "varint (ucast b) = [b]"
    proof -
      have "drop_bit 7 (ucast b :: 64 word) = 0"
        by (rule bit_word_eqI) (auto simp: bit_drop_bit_eq bit_ucast_iff dest: low)
      moreover have "(ucast (ucast b :: 64 word) :: byte) = b"
        by (rule bit_word_eqI) (auto simp: bit_ucast_iff)
      ultimately show ?thesis by (simp add: varint_small)
    qed
    ultimately show ?thesis using r by simp
  next
    case True
    with step have u: "used + 1 < 10" and
      st: "varint_loop ?acc (7 * (used + 1)) (used + 1) bs = Inr (v', used', rest)"
      by (auto split: if_splits simp: algebra_simps)
    have "drop_bit (7 * (used + 1)) ?acc = 0"
      by (rule bit_word_eqI)
        (auto simp: bit_drop_bit_eq bit_or_iff bit_push_bit_iff bit_ucast_iff bit_and_iff dest: acc)
    note IH = Cons.IH [OF st u this]
    have lowv: "bit v' i = bit ?acc i" if "i < 7 * (used + 1)" for i
    proof -
      have "bit (take_bit (7 * (used + 1)) v') i = bit ?acc i" using IH by simp
      then show ?thesis using that by (simp add: bit_take_bit_iff)
    qed
    have t: "take_bit ?s v' = acc"
    proof (rule bit_word_eqI)
      fix n assume "n < LENGTH(64)"
      show "bit (take_bit ?s v') n = bit acc n"
      proof (cases "n < ?s")
        case True
        then show ?thesis using lowv [of n] by (simp add: bit_take_bit_iff bit_or_iff bit_push_bit_iff)
      next
        case False
        then show ?thesis using acc [of n] by (auto simp: bit_take_bit_iff)
      qed
    qed
    have "b # bs = varint (drop_bit ?s v') @ rest" if min: "drop_bit (7 * (used' - 1)) v' \<noteq> 0"
    proof -
      have bs: "bs = varint (drop_bit (7 * (used + 1)) v') @ rest" using IH min by blast
      have "drop_bit (7 * (used + 1)) v' \<noteq> 0"
      proof
        assume z: "drop_bit (7 * (used + 1)) v' = 0"
        have "used + 1 < used'" using IH by blast
        then have "7 * (used' - 1) = 7 * (used' - 1 - (used + 1)) + 7 * (used + 1)" by simp
        then have "drop_bit (7 * (used' - 1)) v' = drop_bit (7 * (used' - 1 - (used + 1))) (drop_bit (7 * (used + 1)) v')"
          by (simp add: drop_bit_drop_bit)
        with z min show False by simp
      qed
      moreover have dd: "drop_bit 7 (drop_bit ?s v') = drop_bit (7 * (used + 1)) v'"
        by (simp add: drop_bit_drop_bit algebra_simps)
      ultimately have "varint (drop_bit ?s v') =
          ucast ((drop_bit ?s v' AND 0x7f) OR 0x80) # varint (drop_bit (7 * (used + 1)) v')"
        using varint_large [of "drop_bit ?s v'"] by simp
      moreover have "ucast ((drop_bit ?s v' AND 0x7f) OR 0x80) = b"
      proof (rule bit_word_eqI)
        fix n assume "n < LENGTH(8)"
        then show "bit (ucast ((drop_bit ?s v' AND 0x7f) OR 0x80) :: byte) n = bit b n"
          using lowv [of "?s + n"] acc [of "?s + n"] u True
          by (auto simp: bit_drop_bit_eq bit_or_iff bit_push_bit_iff bit_ucast_iff bit_and_iff)
      qed
      ultimately show ?thesis using bs by simp
    qed
    with t IH show ?thesis by (auto simp: Suc_le_eq)
  qed
qed

lemma varint_not_Nil: "varint v \<noteq> []"
  by (subst varint.simps) simp

lemma varint_length_minimal:
  "length (varint v) = 1 \<or> drop_bit (7 * (length (varint v) - 1)) v \<noteq> 0"
proof (induction v rule: varint.induct)
  case (1 v)
  show ?case
  proof (cases "drop_bit 7 v = 0")
    case True
    then show ?thesis by (simp add: varint_small)
  next
    case False
    have "0x80 \<le> v" using False less_80_drop [of v] by (simp add: not_less)
    note IH = 1 [OF this]
    obtain n where n: "length (varint (drop_bit 7 v)) = Suc n"
      by (metis length_greater_0_conv gr0_implies_Suc varint_not_Nil)
    have "length (varint v) = Suc (Suc n)" by (subst varint_large [OF False]) (simp add: n)
    moreover have "drop_bit (7 * Suc n) v = drop_bit (7 * n) (drop_bit 7 v)"
      by (simp add: drop_bit_drop_bit add.commute)
    ultimately show ?thesis using IH False n by (cases n) auto
  qed
qed

lemma drop_bit_64: "drop_bit 64 (v :: 64 word) = 0"
  by (rule bit_word_eqI) (auto simp: bit_drop_bit_eq dest: bit_imp_le_length)

lemma read_varint_varint [simp]: "read_varint (varint v @ rest) = Inr (v, rest)"
proof -
  have "varint_loop 0 0 0 (varint v @ rest) = Inr (v, length (varint v), rest)"
    using varint_loop_varint [of 0 v 0 rest] drop_bit_64 [of v] by simp
  then show ?thesis
    using varint_length_minimal [of v] by (auto simp: read_varint_def)
qed

lemma read_varint_Inr: "read_varint bs = Inr (v, rest) \<longleftrightarrow> bs = varint v @ rest"
proof
  assume "read_varint bs = Inr (v, rest)"
  then obtain used where used: "varint_loop 0 0 0 bs = Inr (v, used, rest)"
    "\<not> (used > 1 \<and> drop_bit (7 * (used - 1)) v = 0)"
    by (auto simp: read_varint_def res_elims)
  then show "bs = varint v @ rest"
    using varint_loop_Inr [of 0 0 bs v used rest] by (cases "used = 1") auto
qed simp

text \<open>
  A varint has exactly one encoding: the reader returns \<open>v\<close> and the rest exactly when the input
  is the writer's encoding of \<open>v\<close> followed by that rest, so no overlong, truncated or overflowing
  form is accepted; and the zigzag mapping of signed values is a bijection.
\<close>

theorem varint_unique:
  "(read_varint bs = Inr (v, rest) \<longleftrightarrow> bs = varint v @ rest) \<and>
   zigzag_decode (zigzag_encode i) = i \<and> zigzag_encode (zigzag_decode i) = i"
  by (simp add: read_varint_Inr)

end
