(* ===== verification/Canonical.thy ===== *)
theory Canonical
  imports Doubles Digests Utf8 Varint
begin

text \<open>
  The canonical document encoding of \<open>src/src/canonical.cpp\<close>: the value tree, its object
  operations, the streaming writer and the strict reader.

  A \<open>Value\<close> is the C++ tagged union with one constructor per kind; a signed integer is its 64-bit
  pattern, a real its IEEE bit pattern, so the code's comparison of reals by bits is equality. The
  writer is its buffer and its \<open>failed\<close> flag. The reader is the list of unread bytes and the node
  count; \<open>position_\<close> is the number of bytes read, so \<open>data_.size()\<close>, which never changes, is an
  argument. The recursion of \<open>read_value_at_depth\<close> is on the levels that are left below
  \<open>max_depth\<close>: no level left is the code's depth error.

  The lemmas show that the reader reads back what the writer wrote, that it accepts only documents
  the writer would have written byte for byte, and the laws of the object operations.
\<close>

unbundle bit_operations_syntax

section \<open>Limits and values\<close>

record CanonicalLimits =
  max_document_bytes :: "64 word"
  max_string_bytes :: "64 word"
  max_binary_bytes :: "64 word"
  max_elements :: "64 word"
  max_object_fields :: "64 word"
  max_depth :: "64 word"
  max_nodes :: "64 word"

definition limits_default :: CanonicalLimits where
  "limits_default =
     \<lparr>max_document_bytes = push_bit 20 1, max_string_bytes = push_bit 10 64,
      max_binary_bytes = push_bit 10 256, max_elements = 65536, max_object_fields = 4096,
      max_depth = 24, max_nodes = 131072\<rparr>"

definition limits_request :: CanonicalLimits where
  "limits_request =
     \<lparr>max_document_bytes = push_bit 10 256, max_string_bytes = push_bit 10 16,
      max_binary_bytes = push_bit 10 64, max_elements = 8192, max_object_fields = 512,
      max_depth = 12, max_nodes = 16384\<rparr>"

definition limits_snapshot :: CanonicalLimits where
  "limits_snapshot =
     \<lparr>max_document_bytes = push_bit 20 64, max_string_bytes = push_bit 10 64,
      max_binary_bytes = push_bit 20 1, max_elements = push_bit 20 1, max_object_fields = 65536,
      max_depth = 24, max_nodes = push_bit 20 4\<rparr>"

datatype Value =
    VNull
  | VBoolean bool
  | VInteger "64 word"
  | VUnsigned "64 word"
  | VReal double
  | VText string
  | VBinary "byte list"
  | VArray "Value list"
  | VObject "(string \<times> Value) list"

text \<open>
  \<open>Value::object\<close>: stable sort by key, then \<open>std::unique\<close>, which keeps the first of each run of
  equal keys.
\<close>

fun unique_keys :: "(string \<times> Value) list \<Rightarrow> (string \<times> Value) list" where
  "unique_keys (a # b # ms) =
     (if fst a = fst b then unique_keys (a # ms) else a # unique_keys (b # ms))"
| "unique_keys ms = ms"

definition value_object :: "(string \<times> Value) list \<Rightarrow> Value" where
  "value_object ms = VObject (unique_keys (sort_key fst ms))"

text \<open>\<open>number_as_double\<close>: the conversion of an integer rounds to nearest even.\<close>

fun number_as_double :: "Value \<Rightarrow> double option" where
  "number_as_double (VInteger i) = Some (dbl_of_int (sint i))"
| "number_as_double (VUnsigned u) = Some (dbl_of_int (uint u))"
| "number_as_double (VReal d) = Some d"
| "number_as_double _ = None"

text \<open>
  \<open>std::lower_bound\<close> on the members: the first member whose key is not below the needle. The
  members before it and from it on.
\<close>

definition members_below :: "string \<Rightarrow> (string \<times> Value) list \<Rightarrow> (string \<times> Value) list" where
  "members_below key ms = takeWhile (\<lambda>m. compare_bytes (fst m) key < 0) ms"

definition members_from :: "string \<Rightarrow> (string \<times> Value) list \<Rightarrow> (string \<times> Value) list" where
  "members_from key ms = dropWhile (\<lambda>m. compare_bytes (fst m) key < 0) ms"

fun value_find :: "Value \<Rightarrow> string \<Rightarrow> Value option" where
  "value_find (VObject ms) key =
     (case members_from key ms of
        [] \<Rightarrow> None
      | m # _ \<Rightarrow> if compare_bytes (fst m) key \<noteq> 0 then None else Some (snd m))"
| "value_find _ key = None"

text \<open>\<open>set\<close>: the changed object, or \<open>None\<close> where the code returns false.\<close>

fun value_set :: "Value \<Rightarrow> string \<Rightarrow> Value \<Rightarrow> Value option" where
  "value_set (VObject ms) key v =
     (if key = [] then None
      else
        case members_from key ms of
          m # rest \<Rightarrow>
            if compare_bytes (fst m) key = 0
            then Some (VObject (members_below key ms @ (fst m, v) # rest))
            else Some (VObject (members_below key ms @ (key, v) # m # rest))
        | [] \<Rightarrow> Some (VObject (members_below key ms @ [(key, v)])))"
| "value_set _ key v = None"

definition members_set_unique ::
    "(string \<times> Value) list \<Rightarrow> string \<Rightarrow> Value \<Rightarrow> (string \<times> Value) list res" where
  "members_set_unique ms key v =
     (if key = [] then Inl Malformed
      else
        case members_from key ms of
          m # rest \<Rightarrow>
            if compare_bytes (fst m) key = 0 then Inl Malformed
            else Inr (members_below key ms @ (key, v) # m # rest)
        | [] \<Rightarrow> Inr (members_below key ms @ [(key, v)]))"

fun value_set_unique :: "Value \<Rightarrow> string \<Rightarrow> Value \<Rightarrow> Value res" where
  "value_set_unique (VObject ms) key v =
     try_res (members_set_unique ms key v) (\<lambda>ms'. Inr (VObject ms'))"
| "value_set_unique _ key v = Inl Malformed"

section \<open>The writer\<close>

record CanonicalWriter =
  w_buffer :: "byte list"
  w_failed :: bool

definition kTagNull :: byte where "kTagNull = 0x00"
definition kTagFalse :: byte where "kTagFalse = 0x01"
definition kTagTrue :: byte where "kTagTrue = 0x02"
definition kTagInteger :: byte where "kTagInteger = 0x03"
definition kTagReal :: byte where "kTagReal = 0x04"
definition kTagText :: byte where "kTagText = 0x05"
definition kTagBinary :: byte where "kTagBinary = 0x06"
definition kTagArray :: byte where "kTagArray = 0x07"
definition kTagObject :: byte where "kTagObject = 0x08"
definition kTagUnsigned :: byte where "kTagUnsigned = 0x09"

lemmas kTag_defs = kTagNull_def kTagFalse_def kTagTrue_def kTagInteger_def kTagReal_def
  kTagText_def kTagBinary_def kTagArray_def kTagObject_def kTagUnsigned_def

definition writer_empty :: CanonicalWriter where
  "writer_empty = \<lparr>w_buffer = [], w_failed = False\<rparr>"

definition w_append :: "byte list \<Rightarrow> CanonicalWriter \<Rightarrow> CanonicalWriter" where
  "w_append bs w = w\<lparr>w_buffer := w_buffer w @ bs\<rparr>"

definition w_fail :: "CanonicalWriter \<Rightarrow> CanonicalWriter" where
  "w_fail w = w\<lparr>w_failed := True\<rparr>"

definition w_null_value :: "CanonicalWriter \<Rightarrow> CanonicalWriter" where
  "w_null_value w = w_append [kTagNull] w"

definition w_boolean :: "bool \<Rightarrow> CanonicalWriter \<Rightarrow> CanonicalWriter" where
  "w_boolean b w = w_append [if b then kTagTrue else kTagFalse] w"

definition w_integer :: "64 word \<Rightarrow> CanonicalWriter \<Rightarrow> CanonicalWriter" where
  "w_integer v w = w_append (varint (zigzag_encode v)) (w_append [kTagInteger] w)"

definition w_unsigned_integer :: "64 word \<Rightarrow> CanonicalWriter \<Rightarrow> CanonicalWriter" where
  "w_unsigned_integer v w = w_append (varint v) (w_append [kTagUnsigned] w)"

definition le_bytes64 :: "64 word \<Rightarrow> byte list" where
  "le_bytes64 v = map (\<lambda>i. ucast (drop_bit (8 * i) v AND 0xff)) [0..<8]"

definition w_real :: "double \<Rightarrow> CanonicalWriter \<Rightarrow> CanonicalWriter" where
  "w_real d w =
     (if isnan d then w_fail w else w_append (le_bytes64 d) (w_append [kTagReal] w))"

definition text_bytes :: "string \<Rightarrow> byte list" where
  "text_bytes s = map byte_of_char s"

definition w_text :: "string \<Rightarrow> CanonicalWriter \<Rightarrow> CanonicalWriter" where
  "w_text s w =
     (if \<not> is_valid_utf8 s then w_fail w
      else w_append (text_bytes s) (w_append (varint (word_of_nat (length s))) (w_append [kTagText] w)))"

definition w_binary :: "byte list \<Rightarrow> CanonicalWriter \<Rightarrow> CanonicalWriter" where
  "w_binary bs w =
     w_append bs (w_append (varint (word_of_nat (length bs))) (w_append [kTagBinary] w))"

definition w_begin_array :: "64 word \<Rightarrow> CanonicalWriter \<Rightarrow> CanonicalWriter" where
  "w_begin_array n w = w_append (varint n) (w_append [kTagArray] w)"

definition w_begin_object :: "64 word \<Rightarrow> CanonicalWriter \<Rightarrow> CanonicalWriter" where
  "w_begin_object n w = w_append (varint n) (w_append [kTagObject] w)"

text \<open>\<open>end_array\<close> and \<open>end_object\<close> do nothing.\<close>

definition w_field :: "string \<Rightarrow> CanonicalWriter \<Rightarrow> CanonicalWriter" where
  "w_field key w = (if key = [] then w_fail w else w_text key w)"

primrec write_value :: "Value \<Rightarrow> CanonicalWriter \<Rightarrow> CanonicalWriter" where
  "write_value VNull = w_null_value"
| "write_value (VBoolean b) = w_boolean b"
| "write_value (VInteger i) = w_integer i"
| "write_value (VUnsigned u) = w_unsigned_integer u"
| "write_value (VReal d) = w_real d"
| "write_value (VText s) = w_text s"
| "write_value (VBinary bs) = w_binary bs"
| "write_value (VArray vs) =
     (\<lambda>w. foldl (\<lambda>w f. f w) (w_begin_array (word_of_nat (length vs)) w) (map write_value vs))"
| "write_value (VObject ms) =
     (\<lambda>w. foldl (\<lambda>w m. snd m (w_field (fst m) w)) (w_begin_object (word_of_nat (length ms)) w)
        (map (map_prod id write_value) ms))"

definition writer_digest :: "CanonicalWriter \<Rightarrow> Digest" where
  "writer_digest w = (if w_failed w then zero_digest else sha256 (w_buffer w))"

section \<open>The reader\<close>

type_synonym rstate = "byte list \<times> nat"

definition read_tag :: "CanonicalLimits \<Rightarrow> nat \<Rightarrow> byte list \<Rightarrow> (byte \<times> byte list) res" where
  "read_tag L sz bs =
     (if sz > unat (max_document_bytes L) then Inl CapacityExceeded
      else case bs of [] \<Rightarrow> Inl Corrupt | b # rest \<Rightarrow> Inr (b, rest))"

definition read_length :: "64 word \<Rightarrow> byte list \<Rightarrow> (64 word \<times> byte list) res" where
  "read_length max_allowed bs =
     try_res (read_varint bs)
       (\<lambda>(v, rest). if v > max_allowed then Inl CapacityExceeded else Inr (v, rest))"

definition read_bytes_exact :: "64 word \<Rightarrow> byte list \<Rightarrow> (byte list \<times> byte list) res" where
  "read_bytes_exact n bs =
     (if unat n > length bs then Inl Corrupt
      else Inr (take (unat n) bs, drop (unat n) bs))"

fun read_real_loop :: "nat \<Rightarrow> nat \<Rightarrow> 64 word \<Rightarrow> byte list \<Rightarrow> (64 word \<times> byte list) res" where
  "read_real_loop 0 i bits bs = Inr (bits, bs)"
| "read_real_loop (Suc n) i bits [] = Inl Corrupt"
| "read_real_loop (Suc n) i bits (b # bs) =
     read_real_loop n (i + 1) (bits OR push_bit (8 * i) (ucast b)) bs"

definition bytes_text :: "byte list \<Rightarrow> string" where
  "bytes_text bs = map char_of_byte bs"

definition read_text :: "CanonicalLimits \<Rightarrow> byte list \<Rightarrow> (string \<times> byte list) res" where
  "read_text L bs =
     try_res (read_length (max_string_bytes L) bs) (\<lambda>(n, bs).
     try_res (read_bytes_exact n bs) (\<lambda>(raw, bs).
       let text = bytes_text raw in
       if \<not> is_valid_utf8 text then Inl Malformed else Inr (text, bs)))"

fun read_elements ::
    "(rstate \<Rightarrow> (Value \<times> rstate) res) \<Rightarrow> nat \<Rightarrow> rstate \<Rightarrow> (Value list \<times> rstate) res" where
  "read_elements rd 0 st = Inr ([], st)"
| "read_elements rd (Suc n) st =
     try_res (rd st) (\<lambda>(v, st). try_res (read_elements rd n st) (\<lambda>(vs, st). Inr (v # vs, st)))"

fun read_members ::
    "CanonicalLimits \<Rightarrow> nat \<Rightarrow> (rstate \<Rightarrow> (Value \<times> rstate) res) \<Rightarrow> nat \<Rightarrow> string option \<Rightarrow>
     (string \<times> Value) list \<Rightarrow> rstate \<Rightarrow> ((string \<times> Value) list \<times> rstate) res" where
  "read_members L sz rd 0 previous ms st = Inr (ms, st)"
| "read_members L sz rd (Suc n) previous ms (bs, nodes) =
     (if nodes \<ge> unat (max_nodes L) then Inl CapacityExceeded
      else
        try_res (read_tag L sz bs) (\<lambda>(key_tag, bs).
        if key_tag \<noteq> kTagText then Inl Malformed
        else
          try_res (read_text L bs) (\<lambda>(key, bs).
          if key = [] then Inl Malformed
          else if (case previous of None \<Rightarrow> False | Some p \<Rightarrow> compare_bytes p key \<ge> 0)
          then Inl Malformed
          else
            try_res (rd (bs, nodes + 1)) (\<lambda>(v, st).
            try_res (members_set_unique ms key v) (\<lambda>ms.
              read_members L sz rd n (Some key) ms st)))))"

primrec read_value :: "CanonicalLimits \<Rightarrow> nat \<Rightarrow> nat \<Rightarrow> rstate \<Rightarrow> (Value \<times> rstate) res" where
  "read_value L sz 0 = (\<lambda>st. Inl CapacityExceeded)"
| "read_value L sz (Suc levels) = (\<lambda>(bs, nodes).
     if nodes \<ge> unat (max_nodes L) then Inl CapacityExceeded
     else
       let nodes = nodes + 1 in
       try_res (read_tag L sz bs) (\<lambda>(tag, bs).
       if tag = kTagNull then Inr (VNull, bs, nodes)
       else if tag = kTagFalse then Inr (VBoolean False, bs, nodes)
       else if tag = kTagTrue then Inr (VBoolean True, bs, nodes)
       else if tag = kTagInteger then
         try_res (read_varint bs) (\<lambda>(raw, bs). Inr (VInteger (zigzag_decode raw), bs, nodes))
       else if tag = kTagUnsigned then
         try_res (read_varint bs) (\<lambda>(raw, bs). Inr (VUnsigned raw, bs, nodes))
       else if tag = kTagReal then
         try_res (read_real_loop 8 0 0 bs)
           (\<lambda>(bits, bs). if isnan bits then Inl Malformed else Inr (VReal bits, bs, nodes))
       else if tag = kTagText then
         try_res (read_text L bs) (\<lambda>(text, bs). Inr (VText text, bs, nodes))
       else if tag = kTagBinary then
         try_res (read_length (max_binary_bytes L) bs) (\<lambda>(n, bs).
         try_res (read_bytes_exact n bs) (\<lambda>(raw, bs). Inr (VBinary raw, bs, nodes)))
       else if tag = kTagArray then
         try_res (read_length (max_elements L) bs) (\<lambda>(cnt, bs).
         try_res (read_elements (read_value L sz levels) (unat cnt) (bs, nodes))
           (\<lambda>(vs, st). Inr (VArray vs, st)))
       else if tag = kTagObject then
         try_res (read_length (max_object_fields L) bs) (\<lambda>(cnt, bs).
         try_res (read_members L sz (read_value L sz levels) (unat cnt) None [] (bs, nodes))
           (\<lambda>(ms, st). Inr (VObject ms, st)))
       else Inl Malformed))"

definition read_document :: "CanonicalLimits \<Rightarrow> byte list \<Rightarrow> Value res" where
  "read_document L data =
     try_res (read_value L (length data) (unat (max_depth L) + 1) (data, 0))
       (\<lambda>(v, bs, nodes). if bs \<noteq> [] then Inl Malformed else Inr v)"

section \<open>What the writer writes\<close>

text \<open>The bytes of a value that has a canonical form.\<close>

definition text_form :: "string \<Rightarrow> byte list" where
  "text_form s = kTagText # varint (word_of_nat (length s)) @ text_bytes s"

primrec canonical_bytes :: "Value \<Rightarrow> byte list" where
  "canonical_bytes VNull = [kTagNull]"
| "canonical_bytes (VBoolean b) = [if b then kTagTrue else kTagFalse]"
| "canonical_bytes (VInteger i) = kTagInteger # varint (zigzag_encode i)"
| "canonical_bytes (VUnsigned u) = kTagUnsigned # varint u"
| "canonical_bytes (VReal d) = kTagReal # le_bytes64 d"
| "canonical_bytes (VText s) = text_form s"
| "canonical_bytes (VBinary bs) = kTagBinary # varint (word_of_nat (length bs)) @ bs"
| "canonical_bytes (VArray vs) =
     kTagArray # varint (word_of_nat (length vs)) @ concat (map canonical_bytes vs)"
| "canonical_bytes (VObject ms) =
     kTagObject # varint (word_of_nat (length ms)) @
     concat (map (\<lambda>(key, bytes). text_form key @ bytes) (map (map_prod id canonical_bytes) ms))"

text \<open>Values the writer writes without failing.\<close>

primrec writable :: "Value \<Rightarrow> bool" where
  "writable VNull = True"
| "writable (VBoolean b) = True"
| "writable (VInteger i) = True"
| "writable (VUnsigned u) = True"
| "writable (VReal d) = (\<not> isnan d)"
| "writable (VText s) = is_valid_utf8 s"
| "writable (VBinary bs) = True"
| "writable (VArray vs) = list_all id (map writable vs)"
| "writable (VObject ms) =
     list_all (\<lambda>(key, ok). key \<noteq> [] \<and> is_valid_utf8 key \<and> ok) (map (map_prod id writable) ms)"

lemma w_append_append [simp]: "w_append b (w_append a w) = w_append (a @ b) w"
  by (simp add: w_append_def)

lemma w_append_Nil [simp]: "w_append [] w = w"
  by (simp add: w_append_def)

lemma w_text_valid: "is_valid_utf8 s \<Longrightarrow> w_text s w = w_append (text_form s) w"
  by (simp add: w_text_def text_form_def)

lemma foldl_elements:
  "(\<And>v w. v \<in> set vs \<Longrightarrow> write_value v w = w_append (canonical_bytes v) w) \<Longrightarrow>
   foldl (\<lambda>w f. f w) w (map write_value vs) = w_append (concat (map canonical_bytes vs)) w"
  by (induction vs arbitrary: w) simp_all

lemma foldl_members:
  "(\<And>m w. m \<in> set ms \<Longrightarrow> w_field (fst m) w = w_append (text_form (fst m)) w) \<Longrightarrow>
   (\<And>m w. m \<in> set ms \<Longrightarrow> write_value (snd m) w = w_append (canonical_bytes (snd m)) w) \<Longrightarrow>
   foldl (\<lambda>w m. snd m (w_field (fst m) w)) w (map (map_prod id write_value) ms) =
     w_append (concat (map (\<lambda>(key, bytes). text_form key @ bytes)
       (map (map_prod id canonical_bytes) ms))) w"
  by (induction ms arbitrary: w) (simp_all add: split_beta)

lemma write_value_writable: "writable v \<Longrightarrow> write_value v w = w_append (canonical_bytes v) w"
proof (induction v arbitrary: w)
  case (VArray vs)
  then have "foldl (\<lambda>w f. f w) w (map write_value vs) =
      w_append (concat (map canonical_bytes vs)) w" for w
    by (intro foldl_elements) (auto simp: list_all_iff)
  then show ?case by (simp add: w_begin_array_def)
next
  case (VObject ms)
  then have "foldl (\<lambda>w m. snd m (w_field (fst m) w)) w (map (map_prod id write_value) ms) =
     w_append (concat (map (\<lambda>(key, bytes). text_form key @ bytes)
       (map (map_prod id canonical_bytes) ms))) w" for w
    by (intro foldl_members) (force simp: list_all_iff w_field_def w_text_valid)+
  then show ?case by (simp add: w_begin_object_def)
qed (simp_all add: w_null_value_def w_boolean_def w_integer_def w_unsigned_integer_def w_real_def
      w_text_valid w_binary_def)

text \<open>A failure is never forgotten, and every value without canonical form raises it.\<close>

lemma w_failed_append [simp]: "w_failed (w_append bs w) = w_failed w"
  by (simp add: w_append_def)

lemma w_failed_fail [simp]: "w_failed (w_fail w)"
  by (simp add: w_fail_def)

lemma w_failed_field: "w_failed (w_field k w) \<longleftrightarrow> w_failed w \<or> k = [] \<or> \<not> is_valid_utf8 k"
  by (simp add: w_field_def w_text_def)

lemma w_failed_elements:
  "(\<And>v w. v \<in> set vs \<Longrightarrow> w_failed (write_value v w) = (w_failed w \<or> \<not> writable v)) \<Longrightarrow>
   w_failed (foldl (\<lambda>w f. f w) w (map write_value vs)) = (w_failed w \<or> \<not> list_all writable vs)"
  by (induction vs arbitrary: w) auto

lemma w_failed_members:
  "(\<And>m w. m \<in> set ms \<Longrightarrow> w_failed (write_value (snd m) w) = (w_failed w \<or> \<not> writable (snd m))) \<Longrightarrow>
   w_failed (foldl (\<lambda>w m. snd m (w_field (fst m) w)) w (map (map_prod id write_value) ms)) =
     (w_failed w \<or> \<not> list_all (\<lambda>m. fst m \<noteq> [] \<and> is_valid_utf8 (fst m) \<and> writable (snd m)) ms)"
  by (induction ms arbitrary: w) (auto simp: w_failed_field)

lemma w_failed_write: "w_failed (write_value v w) \<longleftrightarrow> w_failed w \<or> \<not> writable v"
proof (induction v arbitrary: w)
  case (VArray vs)
  then show ?case
    by (subst write_value.simps, subst w_failed_elements) (auto simp: w_begin_array_def list_all_iff)
next
  case (VObject ms)
  then show ?case
    by (subst write_value.simps, subst w_failed_members)
      (fastforce simp: w_begin_object_def list_all_iff snds.simps)+
qed (auto simp: w_null_value_def w_boolean_def w_integer_def w_unsigned_integer_def w_real_def
      w_text_def w_binary_def)


lemma write_value_empty:
  "write_value v writer_empty = \<lparr>w_buffer = data, w_failed = False\<rparr> \<longleftrightarrow>
     writable v \<and> data = canonical_bytes v"
proof (cases "writable v")
  case True
  then show ?thesis
    by (auto simp: write_value_writable writer_empty_def w_append_def)
next
  case False
  then have "w_failed (write_value v writer_empty)" by (simp add: w_failed_write)
  then show ?thesis using False by auto
qed

section \<open>What the reader accepts\<close>

text \<open>The nodes a value costs: one for itself and for each value and key below it.\<close>

primrec value_nodes :: "Value \<Rightarrow> nat" where
  "value_nodes VNull = 1"
| "value_nodes (VBoolean b) = 1"
| "value_nodes (VInteger i) = 1"
| "value_nodes (VUnsigned u) = 1"
| "value_nodes (VReal d) = 1"
| "value_nodes (VText s) = 1"
| "value_nodes (VBinary bs) = 1"
| "value_nodes (VArray vs) = 1 + sum_list (map value_nodes vs)"
| "value_nodes (VObject ms) = 1 + sum_list (map (\<lambda>m. 1 + snd m) (map (map_prod id value_nodes) ms))"

definition text_fits :: "CanonicalLimits \<Rightarrow> string \<Rightarrow> bool" where
  "text_fits L s \<longleftrightarrow> length s \<le> unat (max_string_bytes L) \<and> is_valid_utf8 s"

text \<open>
  A value of the canonical form within the size limits, at most \<open>levels\<close> deep: no NaN, valid
  UTF-8 text, and objects with non-empty, strictly ascending keys.
\<close>

primrec fits :: "CanonicalLimits \<Rightarrow> nat \<Rightarrow> Value \<Rightarrow> bool" where
  "fits L 0 = (\<lambda>v. False)"
| "fits L (Suc levels) = (\<lambda>v. case v of
     VReal d \<Rightarrow> \<not> isnan d
   | VText s \<Rightarrow> text_fits L s
   | VBinary bs \<Rightarrow> length bs \<le> unat (max_binary_bytes L)
   | VArray vs \<Rightarrow> length vs \<le> unat (max_elements L) \<and> list_all (fits L levels) vs
   | VObject ms \<Rightarrow>
       length ms \<le> unat (max_object_fields L) \<and> sorted_wrt (<) (map fst ms) \<and>
       list_all (\<lambda>(key, v). key \<noteq> [] \<and> text_fits L key \<and> fits L levels v) ms
   | _ \<Rightarrow> True)"

lemma fits_writable: "fits L levels v \<Longrightarrow> writable v"
proof (induction levels arbitrary: v)
  case 0
  then show ?case by simp
next
  case (Suc levels)
  then show ?case
    by (cases v) (auto simp: list_all_iff text_fits_def split: prod.splits)
qed

lemma bytes_text_bytes [simp]: "bytes_text (text_bytes s) = s"
  by (simp add: bytes_text_def text_bytes_def)

lemma text_bytes_text [simp]: "text_bytes (bytes_text bs) = bs"
  by (simp add: bytes_text_def text_bytes_def o_def)

lemma text_bytes_length [simp]: "length (text_bytes s) = length s" "length (bytes_text bs) = length bs"
  by (simp_all add: text_bytes_def bytes_text_def)

text \<open>A length prefix: read exactly when it is within its limit.\<close>

lemma word_length_le:
  assumes "n \<le> unat (m :: 64 word)"
  shows "word_of_nat n \<le> m \<and> unat (word_of_nat n :: 64 word) = n"
proof -
  have "unat m < 2 ^ LENGTH(64)" by (rule unsigned_less)
  then show ?thesis using assms by (simp add: word_le_nat_alt unat_of_nat)
qed

lemma read_length_Inr:
  "read_length m bs = Inr (n, rest) \<longleftrightarrow> n \<le> m \<and> bs = varint n @ rest"
  by (auto simp: read_length_def res_elims read_varint_Inr not_less)

lemma read_bytes_exact_Inr:
  "read_bytes_exact n bs = Inr (raw, rest) \<longleftrightarrow> bs = raw @ rest \<and> length raw = unat n"
  by (auto simp: read_bytes_exact_def)

lemma length_prefixed:
  fixes m :: "64 word"
  shows "(\<exists>n. n \<le> m \<and> bs = varint n @ rest \<and> length xs = unat n) \<longleftrightarrow>
    length xs \<le> unat m \<and> bs = varint (word_of_nat (length xs)) @ rest"
proof
  assume "\<exists>n. n \<le> m \<and> bs = varint n @ rest \<and> length xs = unat n"
  then show "length xs \<le> unat m \<and> bs = varint (word_of_nat (length xs)) @ rest"
    by (auto simp: word_le_nat_alt)
next
  assume "length xs \<le> unat m \<and> bs = varint (word_of_nat (length xs)) @ rest"
  then show "\<exists>n. n \<le> m \<and> bs = varint n @ rest \<and> length xs = unat n"
    using word_length_le [of "length xs" m] by auto
qed

lemma read_text_Inr:
  "read_text L bs = Inr (s, rest) \<longleftrightarrow>
     text_fits L s \<and> bs = varint (word_of_nat (length s)) @ text_bytes s @ rest"
proof -
  have "read_text L bs = Inr (s, rest) \<longleftrightarrow>
      is_valid_utf8 s \<and> (\<exists>n. n \<le> max_string_bytes L \<and> bs = varint n @ (text_bytes s @ rest) \<and>
        length s = unat n)"
    by (auto simp: read_text_def res_elims read_length_Inr read_bytes_exact_Inr Let_def split: if_splits)
  then show ?thesis by (simp only: length_prefixed text_fits_def) auto
qed

lemma read_binary_Inr:
  "try_res (read_length m bs) (\<lambda>(n, bs). read_bytes_exact n bs) = Inr (raw, rest) \<longleftrightarrow>
     length raw \<le> unat m \<and> bs = varint (word_of_nat (length raw)) @ raw @ rest"
proof -
  have "try_res (read_length m bs) (\<lambda>(n, bs). read_bytes_exact n bs) = Inr (raw, rest) \<longleftrightarrow>
      (\<exists>n. n \<le> m \<and> bs = varint n @ (raw @ rest) \<and> length raw = unat n)"
    by (auto simp: res_elims read_length_Inr read_bytes_exact_Inr)
  then show ?thesis by (simp only: length_prefixed)
qed


text \<open>A real: eight bytes, least significant first.\<close>

lemma bit_ff [simp]: "bit (255 :: int) n \<longleftrightarrow> n < 8"
proof -
  have "(255 :: int) = mask 8" by (simp add: mask_eq_exp_minus_1)
  then show ?thesis by (simp only: bit_mask_iff) auto
qed

lemma take_bit_id: "(\<And>n. bit w n \<Longrightarrow> n < k) \<Longrightarrow> take_bit k w = (w :: 'a::len word)"
  by (rule bit_word_eqI) (auto simp: bit_take_bit_iff)

lemma low_byte_iff:
  assumes acc: "take_bit s acc = acc" and s: "s + 8 \<le> 64"
  shows "take_bit (s + 8) v = acc OR push_bit s (ucast (b :: byte)) \<longleftrightarrow>
    take_bit s (v :: 64 word) = acc \<and> b = ucast (drop_bit s v AND 0xff)" (is "?l \<longleftrightarrow> ?r")
proof -
  have a: "\<not> bit acc i" if "s \<le> i" for i
    using arg_cong [OF acc, of "\<lambda>x. bit x i"] that by (auto simp: bit_take_bit_iff)
  have bb: "\<not> bit b i" if "8 \<le> i" for i using that bit_imp_le_length [of b i] by auto
  have bt: "bit (acc OR push_bit s (ucast b)) i \<longleftrightarrow>
      (if i < s then bit acc i else i < 64 \<and> bit b (i - s))" for i
    using a [of i] bb [of "i - s"] s by (auto simp: bit_or_iff bit_push_bit_iff bit_ucast_iff)
  have "?l \<longleftrightarrow> (\<forall>i. bit (take_bit (s + 8) v) i = bit (acc OR push_bit s (ucast b)) i)"
    by (metis bit_word_eqI)
  also have "\<dots> \<longleftrightarrow> (\<forall>i < s. bit v i = bit acc i) \<and> (\<forall>i < 8. bit v (s + i) = bit b i)"
  proof
    assume H: "\<forall>i. bit (take_bit (s + 8) v) i = bit (acc OR push_bit s (ucast b)) i"
    have "bit v i = bit acc i" if "i < s" for i
      using H [rule_format, of i] that by (simp add: bt bit_take_bit_iff)
    moreover have "bit v (s + i) = bit b i" if "i < 8" for i
      using H [rule_format, of "s + i"] s that by (simp add: bt bit_take_bit_iff)
    ultimately show "(\<forall>i < s. bit v i = bit acc i) \<and> (\<forall>i < 8. bit v (s + i) = bit b i)" by blast
  next
    assume H: "(\<forall>i < s. bit v i = bit acc i) \<and> (\<forall>i < 8. bit v (s + i) = bit b i)"
    have "bit (take_bit (s + 8) v) i = bit (acc OR push_bit s (ucast b)) i" for i
    proof (cases "i < s")
      case True
      then show ?thesis using H by (simp add: bt bit_take_bit_iff)
    next
      case False
      then show ?thesis using H [THEN conjunct2, rule_format, of "i - s"] bb [of "i - s"] s
        by (cases "i - s < 8") (auto simp: bt bit_take_bit_iff not_less)
    qed
    then show "\<forall>i. bit (take_bit (s + 8) v) i = bit (acc OR push_bit s (ucast b)) i" by blast
  qed
  also have "(\<forall>i < s. bit v i = bit acc i) \<longleftrightarrow> take_bit s v = acc"
  proof
    assume "\<forall>i < s. bit v i = bit acc i"
    then show "take_bit s v = acc"
      using a by (intro bit_word_eqI) (metis bit_take_bit_iff not_less)
  next
    assume "take_bit s v = acc"
    then show "\<forall>i < s. bit v i = bit acc i" by (auto simp: bit_take_bit_iff)
  qed
  also have "(\<forall>i < 8. bit v (s + i) = bit b i) \<longleftrightarrow> b = ucast (drop_bit s v AND 0xff)"
  proof
    assume "\<forall>i < 8. bit v (s + i) = bit b i"
    then show "b = ucast (drop_bit s v AND 0xff)"
      by (intro bit_word_eqI) (auto simp: bit_ucast_iff bit_and_iff bit_drop_bit_eq)
  next
    assume "b = ucast (drop_bit s v AND 0xff)"
    then show "\<forall>i < 8. bit v (s + i) = bit b i"
      by (simp only:) (auto simp: bit_ucast_iff bit_and_iff bit_drop_bit_eq)
  qed
  finally show ?thesis .
qed

lemma read_real_loop_Inr:
  assumes "take_bit (8 * i) acc = acc" "i + n \<le> 8"
  shows "read_real_loop n i acc bs = Inr (v, rest) \<longleftrightarrow>
    take_bit (8 * i) v = acc \<and> take_bit (8 * (i + n)) v = v \<and>
    bs = map (\<lambda>j. ucast (drop_bit (8 * j) v AND 0xff)) [i..<i + n] @ rest"
  using assms
proof (induction n arbitrary: i acc bs)
  case 0
  then show ?case by auto
next
  case (Suc n)
  show ?case
  proof (cases bs)
    case Nil
    then show ?thesis by (simp add: upt_conv_Cons del: upt_Suc)
  next
    case (Cons b bs')
    let ?acc = "acc OR push_bit (8 * i) (ucast b)"
    have a: "n < 8 * i" if "bit acc n" for n
      using arg_cong [OF Suc.prems(1), of "\<lambda>x. bit x n"] that by (simp add: bit_take_bit_iff)
    have bb: "n < 8" if "bit b n" for n using that bit_imp_le_length [of b n] by simp
    have "n < 8 * (i + 1)" if "bit ?acc n" for n
      using that a [of n] bb [of "n - 8 * i"]
      by (auto simp: bit_or_iff bit_push_bit_iff bit_ucast_iff)
    then have "take_bit (8 * (i + 1)) ?acc = ?acc" by (rule take_bit_id)
    note IH = Suc.IH [OF this]
    have "take_bit (8 * (i + 1)) v = ?acc \<longleftrightarrow>
        take_bit (8 * i) v = acc \<and> b = ucast (drop_bit (8 * i) v AND 0xff)"
      using low_byte_iff [of "8 * i" acc v b] Suc.prems by (simp add: algebra_simps)
    then show ?thesis
      using IH [of bs'] Suc.prems(2) Cons
      by (auto simp: upt_conv_Cons simp del: upt_Suc)
  qed
qed

lemma read_real_Inr: "read_real_loop 8 0 0 bs = Inr (v, rest) \<longleftrightarrow> bs = le_bytes64 v @ rest"
proof -
  have "take_bit 64 v = v"
    by (rule bit_word_eqI) (auto simp: bit_take_bit_iff dest: bit_imp_le_length)
  then show ?thesis
    using read_real_loop_Inr [of 0 0 8 bs v rest] by (simp add: le_bytes64_def del: upt_Suc)
qed


text \<open>
  \<open>reads M Q bytes nodes rd\<close>: the reader \<open>rd\<close> accepts exactly the encodings of the values in \<open>Q\<close>
  that stay within \<open>M\<close> nodes.
\<close>

definition reads :: "nat \<Rightarrow> (Value \<Rightarrow> bool) \<Rightarrow> (rstate \<Rightarrow> (Value \<times> rstate) res) \<Rightarrow> bool" where
  "reads M Q rd \<longleftrightarrow>
     (\<forall>bs n v rest n'. rd (bs, n) = Inr (v, rest, n') \<longleftrightarrow>
        Q v \<and> bs = canonical_bytes v @ rest \<and> n' = n + value_nodes v \<and> n' \<le> M)"

lemma read_elements_Inr:
  assumes rd: "reads M Q rd" and "n \<le> M"
  shows "read_elements rd c (bs, n) = Inr (vs, rest, n') \<longleftrightarrow>
    length vs = c \<and> list_all Q vs \<and> bs = concat (map canonical_bytes vs) @ rest \<and>
    n' = n + sum_list (map value_nodes vs) \<and> n' \<le> M"
  using assms(2)
proof (induction c arbitrary: bs n vs)
  case 0
  then show ?case by auto
next
  case (Suc c)
  show ?case
  proof
    assume "read_elements rd (Suc c) (bs, n) = Inr (vs, rest, n')"
    then obtain v bs1 n1 vs' where *: "rd (bs, n) = Inr (v, bs1, n1)"
      "read_elements rd c (bs1, n1) = Inr (vs', rest, n')" "vs = v # vs'"
      by (auto simp: res_elims)
    from *(1) have v: "Q v" "bs = canonical_bytes v @ bs1" "n1 = n + value_nodes v" "n1 \<le> M"
      using rd by (simp_all add: reads_def)
    from Suc.IH [OF v(4), of bs1 vs'] *(2,3) v
    show "length vs = Suc c \<and> list_all Q vs \<and> bs = concat (map canonical_bytes vs) @ rest \<and>
        n' = n + sum_list (map value_nodes vs) \<and> n' \<le> M" by simp
  next
    assume R: "length vs = Suc c \<and> list_all Q vs \<and> bs = concat (map canonical_bytes vs) @ rest \<and>
        n' = n + sum_list (map value_nodes vs) \<and> n' \<le> M"
    then obtain v vs' where vs: "vs = v # vs'" by (cases vs) auto
    let ?bs = "concat (map canonical_bytes vs') @ rest"
    have "rd (bs, n) = Inr (v, ?bs, n + value_nodes v)"
      using rd R vs by (simp add: reads_def)
    moreover have "read_elements rd c (?bs, n + value_nodes v) = Inr (vs', rest, n')"
      using R vs by (subst Suc.IH) auto
    ultimately show "read_elements rd (Suc c) (bs, n) = Inr (vs, rest, n')" by (simp add: vs)
  qed
qed

definition member_bytes :: "string \<times> Value \<Rightarrow> byte list" where
  "member_bytes m = text_form (fst m) @ canonical_bytes (snd m)"

definition member_nodes :: "string \<times> Value \<Rightarrow> nat" where
  "member_nodes m = 1 + value_nodes (snd m)"

lemma members_set_unique_snoc:
  assumes "\<forall>m \<in> set ms. fst m < key" "key \<noteq> []"
  shows "members_set_unique ms key v = Inr (ms @ [(key, v)])"
proof -
  have "members_from key ms = []" "members_below key ms = ms"
    using assms(1) by (simp_all add: members_from_def members_below_def compare_bytes_less)
  then show ?thesis using assms(2) by (simp add: members_set_unique_def)
qed

definition member_ok :: "CanonicalLimits \<Rightarrow> (Value \<Rightarrow> bool) \<Rightarrow> string \<times> Value \<Rightarrow> bool" where
  "member_ok L Q m \<longleftrightarrow> fst m \<noteq> [] \<and> text_fits L (fst m) \<and> Q (snd m)"

lemma read_member_step:
  assumes rd: "reads (unat (max_nodes L)) Q rd" and sz: "sz \<le> unat (max_document_bytes L)"
    and asc: "sorted_wrt (<) (map fst ms)"
    and prev: "previous = (if ms = [] then None else Some (fst (last ms)))"
  shows "read_members L sz rd (Suc c) previous ms (bs, n) = Inr res \<longleftrightarrow>
    (\<exists>key v bs1. member_ok L Q (key, v) \<and> sorted_wrt (<) (map fst (ms @ [(key, v)])) \<and>
       bs = member_bytes (key, v) @ bs1 \<and> n + member_nodes (key, v) \<le> unat (max_nodes L) \<and>
       read_members L sz rd c (Some key) (ms @ [(key, v)]) (bs1, n + member_nodes (key, v)) = Inr res)"
proof -
  have below: "(\<forall>m \<in> set ms. fst m < key) \<longleftrightarrow>
      \<not> (case previous of None \<Rightarrow> False | Some p \<Rightarrow> compare_bytes p key \<ge> 0)" for key
  proof (cases ms rule: rev_cases)
    case Nil
    then show ?thesis using prev by simp
  next
    case (snoc ms' m)
    then show ?thesis using prev asc
      by (auto simp: compare_bytes_ge sorted_wrt_append not_le)
  qed
  have sorted: "sorted_wrt (<) (map fst (ms @ [(key, v)])) \<longleftrightarrow> (\<forall>m \<in> set ms. fst m < key)" for key v
    using asc by (auto simp: sorted_wrt_append)
  have rd': "rd (bs, m) = Inr (v, rest, n') \<longleftrightarrow>
      Q v \<and> bs = canonical_bytes v @ rest \<and> n' = m + value_nodes v \<and> n' \<le> unat (max_nodes L)" for bs m v rest n'
    using rd by (simp add: reads_def)
  show ?thesis (is "?l \<longleftrightarrow> ?r")
  proof
    assume ?l
    then obtain bs0 key bs2 v bs1 n1 ms2 where *: "n < unat (max_nodes L)" "bs = kTagText # bs0"
      "read_text L bs0 = Inr (key, bs2)" "key \<noteq> []"
      "\<not> (case previous of None \<Rightarrow> False | Some p \<Rightarrow> compare_bytes p key \<ge> 0)"
      "rd (bs2, n + 1) = Inr (v, bs1, n1)" "members_set_unique ms key v = Inr ms2"
      "read_members L sz rd c (Some key) ms2 (bs1, n1) = Inr res"
      by (auto simp: res_elims read_tag_def split: list.splits if_splits)
    have "ms2 = ms @ [(key, v)]" using * below members_set_unique_snoc by auto
    then show ?r
      using * below sorted by (intro exI [of _ key] exI [of _ v] exI [of _ bs1])
        (auto simp: member_ok_def member_bytes_def member_nodes_def text_form_def read_text_Inr rd')
  next
    assume ?r
    then obtain key v bs1 where *: "member_ok L Q (key, v)"
      "sorted_wrt (<) (map fst (ms @ [(key, v)]))" "bs = member_bytes (key, v) @ bs1"
      "n + member_nodes (key, v) \<le> unat (max_nodes L)"
      "read_members L sz rd c (Some key) (ms @ [(key, v)]) (bs1, n + member_nodes (key, v)) = Inr res"
      by blast
    let ?bs2 = "canonical_bytes v @ bs1"
    have "bs = kTagText # varint (word_of_nat (length key)) @ text_bytes key @ ?bs2"
      using *(3) by (simp add: member_bytes_def text_form_def)
    moreover have "read_text L (varint (word_of_nat (length key)) @ text_bytes key @ ?bs2) =
        Inr (key, ?bs2)"
      using *(1) by (simp add: read_text_Inr member_ok_def)
    moreover have "rd (?bs2, n + 1) = Inr (v, bs1, n + member_nodes (key, v))"
      using *(1,4) by (simp add: rd' member_ok_def member_nodes_def)
    moreover have "members_set_unique ms key v = Inr (ms @ [(key, v)])"
      using *(1,2) sorted by (intro members_set_unique_snoc) (auto simp: member_ok_def)
    ultimately show ?l
      using * below sorted sz by (simp add: read_tag_def member_ok_def member_nodes_def)
  qed
qed

lemma read_members_Inr:
  assumes rd: "reads (unat (max_nodes L)) Q rd" and sz: "sz \<le> unat (max_document_bytes L)"
    and "n \<le> unat (max_nodes L)" "sorted_wrt (<) (map fst ms)"
    "previous = (if ms = [] then None else Some (fst (last ms)))"
  shows "read_members L sz rd c previous ms (bs, n) = Inr (ms', rest, n') \<longleftrightarrow>
    (\<exists>new. ms' = ms @ new \<and> length new = c \<and> list_all (member_ok L Q) new \<and>
       sorted_wrt (<) (map fst ms') \<and> bs = concat (map member_bytes new) @ rest \<and>
       n' = n + sum_list (map member_nodes new) \<and> n' \<le> unat (max_nodes L))"
  using assms(3-5)
proof (induction c arbitrary: bs n ms previous)
  case 0
  then show ?case by auto
next
  case (Suc c)
  show ?case (is "?l \<longleftrightarrow> (\<exists>new. ?R new)")
  proof
    assume ?l
    then obtain key v bs1 where *: "member_ok L Q (key, v)"
      "sorted_wrt (<) (map fst (ms @ [(key, v)]))" "bs = member_bytes (key, v) @ bs1"
      "n + member_nodes (key, v) \<le> unat (max_nodes L)"
      "read_members L sz rd c (Some key) (ms @ [(key, v)]) (bs1, n + member_nodes (key, v)) =
        Inr (ms', rest, n')"
      using read_member_step [OF rd sz Suc.prems(2,3), of c bs n] by blast
    have "Some key = (if ms @ [(key, v)] = [] then None else Some (fst (last (ms @ [(key, v)]))))"
      by simp
    from Suc.IH [OF *(4,2) this, of bs1] *(5) obtain new where
      "ms' = (ms @ [(key, v)]) @ new" "length new = c" "list_all (member_ok L Q) new"
      "sorted_wrt (<) (map fst ms')" "bs1 = concat (map member_bytes new) @ rest"
      "n' = n + member_nodes (key, v) + sum_list (map member_nodes new)" "n' \<le> unat (max_nodes L)"
      by blast
    then have "?R ((key, v) # new)" using * by simp
    then show "\<exists>new. ?R new" by blast
  next
    assume "\<exists>new. ?R new"
    then obtain new where R: "?R new" by blast
    then obtain key v new' where new: "new = (key, v) # new'" by (cases new) auto
    let ?ms = "ms @ [(key, v)]" and ?n = "n + member_nodes (key, v)"
    let ?bs = "concat (map member_bytes new') @ rest"
    have "ms' = ?ms @ new'" using R new by simp
    then have srt: "sorted_wrt (<) (map fst ?ms)"
      using R sorted_wrt_append [of "(<)" "map fst ?ms" "map fst new'"]
      by (metis map_append)
    have "Some key = (if ?ms = [] then None else Some (fst (last ?ms)))" by simp
    from Suc.IH [OF _ srt this, of ?n ?bs] R new
    have "read_members L sz rd c (Some key) ?ms (?bs, ?n) = Inr (ms', rest, n')" by auto
    moreover have "member_ok L Q (key, v)" "bs = member_bytes (key, v) @ ?bs" "?n \<le> unat (max_nodes L)"
      using R new by auto
    ultimately show ?l
      using read_member_step [OF rd sz Suc.prems(2,3), of c bs n] srt by blast
  qed
qed


lemma kTag_distinct [simp]:
  "kTagFalse \<noteq> kTagNull" "kTagTrue \<noteq> kTagNull" "kTagTrue \<noteq> kTagFalse"
  "kTagInteger \<notin> {kTagNull, kTagFalse, kTagTrue}"
  "kTagUnsigned \<notin> {kTagNull, kTagFalse, kTagTrue, kTagInteger}"
  "kTagReal \<notin> {kTagNull, kTagFalse, kTagTrue, kTagInteger, kTagUnsigned}"
  "kTagText \<notin> {kTagNull, kTagFalse, kTagTrue, kTagInteger, kTagUnsigned, kTagReal}"
  "kTagBinary \<notin> {kTagNull, kTagFalse, kTagTrue, kTagInteger, kTagUnsigned, kTagReal, kTagText}"
  "kTagArray \<notin> {kTagNull, kTagFalse, kTagTrue, kTagInteger, kTagUnsigned, kTagReal, kTagText,
     kTagBinary}"
  "kTagObject \<notin> {kTagNull, kTagFalse, kTagTrue, kTagInteger, kTagUnsigned, kTagReal, kTagText,
     kTagBinary, kTagArray}"
  by (simp_all add: kTag_defs)

lemma canonical_bytes_object:
  "canonical_bytes (VObject ms) =
     kTagObject # varint (word_of_nat (length ms)) @ concat (map member_bytes ms)"
  by (simp add: member_bytes_def [abs_def] split_beta o_def)

lemma value_nodes_object: "value_nodes (VObject ms) = 1 + sum_list (map member_nodes ms)"
  by (simp add: member_nodes_def [abs_def] o_def)

lemma list_all_member_ok:
  "list_all (member_ok L Q) ms = list_all (\<lambda>(key, v). key \<noteq> [] \<and> text_fits L key \<and> Q v) ms"
  by (auto simp: member_ok_def list_all_iff)

lemma fits_object:
  "fits L (Suc levels) (VObject ms) \<longleftrightarrow>
     length ms \<le> unat (max_object_fields L) \<and> sorted_wrt (<) (map fst ms) \<and>
     list_all (member_ok L (fits L levels)) ms"
  by (auto simp: member_ok_def list_all_iff)

text \<open>The dispatch on the tag, one clause per tag.\<close>

definition read_tagged ::
    "CanonicalLimits \<Rightarrow> nat \<Rightarrow> (rstate \<Rightarrow> (Value \<times> rstate) res) \<Rightarrow> byte \<Rightarrow> byte list \<Rightarrow> nat \<Rightarrow> (Value \<times> rstate) res"
  where
  "read_tagged L sz rd tag bs nodes =
     (if tag = kTagNull then Inr (VNull, bs, nodes)
      else if tag = kTagFalse then Inr (VBoolean False, bs, nodes)
      else if tag = kTagTrue then Inr (VBoolean True, bs, nodes)
      else if tag = kTagInteger then
        try_res (read_varint bs) (\<lambda>(raw, bs). Inr (VInteger (zigzag_decode raw), bs, nodes))
      else if tag = kTagUnsigned then
        try_res (read_varint bs) (\<lambda>(raw, bs). Inr (VUnsigned raw, bs, nodes))
      else if tag = kTagReal then
        try_res (read_real_loop 8 0 0 bs)
          (\<lambda>(bits, bs). if isnan bits then Inl Malformed else Inr (VReal bits, bs, nodes))
      else if tag = kTagText then
        try_res (read_text L bs) (\<lambda>(text, bs). Inr (VText text, bs, nodes))
      else if tag = kTagBinary then
        try_res (read_length (max_binary_bytes L) bs) (\<lambda>(n, bs).
        try_res (read_bytes_exact n bs) (\<lambda>(raw, bs). Inr (VBinary raw, bs, nodes)))
      else if tag = kTagArray then
        try_res (read_length (max_elements L) bs) (\<lambda>(cnt, bs).
        try_res (read_elements rd (unat cnt) (bs, nodes)) (\<lambda>(vs, st). Inr (VArray vs, st)))
      else if tag = kTagObject then
        try_res (read_length (max_object_fields L) bs) (\<lambda>(cnt, bs).
        try_res (read_members L sz rd (unat cnt) None [] (bs, nodes)) (\<lambda>(ms, st). Inr (VObject ms, st)))
      else Inl Malformed)"

lemma read_tagged_scalar:
  "read_tagged L sz rd kTagNull bs n = Inr (VNull, bs, n)"
  "read_tagged L sz rd kTagFalse bs n = Inr (VBoolean False, bs, n)"
  "read_tagged L sz rd kTagTrue bs n = Inr (VBoolean True, bs, n)"
  "read_tagged L sz rd kTagInteger bs n = Inr (v, rest, n') \<longleftrightarrow>
     (\<exists>i. v = VInteger i \<and> bs = varint (zigzag_encode i) @ rest \<and> n' = n)"
  "read_tagged L sz rd kTagUnsigned bs n = Inr (v, rest, n') \<longleftrightarrow>
     (\<exists>u. v = VUnsigned u \<and> bs = varint u @ rest \<and> n' = n)"
  "read_tagged L sz rd kTagReal bs n = Inr (v, rest, n') \<longleftrightarrow>
     (\<exists>d. v = VReal d \<and> \<not> isnan d \<and> bs = le_bytes64 d @ rest \<and> n' = n)"
  "read_tagged L sz rd kTagText bs n = Inr (v, rest, n') \<longleftrightarrow>
     (\<exists>s. v = VText s \<and> text_fits L s \<and> bs = varint (word_of_nat (length s)) @ text_bytes s @ rest \<and>
          n' = n)"
  "read_tagged L sz rd kTagBinary bs n = Inr (v, rest, n') \<longleftrightarrow>
     (\<exists>raw. v = VBinary raw \<and> length raw \<le> unat (max_binary_bytes L) \<and>
        bs = varint (word_of_nat (length raw)) @ raw @ rest \<and> n' = n)"
proof -
  show "read_tagged L sz rd kTagInteger bs n = Inr (v, rest, n') \<longleftrightarrow>
     (\<exists>i. v = VInteger i \<and> bs = varint (zigzag_encode i) @ rest \<and> n' = n)"
    using kTag_distinct
    by (auto simp: read_tagged_def res_elims read_varint_Inr intro: exI [of _ "zigzag_decode _"])
  show "read_tagged L sz rd kTagUnsigned bs n = Inr (v, rest, n') \<longleftrightarrow>
     (\<exists>u. v = VUnsigned u \<and> bs = varint u @ rest \<and> n' = n)"
    using kTag_distinct by (auto simp: read_tagged_def res_elims read_varint_Inr)
  show "read_tagged L sz rd kTagReal bs n = Inr (v, rest, n') \<longleftrightarrow>
     (\<exists>d. v = VReal d \<and> \<not> isnan d \<and> bs = le_bytes64 d @ rest \<and> n' = n)"
    using kTag_distinct by (auto simp: read_tagged_def res_elims read_real_Inr)
  show "read_tagged L sz rd kTagText bs n = Inr (v, rest, n') \<longleftrightarrow>
     (\<exists>s. v = VText s \<and> text_fits L s \<and> bs = varint (word_of_nat (length s)) @ text_bytes s @ rest \<and>
          n' = n)"
    using kTag_distinct by (auto simp: read_tagged_def res_elims read_text_Inr)
  have "read_tagged L sz rd kTagBinary bs n = Inr (v, rest, n') \<longleftrightarrow>
     (\<exists>raw. v = VBinary raw \<and> n' = n \<and>
        try_res (read_length (max_binary_bytes L) bs) (\<lambda>(n, bs). read_bytes_exact n bs) = Inr (raw, rest))"
    using kTag_distinct by (auto simp: read_tagged_def res_elims)
  then show "read_tagged L sz rd kTagBinary bs n = Inr (v, rest, n') \<longleftrightarrow>
     (\<exists>raw. v = VBinary raw \<and> length raw \<le> unat (max_binary_bytes L) \<and>
        bs = varint (word_of_nat (length raw)) @ raw @ rest \<and> n' = n)"
    by (simp only: read_binary_Inr) blast
qed (use kTag_distinct in \<open>simp_all add: read_tagged_def\<close>)

lemma counted:
  fixes m :: "64 word"
  shows "(\<exists>n bs'. n \<le> m \<and> bs = varint n @ bs' \<and> P (unat n) bs') \<longleftrightarrow>
    (\<exists>c bs'. c \<le> unat m \<and> bs = varint (word_of_nat c) @ bs' \<and> P c bs')"
proof
  assume "\<exists>n bs'. n \<le> m \<and> bs = varint n @ bs' \<and> P (unat n) bs'"
  then obtain n bs' where "n \<le> m" "bs = varint n @ bs'" "P (unat n) bs'" by blast
  then show "\<exists>c bs'. c \<le> unat m \<and> bs = varint (word_of_nat c) @ bs' \<and> P c bs'"
    by (intro exI [of _ "unat n"] exI [of _ bs']) (simp add: word_le_nat_alt)
next
  assume "\<exists>c bs'. c \<le> unat m \<and> bs = varint (word_of_nat c) @ bs' \<and> P c bs'"
  then obtain c bs' where "c \<le> unat m" "bs = varint (word_of_nat c) @ bs'" "P c bs'" by blast
  then show "\<exists>n bs'. n \<le> m \<and> bs = varint n @ bs' \<and> P (unat n) bs'"
    using word_length_le [of c m] by (intro exI [of _ "word_of_nat c"] exI [of _ bs']) simp
qed

lemma read_tagged_array:
  assumes rd: "reads (unat (max_nodes L)) Q rd" and n: "n \<le> unat (max_nodes L)"
  shows "read_tagged L sz rd kTagArray bs n = Inr (v, rest, n') \<longleftrightarrow>
     (\<exists>vs. v = VArray vs \<and> length vs \<le> unat (max_elements L) \<and> list_all Q vs \<and>
        bs = varint (word_of_nat (length vs)) @ concat (map canonical_bytes vs) @ rest \<and>
        n' = n + sum_list (map value_nodes vs) \<and> n' \<le> unat (max_nodes L))"
proof -
  have "read_tagged L sz rd kTagArray bs n = Inr (v, rest, n') \<longleftrightarrow>
      (\<exists>c bs'. c \<le> max_elements L \<and> bs = varint c @ bs' \<and>
        (\<exists>vs. v = VArray vs \<and> read_elements rd (unat c) (bs', n) = Inr (vs, rest, n')))"
    using kTag_distinct by (auto simp: read_tagged_def res_elims read_length_Inr)
  then show ?thesis
    unfolding counted [of "max_elements L" bs "\<lambda>c bs'. \<exists>vs. v = VArray vs \<and>
        read_elements rd c (bs', n) = Inr (vs, rest, n')"]
    unfolding read_elements_Inr [OF rd n] by auto
qed

lemma read_tagged_object:
  assumes rd: "reads (unat (max_nodes L)) Q rd" and n: "n \<le> unat (max_nodes L)"
    and sz: "sz \<le> unat (max_document_bytes L)"
  shows "read_tagged L sz rd kTagObject bs n = Inr (v, rest, n') \<longleftrightarrow>
     (\<exists>ms. v = VObject ms \<and> length ms \<le> unat (max_object_fields L) \<and>
        sorted_wrt (<) (map fst ms) \<and> list_all (member_ok L Q) ms \<and>
        bs = varint (word_of_nat (length ms)) @ concat (map member_bytes ms) @ rest \<and>
        n' = n + sum_list (map member_nodes ms) \<and> n' \<le> unat (max_nodes L))"
proof -
  have "read_tagged L sz rd kTagObject bs n = Inr (v, rest, n') \<longleftrightarrow>
      (\<exists>c bs'. c \<le> max_object_fields L \<and> bs = varint c @ bs' \<and>
        (\<exists>ms. v = VObject ms \<and> read_members L sz rd (unat c) None [] (bs', n) = Inr (ms, rest, n')))"
    using kTag_distinct by (auto simp: read_tagged_def res_elims read_length_Inr)
  moreover have "read_members L sz rd c None [] (bs', n) = Inr (ms, rest, n') \<longleftrightarrow>
      length ms = c \<and> list_all (member_ok L Q) ms \<and> sorted_wrt (<) (map fst ms) \<and>
      bs' = concat (map member_bytes ms) @ rest \<and>
      n' = n + sum_list (map member_nodes ms) \<and> n' \<le> unat (max_nodes L)" for c bs' ms
    using read_members_Inr [OF rd sz n, of "[]" None] by auto
  ultimately show ?thesis
    unfolding counted [of "max_object_fields L" bs "\<lambda>c bs'. \<exists>ms. v = VObject ms \<and>
        read_members L sz rd c None [] (bs', n) = Inr (ms, rest, n')"] by auto
qed


lemma read_value_Suc:
  "read_value L sz (Suc levels) (bs, n) =
     (if n \<ge> unat (max_nodes L) then Inl CapacityExceeded
      else try_res (read_tag L sz bs) (\<lambda>(tag, bs).
        read_tagged L sz (read_value L sz levels) tag bs (n + 1)))"
  by (simp add: read_tagged_def Let_def)

lemma read_tagged_other:
  "read_tagged L sz rd tag bs n = Inr r \<Longrightarrow>
   tag \<in> {kTagNull, kTagFalse, kTagTrue, kTagInteger, kTagUnsigned, kTagReal, kTagText, kTagBinary,
     kTagArray, kTagObject}"
  by (auto simp: read_tagged_def split: if_splits)

declare read_value.simps(2) [simp del]

lemma read_value_reads:
  assumes sz: "sz \<le> unat (max_document_bytes L)"
  shows "reads (unat (max_nodes L)) (fits L levels) (read_value L sz levels)"
proof (induction levels)
  case 0
  then show ?case by (simp add: reads_def)
next
  case (Suc levels)
  let ?rd = "read_value L sz levels" and ?M = "unat (max_nodes L)"
  have A: "read_value L sz (Suc levels) (bs, n) = Inr (v, rest, n') \<longleftrightarrow>
      n < ?M \<and> (\<exists>tag bs'. bs = tag # bs' \<and> read_tagged L sz ?rd tag bs' (n + 1) = Inr (v, rest, n'))"
    for bs n v rest n'
    using sz by (auto simp: read_value_Suc read_tag_def not_le split: list.splits)
  have B: "(n < ?M \<and> (\<exists>tag bs'. bs = tag # bs' \<and>
        read_tagged L sz ?rd tag bs' (n + 1) = Inr (v, rest, n'))) \<longleftrightarrow>
      fits L (Suc levels) v \<and> bs = canonical_bytes v @ rest \<and> n' = n + value_nodes v \<and> n' \<le> ?M"
    (is "?l \<longleftrightarrow> ?r") for bs n v rest n'
  proof
    assume l: ?l
    then obtain tag bs' where *: "n < ?M" "bs = tag # bs'"
      "read_tagged L sz ?rd tag bs' (n + 1) = Inr (v, rest, n')" by blast
    have n: "n + 1 \<le> ?M" using * by simp
    from read_tagged_other [OF *(3)] show ?r
      using *(2,3) n
      by (elim insertE emptyE; hypsubst)
        (simp_all only: read_tagged_scalar read_tagged_array [OF Suc n] read_tagged_object [OF Suc n sz],
          auto simp: text_form_def canonical_bytes_object value_nodes_object list_all_member_ok
            simp del: canonical_bytes.simps(9) value_nodes.simps(9))
  next
    assume r: ?r
    have "value_nodes v \<ge> 1" by (cases v) simp_all
    then have n: "n < ?M" "Suc n \<le> ?M" using r by auto
    have "\<exists>tag bs'. bs = tag # bs' \<and> read_tagged L sz ?rd tag bs' (n + 1) = Inr (v, rest, n')"
    proof (cases v)
      case (VArray vs)
      then show ?thesis using r n(2)
        by (intro exI [of _ kTagArray] exI [of _ "tl bs"])
          (subst read_tagged_array [OF Suc], auto)
    next
      case (VObject ms)
      then show ?thesis using r n(2)
        by (intro exI [of _ kTagObject] exI [of _ "tl bs"])
          (subst read_tagged_object [OF Suc _ sz], auto simp: canonical_bytes_object
             value_nodes_object list_all_member_ok
             simp del: canonical_bytes.simps(9) value_nodes.simps(9))
    qed (use r in \<open>auto simp: read_tagged_scalar text_form_def\<close>)
    with n show ?l by blast
  qed
  show ?case unfolding reads_def by (intro allI) (rule trans [OF A B])
qed

definition document_fits :: "CanonicalLimits \<Rightarrow> Value \<Rightarrow> bool" where
  "document_fits L v \<longleftrightarrow>
     fits L (unat (max_depth L) + 1) v \<and> value_nodes v \<le> unat (max_nodes L)"

lemma read_tag_oversize:
  "sz > unat (max_document_bytes L) \<Longrightarrow> read_value L sz levels st = Inl CapacityExceeded"
  by (cases levels; cases st) (simp_all add: read_value_Suc read_tag_def)

lemma read_document_Inr:
  "read_document L data = Inr v \<longleftrightarrow>
     length data \<le> unat (max_document_bytes L) \<and> document_fits L v \<and> data = canonical_bytes v"
proof (cases "length data \<le> unat (max_document_bytes L)")
  case True
  have "read_document L data = Inr v \<longleftrightarrow>
      (\<exists>n'. read_value L (length data) (unat (max_depth L) + 1) (data, 0) = Inr (v, [], n'))"
    by (auto simp: read_document_def res_elims)
  also have "\<dots> \<longleftrightarrow> document_fits L v \<and> data = canonical_bytes v"
    using read_value_reads [OF True, of "unat (max_depth L) + 1"]
    by (auto simp: reads_def document_fits_def)
  finally show ?thesis using True by blast
next
  case False
  then show ?thesis by (simp add: read_document_def read_tag_oversize)
qed

text \<open>
  C3. Every document has exactly one encoding. The strict reader returns \<open>v\<close> exactly when the data
  are, byte for byte, what the writer produces for \<open>v\<close> without failing, and \<open>v\<close> is within the
  configured limits: so the reader reads back everything the writer wrote, and no other byte string
  (unsorted or duplicate keys, overlong lengths, NaN, bad UTF-8, trailing bytes) decodes at all.
\<close>

theorem read_document_canonical:
  "read_document L data = Inr v \<longleftrightarrow>
     write_value v writer_empty = \<lparr>w_buffer = data, w_failed = False\<rparr> \<and>
     document_fits L v \<and> length data \<le> unat (max_document_bytes L)"
  using fits_writable [of L "unat (max_depth L) + 1" v]
  by (auto simp: read_document_Inr write_value_empty document_fits_def)

text \<open>
  The writer's \<open>failed\<close> flag is exact: it is raised exactly when it was raised before or the
  value holds something without canonical form (a NaN, text or a key that is not UTF-8, an empty
  key), and then the digest is the zero digest; otherwise the bytes are appended to the buffer.
\<close>

theorem writer_failed_exact:
  "(w_failed (write_value v w) \<longleftrightarrow> w_failed w \<or> \<not> writable v) \<and>
   writer_digest (write_value v w) =
     (if w_failed w \<or> \<not> writable v then zero_digest else sha256 (w_buffer w @ canonical_bytes v))"
  by (auto simp: w_failed_write writer_digest_def write_value_writable) (simp add: w_append_def)

lemma writer_failed_exact_witness:
  "w_failed (write_value (VArray [VNull, VReal dbl_nan]) writer_empty) \<and>
   writer_digest (write_value (VArray [VNull, VReal dbl_nan]) writer_empty) = zero_digest \<and>
   writer_digest (write_value VNull writer_empty) = sha256 (canonical_bytes VNull)"
proof -
  have "\<not> writable (VArray [VNull, VReal dbl_nan])" "writable VNull"
    by (simp_all add: dbl_nan_def isnan_code)
  then show ?thesis
    using writer_failed_exact [of "VArray [VNull, VReal dbl_nan]" writer_empty]
      writer_failed_exact [of VNull writer_empty]
    by (simp add: writer_empty_def)
qed


section \<open>Objects as ordered maps\<close>

lemma members_split: "members_below key ms @ members_from key ms = ms"
  by (simp add: members_below_def members_from_def)

lemma members_from_Cons:
  "members_from key (m # ms) = (if fst m < key then members_from key ms else m # ms)"
  "members_below key (m # ms) = (if fst m < key then m # members_below key ms else [])"
  by (simp_all add: members_from_def members_below_def compare_bytes_less)

lemma members_Nil [simp]: "members_from key [] = []" "members_below key [] = []"
  by (simp_all add: members_from_def members_below_def)

lemma oget_above:
  fixes k :: "'k::linorder"
  shows "\<forall>k' \<in> fst ` set ms. k < k' \<Longrightarrow> oget ms k = None"
  unfolding oget_def map_of_eq_None_iff by blast

lemma oget_Cons: "oget ((k', v) # ms) k = (if k' = k then Some v else oget ms k)"
  by (auto simp: oget_def)

lemma value_find_oget: "osorted ms \<Longrightarrow> value_find (VObject ms) key = oget ms key"
proof (induction ms)
  case Nil
  then show ?case by simp
next
  case (Cons m ms)
  obtain k v where m: "m = (k, v)" by (cases m)
  consider "k < key" | "k = key" | "key < k" by (rule linorder_cases)
  then show ?case
  proof cases
    case 3
    then have "oget ms key = None" using Cons.prems m by (intro oget_above) (auto simp: osorted_Cons)
    moreover have "\<not> k < key" "k \<noteq> key" using 3 by simp_all
    ultimately show ?thesis using m by (simp add: members_from_Cons oget_Cons compare_bytes_eq)
  qed (use Cons m in \<open>auto simp: members_from_Cons oget_Cons compare_bytes_eq osorted_Cons\<close>)
qed

lemma value_set_oput:
  assumes "osorted ms" "key \<noteq> []"
  shows "value_set (VObject ms) key v = Some (VObject (oput key v ms))"
  using assms
proof (induction ms)
  case Nil
  then show ?case by simp
next
  case (Cons m ms)
  obtain k u where m: "m = (k, u)" by (cases m)
  show ?case
    using Cons m
    by (auto simp: members_from_Cons compare_bytes_eq osorted_Cons split: list.splits if_splits)
qed

lemma members_set_unique_oput:
  assumes "osorted ms"
  shows "members_set_unique ms key v =
    (if key = [] \<or> oget ms key \<noteq> None then Inl Malformed else Inr (oput key v ms))"
proof (cases "key = []")
  case True
  then show ?thesis by (simp add: members_set_unique_def)
next
  case False
  show ?thesis
    using value_set_oput [OF assms False, of v] value_find_oget [OF assms, of key] False
    by (cases "oget ms key") (auto simp: members_set_unique_def split: list.splits if_splits)
qed

lemma sorted_unique_keys:
  "sorted (map fst ms) \<Longrightarrow>
   osorted (unique_keys ms) \<and> oget (unique_keys ms) key = map_of ms key \<and>
   fst ` set (unique_keys ms) = fst ` set ms"
proof (induction ms rule: unique_keys.induct)
  case (1 a b ms)
  show ?case
  proof (cases "fst a = fst b")
    case True
    then show ?thesis using 1 by (cases a; cases b) auto
  next
    case False
    then have "fst a < fst b" using 1(3) by (simp add: order.strict_iff_order)
    then show ?thesis using 1 False
      by (cases a; cases b) (auto simp: osorted_Cons oget_Cons)
  qed
qed (auto simp: oget_def osorted_Cons)

lemma map_of_filter:
  "map_of xs k = (case filter (\<lambda>m. fst m = k) xs of [] \<Rightarrow> None | m # _ \<Rightarrow> Some (snd m))"
  by (induction xs) auto

lemma map_of_sort_key: "map_of (sort_key fst xs) k = map_of xs k"
  by (simp only: map_of_filter sort_key_stable)

text \<open>
  A canonical object is an ordered map. On members in canonical order, \<open>find\<close> is the lookup,
  \<open>set\<close> with a non-empty key inserts or replaces exactly that key and keeps the order,
  \<open>set_unique\<close> refuses exactly an empty or present key; and \<open>Value::object\<close> builds from any member
  list an object in canonical order where the first occurrence of each key wins.
\<close>

theorem value_object_laws:
  "(osorted ms \<longrightarrow>
      value_find (VObject ms) key = oget ms key \<and>
      value_set (VObject ms) key v = (if key = [] then None else Some (VObject (oput key v ms))) \<and>
      value_set_unique (VObject ms) key v =
        (if key = [] \<or> oget ms key \<noteq> None then Inl Malformed else Inr (VObject (oput key v ms)))) \<and>
   (\<exists>ms'. value_object ms = VObject ms' \<and> osorted ms' \<and>
      value_find (VObject ms') key = map_of ms key \<and> fst ` set ms' = fst ` set ms)"
proof -
  have "sorted (map fst (sort_key fst ms))" by simp
  note u = sorted_unique_keys [OF this, of key]
  then have "value_find (VObject (unique_keys (sort_key fst ms))) key = map_of ms key"
    by (simp add: value_find_oget map_of_sort_key del: value_find.simps)
  then show ?thesis
    using u value_find_oget [of ms key] value_set_oput [of ms key v] members_set_unique_oput [of ms key v]
    by (auto simp: value_object_def simp del: value_find.simps)
qed

lemma value_object_laws_witness:
  "value_find (VObject [(''a'', VNull), (''b'', VBoolean True)]) ''b'' = Some (VBoolean True) \<and>
   value_set_unique (VObject [(''a'', VNull), (''b'', VBoolean True)]) ''b'' VNull = Inl Malformed"
proof -
  have "osorted [(''a'', VNull), (''b'', VBoolean True)]" by code_simp
  then show ?thesis
    using value_object_laws [of "[(''a'', VNull), (''b'', VBoolean True)]" "''b''" VNull]
    by (simp add: oget_def del: value_find.simps value_set_unique.simps)
qed

end
