(* ===== verification/Evidence.thy ===== *)
theory Evidence
  imports Taxonomy Canonical
begin

text \<open>
  Evidence shared by the identity and the capability code: provenance
  (\<open>include/trxreg/provenance.hpp\<close>) and the consensus algorithm, which \<open>build_identity_consensus\<close>
  (\<open>identity.cpp\<close>) and \<open>build_capability_consensus\<close> (\<open>capability.cpp\<close>) both contain, over claims
  in the one and declarations in the other. It is written once over the accessors of a piece of
  evidence, and both builders are instances of it.

  The interface of the algorithm is the locale \<open>agreement\<close>: a comparison of values that is symmetric
  and transitive. Its lemmas say what the outcome of a group means.
\<close>

section \<open>Provenance and authority\<close>

record Provenance =
  pv_kind :: EvidenceKind
  pv_origin :: string
  pv_method :: string
  pv_content_digest :: Digest
  pv_capture_ref :: string

record AuthorityToken =
  at_source :: SourceId
  at_epoch :: SourceEpoch

section \<open>One group of evidence\<close>

text \<open>
  \<open>find_if\<close> on the newest pieces so far: the new list, and the piece the new one displaces.
\<close>

fun place_newest :: "('e \<Rightarrow> 's) \<Rightarrow> 'e \<Rightarrow> 'e list \<Rightarrow> 'e list \<times> 'e list" where
  "place_newest src e [] = ([e], [])"
| "place_newest src e (x # xs) =
     (if src x = src e then (e # xs, [x])
      else let (ys, displaced) = place_newest src e xs in (x # ys, displaced))"

definition newest_per_source ::
    "('e \<Rightarrow> 's) \<Rightarrow> 'e list \<Rightarrow> 'e list \<Rightarrow> 'e list \<times> 'e list" where
  "newest_per_source src live superseded =
     foldl (\<lambda>(newest, superseded) e.
              let (newest, displaced) = place_newest src e newest in (newest, superseded @ displaced))
       ([], superseded) live"

text \<open>The live pieces, at most one per source, and the superseded ones, both in sequence order.\<close>

definition settle ::
    "('e \<Rightarrow> bool) \<Rightarrow> ('e \<Rightarrow> Sequence) \<Rightarrow> ('e \<Rightarrow> 's) \<Rightarrow> 'e list \<Rightarrow> 'e list \<times> 'e list" where
  "settle is_live seq src es =
     (let live = sort_key seq (filter is_live es);
          superseded = sort_key seq (filter (\<lambda>e. \<not> is_live e) es);
          (newest, superseded) = newest_per_source src live superseded
      in (newest, sort_key seq superseded))"

text \<open>The outcome of a group, and the agreed value.\<close>

fun settle_outcome ::
    "('v \<Rightarrow> 'v \<Rightarrow> bool) \<Rightarrow> ('e \<Rightarrow> 'v) \<Rightarrow> 'e list \<Rightarrow> 'e list \<Rightarrow> ConsensusOutcome \<times> 'v option" where
  "settle_outcome eq val [] superseded =
     ((if superseded = [] then CO_Unknown else CO_Superseded), None)"
| "settle_outcome eq val [e] superseded = (CO_SingleSource, Some (val e))"
| "settle_outcome eq val (e # es) superseded =
     (if list_all (\<lambda>x. eq (val e) (val x)) es then (CO_Agreed, Some (val e))
      else (CO_Conflicting, None))"

section \<open>Lemmas on one group\<close>

lemma place_newest_cases:
  assumes "place_newest src e (x # xs) = (ys, d)"
  obtains "src x = src e" "ys = e # xs" "d = [x]"
  | ys' where "src x \<noteq> src e" "place_newest src e xs = (ys', d)" "ys = x # ys'"
  using assms by (auto split: if_splits prod.splits)

lemma place_newest_mset:
  "place_newest src e xs = (ys, d) \<Longrightarrow> mset ys + mset d = add_mset e (mset xs)"
proof (induction xs arbitrary: ys d)
  case (Cons x xs)
  from Cons.prems show ?case
    by (cases rule: place_newest_cases) (use Cons.IH in auto)
qed simp

lemma place_newest_sources:
  "place_newest src e xs = (ys, d) \<Longrightarrow>
   map src ys = (if src e \<in> src ` set xs then map src xs else map src xs @ [src e])"
proof (induction xs arbitrary: ys d)
  case (Cons x xs)
  from Cons.prems show ?case
  proof (cases rule: place_newest_cases)
    case 1
    then show ?thesis by simp
  next
    case (2 ys')
    then show ?thesis using Cons.IH [OF 2(2)] by simp
  qed
qed simp

lemma place_newest_members:
  "place_newest src e xs = (ys, d) \<Longrightarrow> distinct (map src xs) \<Longrightarrow>
   set ys = insert e {x \<in> set xs. src x \<noteq> src e} \<and> set d = {x \<in> set xs. src x = src e}"
proof (induction xs arbitrary: ys d)
  case (Cons x xs)
  from Cons.prems(1) show ?case
  proof (cases rule: place_newest_cases)
    case 1
    then have "src y \<noteq> src e" if "y \<in> set xs" for y using Cons.prems(2) imageI [OF that, of src] 1 by auto
    then show ?thesis using 1 by auto
  next
    case (2 ys')
    then show ?thesis using Cons.IH [of ys' d] Cons.prems(2) by auto
  qed
qed simp

text \<open>The fold over the live pieces in sequence order: \<open>last\<close> is the latest of each source.\<close>

lemma newest_snoc:
  "newest_per_source src (live @ [e]) superseded =
     (let (newest, old) = newest_per_source src live superseded;
          (newest', d) = place_newest src e newest
      in (newest', old @ d))"
  by (simp add: newest_per_source_def split_beta Let_def)

lemma newest_per_source_spec:
  assumes "newest_per_source src live superseded = (newest, old)" "sorted (map seq live)"
  shows "mset newest + mset old = mset live + mset superseded \<and>
    distinct (map src newest) \<and> src ` set newest = src ` set live \<and> set newest \<subseteq> set live \<and>
    (\<forall>e \<in> set newest. \<forall>x \<in> set live. src x = src e \<longrightarrow> seq x \<le> seq e)"
  using assms
proof (induction live arbitrary: newest old rule: rev_induct)
  case Nil
  then show ?case by (simp add: newest_per_source_def)
next
  case (snoc e live)
  obtain n s where ns: "newest_per_source src live superseded = (n, s)" by fastforce
  obtain n' d where nd: "place_newest src e n = (n', d)" by fastforce
  have r: "newest = n'" "old = s @ d" using snoc.prems(1) ns nd by (simp_all add: newest_snoc)
  have srt: "sorted (map seq live)" "\<forall>x \<in> set live. seq x \<le> seq e"
    using snoc.prems(2) by (simp_all add: sorted_append)
  note IH = snoc.IH [OF ns srt(1)]
  have m: "mset n' + mset d = add_mset e (mset n)" by (rule place_newest_mset [OF nd])
  have "mset newest + mset old = mset s + (mset n' + mset d)" by (simp add: r)
  also have "\<dots> = add_mset e (mset n + mset s)" using m by simp
  also have "\<dots> = mset (live @ [e]) + mset superseded" using IH by simp
  finally have "mset newest + mset old = mset (live @ [e]) + mset superseded" .
  moreover have "distinct (map src newest)" "src ` set newest = src ` set (live @ [e])"
    using place_newest_sources [OF nd] IH r
    by (auto simp: set_map [symmetric] simp del: set_map split: if_splits)
  moreover have "set newest = insert e {x \<in> set n. src x \<noteq> src e}"
    using place_newest_members [OF nd] IH r by blast
  then have "set newest \<subseteq> set (live @ [e])"
    and "\<forall>e' \<in> set newest. \<forall>x \<in> set (live @ [e]). src x = src e' \<longrightarrow> seq x \<le> seq e'"
    using IH srt(2) by auto
  ultimately show ?case by blast
qed

lemma settle_spec:
  assumes "settle is_live seq src es = (newest, old)"
  shows "mset newest + mset old = mset es"
    and "distinct (map src newest)"
    and "src ` set newest = src ` {e \<in> set es. is_live e}"
    and "\<forall>e \<in> set newest. is_live e \<and> e \<in> set es \<and>
           (\<forall>x \<in> set es. is_live x \<longrightarrow> src x = src e \<longrightarrow> seq x \<le> seq e)"
    and "sorted (map seq old)"
proof -
  let ?live = "sort_key seq (filter is_live es)"
  let ?dead = "sort_key seq (filter (\<lambda>e. \<not> is_live e) es)"
  obtain old' where *: "newest_per_source src ?live ?dead = (newest, old')" "old = sort_key seq old'"
    using assms by (auto simp: settle_def Let_def split: prod.splits)
  have "sorted (map seq ?live)" by simp
  note spec = newest_per_source_spec [OF *(1) this]
  have "mset newest + mset old = mset newest + mset old'" by (simp add: *(2))
  also have "\<dots> = filter_mset is_live (mset es) + filter_mset (\<lambda>e. \<not> is_live e) (mset es)"
    using spec by simp
  also have "\<dots> = mset es" by (simp add: multiset_partition [symmetric])
  finally show "mset newest + mset old = mset es" .
  show "distinct (map src newest)" "src ` set newest = src ` {e \<in> set es. is_live e}"
    using spec by simp_all
  show "\<forall>e \<in> set newest. is_live e \<and> e \<in> set es \<and>
      (\<forall>x \<in> set es. is_live x \<longrightarrow> src x = src e \<longrightarrow> seq x \<le> seq e)"
    using spec by auto
  show "sorted (map seq old)" by (simp add: *(2))
qed

text \<open>With distinct sequence numbers the order of the evidence does not matter.\<close>

lemma settle_perm:
  assumes "mset xs = mset ys" "inj_on seq (set xs)"
  shows "settle is_live seq src xs = settle is_live seq src ys"
proof -
  have "sort_key seq (filter P xs) = sort_key seq (filter P ys)" for P
    using assms by (intro sort_key_perm_unique) (auto simp: mset_filter inj_on_def)
  then show ?thesis by (simp add: settle_def)
qed

lemma settle_length: "settle is_live seq src es = (newest, old) \<Longrightarrow> length newest + length old = length es"
  using settle_spec(1) by (metis size_mset size_union)

text \<open>A builder that maps over the groups sees the order within each group only.\<close>

lemma group_by_perm_map:
  assumes "mset xs = mset ys"
    and "\<And>k. g (k, filter (\<lambda>x. key x = k) xs) = g (k, filter (\<lambda>x. key x = k) ys)"
  shows "map g (group_by key xs) = map g (group_by key ys)"
proof -
  have groups: "group_by key cs =
      map (\<lambda>k. (k, filter (\<lambda>x. key x = k) cs)) (map fst (group_by key cs))" for cs
  proof -
    have "e = (fst e, filter (\<lambda>x. key x = fst e) cs)" if "e \<in> set (group_by key cs)" for e
      using that group_by_member [of "fst e" "snd e" key cs] by (metis prod.collapse)
    then show ?thesis by (simp add: map_idI [symmetric] o_def cong: map_cong)
  qed
  have built: "map g (group_by key cs) =
      map (\<lambda>k. g (k, filter (\<lambda>x. key x = k) cs)) (map fst (group_by key cs))" for cs
    by (subst groups) simp
  show ?thesis
    unfolding built [of xs] built [of ys] group_by_perm_keys [OF assms(1), of key] assms(2)
    by (rule refl)
qed

section \<open>What the outcome means\<close>

locale agreement =
  fixes eq :: "'v \<Rightarrow> 'v \<Rightarrow> bool"
  assumes eq_sym: "eq a b \<Longrightarrow> eq b a"
    and eq_trans: "eq a b \<Longrightarrow> eq b c \<Longrightarrow> eq a c"
begin

lemma outcome_agreed:
  "settle_outcome eq val live old = (CO_Agreed, v) \<longleftrightarrow>
     2 \<le> length live \<and> v = Some (val (hd live)) \<and>
     (\<forall>i < length live. \<forall>j < length live. i \<noteq> j \<longrightarrow> eq (val (live ! i)) (val (live ! j)))"
proof (cases "(eq, val, live, old)" rule: settle_outcome.cases)
  case (3 eq' val' e e' es superseded)
  then have [simp]: "eq' = eq" "val' = val" "live = e # e' # es" "superseded = old" by simp_all
  let ?all = "list_all (\<lambda>x. eq (val e) (val x)) (e' # es)"
  have "?all \<longleftrightarrow> (\<forall>i < length live. \<forall>j < length live. i \<noteq> j \<longrightarrow> eq (val (live ! i)) (val (live ! j)))"
  proof
    assume all: ?all
    have from_head: "eq (val e) (val (live ! i))" if i: "0 < i" "i < length live" for i
    proof -
      obtain k where "i = Suc k" "k < length (e' # es)" using i by (cases i) auto
      then show ?thesis using all by (simp only: list_all_length) simp
    qed
    show "\<forall>i < length live. \<forall>j < length live. i \<noteq> j \<longrightarrow> eq (val (live ! i)) (val (live ! j))"
    proof (intro allI impI)
      fix i j assume "i < length live" "j < length live" "i \<noteq> j"
      then consider "i = 0" "0 < j" | "0 < i" "j = 0" | "0 < i" "0 < j" by linarith
      then show "eq (val (live ! i)) (val (live ! j))"
      proof cases
        case 1
        then show ?thesis using from_head [of j] \<open>j < length live\<close> by simp
      next
        case 2
        then show ?thesis using from_head [of i] \<open>i < length live\<close> eq_sym by simp
      next
        case 3
        then show ?thesis
          using eq_trans [OF eq_sym [OF from_head [of i]] from_head [of j]]
            \<open>i < length live\<close> \<open>j < length live\<close> by blast
      qed
    qed
  next
    assume R: "\<forall>i < length live. \<forall>j < length live. i \<noteq> j \<longrightarrow> eq (val (live ! i)) (val (live ! j))"
    have "eq (val e) (val ((e' # es) ! i))" if "i < length (e' # es)" for i
      using R [rule_format, of 0 "Suc i"] that by simp
    then show ?all by (simp only: list_all_length) blast
  qed
  then show ?thesis by auto
qed auto

lemma outcome_conflicting:
  "settle_outcome eq val live old = (CO_Conflicting, v) \<longleftrightarrow>
     v = None \<and>
     (\<exists>i < length live. \<exists>j < length live. i \<noteq> j \<and> \<not> eq (val (live ! i)) (val (live ! j)))"
proof (cases "2 \<le> length live")
  case True
  then obtain e e' es where "live = e # e' # es"
    by (cases live; cases "tl live") auto
  then consider "settle_outcome eq val live old = (CO_Agreed, Some (val (hd live)))"
    | "settle_outcome eq val live old = (CO_Conflicting, None)"
    by (cases "list_all (\<lambda>x. eq (val e) (val x)) (e' # es)") auto
  then show ?thesis
    by cases (use outcome_agreed [of val live old "Some (val (hd live))"] True in auto)
next
  case False
  then have "live = [] \<or> (\<exists>e. live = [e])" by (cases live; cases "tl live") auto
  then show ?thesis by (auto split: if_splits)
qed

end

lemma outcome_value:
  "settle_outcome eq val live old = (oc, v) \<Longrightarrow>
     (v \<noteq> None \<longleftrightarrow> oc = CO_Agreed \<or> oc = CO_SingleSource) \<and>
     (oc = CO_SingleSource \<longleftrightarrow> length live = 1) \<and>
     (oc = CO_Unknown \<longleftrightarrow> live = [] \<and> old = []) \<and>
     (oc = CO_Superseded \<longleftrightarrow> live = [] \<and> old \<noteq> []) \<and>
     (\<forall>x. v = Some x \<longrightarrow> live \<noteq> [] \<and> x = val (hd live))"
  by (cases "(eq, val, live, old)" rule: settle_outcome.cases) (auto split: if_splits)

end
