(* ===== verification/Identity.thy ===== *)
theory Identity
  imports Evidence
begin

text \<open>
  Identity claims and their consensus: \<open>src/src/identity.cpp\<close> and
  \<open>include/trxreg/identity.hpp\<close>. A view of one module incarnation lists, per field and sub-key, the
  live claims (at most one per source), the superseded claims and the outcome.
\<close>

record IdentityClaim =
  ic_field :: IdentityField
  ic_subkey :: string
  ic_value :: string
  ic_source :: SourceId
  ic_source_epoch :: SourceEpoch
  ic_module :: ModuleUid
  ic_incarnation :: IncarnationId
  ic_generation :: Generation
  ic_sequence :: Sequence
  ic_observed_at_wall_ns :: WallNs
  ic_clock_domain :: ClockDomainId
  ic_provenance :: Provenance
  ic_live :: bool

record IdentityFieldValue =
  iv_field :: IdentityField
  iv_subkey :: string
  iv_value :: string

record FieldConsensus =
  fc_field :: IdentityField
  fc_subkey :: string
  fc_outcome :: ConsensusOutcome
  fc_has_value :: bool
  fc_value :: string
  fc_claims :: "IdentityClaim list"
  fc_superseded_claims :: "IdentityClaim list"
  fc_digest :: Digest

definition fc_conflicted :: "FieldConsensus \<Rightarrow> bool" where
  "fc_conflicted c \<longleftrightarrow> fc_outcome c = CO_Conflicting"

section \<open>Digests\<close>

text \<open>
  \<open>integer(static_cast<std::int64_t>(e))\<close> of an enumerator is its number. A 64-bit wall clock
  reading is written by its two's complement pattern.
\<close>

definition w_code :: "nat \<Rightarrow> CanonicalWriter \<Rightarrow> CanonicalWriter" where
  "w_code n = w_integer (word_of_nat n)"

definition write_claim_canonical :: "IdentityClaim \<Rightarrow> CanonicalWriter \<Rightarrow> CanonicalWriter" where
  "write_claim_canonical claim w =
     (let w = w_begin_object 8 w;
          w = w_field ''epoch'' w;
          w = w_integer (ucast (ic_source_epoch claim)) w;
          w = w_field ''generation'' w;
          w = w_integer (ic_generation claim) w;
          w = w_field ''observed_at'' w;
          w = w_integer (word_of_int (ic_observed_at_wall_ns claim)) w;
          w = w_field ''origin'' w;
          w = w_text (pv_origin (ic_provenance claim)) w;
          w = w_field ''sequence'' w;
          w = w_integer (ic_sequence claim) w;
          w = w_field ''source'' w;
          w = w_integer (ucast (ic_source claim)) w;
          w = w_field ''value'' w;
          w = w_text (ic_value claim) w;
          w = w_field ''provenance_kind'' w;
          w = w_code (EvidenceKind_code (pv_kind (ic_provenance claim))) w
      in w)"

definition digest_live_claims :: "IdentityClaim list \<Rightarrow> Digest" where
  "digest_live_claims claims =
     writer_digest (foldl (\<lambda>w c. write_claim_canonical c w)
       (w_begin_array (word_of_nat (length claims)) writer_empty) claims)"

definition write_field_consensus :: "FieldConsensus \<Rightarrow> CanonicalWriter \<Rightarrow> CanonicalWriter" where
  "write_field_consensus c w =
     (let w = w_begin_object 4 w;
          w = w_field ''digest'' w;
          w = w_binary (fc_digest c) w;
          w = w_field ''field'' w;
          w = w_code (IdentityField_code (fc_field c)) w;
          w = w_field ''outcome'' w;
          w = w_code (ConsensusOutcome_code (fc_outcome c)) w;
          w = w_field ''subkey'' w;
          w = w_text (fc_subkey c) w
      in w)"

definition digest_identity_fields :: "FieldConsensus list \<Rightarrow> Digest" where
  "digest_identity_fields fcs =
     writer_digest (foldl (\<lambda>w c. write_field_consensus c w)
       (w_begin_array (word_of_nat (length fcs)) writer_empty) fcs)"

section \<open>Consensus\<close>

definition claim_key :: "IdentityClaim \<Rightarrow> IdentityField \<times> string" where
  "claim_key c = (ic_field c, ic_subkey c)"

definition claim_author :: "IdentityClaim \<Rightarrow> SourceId \<times> SourceEpoch" where
  "claim_author c = (ic_source c, ic_source_epoch c)"

definition field_consensus :: "(IdentityField \<times> string) \<times> IdentityClaim list \<Rightarrow> FieldConsensus" where
  "field_consensus entry =
     (let (live, superseded) = settle ic_live ic_sequence claim_author (snd entry);
          (outcome, agreed) = settle_outcome (=) ic_value live superseded
      in \<lparr>fc_field = fst (fst entry), fc_subkey = snd (fst entry), fc_outcome = outcome,
          fc_has_value = (agreed \<noteq> None),
          fc_value = (case agreed of None \<Rightarrow> '''' | Some v \<Rightarrow> v),
          fc_claims = live, fc_superseded_claims = superseded,
          fc_digest = digest_live_claims live\<rparr>)"

definition build_identity_consensus :: "IdentityClaim list \<Rightarrow> FieldConsensus list" where
  "build_identity_consensus claims = map field_consensus (group_by claim_key claims)"

record IdentityView =
  vw_uid :: ModuleUid
  vw_incarnation :: IncarnationId
  vw_key :: string
  vw_generation :: Generation
  vw_lifecycle :: LifecycleState
  vw_fields :: "FieldConsensus list"
  vw_digest :: Digest
  vw_conflicting_fields :: "32 word"
  vw_superseded_fields :: "32 word"

definition identity_view_find ::
    "FieldConsensus list \<Rightarrow> IdentityField \<Rightarrow> string \<Rightarrow> FieldConsensus option" where
  "identity_view_find fcs field subkey =
     List.find (\<lambda>c. fc_field c = field \<and> fc_subkey c = subkey) fcs"

section \<open>Properties\<close>

interpretation text_agreement: agreement "(=) :: string \<Rightarrow> string \<Rightarrow> bool"
  by unfold_locales auto

lemma consensus_mem:
  "c \<in> set (build_identity_consensus claims) \<longleftrightarrow>
     (\<exists>k \<in> claim_key ` set claims. c = field_consensus (k, filter (\<lambda>x. claim_key x = k) claims))"
proof -
  have "c \<in> set (build_identity_consensus claims) \<longleftrightarrow>
      (\<exists>k ys. (k, ys) \<in> set (group_by claim_key claims) \<and> c = field_consensus (k, ys))"
    by (auto simp: build_identity_consensus_def)
  then show ?thesis by (simp only: group_by_member) blast
qed

lemma field_consensus_key: "(fc_field (field_consensus e), fc_subkey (field_consensus e)) = fst e"
  by (cases e) (simp add: field_consensus_def split_beta Let_def)

lemma field_consensus_settle:
  "settle ic_live ic_sequence claim_author (snd e) =
     (fc_claims (field_consensus e), fc_superseded_claims (field_consensus e))"
  by (simp add: field_consensus_def split_beta Let_def)

lemma field_consensus_outcome:
  "settle_outcome (=) ic_value (fc_claims (field_consensus e)) (fc_superseded_claims (field_consensus e)) =
     (fc_outcome (field_consensus e),
      if fc_has_value (field_consensus e) then Some (fc_value (field_consensus e)) else None)"
  by (auto simp: field_consensus_def split_beta Let_def split: option.splits intro!: prod_eqI)

text \<open>
  C29. Consensus loses and invents nothing. There is exactly one record per field and sub-key that
  was claimed, in key order; its live and superseded claims together are exactly the claims made for
  that key; the live ones are live claims of distinct source incarnations, each the latest of its
  source, and every source with a live claim is represented.
\<close>

theorem identity_consensus_complete:
  "sorted_wrt (<) (map (\<lambda>c. (fc_field c, fc_subkey c)) (build_identity_consensus claims)) \<and>
   (\<lambda>c. (fc_field c, fc_subkey c)) ` set (build_identity_consensus claims) = claim_key ` set claims \<and>
   list_all (\<lambda>c.
      let made = filter (\<lambda>x. claim_key x = (fc_field c, fc_subkey c)) claims in
      mset (fc_claims c) + mset (fc_superseded_claims c) = mset made \<and>
      distinct (map claim_author (fc_claims c)) \<and>
      claim_author ` set (fc_claims c) = claim_author ` set (filter ic_live made) \<and>
      list_all (\<lambda>x. ic_live x \<and>
        list_all (\<lambda>y. claim_author y = claim_author x \<longrightarrow> ic_sequence y \<le> ic_sequence x)
          (filter ic_live made)) (fc_claims c))
     (build_identity_consensus claims)"
proof (intro conjI)
  have keys: "map (\<lambda>c. (fc_field c, fc_subkey c)) (build_identity_consensus claims) =
      map fst (group_by claim_key claims)"
    by (simp add: build_identity_consensus_def field_consensus_key o_def)
  show "sorted_wrt (<) (map (\<lambda>c. (fc_field c, fc_subkey c)) (build_identity_consensus claims))"
    unfolding keys using osorted_group_by [of claim_key claims] by (simp only: osorted_def)
  show "(\<lambda>c. (fc_field c, fc_subkey c)) ` set (build_identity_consensus claims) = claim_key ` set claims"
    using keys group_by_keys [of claim_key claims] by (metis set_map)
next
  have "let made = filter (\<lambda>x. claim_key x = (fc_field c, fc_subkey c)) claims in
      mset (fc_claims c) + mset (fc_superseded_claims c) = mset made \<and>
      distinct (map claim_author (fc_claims c)) \<and>
      claim_author ` set (fc_claims c) = claim_author ` set (filter ic_live made) \<and>
      list_all (\<lambda>x. ic_live x \<and>
        list_all (\<lambda>y. claim_author y = claim_author x \<longrightarrow> ic_sequence y \<le> ic_sequence x)
          (filter ic_live made)) (fc_claims c)"
    if mem: "c \<in> set (build_identity_consensus claims)" for c
  proof -
    obtain k where c: "c = field_consensus (k, filter (\<lambda>x. claim_key x = k) claims)"
      using mem consensus_mem by blast
    then have k: "(fc_field c, fc_subkey c) = k" by (simp add: field_consensus_key)
    have "settle ic_live ic_sequence claim_author (filter (\<lambda>x. claim_key x = k) claims) =
        (fc_claims c, fc_superseded_claims c)"
      unfolding c field_consensus_settle [symmetric] by simp
    from settle_spec [OF this] k show ?thesis by (simp add: list_all_iff)
  qed
  then show "list_all (\<lambda>c.
      let made = filter (\<lambda>x. claim_key x = (fc_field c, fc_subkey c)) claims in
      mset (fc_claims c) + mset (fc_superseded_claims c) = mset made \<and>
      distinct (map claim_author (fc_claims c)) \<and>
      claim_author ` set (fc_claims c) = claim_author ` set (filter ic_live made) \<and>
      list_all (\<lambda>x. ic_live x \<and>
        list_all (\<lambda>y. claim_author y = claim_author x \<longrightarrow> ic_sequence y \<le> ic_sequence x)
          (filter ic_live made)) (fc_claims c))
     (build_identity_consensus claims)"
    by (simp only: list_all_iff) blast
qed

text \<open>
  The outcome is decided by evidence alone: a value is given exactly for agreed and
  single-source outcomes and then it is what the claims say; agreement means at least two sources of
  which every two say the same; conflict means two live claims differ, and gives no value; no live
  claim means superseded or unknown.
\<close>

theorem identity_consensus_outcome:
  assumes "c \<in> set (build_identity_consensus claims)"
  shows "(fc_has_value c \<longleftrightarrow> fc_outcome c = CO_Agreed \<or> fc_outcome c = CO_SingleSource) \<and>
     (fc_has_value c \<longrightarrow> (\<forall>x \<in> set (fc_claims c). ic_value x = fc_value c)) \<and>
     (fc_outcome c = CO_Agreed \<longleftrightarrow>
        2 \<le> length (fc_claims c) \<and> (\<forall>x \<in> set (fc_claims c). \<forall>y \<in> set (fc_claims c). ic_value x = ic_value y)) \<and>
     (fc_outcome c = CO_Conflicting \<longleftrightarrow>
        (\<exists>x \<in> set (fc_claims c). \<exists>y \<in> set (fc_claims c). ic_value x \<noteq> ic_value y)) \<and>
     (fc_outcome c = CO_SingleSource \<longleftrightarrow> length (fc_claims c) = 1) \<and>
     (fc_claims c = [] \<longleftrightarrow> fc_outcome c = CO_Superseded) \<and>
     fc_outcome c \<noteq> CO_Unknown"
proof -
  obtain k where k: "k \<in> claim_key ` set claims"
    and c: "c = field_consensus (k, filter (\<lambda>x. claim_key x = k) claims)"
    using assms consensus_mem by blast
  let ?made = "filter (\<lambda>x. claim_key x = k) claims"
  have st: "settle ic_live ic_sequence claim_author ?made = (fc_claims c, fc_superseded_claims c)"
    unfolding c field_consensus_settle [symmetric] by simp
  have oc: "settle_outcome (=) ic_value (fc_claims c) (fc_superseded_claims c) =
      (fc_outcome c, if fc_has_value c then Some (fc_value c) else None)"
    unfolding c by (rule field_consensus_outcome)
  have ne: "\<not> (fc_claims c = [] \<and> fc_superseded_claims c = [])"
    using settle_length [OF st] k by (auto simp: filter_empty_conv image_iff)
  have all: "(\<forall>i < length xs. \<forall>j < length xs. i \<noteq> j \<longrightarrow> ic_value (xs ! i) = ic_value (xs ! j)) \<longleftrightarrow>
      (\<forall>x \<in> set xs. \<forall>y \<in> set xs. ic_value x = ic_value y)" for xs
    by (simp only: all_set_conv_all_nth) metis
  note val = outcome_value [OF oc]
  note agreed = text_agreement.outcome_agreed [of ic_value "fc_claims c" "fc_superseded_claims c", unfolded oc all]
  note confl = text_agreement.outcome_conflicting [of ic_value "fc_claims c" "fc_superseded_claims c", unfolded oc]
  have a: "fc_outcome c = CO_Agreed \<longleftrightarrow> 2 \<le> length (fc_claims c) \<and>
      (\<forall>x \<in> set (fc_claims c). \<forall>y \<in> set (fc_claims c). ic_value x = ic_value y)"
    using val agreed [of "Some (ic_value (hd (fc_claims c)))"] by (auto split: if_splits)
  have f: "fc_outcome c = CO_Conflicting \<longleftrightarrow>
      (\<exists>x \<in> set (fc_claims c). \<exists>y \<in> set (fc_claims c). ic_value x \<noteq> ic_value y)"
  proof -
    have "fc_outcome c = CO_Conflicting \<Longrightarrow> \<not> fc_has_value c" using val by auto
    then have "fc_outcome c = CO_Conflicting \<longleftrightarrow>
        (fc_outcome c, if fc_has_value c then Some (fc_value c) else None) = (CO_Conflicting, None)"
      by auto
    also have "\<dots> \<longleftrightarrow> (\<exists>i < length (fc_claims c). \<exists>j < length (fc_claims c). i \<noteq> j \<and>
        ic_value (fc_claims c ! i) \<noteq> ic_value (fc_claims c ! j))"
      unfolding confl by simp
    also have "\<dots> \<longleftrightarrow> \<not> (\<forall>x \<in> set (fc_claims c). \<forall>y \<in> set (fc_claims c). ic_value x = ic_value y)"
      unfolding all [symmetric] by blast
    finally show ?thesis by blast
  qed
  have h: "fc_has_value c \<longleftrightarrow> fc_outcome c = CO_Agreed \<or> fc_outcome c = CO_SingleSource"
    using val [THEN conjunct1] by (simp split: if_splits)
  have v: "fc_has_value c \<longrightarrow> (\<forall>x \<in> set (fc_claims c). ic_value x = fc_value c)"
  proof (intro impI ballI)
    fix x assume "fc_has_value c" and x: "x \<in> set (fc_claims c)"
    then have hd: "fc_value c = ic_value (hd (fc_claims c))" "hd (fc_claims c) \<in> set (fc_claims c)"
      using val by auto
    show "ic_value x = fc_value c"
    proof (cases "fc_outcome c = CO_Agreed")
      case True
      note same = iffD1 [OF a this, THEN conjunct2]
      from bspec [OF bspec [OF same x] hd(2)]
      have "ic_value x = ic_value (hd (fc_claims c))" .
      then show ?thesis by (simp only: hd(1))
    next
      case False
      then have "length (fc_claims c) = 1" using h val [THEN conjunct2, THEN conjunct1] \<open>fc_has_value c\<close> by simp
      then show ?thesis using x hd(1) by (auto simp: length_Suc_conv)
    qed
  qed
  have s: "fc_outcome c = CO_SingleSource \<longleftrightarrow> length (fc_claims c) = 1"
    "fc_claims c = [] \<longleftrightarrow> fc_outcome c = CO_Superseded" "fc_outcome c \<noteq> CO_Unknown"
    using val ne by (simp_all) argo
  show ?thesis by (intro conjI h a f v s)
qed

text \<open>
  The order in which claims reached the builder is irrelevant once their sequence numbers are
  distinct: permuting the claims gives the same records and so the same digests.
\<close>

theorem identity_consensus_order_independent:
  assumes "mset claims = mset claims'" "inj_on ic_sequence (set claims)"
  shows "build_identity_consensus claims = build_identity_consensus claims'"
proof -
  have "settle ic_live ic_sequence claim_author (filter P claims) =
      settle ic_live ic_sequence claim_author (filter P claims')" for P
    using assms by (intro settle_perm) (auto simp: mset_filter inj_on_def)
  then have "field_consensus (k, filter P claims) = field_consensus (k, filter P claims')" for k P
    by (simp add: field_consensus_def)
  then show ?thesis
    unfolding build_identity_consensus_def by (intro group_by_perm_map [OF assms(1)])
qed

section \<open>Example claims\<close>

definition example_provenance :: Provenance where
  "example_provenance = \<lparr>pv_kind = EK_Real, pv_origin = ''eeprom'', pv_method = ''read'',
     pv_content_digest = zero_digest, pv_capture_ref = []\<rparr>"

definition example_claim :: "SourceId \<Rightarrow> string \<Rightarrow> Sequence \<Rightarrow> IdentityClaim" where
  "example_claim source text sq =
     \<lparr>ic_field = IF_SerialNumber, ic_subkey = [], ic_value = text, ic_source = source,
      ic_source_epoch = 1, ic_module = 1, ic_incarnation = 1, ic_generation = 1, ic_sequence = sq,
      ic_observed_at_wall_ns = 0, ic_clock_domain = 1, ic_provenance = example_provenance,
      ic_live = True\<rparr>"

lemma identity_consensus_outcome_witness:
  "\<exists>c \<in> set (build_identity_consensus [example_claim 1 ''A'' 1, example_claim 2 ''B'' 2]).
     fc_outcome c = CO_Conflicting \<and> \<not> fc_has_value c"
proof -
  let ?cs = "[example_claim 1 ''A'' 1, example_claim 2 ''B'' 2]"
  obtain c where c: "build_identity_consensus ?cs = [c]" "fc_claims c = ?cs"
    by (simp add: build_identity_consensus_def group_by_def group_push_def claim_key_def
        example_claim_def field_consensus_def settle_def newest_per_source_def claim_author_def Let_def oget_def)
  then have mem: "c \<in> set (build_identity_consensus ?cs)" by simp
  have "ic_value (example_claim 1 ''A'' 1) \<noteq> ic_value (example_claim 2 ''B'' 2)"
    by (simp add: example_claim_def)
  with identity_consensus_outcome [OF mem] c(2) have "fc_outcome c = CO_Conflicting \<and> \<not> fc_has_value c"
    by auto
  then show ?thesis using mem by blast
qed

lemma identity_consensus_order_independent_witness:
  "build_identity_consensus [example_claim 1 ''A'' 1, example_claim 2 ''B'' 2] =
   build_identity_consensus [example_claim 2 ''B'' 2, example_claim 1 ''A'' 1]"
  by (rule identity_consensus_order_independent) (simp_all add: example_claim_def)

lemma identity_consensus_complete_witness:
  "(\<lambda>c. (fc_field c, fc_subkey c)) ` set (build_identity_consensus
       [example_claim 1 ''A'' 1, example_claim 1 ''B'' 2]) = {(IF_SerialNumber, [])}"
  using identity_consensus_complete [of "[example_claim 1 ''A'' 1, example_claim 1 ''B'' 2]"]
  by (simp add: claim_key_def example_claim_def)

end
