(* ===== verification/ValueFields.thy ===== *)
theory ValueFields
  imports Taxonomy Canonical
begin

text \<open>
  The strict typed accessors of \<open>src/src/value_fields.hpp\<close> over decoded canonical documents. A
  signed integer field is its 64-bit pattern, read with \<open>sint\<close>. The lemmas say what an
  accessor returns on an object with canonically ordered members.
\<close>

section \<open>Accessors\<close>

fun is_object :: "Value \<Rightarrow> bool" where
  "is_object (VObject ms) = True"
| "is_object _ = False"

definition as_object :: "Value \<Rightarrow> Value res" where
  "as_object v = (if \<not> is_object v then Inl Malformed else Inr v)"

definition require_field :: "Value \<Rightarrow> string \<Rightarrow> Value res" where
  "require_field obj key =
     (if \<not> is_object obj then Inl Malformed
      else case value_find obj key of None \<Rightarrow> Inl Malformed | Some v \<Rightarrow> Inr v)"

definition get_integer :: "Value \<Rightarrow> string \<Rightarrow> 64 word res" where
  "get_integer obj key = try_res (require_field obj key)
     (\<lambda>v. case v of VInteger i \<Rightarrow> Inr i | _ \<Rightarrow> Inl Malformed)"

definition get_unsigned :: "Value \<Rightarrow> string \<Rightarrow> 64 word res" where
  "get_unsigned obj key = try_res (get_integer obj key)
     (\<lambda>i. if sint i < 0 then Inl Malformed else Inr i)"

definition get_unsigned_field :: "Value \<Rightarrow> string \<Rightarrow> 64 word res" where
  "get_unsigned_field obj key = try_res (require_field obj key)
     (\<lambda>v. case v of
        VUnsigned u \<Rightarrow> Inr u
      | VInteger i \<Rightarrow> if sint i < 0 then Inl Malformed else Inr i
      | _ \<Rightarrow> Inl Malformed)"

definition get_boolean :: "Value \<Rightarrow> string \<Rightarrow> bool res" where
  "get_boolean obj key = try_res (require_field obj key)
     (\<lambda>v. case v of VBoolean b \<Rightarrow> Inr b | _ \<Rightarrow> Inl Malformed)"

definition get_real :: "Value \<Rightarrow> string \<Rightarrow> double res" where
  "get_real obj key = try_res (require_field obj key)
     (\<lambda>v. case number_as_double v of Some d \<Rightarrow> Inr d | None \<Rightarrow> Inl Malformed)"

definition get_text :: "Value \<Rightarrow> string \<Rightarrow> string res" where
  "get_text obj key = try_res (require_field obj key)
     (\<lambda>v. case v of VText s \<Rightarrow> Inr s | _ \<Rightarrow> Inl Malformed)"

definition get_digest :: "Value \<Rightarrow> string \<Rightarrow> Digest res" where
  "get_digest obj key = try_res (get_text obj key) from_hex"

definition get_array :: "Value \<Rightarrow> string \<Rightarrow> Value list res" where
  "get_array obj key = try_res (require_field obj key)
     (\<lambda>v. case v of VArray vs \<Rightarrow> Inr vs | _ \<Rightarrow> Inl Malformed)"

definition or_else :: "'a res \<Rightarrow> 'a \<Rightarrow> 'a" where
  "or_else r fallback = (case r of Inl _ \<Rightarrow> fallback | Inr v \<Rightarrow> v)"

definition get_integer_or :: "Value \<Rightarrow> string \<Rightarrow> 64 word \<Rightarrow> 64 word" where
  "get_integer_or obj key fallback = or_else (get_integer obj key) fallback"

definition get_unsigned_or :: "Value \<Rightarrow> string \<Rightarrow> 64 word \<Rightarrow> 64 word" where
  "get_unsigned_or obj key fallback = or_else (get_unsigned obj key) fallback"

definition get_boolean_or :: "Value \<Rightarrow> string \<Rightarrow> bool \<Rightarrow> bool" where
  "get_boolean_or obj key fallback = or_else (get_boolean obj key) fallback"

definition get_real_or :: "Value \<Rightarrow> string \<Rightarrow> double \<Rightarrow> double" where
  "get_real_or obj key fallback = or_else (get_real obj key) fallback"

definition get_text_or :: "Value \<Rightarrow> string \<Rightarrow> string \<Rightarrow> string" where
  "get_text_or obj key fallback = or_else (get_text obj key) fallback"

definition get_digest_or :: "Value \<Rightarrow> string \<Rightarrow> Digest" where
  "get_digest_or obj key = or_else (get_digest obj key) zero_digest"

text \<open>\<open>get_enum\<close>: an enumerator by its number; the largest is given by the table of names.\<close>

definition get_enum :: "(string \<times> 'e) list \<Rightarrow> Value \<Rightarrow> string \<Rightarrow> 'e res" where
  "get_enum table obj key = try_res (get_integer obj key)
     (\<lambda>i. if sint i < 0 then Inl Malformed
           else case enum_of_code table (nat (sint i)) of None \<Rightarrow> Inl Malformed | Some e \<Rightarrow> Inr e)"

section \<open>Lookup in a literal object\<close>

lemma require_field_hit:
  "osorted ms \<Longrightarrow> map_of ms key = Some v \<Longrightarrow> require_field (VObject ms) key = Inr v"
  by (simp add: require_field_def value_find_oget oget_def del: value_find.simps)

lemma get_hits:
  assumes "osorted ms"
  shows "map_of ms key = Some (VInteger i) \<Longrightarrow> get_integer (VObject ms) key = Inr i"
    "map_of ms key = Some (VBoolean b) \<Longrightarrow> get_boolean (VObject ms) key = Inr b"
    "map_of ms key = Some (VReal d) \<Longrightarrow> get_real (VObject ms) key = Inr d"
    "map_of ms key = Some (VText s) \<Longrightarrow> get_text (VObject ms) key = Inr s"
    "map_of ms key = Some (VArray vs) \<Longrightarrow> get_array (VObject ms) key = Inr vs"
  using require_field_hit [OF assms]
  by (simp_all add: get_integer_def get_boolean_def get_real_def get_text_def get_array_def)

text \<open>Small non-negative numbers survive the signed reading.\<close>

lemma sint_word_of_nat: "n < 2 ^ 63 \<Longrightarrow> sint (word_of_nat n :: 64 word) = int n"
  by (simp add: signed_of_nat signed_take_bit_int_eq_self)

lemma get_enum_hit:
  assumes "osorted ms" "map_of ms key = Some (VInteger (word_of_nat n))" "enum_of_code table n = Some e"
    "n < 2 ^ 63"
  shows "get_enum table (VObject ms) key = Inr e"
  using assms by (simp add: get_enum_def get_hits(1) [OF assms(1,2)] sint_word_of_nat)

end
