(* ===== verification/Capability.thy ===== *)
theory Capability
  imports Evidence ValueFields
begin

text \<open>
  Typed capability values, their canonical encoding and the consensus over capability
  declarations: \<open>src/src/capability.cpp\<close> and \<open>include/trxreg/capability.hpp\<close>. The variant
  \<open>CapabilityValue::Storage\<close> is a datatype with one constructor per alternative; a signed 64-bit
  number is its bit pattern, ordered by \<open>sint\<close>. The display text of \<open>describe\<close> is left out.

  The lemmas show that the set constructors are canonical, that what passes validation has the
  shape of its key, that the encoding of a value reads back, and that the consensus loses no
  declaration, does not depend on their order and never establishes a disputed value.
\<close>

section \<open>Values\<close>

record SpectrumDescriptor =
  sd_lane :: lane
  sd_center_nm :: double
  sd_frequency_thz :: double
  sd_grid :: WavelengthGrid
  sd_channel :: string

datatype CapabilityValue =
    Cap_None
  | Cap_Boolean bool
  | Cap_Count "64 word"
  | Cap_Enum "64 word"
  | Cap_Real double
  | Cap_Text string
  | Cap_EnumSet "64 word list"
  | Cap_TextSet "string list"
  | Cap_Spectrum "SpectrumDescriptor list"

definition kModuleLane :: lane where
  "kModuleLane = 0xFFFF"

text \<open>
  \<open>std::unique\<close>: an element equal to the last one kept is dropped. The defaulted three-way
  comparison of descriptors compares member by member, reals by value.
\<close>

fun unique_by :: "('a \<Rightarrow> 'a \<Rightarrow> bool) \<Rightarrow> 'a list \<Rightarrow> 'a list" where
  "unique_by eq (a # b # xs) =
     (if eq a b then unique_by eq (a # xs) else a # unique_by eq (b # xs))"
| "unique_by eq xs = xs"

definition spectrum_eq :: "SpectrumDescriptor \<Rightarrow> SpectrumDescriptor \<Rightarrow> bool" where
  "spectrum_eq a b \<longleftrightarrow>
     sd_lane a = sd_lane b \<and> dbl_eq (sd_center_nm a) (sd_center_nm b) \<and>
     dbl_eq (sd_frequency_thz a) (sd_frequency_thz b) \<and> sd_grid a = sd_grid b \<and>
     sd_channel a = sd_channel b"

definition spectrum_order :: "SpectrumDescriptor \<Rightarrow> lane \<times> int \<times> int \<times> nat \<times> string" where
  "spectrum_order d =
     (sd_lane d, dval (sd_center_nm d), dval (sd_frequency_thz d),
      WavelengthGrid_code (sd_grid d), sd_channel d)"

definition canonical_enum_set :: "64 word list \<Rightarrow> 64 word list" where
  "canonical_enum_set vs = unique_by (=) (sort_key sint vs)"

definition canonical_text_set :: "string list \<Rightarrow> string list" where
  "canonical_text_set vs = unique_by (=) (sort vs)"

definition canonical_spectrum :: "SpectrumDescriptor list \<Rightarrow> SpectrumDescriptor list" where
  "canonical_spectrum vs = unique_by spectrum_eq (sort_key spectrum_order vs)"

definition cap_enum_set :: "64 word list \<Rightarrow> CapabilityValue" where
  "cap_enum_set vs = Cap_EnumSet (canonical_enum_set vs)"

definition cap_text_set :: "string list \<Rightarrow> CapabilityValue" where
  "cap_text_set vs = Cap_TextSet (canonical_text_set vs)"

definition cap_spectrum :: "SpectrumDescriptor list \<Rightarrow> CapabilityValue" where
  "cap_spectrum vs = Cap_Spectrum (canonical_spectrum vs)"

text \<open>\<open>of\<close>, \<open>of_speed_classes\<close> and the like store the numbers of the enumerators.\<close>

definition cap_of :: "('e \<Rightarrow> nat) \<Rightarrow> 'e \<Rightarrow> CapabilityValue" where
  "cap_of code e = Cap_Enum (word_of_nat (code e))"

definition cap_of_set :: "('e \<Rightarrow> nat) \<Rightarrow> 'e list \<Rightarrow> CapabilityValue" where
  "cap_of_set code es = cap_enum_set (map (\<lambda>e. word_of_nat (code e)) es)"

fun cap_kind :: "CapabilityValue \<Rightarrow> CapabilityValueKind" where
  "cap_kind Cap_None = CVK_None"
| "cap_kind (Cap_Boolean _) = CVK_Boolean"
| "cap_kind (Cap_Count _) = CVK_Count"
| "cap_kind (Cap_Enum _) = CVK_Enum"
| "cap_kind (Cap_Real _) = CVK_Real"
| "cap_kind (Cap_Text _) = CVK_Text"
| "cap_kind (Cap_EnumSet _) = CVK_EnumSet"
| "cap_kind (Cap_TextSet _) = CVK_TextSet"
| "cap_kind (Cap_Spectrum _) = CVK_Spectrum"

text \<open>\<open>number_as_double\<close> of a capability: counts and reals.\<close>

fun cap_number_as_double :: "CapabilityValue \<Rightarrow> double option" where
  "cap_number_as_double (Cap_Count i) = Some (dbl_of_int (sint i))"
| "cap_number_as_double (Cap_Real d) = Some d"
| "cap_number_as_double _ = None"

text \<open>
  \<open>as_family\<close>, \<open>as_media_class\<close>, ...: the enumerator with the stored number, if there is one
  (\<open>Unsupported\<close> is the last of each). \<open>as_speed_classes\<close>, ... decode every member or nothing.
\<close>

fun cap_as_enum :: "(string \<times> 'e) list \<Rightarrow> CapabilityValue \<Rightarrow> 'e option" where
  "cap_as_enum table (Cap_Enum i) =
     (if sint i < 0 then None else enum_of_code table (nat (sint i)))"
| "cap_as_enum table _ = None"

fun cap_as_enum_list :: "(string \<times> 'e) list \<Rightarrow> CapabilityValue \<Rightarrow> 'e list option" where
  "cap_as_enum_list table (Cap_EnumSet is) =
     those (map (\<lambda>i. if sint i < 0 then None else enum_of_code table (nat (sint i))) is)"
| "cap_as_enum_list table _ = None"

section \<open>Validation\<close>

definition finite_descriptor :: "SpectrumDescriptor \<Rightarrow> bool" where
  "finite_descriptor d \<longleftrightarrow> isfinite (sd_center_nm d) \<and> isfinite (sd_frequency_thz d)"

definition negative_descriptor :: "SpectrumDescriptor \<Rightarrow> bool" where
  "negative_descriptor d \<longleftrightarrow>
     dbl_lt (sd_center_nm d) dbl_zero \<or> dbl_lt (sd_frequency_thz d) dbl_zero"

fun validate_shape :: "CapabilityValue \<Rightarrow> unit res" where
  "validate_shape (Cap_Count i) = (if sint i < 0 then Inl InvalidArgument else Inr ())"
| "validate_shape (Cap_Real d) = (if \<not> isfinite d then Inl InvalidArgument else Inr ())"
| "validate_shape (Cap_Enum i) =
     (if sint i < 0 \<or> sint i > 255 then Inl InvalidArgument else Inr ())"
| "validate_shape (Cap_EnumSet is) =
     try_all (\<lambda>i. if sint i < 0 \<or> sint i > 255 then Inl InvalidArgument else Inr ()) is"
| "validate_shape (Cap_Spectrum ds) =
     try_all (\<lambda>d. if \<not> finite_descriptor d then Inl InvalidArgument
                   else if negative_descriptor d then Inl InvalidArgument else Inr ()) ds"
| "validate_shape _ = Inr ()"

text \<open>\<open>validate_for\<close>; the switch on the expected kind is on the value, which has that kind.\<close>

definition validate_for :: "CapabilityValue \<Rightarrow> CapabilityKey \<Rightarrow> unit res" where
  "validate_for v key =
     (let expected = capability_value_kind key in
      if expected = CVK_None then Inl Unsupported
      else if cap_kind v \<noteq> expected then Inl InvalidArgument
      else validate_shape v)"

section \<open>Canonical encoding\<close>

definition write_spectrum_descriptor :: "SpectrumDescriptor \<Rightarrow> CanonicalWriter \<Rightarrow> CanonicalWriter" where
  "write_spectrum_descriptor d w =
     (let w = w_begin_object 5 w;
          w = w_field ''center_nm'' w;
          w = w_real (sd_center_nm d) w;
          w = w_field ''channel'' w;
          w = w_text (sd_channel d) w;
          w = w_field ''frequency_thz'' w;
          w = w_real (sd_frequency_thz d) w;
          w = w_field ''grid'' w;
          w = w_integer (word_of_nat (WavelengthGrid_code (sd_grid d))) w;
          w = w_field ''lane'' w;
          w = w_integer (ucast (sd_lane d)) w
      in w)"

definition write_spectrum :: "SpectrumDescriptor list \<Rightarrow> CanonicalWriter \<Rightarrow> CanonicalWriter" where
  "write_spectrum ds w =
     foldl (\<lambda>w d. write_spectrum_descriptor d w) (w_begin_array (word_of_nat (length ds)) w) ds"

fun write_canonical :: "CapabilityValue \<Rightarrow> CanonicalWriter \<Rightarrow> CanonicalWriter" where
  "write_canonical Cap_None w = w_text ''none'' (w_field ''k'' (w_begin_object 1 w))"
| "write_canonical (Cap_Boolean b) w =
     w_text ''boolean'' (w_field ''k'' (w_boolean b (w_field ''b'' (w_begin_object 2 w))))"
| "write_canonical (Cap_Count i) w =
     w_text ''count'' (w_field ''k'' (w_integer i (w_field ''i'' (w_begin_object 2 w))))"
| "write_canonical (Cap_Enum i) w =
     w_text ''enum'' (w_field ''k'' (w_integer i (w_field ''i'' (w_begin_object 2 w))))"
| "write_canonical (Cap_Real d) w =
     w_real d (w_field ''r'' (w_text ''real'' (w_field ''k'' (w_begin_object 2 w))))"
| "write_canonical (Cap_Text s) w =
     w_text s (w_field ''t'' (w_text ''text'' (w_field ''k'' (w_begin_object 2 w))))"
| "write_canonical (Cap_EnumSet is) w =
     foldl (\<lambda>w i. w_integer i w)
       (w_begin_array (word_of_nat (length is))
         (w_field ''s'' (w_text ''enum_set'' (w_field ''k'' (w_begin_object 2 w))))) is"
| "write_canonical (Cap_TextSet ts) w =
     foldl (\<lambda>w t. w_text t w)
       (w_begin_array (word_of_nat (length ts))
         (w_field ''s'' (w_text ''text_set'' (w_field ''k'' (w_begin_object 2 w))))) ts"
| "write_canonical (Cap_Spectrum ds) w =
     write_spectrum ds
       (w_field ''s'' (w_text ''spectrum'' (w_field ''k'' (w_begin_object 2 w))))"

definition read_spectrum_descriptor :: "Value \<Rightarrow> SpectrumDescriptor res" where
  "read_spectrum_descriptor encoded =
     try_res (as_object encoded) (\<lambda>obj.
     try_res (get_integer obj ''lane'') (\<lambda>lane.
     if sint lane < 0 \<or> sint lane > 65535 then Inl Malformed
     else
       try_res (get_real obj ''center_nm'') (\<lambda>center_nm.
       try_res (get_real obj ''frequency_thz'') (\<lambda>frequency_thz.
       if \<not> isfinite center_nm \<or> \<not> isfinite frequency_thz then Inl Malformed
       else if dbl_lt center_nm dbl_zero \<or> dbl_lt frequency_thz dbl_zero then Inl Malformed
       else
         try_res (get_enum kWavelengthGridNames obj ''grid'') (\<lambda>grid.
         try_res (get_text obj ''channel'') (\<lambda>channel.
           Inr \<lparr>sd_lane = ucast lane, sd_center_nm = center_nm, sd_frequency_thz = frequency_thz,
                sd_grid = grid, sd_channel = channel\<rparr>))))))"

fun map_res :: "('a \<Rightarrow> 'b res) \<Rightarrow> 'a list \<Rightarrow> 'b list res" where
  "map_res f [] = Inr []"
| "map_res f (x # xs) = try_res (f x) (\<lambda>y. try_res (map_res f xs) (\<lambda>ys. Inr (y # ys)))"

definition as_integer_entry :: "Value \<Rightarrow> 64 word res" where
  "as_integer_entry v = (case v of VInteger i \<Rightarrow> Inr i | _ \<Rightarrow> Inl Malformed)"

definition as_text_entry :: "Value \<Rightarrow> string res" where
  "as_text_entry v = (case v of VText s \<Rightarrow> Inr s | _ \<Rightarrow> Inl Malformed)"

definition read_canonical :: "Value \<Rightarrow> CapabilityValue res" where
  "read_canonical encoded =
     try_res (as_object encoded) (\<lambda>obj.
     try_res (get_text obj ''k'') (\<lambda>kind_text.
     if kind_text = ''none'' then Inr Cap_None
     else if kind_text = ''boolean'' then
       try_res (get_boolean obj ''b'') (\<lambda>raw. Inr (Cap_Boolean raw))
     else if kind_text = ''count'' then
       try_res (get_integer obj ''i'') (\<lambda>raw.
         if sint raw < 0 then Inl Malformed else Inr (Cap_Count raw))
     else if kind_text = ''enum'' then
       try_res (get_integer obj ''i'') (\<lambda>raw.
         if sint raw < 0 \<or> sint raw > 255 then Inl Malformed else Inr (Cap_Enum raw))
     else if kind_text = ''real'' then
       try_res (get_real obj ''r'') (\<lambda>raw.
         if \<not> isfinite raw then Inl Malformed else Inr (Cap_Real raw))
     else if kind_text = ''text'' then
       try_res (get_text obj ''t'') (\<lambda>raw. Inr (Cap_Text raw))
     else if kind_text = ''enum_set'' then
       try_res (get_array obj ''s'') (\<lambda>array.
       try_res (map_res as_integer_entry array) (\<lambda>vs. Inr (cap_enum_set vs)))
     else if kind_text = ''text_set'' then
       try_res (get_array obj ''s'') (\<lambda>array.
       try_res (map_res as_text_entry array) (\<lambda>vs. Inr (cap_text_set vs)))
     else if kind_text = ''spectrum'' then
       try_res (get_array obj ''s'') (\<lambda>array.
       try_res (map_res read_spectrum_descriptor array) (\<lambda>vs. Inr (cap_spectrum vs)))
     else Inl Malformed))"

section \<open>Consensus\<close>

fun capability_values_equal :: "CapabilityValue \<Rightarrow> CapabilityValue \<Rightarrow> bool" where
  "capability_values_equal Cap_None Cap_None = True"
| "capability_values_equal (Cap_Boolean a) (Cap_Boolean b) = (a = b)"
| "capability_values_equal (Cap_Count a) (Cap_Count b) = (a = b)"
| "capability_values_equal (Cap_Enum a) (Cap_Enum b) = (a = b)"
| "capability_values_equal (Cap_Real a) (Cap_Real b) = dbl_eq a b"
| "capability_values_equal (Cap_Text a) (Cap_Text b) = (a = b)"
| "capability_values_equal (Cap_EnumSet a) (Cap_EnumSet b) = (a = b)"
| "capability_values_equal (Cap_TextSet a) (Cap_TextSet b) = (a = b)"
| "capability_values_equal (Cap_Spectrum a) (Cap_Spectrum b) = list_all2 spectrum_eq a b"
| "capability_values_equal _ _ = False"

record CapabilityDeclaration =
  cd_key :: CapabilityKey
  cd_subkey :: string
  cd_value :: CapabilityValue
  cd_source :: SourceId
  cd_source_epoch :: SourceEpoch
  cd_module :: ModuleUid
  cd_incarnation :: IncarnationId
  cd_port :: string
  cd_module_subject :: bool
  cd_generation :: Generation
  cd_sequence :: Sequence
  cd_observed_at_wall_ns :: WallNs
  cd_clock_domain :: ClockDomainId
  cd_provenance :: Provenance
  cd_live :: bool

record CapabilityConsensus =
  cc_key :: CapabilityKey
  cc_subkey :: string
  cc_outcome :: ConsensusOutcome
  cc_has_value :: bool
  cc_value :: CapabilityValue
  cc_declarations :: "CapabilityDeclaration list"
  cc_superseded :: "CapabilityDeclaration list"
  cc_digest :: Digest

definition cc_conflicted :: "CapabilityConsensus \<Rightarrow> bool" where
  "cc_conflicted c \<longleftrightarrow> cc_outcome c = CO_Conflicting"

definition cc_established :: "CapabilityConsensus \<Rightarrow> bool" where
  "cc_established c \<longleftrightarrow>
     cc_has_value c \<and> (cc_outcome c = CO_Agreed \<or> cc_outcome c = CO_SingleSource)"

definition declaration_key :: "CapabilityDeclaration \<Rightarrow> CapabilityKey \<times> string" where
  "declaration_key d = (cd_key d, cd_subkey d)"

definition declaration_author :: "CapabilityDeclaration \<Rightarrow> SourceId \<times> SourceEpoch" where
  "declaration_author d = (cd_source d, cd_source_epoch d)"

definition digest_consensus ::
    "CapabilityKey \<Rightarrow> ConsensusOutcome \<Rightarrow> string \<Rightarrow> CapabilityValue option \<Rightarrow> Digest" where
  "digest_consensus key outcome subkey agreed =
     writer_digest
       (let w = w_begin_object 4 writer_empty;
            w = w_field ''key'' w;
            w = w_integer (word_of_nat (CapabilityKey_code key)) w;
            w = w_field ''outcome'' w;
            w = w_integer (word_of_nat (ConsensusOutcome_code outcome)) w;
            w = w_field ''subkey'' w;
            w = w_text subkey w;
            w = w_field ''value'' w
        in case agreed of Some v \<Rightarrow> write_canonical v w | None \<Rightarrow> w_null_value w)"

definition attribute_consensus ::
    "(CapabilityKey \<times> string) \<times> CapabilityDeclaration list \<Rightarrow> CapabilityConsensus" where
  "attribute_consensus entry =
     (let (live, superseded) = settle cd_live cd_sequence declaration_author (snd entry);
          (outcome, agreed) = settle_outcome capability_values_equal cd_value live superseded
      in \<lparr>cc_key = fst (fst entry), cc_subkey = snd (fst entry), cc_outcome = outcome,
          cc_has_value = (agreed \<noteq> None),
          cc_value = (case agreed of None \<Rightarrow> Cap_None | Some v \<Rightarrow> v),
          cc_declarations = live, cc_superseded = superseded,
          cc_digest = digest_consensus (fst (fst entry)) outcome (snd (fst entry)) agreed\<rparr>)"

definition build_capability_consensus :: "CapabilityDeclaration list \<Rightarrow> CapabilityConsensus list" where
  "build_capability_consensus declarations =
     map attribute_consensus (group_by declaration_key declarations)"

record CapabilityView =
  cw_module_subject :: bool
  cw_uid :: ModuleUid
  cw_incarnation :: IncarnationId
  cw_port :: string
  cw_generation :: Generation
  cw_attributes :: "CapabilityConsensus list"
  cw_digest :: Digest
  cw_conflicting_attributes :: "32 word"
  cw_unestablished_attributes :: "32 word"

definition capability_view_find ::
    "CapabilityConsensus list \<Rightarrow> CapabilityKey \<Rightarrow> string \<Rightarrow> CapabilityConsensus option" where
  "capability_view_find attrs key subkey =
     List.find (\<lambda>c. cc_key c = key \<and> cc_subkey c = subkey) attrs"

definition write_attribute_digest :: "CapabilityConsensus \<Rightarrow> CanonicalWriter \<Rightarrow> CanonicalWriter" where
  "write_attribute_digest c w =
     (let w = w_begin_object 4 w;
          w = w_field ''digest'' w;
          w = w_binary (cc_digest c) w;
          w = w_field ''key'' w;
          w = w_integer (word_of_nat (CapabilityKey_code (cc_key c))) w;
          w = w_field ''outcome'' w;
          w = w_integer (word_of_nat (ConsensusOutcome_code (cc_outcome c))) w;
          w = w_field ''subkey'' w;
          w = w_text (cc_subkey c) w
      in w)"

definition digest_capability_attributes :: "CapabilityConsensus list \<Rightarrow> Digest" where
  "digest_capability_attributes attrs =
     writer_digest (foldl (\<lambda>w c. write_attribute_digest c w)
       (w_begin_array (word_of_nat (length attrs)) writer_empty) attrs)"

section \<open>Canonical sets\<close>

text \<open>Values whose sets are in canonical form, as the constructors leave them.\<close>

fun canonical_value :: "CapabilityValue \<Rightarrow> bool" where
  "canonical_value (Cap_EnumSet is) = (canonical_enum_set is = is)"
| "canonical_value (Cap_TextSet ts) = (canonical_text_set ts = ts)"
| "canonical_value (Cap_Spectrum ds) = (canonical_spectrum ds = ds)"
| "canonical_value _ = True"

lemma unique_by_set: "set (unique_by eq xs) \<subseteq> set xs"
  by (induction eq xs rule: unique_by.induct) auto

lemma unique_by_sorted: "sorted (map f xs) \<Longrightarrow> sorted (map f (unique_by eq xs))"
proof (induction eq xs rule: unique_by.induct)
  case (1 eq a b xs)
  then show ?case using unique_by_set [of eq "b # xs"] by auto
qed auto

lemma unique_by_hd: "unique_by eq (a # xs) = a # tl (unique_by eq (a # xs))"
  by (induction eq "a # xs" arbitrary: a xs rule: unique_by.induct) auto

lemma unique_by_idem: "unique_by eq (unique_by eq xs) = unique_by eq xs"
proof (induction eq xs rule: unique_by.induct)
  case (1 eq a b xs)
  show ?case
  proof (cases "eq a b")
    case True
    then show ?thesis using 1(1) by simp
  next
    case False
    then have "unique_by eq (b # xs) = b # tl (unique_by eq (b # xs))"
      "unique_by eq (unique_by eq (b # xs)) = unique_by eq (b # xs)"
      using 1(2) unique_by_hd [of eq b xs] by simp_all
    then show ?thesis using False by (metis unique_by.simps(1))
  qed
qed auto

lemma sort_key_sorted: "sorted (map f xs) \<Longrightarrow> sort_key f xs = xs"
  by (induction xs) (auto simp: insort_is_Cons)

lemma unique_sort_idem:
  "unique_by eq (sort_key f (unique_by eq (sort_key f xs))) = unique_by eq (sort_key f xs)"
  by (simp add: sort_key_sorted unique_by_sorted unique_by_idem)

lemma canonical_value_constructors:
  "canonical_value (cap_enum_set is)" "canonical_value (cap_text_set ts)"
  "canonical_value (cap_spectrum ds)"
  by (simp_all add: cap_enum_set_def cap_text_set_def cap_spectrum_def canonical_enum_set_def
      canonical_text_set_def canonical_spectrum_def unique_sort_idem)

text \<open>An enum or text set in canonical form is strictly ascending with the given members.\<close>

lemma unique_by_eq_strict:
  fixes f :: "'a \<Rightarrow> 'b::linorder"
  shows "sorted (map f xs) \<Longrightarrow> inj_on f (set xs) \<Longrightarrow>
   sorted_wrt (<) (map f (unique_by (=) xs)) \<and> set (unique_by (=) xs) = set xs"
proof (induction "(=) :: 'a \<Rightarrow> 'a \<Rightarrow> bool" xs rule: unique_by.induct)
  case (1 a b xs)
  show ?case
  proof (cases "a = b")
    case True
    then show ?thesis using 1 by auto
  next
    case False
    then have "f a < f b" using 1(3,4) by (auto simp: order.strict_iff_order inj_on_def)
    then show ?thesis using 1 False by (auto simp: inj_on_def)
  qed
qed auto

lemma canonical_enum_set_spec:
  "sorted_wrt (<) (map sint (canonical_enum_set is)) \<and> set (canonical_enum_set is) = set is"
  using unique_by_eq_strict [of sint "sort_key sint is"]
  by (auto simp: canonical_enum_set_def inj_on_def intro: signed_word_eqI)

lemma canonical_text_set_spec:
  "sorted_wrt (<) (canonical_text_set ts) \<and> set (canonical_text_set ts) = set ts"
  using unique_by_eq_strict [of "\<lambda>t. t" "sort ts"]
  by (simp add: canonical_text_set_def)

section \<open>Encoding round trip\<close>

definition descriptor_tree :: "SpectrumDescriptor \<Rightarrow> Value" where
  "descriptor_tree d = VObject
     [(''center_nm'', VReal (sd_center_nm d)), (''channel'', VText (sd_channel d)),
      (''frequency_thz'', VReal (sd_frequency_thz d)),
      (''grid'', VInteger (word_of_nat (WavelengthGrid_code (sd_grid d)))),
      (''lane'', VInteger (ucast (sd_lane d)))]"

fun capability_tree :: "CapabilityValue \<Rightarrow> Value" where
  "capability_tree Cap_None = VObject [(''k'', VText ''none'')]"
| "capability_tree (Cap_Boolean b) = VObject [(''b'', VBoolean b), (''k'', VText ''boolean'')]"
| "capability_tree (Cap_Count i) = VObject [(''i'', VInteger i), (''k'', VText ''count'')]"
| "capability_tree (Cap_Enum i) = VObject [(''i'', VInteger i), (''k'', VText ''enum'')]"
| "capability_tree (Cap_Real d) = VObject [(''k'', VText ''real''), (''r'', VReal d)]"
| "capability_tree (Cap_Text s) = VObject [(''k'', VText ''text''), (''t'', VText s)]"
| "capability_tree (Cap_EnumSet is) =
     VObject [(''k'', VText ''enum_set''), (''s'', VArray (map VInteger is))]"
| "capability_tree (Cap_TextSet ts) =
     VObject [(''k'', VText ''text_set''), (''s'', VArray (map VText ts))]"
| "capability_tree (Cap_Spectrum ds) =
     VObject [(''k'', VText ''spectrum''), (''s'', VArray (map descriptor_tree ds))]"

lemma write_array_map:
  "write_value (VArray (map f xs)) w =
     foldl (\<lambda>w x. write_value (f x) w) (w_begin_array (word_of_nat (length xs)) w) xs"
  by (simp add: foldl_map o_def)

lemma write_descriptor_tree: "write_spectrum_descriptor d w = write_value (descriptor_tree d) w"
  by (simp add: write_spectrum_descriptor_def descriptor_tree_def Let_def)

lemma write_canonical_tree: "write_canonical v w = write_value (capability_tree v) w"
  by (cases v)
    (simp_all add: write_array_map write_spectrum_def write_descriptor_tree del: write_value.simps(8))

lemma osorted_literals:
  "osorted [(''center_nm'', a), (''channel'', b), (''frequency_thz'', c), (''grid'', d), (''lane'', e)]"
  "osorted [(''b'', a), (''k'', b)]" "osorted [(''i'', a), (''k'', b)]"
  "osorted [(''k'', b), (''r'', a)]" "osorted [(''k'', b), (''t'', a)]"
  "osorted [(''k'', b), (''s'', a)]" "osorted [(''k'', b)]"
  by (simp_all add: osorted_def less_char_def)

lemma WavelengthGrid_of_code: "enum_of_code kWavelengthGridNames (WavelengthGrid_code g) = Some g"
  by (cases g) (simp_all add: enum_of_code_def kWavelengthGridNames_def)

lemma WavelengthGrid_code_small: "WavelengthGrid_code g < 2 ^ 63"
  by (cases g) simp_all

lemma lane_range: "0 \<le> sint (ucast (l :: lane) :: 64 word) \<and> sint (ucast l :: 64 word) \<le> 65535 \<and>
    ucast (ucast l :: 64 word) = l"
proof -
  have "uint l < 2 ^ LENGTH(16)" by (rule unsigned_less)
  have "- (2 ^ 63) \<le> uint l" by (rule order_trans [of _ 0]) simp_all
  then have "signed_take_bit 63 (uint l) = uint l"
    using \<open>uint l < _\<close> by (intro signed_take_bit_int_eq_self) simp_all
  moreover have "uint (ucast l :: 64 word) = uint l"
        using \<open>uint l < _\<close> by (simp add: unsigned_ucast_eq take_bit_int_eq_self)
  ultimately have "sint (ucast l :: 64 word) = uint l" by (simp add: sint_uint)
  moreover have "ucast (ucast l :: 64 word) = l" by (rule bit_word_eqI) (simp add: bit_ucast_iff)
  ultimately show ?thesis using \<open>uint l < _\<close> by simp
qed

lemma read_descriptor_tree:
  assumes "finite_descriptor d" "\<not> negative_descriptor d"
  shows "read_spectrum_descriptor (descriptor_tree d) = Inr d"
proof -
  note hit = get_hits [OF osorted_literals(1)]
  have grid: "get_enum kWavelengthGridNames (descriptor_tree d) ''grid'' = Inr (sd_grid d)"
    unfolding descriptor_tree_def
    by (rule get_enum_hit [OF osorted_literals(1) _ WavelengthGrid_of_code WavelengthGrid_code_small]) simp
  have "get_integer (descriptor_tree d) ''lane'' = Inr (ucast (sd_lane d))"
    "get_real (descriptor_tree d) ''center_nm'' = Inr (sd_center_nm d)"
    "get_real (descriptor_tree d) ''frequency_thz'' = Inr (sd_frequency_thz d)"
    "get_text (descriptor_tree d) ''channel'' = Inr (sd_channel d)"
    unfolding descriptor_tree_def by (simp_all add: hit)
  then show ?thesis
    using assms grid lane_range [of "sd_lane d"]
    by (simp add: read_spectrum_descriptor_def as_object_def finite_descriptor_def
        negative_descriptor_def) (simp add: descriptor_tree_def)
qed

lemma map_res_map: "(\<And>x. x \<in> set xs \<Longrightarrow> f (g x) = Inr x) \<Longrightarrow> map_res f (map g xs) = Inr xs"
  by (induction xs) auto

lemma read_canonical_tree:
  assumes "validate_shape v = Inr ()" "canonical_value v"
  shows "read_canonical (capability_tree v) = Inr v"
proof (cases v)
  case (Cap_EnumSet vs)
  have "map_res as_integer_entry (map VInteger vs) = Inr vs"
    by (rule map_res_map) (simp add: as_integer_entry_def)
  then show ?thesis using assms(2) Cap_EnumSet
    by (simp add: read_canonical_def as_object_def get_hits [OF osorted_literals(6)] cap_enum_set_def)
next
  case (Cap_TextSet ts)
  have "map_res as_text_entry (map VText ts) = Inr ts"
    by (rule map_res_map) (simp add: as_text_entry_def)
  then show ?thesis using assms(2) Cap_TextSet
    by (simp add: read_canonical_def as_object_def get_hits [OF osorted_literals(6)] cap_text_set_def)
next
  case (Cap_Spectrum ds)
  have "map_res read_spectrum_descriptor (map descriptor_tree ds) = Inr ds"
    using assms(1) Cap_Spectrum
    by (intro map_res_map read_descriptor_tree) (auto simp: try_all_Inr res_elims)
  then show ?thesis using assms(2) Cap_Spectrum
    by (simp add: read_canonical_def as_object_def get_hits [OF osorted_literals(6)] cap_spectrum_def)
qed (use assms(1) in \<open>auto simp: read_canonical_def as_object_def get_hits [OF osorted_literals(2)]
      get_hits [OF osorted_literals(3)] get_hits [OF osorted_literals(4)] get_hits [OF osorted_literals(5)]
      get_hits [OF osorted_literals(7)] split: if_splits\<close>)


section \<open>Properties\<close>

text \<open>
  A capability value survives its encoding. Writing a valid value whose sets are canonical is
  writing the canonical document \<open>capability_tree v\<close>, decoding that document gives the value back,
  and so does reading the written bytes whenever they are within the reader's limits.
\<close>

theorem capability_value_roundtrip:
  assumes "validate_for v key = Inr ()" "canonical_value v"
  shows "write_canonical v w = write_value (capability_tree v) w \<and>
    read_canonical (capability_tree v) = Inr v \<and>
    (document_fits L (capability_tree v) \<and>
       length (w_buffer (write_canonical v writer_empty)) \<le> unat (max_document_bytes L) \<longrightarrow>
     try_res (read_document L (w_buffer (write_canonical v writer_empty))) read_canonical = Inr v)"
proof -
  have shape: "validate_shape v = Inr ()"
    using assms(1) by (simp add: validate_for_def Let_def split: if_splits)
  have "try_res (read_document L (w_buffer (write_canonical v writer_empty))) read_canonical = Inr v"
    if "document_fits L (capability_tree v)"
      "length (w_buffer (write_canonical v writer_empty)) \<le> unat (max_document_bytes L)"
  proof -
    have "writable (capability_tree v)" using that(1) unfolding document_fits_def by (blast intro: fits_writable)
    then have "w_buffer (write_canonical v writer_empty) = canonical_bytes (capability_tree v)"
      by (simp add: write_canonical_tree write_value_writable w_append_def writer_empty_def)
    then have "read_document L (w_buffer (write_canonical v writer_empty)) = Inr (capability_tree v)"
      using that by (simp add: read_document_Inr)
    then show ?thesis using read_canonical_tree [OF shape assms(2)] by simp
  qed
  then show ?thesis using write_canonical_tree read_canonical_tree [OF shape assms(2)] by blast
qed

definition example_speeds :: CapabilityValue where
  "example_speeds = cap_of_set SpeedClass_code [SC_Gb400, SC_Gb100]"

lemma capability_value_roundtrip_witness:
  "read_canonical (capability_tree example_speeds) = Inr example_speeds"
proof (rule conjunct1 [OF conjunct2 [OF capability_value_roundtrip]])
  show "validate_for example_speeds CK_SpeedClasses = Inr ()" by code_simp
  show "canonical_value example_speeds"
    by (simp add: example_speeds_def cap_of_set_def canonical_value_constructors)
qed

text \<open>
  The set constructors build canonical sets: an enum or text set is strictly ascending and has
  exactly the members given, so equal sets are equal lists, and rebuilding any canonical value
  changes nothing.
\<close>

theorem capability_sets_canonical:
  "sorted_wrt (<) (map sint (canonical_enum_set es)) \<and> set (canonical_enum_set es) = set es \<and>
   sorted_wrt (<) (canonical_text_set ts) \<and> set (canonical_text_set ts) = set ts \<and>
   sorted (map spectrum_order (canonical_spectrum ds)) \<and>
   canonical_value (cap_enum_set es) \<and> canonical_value (cap_text_set ts) \<and>
   canonical_value (cap_spectrum ds)"
  using canonical_enum_set_spec [of es] canonical_text_set_spec [of ts]
  by (simp add: canonical_value_constructors) (simp add: canonical_spectrum_def unique_by_sorted)

lemma spectrum_eq_sym: "spectrum_eq a b \<Longrightarrow> spectrum_eq b a"
  by (simp add: spectrum_eq_def dbl_eq_def)

lemma spectrum_eq_trans: "spectrum_eq a b \<Longrightarrow> spectrum_eq b c \<Longrightarrow> spectrum_eq a c"
  by (simp add: spectrum_eq_def dbl_eq_def)

text \<open>The comparison of values is symmetric and transitive; a NaN differs from itself.\<close>

interpretation capability_agreement: agreement capability_values_equal
proof
  fix a b assume "capability_values_equal a b"
  then show "capability_values_equal b a"
    by (cases a; cases b)
      (auto simp: dbl_eq_def list_all2_conv_all_nth spectrum_eq_sym)
next
  fix a b c assume "capability_values_equal a b" "capability_values_equal b c"
  then show "capability_values_equal a c"
    by (cases a; cases b; cases c)
      (auto simp: dbl_eq_def list_all2_conv_all_nth, blast intro: spectrum_eq_trans)
qed


section \<open>Consensus\<close>

lemma attribute_mem:
  "c \<in> set (build_capability_consensus ds) \<longleftrightarrow>
     (\<exists>k \<in> declaration_key ` set ds. c = attribute_consensus (k, filter (\<lambda>x. declaration_key x = k) ds))"
proof -
  have "c \<in> set (build_capability_consensus ds) \<longleftrightarrow>
      (\<exists>k ys. (k, ys) \<in> set (group_by declaration_key ds) \<and> c = attribute_consensus (k, ys))"
    by (auto simp: build_capability_consensus_def)
  then show ?thesis by (simp only: group_by_member) blast
qed

lemma attribute_consensus_key: "(cc_key (attribute_consensus e), cc_subkey (attribute_consensus e)) = fst e"
  by (cases e) (simp add: attribute_consensus_def split_beta Let_def)

lemma attribute_consensus_settle:
  "settle cd_live cd_sequence declaration_author (snd e) =
     (cc_declarations (attribute_consensus e), cc_superseded (attribute_consensus e))"
  by (simp add: attribute_consensus_def split_beta Let_def)

lemma attribute_consensus_outcome:
  "settle_outcome capability_values_equal cd_value (cc_declarations (attribute_consensus e))
     (cc_superseded (attribute_consensus e)) =
     (cc_outcome (attribute_consensus e),
      if cc_has_value (attribute_consensus e) then Some (cc_value (attribute_consensus e)) else None)"
  by (auto simp: attribute_consensus_def split_beta Let_def split: option.splits intro!: prod_eqI)

text \<open>
  Capability consensus loses and invents nothing: one record per key and sub-key declared, in
  key order, whose live and superseded declarations together are exactly those made for the key, the
  live ones from distinct source incarnations, each the latest live declaration of its source.
\<close>

theorem capability_consensus_complete:
  "sorted_wrt (<) (map (\<lambda>c. (cc_key c, cc_subkey c)) (build_capability_consensus ds)) \<and>
   (\<lambda>c. (cc_key c, cc_subkey c)) ` set (build_capability_consensus ds) = declaration_key ` set ds \<and>
   list_all (\<lambda>c.
      let made = filter (\<lambda>x. declaration_key x = (cc_key c, cc_subkey c)) ds in
      mset (cc_declarations c) + mset (cc_superseded c) = mset made \<and>
      distinct (map declaration_author (cc_declarations c)) \<and>
      declaration_author ` set (cc_declarations c) = declaration_author ` set (filter cd_live made) \<and>
      list_all (\<lambda>x. cd_live x \<and>
        list_all (\<lambda>y. declaration_author y = declaration_author x \<longrightarrow> cd_sequence y \<le> cd_sequence x)
          (filter cd_live made)) (cc_declarations c))
     (build_capability_consensus ds)"
  (is "_ \<and> _ \<and> list_all ?ok _")
proof (intro conjI)
  have keys: "map (\<lambda>c. (cc_key c, cc_subkey c)) (build_capability_consensus ds) =
      map fst (group_by declaration_key ds)"
    by (simp add: build_capability_consensus_def attribute_consensus_key o_def)
  show "sorted_wrt (<) (map (\<lambda>c. (cc_key c, cc_subkey c)) (build_capability_consensus ds))"
    unfolding keys using osorted_group_by [of declaration_key ds] by (simp only: osorted_def)
  show "(\<lambda>c. (cc_key c, cc_subkey c)) ` set (build_capability_consensus ds) = declaration_key ` set ds"
    using keys group_by_keys [of declaration_key ds] by (metis set_map)
  have "?ok c" if mem: "c \<in> set (build_capability_consensus ds)" for c
  proof -
    obtain k where c: "c = attribute_consensus (k, filter (\<lambda>x. declaration_key x = k) ds)"
      using mem attribute_mem by blast
    then have k: "(cc_key c, cc_subkey c) = k" by (simp add: attribute_consensus_key)
    have "settle cd_live cd_sequence declaration_author (filter (\<lambda>x. declaration_key x = k) ds) =
        (cc_declarations c, cc_superseded c)"
      unfolding c attribute_consensus_settle [symmetric] by simp
    from settle_spec [OF this] k show ?thesis by (simp add: list_all_iff)
  qed
  then show "list_all ?ok (build_capability_consensus ds)" by (simp only: list_all_iff) blast
qed

text \<open>
  C30. A disputed capability is never established. An attribute has a value exactly when it is
  established; the outcome is \<open>Agreed\<close> exactly when at least two sources declare it and every two
  declared values are equal, and \<open>Conflicting\<close>, without a value, exactly when two differ.
\<close>

theorem capability_consensus_outcome:
  assumes "c \<in> set (build_capability_consensus ds)"
  defines "live \<equiv> cc_declarations c"
  shows "(cc_has_value c \<longleftrightarrow> cc_established c) \<and>
    (cc_established c \<longrightarrow> live \<noteq> [] \<and> cc_value c = cd_value (hd live) \<and>
       (\<forall>x \<in> set (tl live). capability_values_equal (cc_value c) (cd_value x))) \<and>
    (cc_outcome c = CO_Agreed \<longleftrightarrow> 2 \<le> length live \<and>
       (\<forall>i < length live. \<forall>j < length live. i \<noteq> j \<longrightarrow>
          capability_values_equal (cd_value (live ! i)) (cd_value (live ! j)))) \<and>
    (cc_outcome c = CO_Conflicting \<longleftrightarrow>
       (\<exists>i < length live. \<exists>j < length live. i \<noteq> j \<and>
          \<not> capability_values_equal (cd_value (live ! i)) (cd_value (live ! j)))) \<and>
    (cc_outcome c = CO_SingleSource \<longleftrightarrow> length live = 1) \<and>
    (cc_outcome c = CO_Superseded \<longleftrightarrow> live = []) \<and> cc_outcome c \<noteq> CO_Unknown"
proof -
  obtain k where k: "k \<in> declaration_key ` set ds"
    and c: "c = attribute_consensus (k, filter (\<lambda>x. declaration_key x = k) ds)"
    using assms(1) attribute_mem by blast
  let ?old = "cc_superseded c"
  let ?v = "if cc_has_value c then Some (cc_value c) else None"
  have st: "settle cd_live cd_sequence declaration_author (filter (\<lambda>x. declaration_key x = k) ds) =
      (live, ?old)"
    unfolding c live_def attribute_consensus_settle [symmetric] by simp
  have oc: "settle_outcome capability_values_equal cd_value live ?old = (cc_outcome c, ?v)"
    unfolding c live_def by (rule attribute_consensus_outcome)
  have ne: "\<not> (live = [] \<and> ?old = [])"
    using settle_length [OF st] k by (auto simp: filter_empty_conv image_iff)
  note val = outcome_value [OF oc]
  note agreed = capability_agreement.outcome_agreed [of cd_value live ?old, unfolded oc]
  note confl = capability_agreement.outcome_conflicting [of cd_value live ?old, unfolded oc]
  have h: "cc_has_value c \<longleftrightarrow> cc_outcome c = CO_Agreed \<or> cc_outcome c = CO_SingleSource"
    using val [THEN conjunct1] by (simp split: if_splits)
  then have e: "cc_has_value c \<longleftrightarrow> cc_established c" by (auto simp: cc_established_def)
  have hd: "live \<noteq> [] \<and> cc_value c = cd_value (hd live)" if "cc_established c"
    using val that e by auto
  have a: "cc_outcome c = CO_Agreed \<longleftrightarrow> 2 \<le> length live \<and>
       (\<forall>i < length live. \<forall>j < length live. i \<noteq> j \<longrightarrow>
          capability_values_equal (cd_value (live ! i)) (cd_value (live ! j)))"
    using agreed [of "Some (cd_value (hd live))"] hd h e by auto
  have f: "cc_outcome c = CO_Conflicting \<longleftrightarrow>
       (\<exists>i < length live. \<exists>j < length live. i \<noteq> j \<and>
          \<not> capability_values_equal (cd_value (live ! i)) (cd_value (live ! j)))"
    using confl [of None] h by auto
  have s: "cc_outcome c = CO_SingleSource \<longleftrightarrow> length live = 1"
    "cc_outcome c = CO_Superseded \<longleftrightarrow> live = []" "cc_outcome c \<noteq> CO_Unknown"
    using val ne by (simp_all) argo
  have t: "\<forall>x \<in> set (tl live). capability_values_equal (cc_value c) (cd_value x)"
    if "cc_established c"
  proof
    fix x assume "x \<in> set (tl live)"
    then obtain i where "i < length (tl live)" "x = tl live ! i" by (auto simp: in_set_conv_nth)
    then have i: "Suc i < length live" "x = live ! Suc i" by (auto simp: nth_tl)
    then have "cc_outcome c = CO_Agreed" using h e that s(1) by auto
    then show "capability_values_equal (cc_value c) (cd_value x)"
      using a [THEN iffD1, THEN conjunct2, rule_format, of 0 "Suc i"] i hd [OF that]
      by (simp add: hd_conv_nth)
  qed
  show ?thesis using hd t by (intro conjI e a f s impI) simp_all
qed

definition example_declaration :: "SourceId \<Rightarrow> CapabilityValue \<Rightarrow> Sequence \<Rightarrow> CapabilityDeclaration" where
  "example_declaration source v sq =
     \<lparr>cd_key = CK_LaneCount, cd_subkey = [], cd_value = v, cd_source = source,
      cd_source_epoch = 1, cd_module = 1, cd_incarnation = 1, cd_port = [], cd_module_subject = True,
      cd_generation = 1, cd_sequence = sq, cd_observed_at_wall_ns = 0, cd_clock_domain = 1,
      cd_provenance = \<lparr>pv_kind = EK_Real, pv_origin = ''eeprom'', pv_method = ''read'',
        pv_content_digest = zero_digest, pv_capture_ref = []\<rparr>,
      cd_live = True\<rparr>"

lemma capability_consensus_outcome_witness:
  "\<exists>c \<in> set (build_capability_consensus
       [example_declaration 1 (Cap_Count 4) 1, example_declaration 2 (Cap_Count 8) 2]).
     cc_outcome c = CO_Conflicting \<and> \<not> cc_established c"
proof -
  let ?ds = "[example_declaration 1 (Cap_Count 4) 1, example_declaration 2 (Cap_Count 8) 2]"
  obtain c where c: "build_capability_consensus ?ds = [c]" "cc_declarations c = ?ds"
    by (simp add: build_capability_consensus_def group_by_def group_push_def declaration_key_def
        example_declaration_def attribute_consensus_def settle_def newest_per_source_def
        declaration_author_def Let_def oget_def)
  then have mem: "c \<in> set (build_capability_consensus ?ds)" by simp
  have "\<not> capability_values_equal (cd_value (?ds ! 0)) (cd_value (?ds ! 1))"
    by (simp add: example_declaration_def)
  then have "cc_outcome c = CO_Conflicting"
    using capability_consensus_outcome [OF mem] c(2)
    by (intro capability_consensus_outcome [OF mem, unfolded c(2), THEN conjunct2, THEN conjunct2,
          THEN conjunct2, THEN conjunct1, THEN iffD2] exI [of _ 0] exI [of _ 1] conjI) simp_all
  then show ?thesis using mem by (intro bexI [of _ c]) (simp_all add: cc_established_def)
qed

text \<open>
  The order in which declarations reached the builder is irrelevant once their sequence numbers
  are distinct.
\<close>

theorem capability_consensus_order_independent:
  assumes "mset ds = mset ds'" "inj_on cd_sequence (set ds)"
  shows "build_capability_consensus ds = build_capability_consensus ds'"
proof -
  have "settle cd_live cd_sequence declaration_author (filter P ds) =
      settle cd_live cd_sequence declaration_author (filter P ds')" for P
    using assms by (intro settle_perm) (auto simp: mset_filter inj_on_def)
  then have "attribute_consensus (k, filter P ds) = attribute_consensus (k, filter P ds')" for k P
    by (simp add: attribute_consensus_def)
  then show ?thesis
    unfolding build_capability_consensus_def by (intro group_by_perm_map [OF assms(1)])
qed

lemma capability_consensus_order_independent_witness:
  "build_capability_consensus
     [example_declaration 1 (Cap_Count 4) 1, example_declaration 2 (Cap_Count 8) 2] =
   build_capability_consensus
     [example_declaration 2 (Cap_Count 8) 2, example_declaration 1 (Cap_Count 4) 1]"
  by (rule capability_consensus_order_independent) (simp_all add: example_declaration_def)

lemma capability_consensus_complete_witness:
  "(\<lambda>c. (cc_key c, cc_subkey c)) ` set (build_capability_consensus
       [example_declaration 1 (Cap_Count 4) 1, example_declaration 2 (Cap_Count 8) 2]) =
   {(CK_LaneCount, [])}"
  using capability_consensus_complete
    [of "[example_declaration 1 (Cap_Count 4) 1, example_declaration 2 (Cap_Count 8) 2]"]
  by (simp add: declaration_key_def example_declaration_def)

end
