(* ===== verification/Compat.thy ===== *)
theory Compat
  imports Capability
begin

text \<open>
  Compatibility rules: \<open>src/src/compatibility.cpp\<close> and \<open>include/trxreg/compatibility.hpp\<close>. A rule
  asserts a verdict about a port and a module when all its requirements hold of the attributes the
  resolver returns. The resolver is a \<open>std::function\<close>, possibly empty, so it is an optional HOL
  function. The texts that explain a decision (\<open>detail\<close>, \<open>explanation\<close>) are left out; no code
  branches on them.

  \<open>std::sort\<close> on (priority, rule id) is \<open>sort_key\<close>; it agrees with the unstable sort because rule
  ids are distinct. The lemmas give the meaning of the operators and of the four outcomes, and show
  that approval rests on established knowledge only.
\<close>

section \<open>Data\<close>

record Requirement =
  rq_subject :: RequirementSubject
  rq_key :: CapabilityKey
  rq_subkey :: string
  rq_op :: RequirementOp
  rq_operand :: CapabilityValue
  rq_note :: string

record CompatRule =
  cr_name :: string
  cr_requirements :: "Requirement list"
  cr_verdict :: CompatVerdict
  cr_priority :: "32 word"
  cr_rationale :: string
  cr_provenance :: Provenance
  cr_enabled :: bool

record CompatRuleRecord =
  rr_id :: RuleId
  rr_rule :: CompatRule
  rr_source :: SourceId
  rr_source_epoch :: SourceEpoch
  rr_generation :: Generation
  rr_sequence :: Sequence
  rr_live :: bool

record RequirementEvaluation =
  re_requirement :: Requirement
  re_state :: RequirementState
  re_consensus :: ConsensusOutcome
  re_has_observed :: bool
  re_observed :: CapabilityValue

record MatchedRule =
  mr_id :: RuleId
  mr_name :: string
  mr_verdict :: CompatVerdict
  mr_priority :: "32 word"
  mr_generation :: Generation
  mr_rationale :: string
  mr_requirements :: "RequirementEvaluation list"

record CompatDecision =
  de_outcome :: CompatOutcome
  de_closure :: KnowledgeClosure
  de_port :: string
  de_uid :: ModuleUid
  de_incarnation :: IncarnationId
  de_generation :: Generation
  de_considered_rules :: "32 word"
  de_indeterminate_rules :: "32 word"
  de_matched_rules :: "MatchedRule list"
  de_unmet_requirements :: "RequirementEvaluation list"
  de_violated_requirements :: "RequirementEvaluation list"
  de_inputs_digest :: Digest
  de_decision_digest :: Digest
  de_evaluated_at_wall_ns :: WallNs
  de_clock_domain :: ClockDomainId

record CompatQuery =
  cq_port :: string
  cq_uid :: ModuleUid
  cq_incarnation :: IncarnationId
  cq_require_latest_generation :: bool
  cq_expected_generation :: Generation
  cq_explain :: bool
  cq_max_rules :: "32 word"

type_synonym attributes = "RequirementSubject \<Rightarrow> CapabilityKey \<Rightarrow> string \<Rightarrow> CapabilityConsensus option"
type_synonym AttributeResolver = "attributes option"

section \<open>Operators\<close>

definition is_set_kind :: "CapabilityValueKind \<Rightarrow> bool" where
  "is_set_kind k \<longleftrightarrow> k = CVK_EnumSet \<or> k = CVK_TextSet \<or> k = CVK_Spectrum"

text \<open>The answer of a set comparison, or \<open>None\<close> where the code clears \<open>comparable\<close>.\<close>

fun sets_intersect :: "CapabilityValue \<Rightarrow> CapabilityValue \<Rightarrow> bool option" where
  "sets_intersect (Cap_EnumSet l) (Cap_EnumSet r) = Some (list_ex (\<lambda>v. v \<in> set r) l)"
| "sets_intersect (Cap_TextSet l) (Cap_TextSet r) = Some (list_ex (\<lambda>v. v \<in> set r) l)"
| "sets_intersect _ _ = None"

fun set_contains :: "CapabilityValue \<Rightarrow> CapabilityValue \<Rightarrow> bool option" where
  "set_contains (Cap_EnumSet l) (Cap_EnumSet r) = Some (list_all (\<lambda>v. v \<in> set l) r)"
| "set_contains (Cap_TextSet l) (Cap_TextSet r) = Some (list_all (\<lambda>v. v \<in> set l) r)"
| "set_contains _ _ = None"

definition indeterminate :: "Requirement \<Rightarrow> RequirementEvaluation" where
  "indeterminate rq =
     \<lparr>re_requirement = rq, re_state = RSt_Indeterminate, re_consensus = CO_Unknown,
      re_has_observed = False, re_observed = Cap_None\<rparr>"

definition decided :: "bool \<Rightarrow> RequirementEvaluation \<Rightarrow> RequirementEvaluation" where
  "decided satisfied ev = ev\<lparr>re_state := (if satisfied then RSt_Satisfied else RSt_Violated)\<rparr>"

text \<open>A comparison that may not apply.\<close>

definition decided_if :: "Requirement \<Rightarrow> bool option \<Rightarrow> RequirementEvaluation \<Rightarrow> RequirementEvaluation" where
  "decided_if rq r ev = (case r of None \<Rightarrow> indeterminate rq | Some satisfied \<Rightarrow> decided satisfied ev)"

definition apply_operator ::
    "Requirement \<Rightarrow> CapabilityValue \<Rightarrow> RequirementEvaluation \<Rightarrow> RequirementEvaluation" where
  "apply_operator rq observed ev =
     (let operand = rq_operand rq in
      case rq_op rq of
        RO_Equals \<Rightarrow> decided (capability_values_equal observed operand) ev
      | RO_NotEquals \<Rightarrow> decided (\<not> capability_values_equal observed operand) ev
      | RO_In \<Rightarrow> decided_if rq (set_contains operand observed) ev
      | RO_NotIn \<Rightarrow> decided_if rq (map_option Not (set_contains operand observed)) ev
      | RO_SupersetOf \<Rightarrow> decided_if rq (set_contains observed operand) ev
      | RO_SubsetOf \<Rightarrow> decided_if rq (set_contains operand observed) ev
      | RO_Overlaps \<Rightarrow> decided_if rq (sets_intersect observed operand) ev
      | RO_DisjointFrom \<Rightarrow> decided_if rq (map_option Not (sets_intersect observed operand)) ev
      | RO_AtMost \<Rightarrow>
          (case (cap_number_as_double observed, cap_number_as_double operand) of
             (Some l, Some r) \<Rightarrow> decided (dbl_le l r) ev
           | _ \<Rightarrow> indeterminate rq)
      | RO_AtLeast \<Rightarrow>
          (case (cap_number_as_double observed, cap_number_as_double operand) of
             (Some l, Some r) \<Rightarrow> decided (dbl_le r l) ev
           | _ \<Rightarrow> indeterminate rq)
      | RO_Unknown \<Rightarrow> indeterminate rq)"

section \<open>Validation\<close>

definition validate_requirement :: "Requirement \<Rightarrow> unit res" where
  "validate_requirement rq =
     (if rq_key rq = CK_Unknown \<or> rq_key rq = CK_Unsupported then Inl InvalidArgument
      else if rq_op rq = RO_Unknown then Inl InvalidArgument
      else
        let expected = capability_value_kind (rq_key rq);
            operand_kind = cap_kind (rq_operand rq)
        in
          try_res
            (if rq_op rq \<in> {RO_Equals, RO_NotEquals} then validate_for (rq_operand rq) (rq_key rq)
             else if rq_op rq \<in> {RO_In, RO_NotIn, RO_SupersetOf, RO_SubsetOf, RO_Overlaps, RO_DisjointFrom}
             then
               (if \<not> is_set_kind operand_kind then Inl InvalidArgument
                else if expected \<noteq> operand_kind \<and>
                        \<not> (expected = CVK_Enum \<and> operand_kind = CVK_EnumSet)
                then Inl InvalidArgument
                else Inr ())
             else if rq_op rq \<in> {RO_AtMost, RO_AtLeast} then
               (if operand_kind \<noteq> CVK_Count \<and> operand_kind \<noteq> CVK_Real then Inl InvalidArgument
                else Inr ())
             else Inr ())
            (\<lambda>_. if length (rq_subkey rq) > 128 then Inl InvalidArgument else Inr ()))"

definition validate_rule :: "CompatRule \<Rightarrow> unit res" where
  "validate_rule rule =
     (if cr_name rule = [] then Inl InvalidArgument
      else if length (cr_name rule) > 128 then Inl InvalidArgument
      else if cr_requirements rule = [] then Inl InvalidArgument
      else if cr_verdict rule = CV_Unknown then Inl InvalidArgument
      else try_all validate_requirement (cr_requirements rule))"

section \<open>Evaluation\<close>

definition evaluate_requirement :: "Requirement \<Rightarrow> AttributeResolver \<Rightarrow> RequirementEvaluation" where
  "evaluate_requirement rq resolver =
     (case resolver of
        None \<Rightarrow> indeterminate rq
      | Some resolve \<Rightarrow>
          (case resolve (rq_subject rq) (rq_key rq) (rq_subkey rq) of
             None \<Rightarrow> indeterminate rq
           | Some attribute \<Rightarrow>
               let ev = (indeterminate rq)\<lparr>re_consensus := cc_outcome attribute\<rparr> in
               if cc_outcome attribute = CO_Conflicting then ev
               else if \<not> cc_established attribute then ev
               else apply_operator rq (cc_value attribute)
                      (ev\<lparr>re_has_observed := True, re_observed := cc_value attribute\<rparr>)))"

definition write_attribute_reference ::
    "RequirementSubject \<Rightarrow> CapabilityKey \<Rightarrow> string \<Rightarrow> CapabilityConsensus option \<Rightarrow>
     CanonicalWriter \<Rightarrow> CanonicalWriter" where
  "write_attribute_reference subject key subkey attribute w =
     (let has_value = (case attribute of None \<Rightarrow> False | Some a \<Rightarrow> cc_has_value a);
          w = w_begin_object 6 w;
          w = w_field ''key'' w;
          w = w_integer (word_of_nat (CapabilityKey_code key)) w;
          w = w_field ''outcome'' w;
          w = w_integer (word_of_nat (ConsensusOutcome_code
                (case attribute of None \<Rightarrow> CO_Unknown | Some a \<Rightarrow> cc_outcome a))) w;
          w = w_field ''subject'' w;
          w = w_integer (word_of_nat (RequirementSubject_code subject)) w;
          w = w_field ''subkey'' w;
          w = w_text subkey w;
          w = w_field ''has_value'' w;
          w = w_boolean has_value w;
          w = w_field ''value'' w
      in case attribute of
           Some a \<Rightarrow> if cc_has_value a then write_canonical (cc_value a) w else w_null_value w
         | None \<Rightarrow> w_null_value w)"

text \<open>\<open>std::set\<close> of the attribute references of all rules, in ascending order.\<close>

definition requirement_reference :: "Requirement \<Rightarrow> RequirementSubject \<times> CapabilityKey \<times> string" where
  "requirement_reference rq = (rq_subject rq, rq_key rq, rq_subkey rq)"

definition attribute_references ::
    "CompatRuleRecord list \<Rightarrow> (RequirementSubject \<times> CapabilityKey \<times> string) list" where
  "attribute_references rules =
     map fst (foldl (\<lambda>m r. oput r () m) []
       (concat (map (\<lambda>record. map requirement_reference (cr_requirements (rr_rule record))) rules)))"

definition digest_inputs :: "CompatQuery \<Rightarrow> CompatRuleRecord list \<Rightarrow> AttributeResolver \<Rightarrow> Digest" where
  "digest_inputs query rules resolver =
     (let references = attribute_references rules;
          w = w_begin_object 4 writer_empty;
          w = w_field ''incarnation'' w;
          w = w_integer (ucast (cq_incarnation query)) w;
          w = w_field ''port'' w;
          w = w_text (cq_port query) w;
          w = w_field ''attributes'' w;
          w = w_begin_array (word_of_nat (length references)) w;
          w = foldl (\<lambda>w (subject, key, subkey).
                write_attribute_reference subject key subkey
                  (case resolver of None \<Rightarrow> None | Some resolve \<Rightarrow> resolve subject key subkey) w)
              w references;
          w = w_field ''uid'' w;
          w = w_integer (cq_uid query) w
      in writer_digest w)"

definition rule_order :: "CompatRuleRecord \<Rightarrow> int \<times> RuleId" where
  "rule_order record = (- sint (cr_priority (rr_rule record)), rr_id record)"

text \<open>The rules considered: live and enabled, by priority and id, at most \<open>max_rules\<close> of them.\<close>

definition considered :: "CompatQuery \<Rightarrow> CompatRuleRecord list \<Rightarrow> CompatRuleRecord list" where
  "considered query rules =
     take (unat (cq_max_rules query))
       (sort_key rule_order (filter (\<lambda>r. rr_live r \<and> cr_enabled (rr_rule r)) rules))"

definition evaluate_rule :: "AttributeResolver \<Rightarrow> CompatRuleRecord \<Rightarrow> MatchedRule" where
  "evaluate_rule resolver record =
     \<lparr>mr_id = rr_id record, mr_name = cr_name (rr_rule record), mr_verdict = cr_verdict (rr_rule record),
      mr_priority = cr_priority (rr_rule record), mr_generation = rr_generation record,
      mr_rationale = cr_rationale (rr_rule record),
      mr_requirements = map (\<lambda>rq. evaluate_requirement rq resolver) (cr_requirements (rr_rule record))\<rparr>"

text \<open>The lists the rule loop fills.\<close>

record RuleScan =
  sc_denies :: "MatchedRule list"
  sc_unsupported :: "MatchedRule list"
  sc_allows :: "MatchedRule list"
  sc_indeterminate :: "MatchedRule list"
  sc_violated :: "RequirementEvaluation list"
  sc_unmet :: "RequirementEvaluation list"

definition scan_empty :: RuleScan where
  "scan_empty = \<lparr>sc_denies = [], sc_unsupported = [], sc_allows = [], sc_indeterminate = [],
     sc_violated = [], sc_unmet = []\<rparr>"

definition scan_rule :: "AttributeResolver \<Rightarrow> RuleScan \<Rightarrow> CompatRuleRecord \<Rightarrow> RuleScan" where
  "scan_rule resolver sc record =
     (let evaluated = evaluate_rule resolver record;
          evs = mr_requirements evaluated;
          all_satisfied = list_all (\<lambda>e. re_state e = RSt_Satisfied) evs;
          any_indeterminate = list_ex (\<lambda>e. re_state e = RSt_Indeterminate) evs;
          sc = sc\<lparr>sc_violated := sc_violated sc @ filter (\<lambda>e. re_state e = RSt_Violated) evs\<rparr>
      in if all_satisfied then
           (case mr_verdict evaluated of
              CV_Incompatible \<Rightarrow> sc\<lparr>sc_denies := sc_denies sc @ [evaluated]\<rparr>
            | CV_Unsupported \<Rightarrow> sc\<lparr>sc_unsupported := sc_unsupported sc @ [evaluated]\<rparr>
            | CV_Compatible \<Rightarrow> sc\<lparr>sc_allows := sc_allows sc @ [evaluated]\<rparr>
            | CV_Unknown \<Rightarrow> sc)
         else if any_indeterminate then
           sc\<lparr>sc_unmet := sc_unmet sc @ filter (\<lambda>e. re_state e = RSt_Indeterminate) evs,
              sc_indeterminate := sc_indeterminate sc @ [evaluated]\<rparr>
         else sc)"

definition write_matched_rule :: "MatchedRule \<Rightarrow> CanonicalWriter \<Rightarrow> CanonicalWriter" where
  "write_matched_rule rule w =
     (let w = w_begin_object 3 w;
          w = w_field ''id'' w;
          w = w_integer (ucast (mr_id rule)) w;
          w = w_field ''name'' w;
          w = w_text (mr_name rule) w;
          w = w_field ''verdict'' w;
          w = w_integer (word_of_nat (CompatVerdict_code (mr_verdict rule))) w
      in w)"

definition decision_digest :: "CompatDecision \<Rightarrow> Digest" where
  "decision_digest d =
     (let w = w_begin_object 8 writer_empty;
          w = w_field ''closure'' w;
          w = w_integer (word_of_nat (KnowledgeClosure_code (de_closure d))) w;
          w = w_field ''considered_rules'' w;
          w = w_integer (ucast (de_considered_rules d)) w;
          w = w_field ''generation'' w;
          w = w_integer (de_generation d) w;
          w = w_field ''inputs_digest'' w;
          w = w_binary (de_inputs_digest d) w;
          w = w_field ''matched'' w;
          w = w_begin_array (word_of_nat (length (de_matched_rules d))) w;
          w = foldl (\<lambda>w r. write_matched_rule r w) w (de_matched_rules d);
          w = w_field ''outcome'' w;
          w = w_integer (word_of_nat (CompatOutcome_code (de_outcome d))) w;
          w = w_field ''uid'' w;
          w = w_integer (de_uid d) w;
          w = w_field ''incarnation'' w;
          w = w_integer (ucast (de_incarnation d)) w
      in writer_digest w)"

text \<open>The decision from the scanned rules: outcome, closure and the rules that decided.\<close>

definition decide :: "RuleScan \<Rightarrow> CompatOutcome \<times> KnowledgeClosure \<times> MatchedRule list" where
  "decide sc =
     (if sc_denies sc \<noteq> [] then (CoO_Incompatible, KC_Closed, sc_denies sc)
      else if sc_unsupported sc \<noteq> [] then (CoO_Unsupported, KC_Closed, sc_unsupported sc)
      else if sc_allows sc \<noteq> [] \<and> sc_indeterminate sc = [] then (CoO_Compatible, KC_Closed, sc_allows sc)
      else (CoO_Unknown, if sc_indeterminate sc = [] then KC_Open else KC_Partial,
            sc_allows sc @ sc_indeterminate sc))"

definition evaluate_compatibility ::
    "CompatQuery \<Rightarrow> CompatRuleRecord list \<Rightarrow> AttributeResolver \<Rightarrow> Generation \<Rightarrow> WallNs \<Rightarrow>
     ClockDomainId \<Rightarrow> CompatDecision" where
  "evaluate_compatibility query rules resolver generation now domain =
     (let ordered = considered query rules;
          sc = foldl (scan_rule resolver) scan_empty ordered;
          (outcome, closure, matched) = decide sc;
          decision = \<lparr>de_outcome = outcome, de_closure = closure, de_port = cq_port query,
            de_uid = cq_uid query, de_incarnation = cq_incarnation query,
            de_generation = generation, de_considered_rules = word_of_nat (length ordered),
            de_indeterminate_rules = word_of_nat (length (sc_indeterminate sc)),
            de_matched_rules = matched, de_unmet_requirements = sc_unmet sc,
            de_violated_requirements = sc_violated sc,
            de_inputs_digest = digest_inputs query rules resolver,
            de_decision_digest = zero_digest, de_evaluated_at_wall_ns = now,
            de_clock_domain = domain\<rparr>
      in decision\<lparr>de_decision_digest := decision_digest decision\<rparr>)"

section \<open>The rule scan\<close>

text \<open>A rule applies when all its requirements are satisfied; it is undecided when one cannot be
  established.\<close>

definition rule_state :: "AttributeResolver \<Rightarrow> CompatRuleRecord \<Rightarrow> RequirementState list" where
  "rule_state resolver r =
     map (\<lambda>rq. re_state (evaluate_requirement rq resolver)) (cr_requirements (rr_rule r))"

definition rule_applies :: "AttributeResolver \<Rightarrow> CompatRuleRecord \<Rightarrow> bool" where
  "rule_applies resolver r \<longleftrightarrow> list_all (\<lambda>s. s = RSt_Satisfied) (rule_state resolver r)"

definition rule_undecided :: "AttributeResolver \<Rightarrow> CompatRuleRecord \<Rightarrow> bool" where
  "rule_undecided resolver r \<longleftrightarrow> list_ex (\<lambda>s. s = RSt_Indeterminate) (rule_state resolver r)"

definition rule_asserts :: "AttributeResolver \<Rightarrow> CompatVerdict \<Rightarrow> CompatRuleRecord \<Rightarrow> bool" where
  "rule_asserts resolver v r \<longleftrightarrow> rule_applies resolver r \<and> cr_verdict (rr_rule r) = v"

lemma applies_not_undecided: "rule_applies resolver r \<Longrightarrow> \<not> rule_undecided resolver r"
  by (auto simp: rule_applies_def rule_undecided_def list_all_iff list_ex_iff)

lemma evaluate_rule_states:
  "list_all (\<lambda>e. re_state e = RSt_Satisfied) (mr_requirements (evaluate_rule resolver r)) = rule_applies resolver r"
  "list_ex (\<lambda>e. re_state e = RSt_Indeterminate) (mr_requirements (evaluate_rule resolver r)) = rule_undecided resolver r"
  "mr_verdict (evaluate_rule resolver r) = cr_verdict (rr_rule r)"
  by (auto simp: evaluate_rule_def rule_applies_def rule_undecided_def rule_state_def
      list_all_iff list_ex_iff image_iff) metis+

lemma scan_rule_lists:
  "sc_denies (scan_rule resolver sc r) =
     sc_denies sc @ (if rule_asserts resolver CV_Incompatible r then [evaluate_rule resolver r] else [])"
  "sc_unsupported (scan_rule resolver sc r) =
     sc_unsupported sc @ (if rule_asserts resolver CV_Unsupported r then [evaluate_rule resolver r] else [])"
  "sc_allows (scan_rule resolver sc r) =
     sc_allows sc @ (if rule_asserts resolver CV_Compatible r then [evaluate_rule resolver r] else [])"
  "sc_indeterminate (scan_rule resolver sc r) =
     sc_indeterminate sc @ (if rule_undecided resolver r then [evaluate_rule resolver r] else [])"
  using applies_not_undecided [of resolver r]
  by (auto simp: scan_rule_def Let_def evaluate_rule_states rule_asserts_def split: CompatVerdict.splits)

lemma scan_lists:
  defines "scan \<equiv> \<lambda>resolver sc rs. foldl (scan_rule resolver) sc rs"
  shows "sc_denies (scan resolver sc rs) =
      sc_denies sc @ map (evaluate_rule resolver) (filter (rule_asserts resolver CV_Incompatible) rs)"
    "sc_unsupported (scan resolver sc rs) =
      sc_unsupported sc @ map (evaluate_rule resolver) (filter (rule_asserts resolver CV_Unsupported) rs)"
    "sc_allows (scan resolver sc rs) =
      sc_allows sc @ map (evaluate_rule resolver) (filter (rule_asserts resolver CV_Compatible) rs)"
    "sc_indeterminate (scan resolver sc rs) =
      sc_indeterminate sc @ map (evaluate_rule resolver) (filter (rule_undecided resolver) rs)"
  unfolding scan_def by (induction rs arbitrary: sc) (auto simp: scan_rule_lists)

lemma scan_start:
  "sc_denies (foldl (scan_rule resolver) scan_empty rs) =
     map (evaluate_rule resolver) (filter (rule_asserts resolver CV_Incompatible) rs)"
  "sc_unsupported (foldl (scan_rule resolver) scan_empty rs) =
     map (evaluate_rule resolver) (filter (rule_asserts resolver CV_Unsupported) rs)"
  "sc_allows (foldl (scan_rule resolver) scan_empty rs) =
     map (evaluate_rule resolver) (filter (rule_asserts resolver CV_Compatible) rs)"
  "sc_indeterminate (foldl (scan_rule resolver) scan_empty rs) =
     map (evaluate_rule resolver) (filter (rule_undecided resolver) rs)"
  by (simp_all add: scan_lists) (simp_all add: scan_empty_def)

definition decision_of :: "AttributeResolver \<Rightarrow> CompatRuleRecord list \<Rightarrow> CompatOutcome" where
  "decision_of resolver rs =
     (if list_ex (rule_asserts resolver CV_Incompatible) rs then CoO_Incompatible
      else if list_ex (rule_asserts resolver CV_Unsupported) rs then CoO_Unsupported
      else if list_ex (rule_asserts resolver CV_Compatible) rs \<and>
              \<not> list_ex (rule_undecided resolver) rs
      then CoO_Compatible
      else CoO_Unknown)"

lemma evaluate_fields:
  fixes query rules resolver generation now domain
  defines "d \<equiv> evaluate_compatibility query rules resolver generation now domain"
  shows "(de_outcome d, de_closure d, de_matched_rules d) =
    decide (foldl (scan_rule resolver) scan_empty (considered query rules))"
  by (simp add: d_def evaluate_compatibility_def Let_def split_beta)

lemma filter_not_Nil: "filter P xs \<noteq> [] \<longleftrightarrow> list_ex P xs"
  by (induction xs) auto

lemma filter_Nil: "filter P xs = [] \<longleftrightarrow> \<not> list_ex P xs"
  by (induction xs) auto

lemma evaluate_outcome:
  fixes query rules resolver generation now domain
  defines "d \<equiv> evaluate_compatibility query rules resolver generation now domain"
  shows "de_outcome d = decision_of resolver (considered query rules)"
    "de_closure d = (if de_outcome d \<noteq> CoO_Unknown then KC_Closed
       else if list_ex (rule_undecided resolver) (considered query rules) then KC_Partial else KC_Open)"
    "de_matched_rules d = map (evaluate_rule resolver)
       (let rs = considered query rules in
        case de_outcome d of
          CoO_Incompatible \<Rightarrow> filter (rule_asserts resolver CV_Incompatible) rs
        | CoO_Unsupported \<Rightarrow> filter (rule_asserts resolver CV_Unsupported) rs
        | CoO_Compatible \<Rightarrow> filter (rule_asserts resolver CV_Compatible) rs
        | CoO_Unknown \<Rightarrow> filter (rule_asserts resolver CV_Compatible) rs @ filter (rule_undecided resolver) rs)"
  using evaluate_fields [of query rules resolver generation now domain, folded d_def]
  by (simp_all add: decide_def decision_of_def scan_start filter_Nil Let_def split: if_splits)

text \<open>
  C4. What the four outcomes mean. A decision is Incompatible exactly when a considered denying rule
  applies, whatever else holds; Unsupported when none does and an unsupported-rule applies;
  Compatible exactly when neither does, an allowing rule applies and no considered rule is undecided;
  Unknown otherwise, with Partial closure exactly when some rule is undecided. So denial wins, and
  neither the absence of rules nor missing knowledge is approval.
\<close>

theorem compatibility_outcome:
  fixes query rules resolver generation now domain
  defines "d \<equiv> evaluate_compatibility query rules resolver generation now domain"
    and "rs \<equiv> considered query rules"
  shows "(de_outcome d = CoO_Incompatible \<longleftrightarrow> list_ex (rule_asserts resolver CV_Incompatible) rs) \<and>
    (de_outcome d = CoO_Unsupported \<longleftrightarrow>
       \<not> list_ex (rule_asserts resolver CV_Incompatible) rs \<and>
       list_ex (rule_asserts resolver CV_Unsupported) rs) \<and>
    (de_outcome d = CoO_Compatible \<longleftrightarrow>
       \<not> list_ex (rule_asserts resolver CV_Incompatible) rs \<and>
       \<not> list_ex (rule_asserts resolver CV_Unsupported) rs \<and>
       list_ex (rule_asserts resolver CV_Compatible) rs \<and>
       \<not> list_ex (rule_undecided resolver) rs) \<and>
    (de_closure d = KC_Closed \<longleftrightarrow> de_outcome d \<noteq> CoO_Unknown) \<and>
    (de_closure d = KC_Partial \<longleftrightarrow>
       de_outcome d = CoO_Unknown \<and> list_ex (rule_undecided resolver) rs) \<and>
    (rs = [] \<longrightarrow> de_outcome d = CoO_Unknown \<and> de_closure d = KC_Open)"
  using evaluate_outcome [of query rules resolver generation now domain, folded d_def rs_def]
  by (auto simp: decision_of_def split: if_splits)


lemma osorted_foldl_oput: "osorted m \<Longrightarrow> osorted (foldl (\<lambda>m r. oput r () m) m rs)"
  by (induction rs arbitrary: m) auto

lemma keys_foldl_oput: "fst ` set (foldl (\<lambda>m r. oput r () m) m rs) = fst ` set m \<union> set rs"
  by (induction rs arbitrary: m) (auto simp: oput_keys)

text \<open>A \<open>std::set\<close> filled from a list depends on the elements only.\<close>

lemma reference_set:
  fixes rs :: "'k::linorder list"
  assumes "set rs = set rs'"
  shows "map fst (foldl (\<lambda>m r. oput r () m) [] rs) = map fst (foldl (\<lambda>m r. oput r () m) [] rs')"
proof -
  have "set (map fst (foldl (\<lambda>m r. oput r () m) [] rs)) = set (map fst (foldl (\<lambda>m r. oput r () m) [] rs'))"
    using assms by (simp add: keys_foldl_oput)
  moreover have "sorted_wrt (<) (map fst (foldl (\<lambda>m r. oput r () m) [] qs))" for qs :: "'k list"
    using osorted_foldl_oput [of "[]" qs] by (simp add: osorted_def)
  ultimately show ?thesis by (metis strict_sorted_equal)
qed

section \<open>Requirements\<close>

lemma apply_operator_decided:
  assumes "re_state (apply_operator rq v ev) \<noteq> RSt_Indeterminate"
  shows "re_has_observed (apply_operator rq v ev) = re_has_observed ev"
    "re_consensus (apply_operator rq v ev) = re_consensus ev"
  using assms
  by (auto simp: apply_operator_def decided_def decided_if_def indeterminate_def Let_def
      split: RequirementOp.splits option.splits)

lemma evaluate_requirement_established:
  assumes "re_state (evaluate_requirement rq resolver) \<noteq> RSt_Indeterminate"
  obtains resolve a where "resolver = Some resolve"
    "resolve (rq_subject rq) (rq_key rq) (rq_subkey rq) = Some a" "cc_established a"
    "cc_outcome a \<noteq> CO_Conflicting"
    "re_has_observed (evaluate_requirement rq resolver)"
    "re_consensus (evaluate_requirement rq resolver) = cc_outcome a"
proof -
  obtain resolve where r: "resolver = Some resolve"
    using assms by (cases resolver) (auto simp: evaluate_requirement_def indeterminate_def)
  obtain a where a: "resolve (rq_subject rq) (rq_key rq) (rq_subkey rq) = Some a"
    using assms r
    by (cases "resolve (rq_subject rq) (rq_key rq) (rq_subkey rq)")
      (auto simp: evaluate_requirement_def indeterminate_def)
  have e: "cc_outcome a \<noteq> CO_Conflicting \<and> cc_established a"
    using assms r a by (auto simp: evaluate_requirement_def indeterminate_def Let_def split: if_splits)
  then have "evaluate_requirement rq resolver = apply_operator rq (cc_value a)
      ((indeterminate rq)\<lparr>re_consensus := cc_outcome a, re_has_observed := True, re_observed := cc_value a\<rparr>)"
    using r a by (simp add: evaluate_requirement_def Let_def)
  with e r a assms show thesis
    by (intro that [of resolve a]) (simp_all add: apply_operator_decided)
qed

lemma evaluate_requirement_kept:
  "re_requirement (evaluate_requirement rq resolver) = rq"
  by (auto simp: evaluate_requirement_def apply_operator_def decided_def decided_if_def
      indeterminate_def Let_def split: option.splits RequirementOp.splits)

text \<open>
  C5. Approval rests on established knowledge. When the decision is Compatible, some rule approves,
  and every requirement of every deciding rule was evaluated on an attribute that live sources
  establish (a single source or agreement, never a conflict) and was satisfied; every considered
  rule was fully evaluated.
\<close>

theorem compatible_needs_evidence:
  fixes query rules resolver generation now domain
  defines "d \<equiv> evaluate_compatibility query rules resolver generation now domain"
  assumes "de_outcome d = CoO_Compatible"
  shows "de_matched_rules d \<noteq> [] \<and> de_indeterminate_rules d = 0 \<and> de_unmet_requirements d = [] \<and>
    (\<forall>m \<in> set (de_matched_rules d). mr_verdict m = CV_Compatible \<and>
       (\<forall>e \<in> set (mr_requirements m). re_state e = RSt_Satisfied \<and> re_has_observed e \<and>
          re_consensus e \<in> {CO_Agreed, CO_SingleSource}))"
proof -
  let ?rs = "considered query rules"
  let ?sc = "foldl (scan_rule resolver) scan_empty ?rs"
  note ev = evaluate_outcome [of query rules resolver generation now domain, folded d_def]
  have oc: "list_ex (rule_asserts resolver CV_Compatible) ?rs" "\<not> list_ex (rule_undecided resolver) ?rs"
    using ev(1) assms(2) by (simp_all add: decision_of_def split: if_splits)
  have m: "de_matched_rules d = map (evaluate_rule resolver) (filter (rule_asserts resolver CV_Compatible) ?rs)"
    using ev(3) assms(2) by (simp add: Let_def)
  have unmet: "sc_unmet (foldl (scan_rule resolver) sc rs) = sc_unmet sc"
    if "\<not> list_ex (rule_undecided resolver) rs" for sc rs
    using that
  proof (induction rs arbitrary: sc)
    case (Cons r rs)
    then have "sc_unmet (scan_rule resolver sc r) = sc_unmet sc"
      by (simp add: scan_rule_def Let_def evaluate_rule_states split: CompatVerdict.splits)
    then show ?case using Cons by simp
  qed simp
  have "de_indeterminate_rules d = 0" "de_unmet_requirements d = []"
    using oc(2) unmet [OF oc(2), of scan_empty]
    by (simp_all add: d_def evaluate_compatibility_def Let_def split_beta scan_start filter_Nil [symmetric])
      (simp add: scan_empty_def)
  moreover have "re_state e = RSt_Satisfied \<and> re_has_observed e \<and>
      re_consensus e \<in> {CO_Agreed, CO_SingleSource}"
    if r: "r \<in> set ?rs" "rule_asserts resolver CV_Compatible r"
      and e: "e \<in> set (mr_requirements (evaluate_rule resolver r))" for r e
  proof -
    have s: "re_state e = RSt_Satisfied"
      using r(2) e evaluate_rule_states(1) [of resolver r] by (simp add: rule_asserts_def list_all_iff)
    obtain rq where rq: "e = evaluate_requirement rq resolver" using e by (auto simp: evaluate_rule_def)
    have "re_state (evaluate_requirement rq resolver) \<noteq> RSt_Indeterminate" using s rq by simp
    then show ?thesis
      using s by (elim evaluate_requirement_established) (auto simp: rq cc_established_def)
  qed
  ultimately show ?thesis
    using oc(1) by (auto simp: m filter_Nil evaluate_rule_states rule_asserts_def)
qed

text \<open>
  The order of the rule list is irrelevant when rule ids are distinct: permuting the rules gives
  the same decision, digests included.
\<close>

theorem compatibility_order_independent:
  assumes "mset rules = mset rules'" "inj_on rr_id (set rules)"
  shows "evaluate_compatibility query rules resolver generation now domain =
         evaluate_compatibility query rules' resolver generation now domain"
proof -
  have "inj_on rule_order (set (filter (\<lambda>r. rr_live r \<and> cr_enabled (rr_rule r)) rules))"
    using assms(2) by (auto simp: inj_on_def rule_order_def)
  then have "sort_key rule_order (filter (\<lambda>r. rr_live r \<and> cr_enabled (rr_rule r)) rules) =
      sort_key rule_order (filter (\<lambda>r. rr_live r \<and> cr_enabled (rr_rule r)) rules')"
    using assms(1) by (intro sort_key_perm_unique) (simp_all add: mset_filter)
  then have "considered query rules = considered query rules'" by (simp only: considered_def)
  moreover have "attribute_references rules = attribute_references rules'"
    unfolding attribute_references_def using mset_eq_setD [OF assms(1)] by (intro reference_set) simp
  ultimately show ?thesis by (simp add: evaluate_compatibility_def digest_inputs_def)
qed

text \<open>
  One attribute resolver knows at least what another does: what the first establishes, the second
  establishes with the same value.
\<close>

definition knowledge_extends :: "AttributeResolver \<Rightarrow> AttributeResolver \<Rightarrow> bool" where
  "knowledge_extends old new \<longleftrightarrow>
     (\<forall>resolve. old = Some resolve \<longrightarrow>
        (\<exists>resolve'. new = Some resolve' \<and>
           (\<forall>subject key subkey a. resolve subject key subkey = Some a \<and> cc_established a \<longrightarrow>
              resolve' subject key subkey = Some a)))"

lemma evaluate_requirement_extends:
  assumes "knowledge_extends old new" "re_state (evaluate_requirement rq old) \<noteq> RSt_Indeterminate"
  shows "evaluate_requirement rq new = evaluate_requirement rq old"
proof -
  obtain resolve a where "old = Some resolve" "resolve (rq_subject rq) (rq_key rq) (rq_subkey rq) = Some a"
    "cc_established a"
    using assms(2) by (rule evaluate_requirement_established)
  moreover from this obtain resolve' where "new = Some resolve'"
    "resolve' (rq_subject rq) (rq_key rq) (rq_subkey rq) = Some a"
    using assms(1) unfolding knowledge_extends_def by metis
  ultimately show ?thesis by (simp add: evaluate_requirement_def)
qed

lemma rule_state_extends:
  assumes "knowledge_extends old new" "\<not> rule_undecided old r"
  shows "rule_state new r = rule_state old r"
proof -
  have "re_state (evaluate_requirement rq old) \<noteq> RSt_Indeterminate"
    if "rq \<in> set (cr_requirements (rr_rule r))" for rq
    using assms(2) that by (auto simp: rule_undecided_def rule_state_def list_ex_iff image_iff)
  then show ?thesis
    using evaluate_requirement_extends [OF assms(1)] by (simp add: rule_state_def)
qed



section \<open>Operators and validation\<close>

lemma set_contains_Some: "set_contains a b \<noteq> None \<longleftrightarrow>
    cap_kind a = cap_kind b \<and> cap_kind a \<in> {CVK_EnumSet, CVK_TextSet}"
  by (cases a; cases b) simp_all

lemma sets_intersect_Some: "sets_intersect a b \<noteq> None \<longleftrightarrow>
    cap_kind a = cap_kind b \<and> cap_kind a \<in> {CVK_EnumSet, CVK_TextSet}"
  by (cases a; cases b) simp_all

lemma cap_number_Some: "cap_number_as_double a \<noteq> None \<longleftrightarrow> cap_kind a \<in> {CVK_Count, CVK_Real}"
  by (cases a) simp_all

lemma decided_state: "re_state (decided b ev) = (if b then RSt_Satisfied else RSt_Violated)"
  by (simp add: decided_def)

lemma decided_if_state:
  "re_state (decided_if rq r ev) =
     (case r of None \<Rightarrow> RSt_Indeterminate | Some b \<Rightarrow> if b then RSt_Satisfied else RSt_Violated)"
  by (simp add: decided_if_def decided_state indeterminate_def split: option.splits)

text \<open>
  The set operators mean what their names say: on enum sets and on text sets they are inclusion,
  overlap and disjointness of the sets of members, and are always decided.
\<close>

theorem operator_semantics:
  fixes rq :: Requirement and ev :: RequirementEvaluation
  assumes "(observed = Cap_EnumSet xs \<and> rq_operand rq = Cap_EnumSet ys \<and> within = (set xs \<subseteq> set ys) \<and>
            covers = (set ys \<subseteq> set xs) \<and> meets = (set xs \<inter> set ys \<noteq> {})) \<or>
           (observed = Cap_TextSet ts \<and> rq_operand rq = Cap_TextSet us \<and> within = (set ts \<subseteq> set us) \<and>
            covers = (set us \<subseteq> set ts) \<and> meets = (set ts \<inter> set us \<noteq> {}))"
  defines "state \<equiv> \<lambda>op. re_state (apply_operator (rq\<lparr>rq_op := op\<rparr>) observed ev)"
  shows "state RO_In = (if within then RSt_Satisfied else RSt_Violated) \<and>
    state RO_NotIn = (if within then RSt_Violated else RSt_Satisfied) \<and>
    state RO_SubsetOf = (if within then RSt_Satisfied else RSt_Violated) \<and>
    state RO_SupersetOf = (if covers then RSt_Satisfied else RSt_Violated) \<and>
    state RO_Overlaps = (if meets then RSt_Satisfied else RSt_Violated) \<and>
    state RO_DisjointFrom = (if meets then RSt_Violated else RSt_Satisfied)"
  using assms(1)
  by (auto simp: state_def apply_operator_def decided_if_state list_all_iff list_ex_iff)

lemma decides:
  "re_state (decided b ev) \<noteq> RSt_Indeterminate"
  "re_state (indeterminate rq) = RSt_Indeterminate"
  "re_state (decided_if rq r ev) \<noteq> RSt_Indeterminate \<longleftrightarrow> r \<noteq> None"
  "map_option Not r \<noteq> None \<longleftrightarrow> r \<noteq> None"
  "re_state (case (a, c) of (Some l, Some r) \<Rightarrow> decided (f l r) ev | _ \<Rightarrow> indeterminate rq) \<noteq>
     RSt_Indeterminate \<longleftrightarrow> a \<noteq> None \<and> c \<noteq> None"
  by (auto simp: decided_state decided_if_state indeterminate_def split: option.splits)

lemma apply_operator_decides:
  "re_state (apply_operator rq v ev) \<noteq> RSt_Indeterminate \<longleftrightarrow>
     (let kind = cap_kind v; operand_kind = cap_kind (rq_operand rq) in
      case rq_op rq of
        RO_Unknown \<Rightarrow> False
      | RO_Equals \<Rightarrow> True
      | RO_NotEquals \<Rightarrow> True
      | RO_AtMost \<Rightarrow> kind \<in> {CVK_Count, CVK_Real} \<and> operand_kind \<in> {CVK_Count, CVK_Real}
      | RO_AtLeast \<Rightarrow> kind \<in> {CVK_Count, CVK_Real} \<and> operand_kind \<in> {CVK_Count, CVK_Real}
      | _ \<Rightarrow> kind = operand_kind \<and> kind \<in> {CVK_EnumSet, CVK_TextSet})"
  by (cases "rq_op rq")
    (simp_all only: apply_operator_def Let_def RequirementOp.case decides set_contains_Some
       sets_intersect_Some cap_number_Some simp_thms, auto)

text \<open>
  Which validated requirements can be decided. On an attribute value that passed validation for
  the requirement's key, a validated requirement is decided exactly when it is an equality, a set
  operator on a set-of-enumerators or set-of-texts key, or a bound on a count or real key. The
  remaining combinations that \<open>validate_rule\<close> lets through are always Indeterminate.
\<close>

theorem validated_requirement_decided:
  assumes "validate_requirement rq = Inr ()" "validate_for v (rq_key rq) = Inr ()"
  shows "re_state (apply_operator rq v ev) \<noteq> RSt_Indeterminate \<longleftrightarrow>
    rq_op rq \<in> {RO_Equals, RO_NotEquals} \<or>
    (rq_op rq \<in> {RO_In, RO_NotIn, RO_SupersetOf, RO_SubsetOf, RO_Overlaps, RO_DisjointFrom} \<and>
     capability_value_kind (rq_key rq) \<in> {CVK_EnumSet, CVK_TextSet}) \<or>
    (rq_op rq \<in> {RO_AtMost, RO_AtLeast} \<and> capability_value_kind (rq_key rq) \<in> {CVK_Count, CVK_Real})"
proof -
  have kind: "cap_kind v = capability_value_kind (rq_key rq)"
    using assms(2) by (simp add: validate_for_def Let_def split: if_splits)
  have opk: "rq_op rq \<in> {RO_In, RO_NotIn, RO_SupersetOf, RO_SubsetOf, RO_Overlaps, RO_DisjointFrom} \<Longrightarrow>
      is_set_kind (cap_kind (rq_operand rq)) \<and>
      (cap_kind (rq_operand rq) = cap_kind v \<or> cap_kind v = CVK_Enum)"
    using assms(1) kind by (auto simp: validate_requirement_def Let_def res_elims split: if_splits)
  have opn: "rq_op rq \<in> {RO_AtMost, RO_AtLeast} \<Longrightarrow> cap_kind (rq_operand rq) \<in> {CVK_Count, CVK_Real}"
    using assms(1) by (auto simp: validate_requirement_def Let_def res_elims split: if_splits)
  have known: "rq_op rq \<noteq> RO_Unknown"
    using assms(1) by (auto simp: validate_requirement_def split: if_splits)
  show ?thesis
    unfolding apply_operator_decides kind [symmetric] using opk opn known
    by (cases "rq_op rq") (simp_all, auto simp: is_set_kind_def)
qed

text \<open>
  Membership of an enumerator is never decided. A rule such as "the connector is one of LC, SC"
  passes validation, but because the code compares two sets, \<open>In\<close> and \<open>NotIn\<close> on an attribute whose
  key holds a single enumerator are Indeterminate whatever the sources established.
\<close>

theorem enum_membership_never_decided:
  assumes "capability_value_kind (rq_key rq) = CVK_Enum" "rq_op rq \<in> {RO_In, RO_NotIn}"
    and "validate_requirement rq = Inr ()"
    and "\<And>a. resolve (rq_subject rq) (rq_key rq) (rq_subkey rq) = Some a \<Longrightarrow> cc_established a \<Longrightarrow>
          validate_for (cc_value a) (rq_key rq) = Inr ()"
  shows "re_state (evaluate_requirement rq (Some resolve)) = RSt_Indeterminate"
proof (rule ccontr)
  assume s: "re_state (evaluate_requirement rq (Some resolve)) \<noteq> RSt_Indeterminate"
  then obtain a where a: "resolve (rq_subject rq) (rq_key rq) (rq_subkey rq) = Some a" "cc_established a"
    "cc_outcome a \<noteq> CO_Conflicting" by (elim evaluate_requirement_established) auto
  have "cap_kind (cc_value a) = CVK_Enum"
    using assms(1) assms(4) [OF a(1,2)] by (simp add: validate_for_def Let_def split: if_splits)
  then have "set_contains (rq_operand rq) (cc_value a) = None"
    using set_contains_Some [of "rq_operand rq" "cc_value a"] by auto
  then show False
    using s a assms(2) by (auto simp: evaluate_requirement_def apply_operator_def decided_if_state Let_def)
qed


section \<open>Examples\<close>

definition example_attribute :: "CapabilityKey \<Rightarrow> CapabilityValue \<Rightarrow> CapabilityConsensus" where
  "example_attribute key v =
     \<lparr>cc_key = key, cc_subkey = [], cc_outcome = CO_Agreed, cc_has_value = True, cc_value = v,
      cc_declarations = [], cc_superseded = [], cc_digest = zero_digest\<rparr>"

definition example_resolver :: attributes where
  "example_resolver subject key subkey =
     (if key = CK_LaneCount then Some (example_attribute key (Cap_Count 8))
      else if key = CK_ConnectorClass then Some (example_attribute key (Cap_Enum 1))
      else None)"

definition example_requirement :: "CapabilityKey \<Rightarrow> RequirementOp \<Rightarrow> CapabilityValue \<Rightarrow> Requirement" where
  "example_requirement key op v =
     \<lparr>rq_subject = RSub_Module, rq_key = key, rq_subkey = [], rq_op = op, rq_operand = v, rq_note = []\<rparr>"

definition example_rule :: "RuleId \<Rightarrow> CompatVerdict \<Rightarrow> 32 word \<Rightarrow> Requirement \<Rightarrow> CompatRuleRecord" where
  "example_rule i verdict priority rq =
     \<lparr>rr_id = i,
      rr_rule = \<lparr>cr_name = ''rule'', cr_requirements = [rq], cr_verdict = verdict,
        cr_priority = priority, cr_rationale = [],
        cr_provenance = \<lparr>pv_kind = EK_Real, pv_origin = ''operator'', pv_method = ''declared'',
          pv_content_digest = zero_digest, pv_capture_ref = []\<rparr>,
        cr_enabled = True\<rparr>,
      rr_source = 1, rr_source_epoch = 1, rr_generation = 1, rr_sequence = 1, rr_live = True\<rparr>"

definition example_query :: "32 word \<Rightarrow> CompatQuery" where
  "example_query limit =
     \<lparr>cq_port = ''port-1'', cq_uid = 1, cq_incarnation = 1, cq_require_latest_generation = False,
      cq_expected_generation = 0, cq_explain = False, cq_max_rules = limit\<rparr>"

definition lanes_ok :: Requirement where
  "lanes_ok = example_requirement CK_LaneCount RO_AtMost (Cap_Count 8)"

lemma example_requirements:
  "re_state (evaluate_requirement lanes_ok (Some example_resolver)) = RSt_Satisfied"
  by (simp add: evaluate_requirement_def lanes_ok_def example_requirement_def example_resolver_def
      example_attribute_def cc_established_def apply_operator_def decided_state dbl_le_refl)

lemma example_rule_asserts:
  "rule_asserts (Some example_resolver) v (example_rule i verdict p lanes_ok) \<longleftrightarrow> v = verdict"
  "\<not> rule_undecided (Some example_resolver) (example_rule i verdict p lanes_ok)"
  using example_requirements
  by (auto simp: rule_asserts_def rule_applies_def rule_undecided_def rule_state_def example_rule_def)

lemma example_considered:
  "considered (example_query 8) [example_rule 1 v 1 rq] = [example_rule 1 v 1 rq]"
  by (simp add: considered_def example_query_def example_rule_def)

lemma compatible_needs_evidence_witness:
  "de_outcome (evaluate_compatibility (example_query 8) [example_rule 1 CV_Compatible 1 lanes_ok]
     (Some example_resolver) 5 0 1) = CoO_Compatible \<and>
   de_matched_rules (evaluate_compatibility (example_query 8) [example_rule 1 CV_Compatible 1 lanes_ok]
     (Some example_resolver) 5 0 1) \<noteq> []"
proof -
  have "de_outcome (evaluate_compatibility (example_query 8) [example_rule 1 CV_Compatible 1 lanes_ok]
     (Some example_resolver) 5 0 1) = CoO_Compatible"
    by (simp add: evaluate_outcome(1) decision_of_def example_considered example_rule_asserts)
  then show ?thesis using compatible_needs_evidence by blast
qed

lemma compatibility_order_independent_witness:
  "evaluate_compatibility (example_query 8)
     [example_rule 1 CV_Compatible 1 lanes_ok, example_rule 2 CV_Incompatible 1 lanes_ok]
     (Some example_resolver) 5 0 1 =
   evaluate_compatibility (example_query 8)
     [example_rule 2 CV_Incompatible 1 lanes_ok, example_rule 1 CV_Compatible 1 lanes_ok]
     (Some example_resolver) 5 0 1"
  by (rule compatibility_order_independent) (simp_all add: example_rule_def)


lemma operator_semantics_witness:
  "re_state (apply_operator
     ((example_requirement CK_SpeedClasses RO_SupersetOf (Cap_EnumSet [7]))\<lparr>rq_op := RO_SupersetOf\<rparr>)
     (Cap_EnumSet [7, 9]) (indeterminate lanes_ok)) = RSt_Satisfied"
  using operator_semantics [of "Cap_EnumSet [7, 9]" "[7, 9]"
      "example_requirement CK_SpeedClasses RO_SupersetOf (Cap_EnumSet [7])" "[7]"
      False True True "[]" "[]" "indeterminate lanes_ok"]
  by (simp add: example_requirement_def)

lemma validated_requirement_decided_witness:
  "re_state (apply_operator lanes_ok (Cap_Count 8) (indeterminate lanes_ok)) \<noteq> RSt_Indeterminate"
proof -
  have "validate_requirement lanes_ok = Inr ()" "validate_for (Cap_Count 8) (rq_key lanes_ok) = Inr ()"
    by (simp_all add: lanes_ok_def example_requirement_def validate_requirement_def validate_for_def)
  from validated_requirement_decided [OF this, of "indeterminate lanes_ok"] show ?thesis
    by (simp add: lanes_ok_def example_requirement_def)
qed

lemma enum_membership_never_decided_witness:
  "re_state (evaluate_requirement (example_requirement CK_ConnectorClass RO_In (Cap_EnumSet [1, 2]))
     (Some example_resolver)) = RSt_Indeterminate"
  by (rule enum_membership_never_decided)
    (auto simp: example_requirement_def validate_requirement_def is_set_kind_def example_resolver_def
       example_attribute_def validate_for_def)

text \<open>
  The limit on rules can hide a denial. \<open>max_rules\<close> drops the rules beyond it without a trace:
  there are a query, two live and enabled rules and a resolver such that a denying rule applies and
  the answer is Compatible, while the same query with a larger limit answers Incompatible.
\<close>

theorem rule_limit_hides_denial:
  "\<exists>allow deny resolver.
     rr_live deny \<and> cr_enabled (rr_rule deny) \<and> rule_asserts resolver CV_Incompatible deny \<and>
     de_outcome (evaluate_compatibility (example_query 1) [allow, deny] resolver 5 0 1) = CoO_Compatible \<and>
     de_outcome (evaluate_compatibility (example_query 2) [allow, deny] resolver 5 0 1) = CoO_Incompatible"
proof (intro exI conjI)
  let ?allow = "example_rule 1 CV_Compatible 2 lanes_ok"
  let ?deny = "example_rule 2 CV_Incompatible 1 lanes_ok"
  let ?r = "Some example_resolver"
  show "rr_live ?deny" "cr_enabled (rr_rule ?deny)" by (simp_all add: example_rule_def)
  show "rule_asserts ?r CV_Incompatible ?deny" by (simp add: example_rule_asserts)
  have c: "considered (example_query 1) [?allow, ?deny] = [?allow]"
    "considered (example_query 2) [?allow, ?deny] = [?allow, ?deny]"
    by (simp_all add: considered_def example_query_def example_rule_def rule_order_def)
  show "de_outcome (evaluate_compatibility (example_query 1) [?allow, ?deny] ?r 5 0 1) = CoO_Compatible"
    "de_outcome (evaluate_compatibility (example_query 2) [?allow, ?deny] ?r 5 0 1) = CoO_Incompatible"
    by (simp_all add: evaluate_outcome(1) decision_of_def c example_rule_asserts)
qed

lemma example_considered_none: "considered query [] = []"
  by (simp add: considered_def)

lemma compatibility_outcome_witness:
  "de_closure (evaluate_compatibility (example_query 8) [example_rule 1 CV_Compatible 1 lanes_ok]
     (Some example_resolver) 5 0 1) = KC_Closed \<and>
   de_closure (evaluate_compatibility (example_query 8) [] (Some example_resolver) 5 0 1) = KC_Open"
  using compatibility_outcome [of "example_query 8" "[example_rule 1 CV_Compatible 1 lanes_ok]"
      "Some example_resolver" 5 0 1]
    compatibility_outcome [of "example_query 8" "[]" "Some example_resolver" 5 0 1]
  by (simp add: example_considered example_considered_none example_rule_asserts)

end
