(* ===== verification/Health.thy ===== *)
theory Health
  imports Capability
begin

text \<open>
  Health classification (\<open>src/health.cpp\<close>, \<open>include/trxreg/health.hpp\<close>): thresholds and their
  validation, the hysteresis latch of a metric series, threshold selection, and the classification
  of a series from the newest live sample of each source. The report over all series of a module is
  built by the registry (theory \<open>Reports\<close>).
\<close>

section \<open>Data\<close>

record HealthSampleInput =
  hi_metric :: HealthMetric
  hi_lane :: lane
  hi_presence :: SamplePresence
  hi_value :: double
  hi_observed_at_wall_ns :: WallNs
  hi_observed_at_monotonic_ns :: "64 word"
  hi_clock_domain :: ClockDomainId
  hi_provenance :: Provenance

record HealthSample =
  hs_metric :: HealthMetric
  hs_lane :: lane
  hs_presence :: SamplePresence
  hs_value :: double
  hs_observed_at_wall_ns :: WallNs
  hs_observed_at_monotonic_ns :: "64 word"
  hs_clock_domain :: ClockDomainId
  hs_provenance :: Provenance
  hs_source :: SourceId
  hs_source_epoch :: SourceEpoch
  hs_module :: ModuleUid
  hs_incarnation :: IncarnationId
  hs_generation :: Generation
  hs_sequence :: Sequence
  hs_live :: bool

record HealthThreshold =
  ht_metric :: HealthMetric
  ht_lane :: lane
  ht_direction :: ThresholdDirection
  ht_has_degraded :: bool
  ht_degraded_enter :: double
  ht_degraded_exit :: double
  ht_has_critical :: bool
  ht_critical_enter :: double
  ht_critical_exit :: double
  ht_escalate_after :: "32 word"
  ht_recover_after :: "32 word"
  ht_max_age_ns :: WallNs
  ht_disagreement_tolerance :: double
  ht_provenance :: Provenance
  ht_source :: SourceId
  ht_source_epoch :: SourceEpoch
  ht_generation :: Generation
  ht_sequence :: Sequence
  ht_live :: bool

record HealthLatch =
  hl_state :: MetricState
  hl_consecutive :: "32 word"
  hl_last_sample_wall_ns :: WallNs
  hl_last_sample_sequence :: Sequence
  hl_last_transition_generation :: Generation
  hl_last_transition_wall_ns :: WallNs

definition HealthLatch_init :: HealthLatch where
  "HealthLatch_init =
     \<lparr> hl_state = MS_Unknown, hl_consecutive = 0, hl_last_sample_wall_ns = 0,
       hl_last_sample_sequence = 0, hl_last_transition_generation = 0,
       hl_last_transition_wall_ns = 0 \<rparr>"

record HealthIssue =
  is_kind :: HealthIssueKind
  is_metric :: HealthMetric
  is_lane :: lane
  is_detail :: string

record MetricHealth =
  mh_metric :: HealthMetric
  mh_lane :: lane
  mh_state :: MetricState
  mh_value :: "double option"
  mh_age_ns :: "WallNs option"
  mh_sample_count :: int
  mh_fresh_count :: int
  mh_stale_count :: int
  mh_fenced_count :: int
  mh_source_count :: "32 word"
  mh_reason :: string

record HealthReport =
  hr_uid :: ModuleUid
  hr_incarnation :: IncarnationId
  hr_generation :: Generation
  hr_outcome :: HealthOutcome
  hr_worst :: MetricState
  hr_metrics :: "MetricHealth list"
  hr_issues :: "HealthIssue list"
  hr_evaluated_at_wall_ns :: WallNs
  hr_clock_domain :: ClockDomainId
  hr_digest :: Digest

section \<open>Thresholds and the latch\<close>

definition is_hysteresis_state :: "MetricState \<Rightarrow> bool" where
  "is_hysteresis_state s \<longleftrightarrow> s = MS_Ok \<or> s = MS_Degraded \<or> s = MS_Critical"

fun zone_rank :: "MetricState \<Rightarrow> nat" where
  "zone_rank MS_Critical = 2"
| "zone_rank MS_Degraded = 1"
| "zone_rank s = 0"

definition threshold_for :: "HealthThreshold \<Rightarrow> HealthMetric \<Rightarrow> lane \<Rightarrow> bool" where
  "threshold_for t metric lane_in =
     (if ht_metric t \<noteq> metric then False
      else ht_lane t = kModuleLane \<or> ht_lane t = lane_in)"

text \<open>The raw zone of a value, with the entry bounds only.\<close>

definition classify_value :: "HealthThreshold \<Rightarrow> double \<Rightarrow> MetricState" where
  "classify_value t v =
     (if ht_direction t = TD_Above then
        (if ht_has_critical t \<and> dbl_le (ht_critical_enter t) v then MS_Critical
         else if ht_has_degraded t \<and> dbl_le (ht_degraded_enter t) v then MS_Degraded
         else MS_Ok)
      else if ht_has_critical t \<and> dbl_le v (ht_critical_enter t) then MS_Critical
      else if ht_has_degraded t \<and> dbl_le v (ht_degraded_enter t) then MS_Degraded
      else MS_Ok)"

text \<open>The zone of a value as seen from a latched state, whose own band is left at the exit bound.\<close>

definition latch_zone :: "HealthThreshold \<Rightarrow> MetricState \<Rightarrow> double \<Rightarrow> MetricState" where
  "latch_zone t s v =
     (let critical_boundary = if s = MS_Critical then ht_critical_exit t else ht_critical_enter t;
          degraded_boundary = if s = MS_Degraded then ht_degraded_exit t else ht_degraded_enter t
      in if ht_direction t = TD_Above then
           (if ht_has_critical t \<and> dbl_le critical_boundary v then MS_Critical
            else if ht_has_degraded t \<and> dbl_le degraded_boundary v then MS_Degraded
            else MS_Ok)
         else
           (if ht_has_critical t \<and> dbl_le v critical_boundary then MS_Critical
            else if ht_has_degraded t \<and> dbl_le v degraded_boundary then MS_Degraded
            else MS_Ok))"

definition latch_enter :: "MetricState \<Rightarrow> WallNs \<Rightarrow> Generation \<Rightarrow> HealthLatch \<Rightarrow> HealthLatch" where
  "latch_enter zone wall gen latch =
     latch \<lparr> hl_state := zone, hl_consecutive := 0, hl_last_transition_generation := gen,
             hl_last_transition_wall_ns := wall \<rparr>"

definition advance_latch ::
    "HealthThreshold \<Rightarrow> HealthLatch \<Rightarrow> double \<Rightarrow> WallNs \<Rightarrow> Sequence \<Rightarrow> Generation \<Rightarrow> HealthLatch" where
  "advance_latch t previous v wall seq gen =
     (let zone = latch_zone t (hl_state previous) v;
          counted = previous \<lparr> hl_consecutive := hl_consecutive previous + 1 \<rparr>;
          latch =
            (if \<not> is_hysteresis_state (hl_state previous) then latch_enter zone wall gen previous
             else if zone = hl_state previous then previous \<lparr> hl_consecutive := 0 \<rparr>
             else if zone_rank zone > zone_rank (hl_state previous) then
               (if hl_consecutive counted \<ge> ht_escalate_after t
                then latch_enter zone wall gen counted else counted)
             else
               (if hl_consecutive counted \<ge> ht_recover_after t
                then latch_enter zone wall gen counted else counted))
      in latch \<lparr> hl_last_sample_wall_ns := wall, hl_last_sample_sequence := seq \<rparr>)"

fun telemetry_capability_metric :: "CapabilityKey \<Rightarrow> HealthMetric option" where
  "telemetry_capability_metric CK_TemperatureTelemetry = Some HM_TemperatureCelsius"
| "telemetry_capability_metric CK_VoltageTelemetry = Some HM_SupplyVoltageVolts"
| "telemetry_capability_metric CK_TxPowerTelemetry = Some HM_TxPowerDbm"
| "telemetry_capability_metric CK_RxPowerTelemetry = Some HM_RxPowerDbm"
| "telemetry_capability_metric CK_BiasCurrentTelemetry = Some HM_TxBiasCurrentMilliamps"
| "telemetry_capability_metric CK_LaneSkewTelemetry = Some HM_LaneSkewPicoseconds"
| "telemetry_capability_metric _ = None"

text \<open>The loop keeps the last match of either kind; a lane-specific threshold wins.\<close>

definition select_step ::
    "HealthMetric \<Rightarrow> lane \<Rightarrow> HealthThreshold option \<times> HealthThreshold option \<Rightarrow> HealthThreshold \<Rightarrow>
     HealthThreshold option \<times> HealthThreshold option" where
  "select_step metric lane_in acc t =
     (let (module_wide, lane_specific) = acc
      in if \<not> ht_live t \<or> ht_metric t \<noteq> metric then (module_wide, lane_specific)
         else if ht_lane t = lane_in then (module_wide, Some t)
         else if ht_lane t = kModuleLane then (Some t, lane_specific)
         else (module_wide, lane_specific))"

definition select_threshold ::
    "HealthThreshold list \<Rightarrow> HealthMetric \<Rightarrow> lane \<Rightarrow> HealthThreshold option" where
  "select_threshold thresholds metric lane_in =
     (let (module_wide, lane_specific) = foldl (select_step metric lane_in) (None, None) thresholds
      in if lane_specific \<noteq> None then lane_specific else module_wide)"

definition bounds_ordered :: "HealthThreshold \<Rightarrow> double \<Rightarrow> double \<Rightarrow> bool" where
  "bounds_ordered t exit_value enter_value =
     (if ht_direction t = TD_Above then dbl_le exit_value enter_value
      else dbl_le enter_value exit_value)"

definition validate_threshold :: "HealthThreshold \<Rightarrow> unit res" where
  "validate_threshold t =
     (if ht_metric t = HM_Unknown \<or> ht_metric t = HM_Unsupported then Inl InvalidArgument
      else if metric_plausible_range (ht_metric t) = None then Inl InvalidArgument
      else if ht_lane t \<noteq> kModuleLane \<and> ht_lane t > 255 then Inl InvalidArgument
      else if \<not> ht_has_degraded t \<and> \<not> ht_has_critical t then Inl InvalidArgument
      else if ht_escalate_after t = 0 \<or> ht_recover_after t = 0 then Inl InvalidArgument
      else if ht_max_age_ns t \<le> 0 then Inl InvalidArgument
      else if dbl_lt (ht_disagreement_tolerance t) dbl_zero \<or>
              \<not> isfinite (ht_disagreement_tolerance t) then Inl InvalidArgument
      else if ht_has_degraded t \<and>
              (\<not> isfinite (ht_degraded_enter t) \<or> \<not> isfinite (ht_degraded_exit t)) then Inl InvalidArgument
      else if ht_has_degraded t \<and> \<not> bounds_ordered t (ht_degraded_exit t) (ht_degraded_enter t)
      then Inl InvalidArgument
      else if ht_has_critical t \<and>
              (\<not> isfinite (ht_critical_enter t) \<or> \<not> isfinite (ht_critical_exit t)) then Inl InvalidArgument
      else if ht_has_critical t \<and> \<not> bounds_ordered t (ht_critical_exit t) (ht_critical_enter t)
      then Inl InvalidArgument
      else if ht_has_degraded t \<and> ht_has_critical t \<and>
              \<not> bounds_ordered t (ht_degraded_enter t) (ht_critical_enter t)
      then Inl InvalidArgument
      else Inr ())"

section \<open>Classifying a series\<close>

record SeriesClassification =
  se_state :: MetricState
  se_reason_kind :: HealthIssueKind
  se_value :: "double option"
  se_age_ns :: "WallNs option"
  se_fresh :: int
  se_stale :: int
  se_fenced :: int
  se_sources :: "32 word"
  se_reason :: string

definition SeriesClassification_init :: SeriesClassification where
  "SeriesClassification_init =
     \<lparr> se_state = MS_Unknown, se_reason_kind = HI_Missing, se_value = None, se_age_ns = None,
       se_fresh = 0, se_stale = 0, se_fenced = 0, se_sources = 0, se_reason = [] \<rparr>"

text \<open>The newest live sample of each source, and the number of fenced samples.\<close>

definition series_step ::
    "ModuleUid \<Rightarrow> IncarnationId \<Rightarrow> int \<times> (SourceId, HealthSample) omap \<Rightarrow> HealthSample \<Rightarrow>
     int \<times> (SourceId, HealthSample) omap" where
  "series_step uid inc acc s =
     (let (fenced, newest) = acc
      in if hs_module s \<noteq> uid then (fenced, newest)
         else if hs_incarnation s \<noteq> inc \<or> \<not> hs_live s then (fenced + 1, newest)
         else if (case oget newest (hs_source s) of
                    None \<Rightarrow> True
                  | Some existing \<Rightarrow> hs_observed_at_wall_ns existing \<le> hs_observed_at_wall_ns s)
         then (fenced, oput (hs_source s) s newest)
         else (fenced, newest))"

definition newest_by_source ::
    "HealthSample list \<Rightarrow> ModuleUid \<Rightarrow> IncarnationId \<Rightarrow> int \<times> (SourceId, HealthSample) omap" where
  "newest_by_source samples uid inc = foldl (series_step uid inc) (0, []) samples"

text \<open>\<open>newest == nullptr || newest->observed_at <= s.observed_at\<close>: keep the later of the two.\<close>

definition newer :: "HealthSample option \<Rightarrow> HealthSample \<Rightarrow> bool" where
  "newer best s \<longleftrightarrow>
     (case best of None \<Rightarrow> True | Some b \<Rightarrow> hs_observed_at_wall_ns b \<le> hs_observed_at_wall_ns s)"

definition newest_present :: "HealthSample list \<Rightarrow> HealthSample option" where
  "newest_present samples =
     foldl (\<lambda>best s. if hs_presence s \<noteq> SP_Present then best
                     else if newer best s then Some s else best) None samples"

definition sample_age :: "WallNs \<Rightarrow> HealthSample \<Rightarrow> WallNs" where
  "sample_age now s =
     (if now > hs_observed_at_wall_ns s then now - hs_observed_at_wall_ns s else 0)"

definition classify_unthresholded ::
    "SeriesClassification \<Rightarrow> HealthSample list \<Rightarrow> WallNs \<Rightarrow> SeriesClassification" where
  "classify_unthresholded result samples now =
     (case newest_present samples of
        None \<Rightarrow> result \<lparr> se_state := MS_Unknown, se_reason_kind := HI_NotAvailable,
          se_reason := ''no usable measurement is available and no threshold is published'' \<rparr>
      | Some s \<Rightarrow> result \<lparr> se_state := MS_Unclassified, se_value := Some (hs_value s),
          se_age_ns := Some (sample_age now s), se_reason_kind := HI_NoThreshold,
          se_reason := ''no threshold is published for this metric'' \<rparr>)"

text \<open>The local variables of the freshness loop.\<close>

record FreshScan =
  fs_values :: "double list"
  fs_newest :: "(HealthSample \<times> WallNs) option"
  fs_aged_out :: nat
  fs_presence_unusable :: nat
  fs_future :: nat
  fs_reason :: string
  fs_kind :: HealthIssueKind

definition fresh_scan_empty :: FreshScan where
  "fresh_scan_empty =
     \<lparr> fs_values = [], fs_newest = None, fs_aged_out = 0, fs_presence_unusable = 0, fs_future = 0,
       fs_reason = [], fs_kind = HI_Missing \<rparr>"

definition note_unusable :: "string \<Rightarrow> HealthIssueKind \<Rightarrow> FreshScan \<Rightarrow> FreshScan" where
  "note_unusable reason kind scan =
     (if fs_reason scan = [] then scan \<lparr> fs_reason := reason, fs_kind := kind \<rparr> else scan)"

fun presence_reason :: "SamplePresence \<Rightarrow> FreshScan \<Rightarrow> FreshScan" where
  "presence_reason SP_NotAvailable =
     note_unusable ''the module reports the metric as not available'' HI_NotAvailable"
| "presence_reason SP_ReadError =
     note_unusable ''the last read of the metric failed'' HI_ReadError"
| "presence_reason SP_NotSupported =
     note_unusable ''the metric is not supported by this module'' HI_NotSupported"
| "presence_reason SP_Present = id"

definition fresh_step :: "WallNs \<Rightarrow> int \<Rightarrow> WallNs \<Rightarrow> FreshScan \<Rightarrow> HealthSample \<Rightarrow> FreshScan" where
  "fresh_step now skew max_age scan s =
     (if hs_presence s \<noteq> SP_Present then
        presence_reason (hs_presence s)
          (scan \<lparr> fs_presence_unusable := fs_presence_unusable scan + 1 \<rparr>)
      else if hs_observed_at_wall_ns s > now + skew then
        note_unusable ''the observation timestamp is in the future'' HI_FutureTimestamp
          (scan \<lparr> fs_future := fs_future scan + 1, fs_aged_out := fs_aged_out scan + 1 \<rparr>)
      else if sample_age now s > max_age then
        note_unusable ''the newest sample is older than the freshness bound'' HI_Stale
          (scan \<lparr> fs_aged_out := fs_aged_out scan + 1 \<rparr>)
      else
        scan \<lparr> fs_values := fs_values scan @ [hs_value s],
               fs_newest := (if newer (map_option fst (fs_newest scan)) s
                             then Some (s, sample_age now s) else fs_newest scan) \<rparr>)"

definition classify_thresholded ::
    "SeriesClassification \<Rightarrow> HealthSample list \<Rightarrow> HealthThreshold \<Rightarrow> WallNs \<Rightarrow> int \<Rightarrow>
     SeriesClassification" where
  "classify_thresholded result samples t now skew =
     (let scan = foldl (fresh_step now skew (ht_max_age_ns t)) fresh_scan_empty samples;
          result = result \<lparr> se_fresh := int (length (fs_values scan)),
                            se_stale := int (fs_aged_out scan + fs_presence_unusable scan) \<rparr>
      in case (fs_values scan, fs_newest scan) of
           (v # vs, Some (s, age)) \<Rightarrow>
             (let lowest = foldl dbl_min v (v # vs);
                  highest = foldl dbl_max v (v # vs);
                  result = result \<lparr> se_value := Some (hs_value s), se_age_ns := Some age \<rparr>
              in if length (v # vs) > 1 \<and>
                    dbl_lt (ht_disagreement_tolerance t) (dbl_sub highest lowest) then
                   result \<lparr> se_state := MS_Conflicting, se_reason_kind := HI_SourceConflict,
                     se_reason := ''live sources disagree beyond the published tolerance'' \<rparr>
                 else
                   result \<lparr> se_state := classify_value t (hs_value s),
                     se_reason := ''classified against the published threshold'' \<rparr>)
         | _ \<Rightarrow>
             (if fs_aged_out scan > 0 then
                result \<lparr> se_state := MS_Stale,
                  se_reason_kind := (if fs_future scan > 0 then HI_FutureTimestamp else HI_Stale),
                  se_reason := (if fs_reason scan = []
                                then ''the newest sample is older than the freshness bound''
                                else fs_reason scan) \<rparr>
              else
                result \<lparr> se_state := MS_Unknown, se_reason_kind := fs_kind scan,
                  se_reason := (if fs_reason scan = [] then ''no usable measurement is available''
                                else fs_reason scan) \<rparr>))"

definition classify_series ::
    "HealthSample list \<Rightarrow> HealthThreshold option \<Rightarrow> ModuleUid \<Rightarrow> IncarnationId \<Rightarrow> WallNs \<Rightarrow> int \<Rightarrow>
     SeriesClassification" where
  "classify_series samples threshold uid inc now skew =
     (let (fenced, newest) = newest_by_source samples uid inc;
          result = SeriesClassification_init \<lparr> se_fenced := fenced,
                     se_sources := word_of_nat (length newest) \<rparr>
      in if newest = [] then
           result \<lparr> se_state := (if fenced > 0 then MS_Fenced else MS_Unknown),
             se_reason_kind := (if fenced > 0 then HI_Fenced else HI_Missing),
             se_reason := (if fenced > 0 then ''every sample belongs to a fenced incarnation''
                           else ''no sample has been ingested for this metric'') \<rparr>
         else case threshold of
           None \<Rightarrow> classify_unthresholded result (map snd newest) now
         | Some t \<Rightarrow> classify_thresholded result (map snd newest) t now skew)"

definition healthy :: "HealthReport \<Rightarrow> bool" where
  "healthy r = (if hr_outcome r \<noteq> HO_Fresh then False else hr_worst r = MS_Ok)"


section \<open>Laws of thresholds and of the latch\<close>

text \<open>A validated threshold, in the terms its users need.\<close>

lemma validate_threshold_ok:
  assumes "validate_threshold t = Inr u"
  shows "ht_escalate_after t \<noteq> 0" "ht_recover_after t \<noteq> 0" "0 < ht_max_age_ns t"
    "isfinite (ht_disagreement_tolerance t)" "dbl_le dbl_zero (ht_disagreement_tolerance t)"
    "ht_has_degraded t \<Longrightarrow> bounds_ordered t (ht_degraded_exit t) (ht_degraded_enter t)"
    "ht_has_critical t \<Longrightarrow> bounds_ordered t (ht_critical_exit t) (ht_critical_enter t)"
    "ht_has_degraded t \<Longrightarrow> ht_has_critical t \<Longrightarrow>
       bounds_ordered t (ht_degraded_enter t) (ht_critical_enter t)"
proof -
  note v = assms [unfolded validate_threshold_def if_Inl_Inr]
  show "ht_escalate_after t \<noteq> 0" "ht_recover_after t \<noteq> 0" "0 < ht_max_age_ns t"
    "isfinite (ht_disagreement_tolerance t)"
    using v by simp_all
  show "dbl_le dbl_zero (ht_disagreement_tolerance t)"
  proof -
    have t: "\<not> dbl_lt (ht_disagreement_tolerance t) dbl_zero" "\<not> isnan (ht_disagreement_tolerance t)"
      using v by simp_all
    have "\<not> isnan dbl_zero" by (simp add: isnan_code dbl_zero_def)
    with t dbl_not_le show ?thesis by blast
  qed
  show "ht_has_degraded t \<Longrightarrow> bounds_ordered t (ht_degraded_exit t) (ht_degraded_enter t)"
    "ht_has_critical t \<Longrightarrow> bounds_ordered t (ht_critical_exit t) (ht_critical_enter t)"
    "ht_has_degraded t \<Longrightarrow> ht_has_critical t \<Longrightarrow>
       bounds_ordered t (ht_degraded_enter t) (ht_critical_enter t)"
    using v by simp_all
qed

lemma bounds_ordered_trans: "bounds_ordered t a b \<Longrightarrow> bounds_ordered t b c \<Longrightarrow> bounds_ordered t a c"
  by (auto simp: bounds_ordered_def split: if_splits intro: dbl_le_trans)

text \<open>The two directions of the code as one: \<open>bounds_ordered\<close> is the order of severity.\<close>

lemma classify_value_severity:
  "classify_value t v =
     (if ht_has_critical t \<and> bounds_ordered t (ht_critical_enter t) v then MS_Critical
      else if ht_has_degraded t \<and> bounds_ordered t (ht_degraded_enter t) v then MS_Degraded
      else MS_Ok)"
  by (simp add: classify_value_def bounds_ordered_def)

lemma latch_zone_severity:
  "latch_zone t s v =
     (if ht_has_critical t \<and>
         bounds_ordered t (if s = MS_Critical then ht_critical_exit t else ht_critical_enter t) v
      then MS_Critical
      else if ht_has_degraded t \<and>
         bounds_ordered t (if s = MS_Degraded then ht_degraded_exit t else ht_degraded_enter t) v
      then MS_Degraded
      else MS_Ok)"
  by (simp add: latch_zone_def bounds_ordered_def)

text \<open>
  The raw classification is monotone in severity: a value at least as severe as another
  (higher for an above threshold, lower for a below threshold) is never put in a milder zone.
\<close>
theorem classify_value_monotone:
  assumes "bounds_ordered t v w"
  shows "zone_rank (classify_value t v) \<le> zone_rank (classify_value t w)"
  using bounds_ordered_trans [OF _ assms] by (auto simp: classify_value_severity)

definition threshold_example :: HealthThreshold where
  "threshold_example =
     \<lparr> ht_metric = HM_TemperatureCelsius, ht_lane = kModuleLane, ht_direction = TD_Above,
       ht_has_degraded = True, ht_degraded_enter = dbl_of_int 70, ht_degraded_exit = dbl_of_int 65,
       ht_has_critical = True, ht_critical_enter = dbl_of_int 80, ht_critical_exit = dbl_of_int 75,
       ht_escalate_after = 3, ht_recover_after = 3, ht_max_age_ns = 60, 
       ht_disagreement_tolerance = dbl_of_int 2,
       ht_provenance = \<lparr> pv_kind = EK_Real, pv_origin = ''o'', pv_method = ''m'',
         pv_content_digest = zero_digest, pv_capture_ref = [] \<rparr>,
       ht_source = 1, ht_source_epoch = 1, ht_generation = 1, ht_sequence = 1, ht_live = True \<rparr>"

lemma dbl_of_int_temperatures:
  "dbl_of_int 60 = 0x404E000000000000" "dbl_of_int 65 = 0x4050400000000000"
  "dbl_of_int 70 = 0x4051800000000000" "dbl_of_int 72 = 0x4052000000000000"
  "dbl_of_int 75 = 0x4052C00000000000" "dbl_of_int 78 = 0x4053800000000000"
  "dbl_of_int 80 = 0x4054000000000000" "dbl_of_int 85 = 0x4055400000000000"
  "dbl_of_int 2 = 0x4000000000000000"
  by (rule dbl_of_intI; simp add: dval_eval)+

lemmas threshold_example_eval = threshold_example_def dbl_of_int_temperatures bounds_ordered_def
  dbl_le_code dbl_lt_code dkey_code isnan_code isfinite_code
  dbl_neg_code dbl_zero_def

lemma threshold_example_valid: "validate_threshold threshold_example = Inr ()"
  by (simp add: validate_threshold_def threshold_example_eval kModuleLane_def)

theorem classify_value_monotone_witness:
  "bounds_ordered threshold_example (dbl_of_int 72) (dbl_of_int 85) \<and>
   zone_rank (classify_value threshold_example (dbl_of_int 72)) = 1 \<and>
   zone_rank (classify_value threshold_example (dbl_of_int 72))
     \<le> zone_rank (classify_value threshold_example (dbl_of_int 85))"
proof -
  have "bounds_ordered threshold_example (dbl_of_int 72) (dbl_of_int 85)"
    by (simp add: threshold_example_eval)
  from this classify_value_monotone [OF this] show ?thesis
    by (simp add: classify_value_def threshold_example_eval)
qed


text \<open>A value inside the entry bound is inside the exit bound.\<close>

lemma exit_bounds:
  assumes "validate_threshold t = Inr ()"
  shows "ht_has_degraded t \<Longrightarrow> bounds_ordered t (ht_degraded_enter t) v \<Longrightarrow>
           bounds_ordered t (ht_degraded_exit t) v"
    "ht_has_critical t \<Longrightarrow> bounds_ordered t (ht_critical_enter t) v \<Longrightarrow>
           bounds_ordered t (ht_critical_exit t) v"
  using validate_threshold_ok(6,7) [OF assms] bounds_ordered_trans by blast+

text \<open>
  What a latched state adds to the raw zone: nothing, or it holds a more severe state.
\<close>

theorem latch_zone_holds:
  assumes "validate_threshold t = Inr ()"
  shows "latch_zone t s v = classify_value t v \<or>
         latch_zone t s v = s \<and> is_hysteresis_state s \<and>
         zone_rank (classify_value t v) < zone_rank s"
  using exit_bounds [OF assms]
  by (cases s) (simp_all add: latch_zone_severity classify_value_severity is_hysteresis_state_def)

lemma latch_zone_state [simp]: "is_hysteresis_state (latch_zone t s v)"
  by (simp add: latch_zone_def is_hysteresis_state_def Let_def)

lemma zone_rank_inject:
  "is_hysteresis_state a \<Longrightarrow> is_hysteresis_state b \<Longrightarrow> zone_rank a = zone_rank b \<longleftrightarrow> a = b"
  by (auto simp: is_hysteresis_state_def)

text \<open>Seen from its own zone a value stays there.\<close>

lemma latch_zone_stable:
  assumes "validate_threshold t = Inr ()"
  shows "latch_zone t (latch_zone t s v) v = latch_zone t s v"
  using exit_bounds [OF assms] by (cases s) (simp_all add: latch_zone_severity)

text \<open>
  A latch after a step: in a threshold zone, with fewer counted samples than the larger of the two
  required counts.
\<close>

definition latch_bounded :: "HealthThreshold \<Rightarrow> HealthLatch \<Rightarrow> bool" where
  "latch_bounded t l \<longleftrightarrow>
     is_hysteresis_state (hl_state l) \<and>
     hl_consecutive l < max (ht_escalate_after t) (ht_recover_after t)"

definition latch_run :: "HealthThreshold \<Rightarrow> HealthLatch \<Rightarrow> (double \<times> WallNs \<times> Sequence \<times> Generation) list \<Rightarrow> HealthLatch" where
  "latch_run t = foldl (\<lambda>l (v, wall, seq, gen). advance_latch t l v wall seq gen)"

lemma latch_run_snoc:
  "latch_run t l (xs @ [(v, wall, seq, gen)]) = advance_latch t (latch_run t l xs) v wall seq gen"
  by (simp add: latch_run_def)

lemmas advance_latch_eval = advance_latch_def latch_enter_def Let_def

lemma advance_latch_state:
  "hl_state (advance_latch t l v wall seq gen) \<in> {hl_state l, latch_zone t (hl_state l) v}"
  by (auto simp: advance_latch_eval)

text \<open>One sample: how the state and the counter move.\<close>

lemma advance_latch_step:
  fixes t l v
  defines "z \<equiv> latch_zone t (hl_state l) v"
    and "n \<equiv> (if zone_rank (latch_zone t (hl_state l) v) > zone_rank (hl_state l)
              then ht_escalate_after t else ht_recover_after t)"
  assumes "is_hysteresis_state (hl_state l)"
  shows "hl_state (advance_latch t l v wall seq gen) =
           (if z = hl_state l \<or> hl_consecutive l + 1 < n then hl_state l else z)"
    "hl_consecutive (advance_latch t l v wall seq gen) =
           (if z \<noteq> hl_state l \<and> hl_consecutive l + 1 < n then hl_consecutive l + 1 else 0)"
  using assms by (auto simp: advance_latch_eval not_le)

text \<open>
  The counter never runs away: whatever the latch was, after any sample it is in a threshold zone and
  has counted fewer samples than one of the two required counts, so it cannot wrap around.
\<close>

theorem advance_latch_bounded:
  assumes "validate_threshold t = Inr ()"
  shows "latch_bounded t (advance_latch t l v wall seq gen)"
proof -
  have "0 < ht_escalate_after t" "0 < ht_recover_after t"
    using validate_threshold_ok(1,2) [OF assms] by (simp_all add: word_gt_0)
  then show ?thesis
    by (auto simp: latch_bounded_def advance_latch_eval less_max_iff_disj not_le)
qed



definition latch_example :: "MetricState \<Rightarrow> HealthLatch" where
  "latch_example s = HealthLatch_init \<lparr> hl_state := s \<rparr>"


text \<open>
  The counter is shared between escalation and recovery. With three samples required in either
  direction, a degraded series that saw two critical samples recovers on its first good sample.
\<close>

theorem latch_counter_shared:
  "ht_recover_after threshold_example = 3 \<and>
   hl_state (latch_run threshold_example (latch_example MS_Degraded)
     [(dbl_of_int 85, 1, 1, 1), (dbl_of_int 85, 2, 2, 2), (dbl_of_int 60, 3, 3, 3)]) = MS_Ok"
proof -
  have z: "latch_zone threshold_example MS_Degraded (dbl_of_int 85) = MS_Critical"
    "latch_zone threshold_example MS_Degraded (dbl_of_int 60) = MS_Ok"
    by (simp_all add: latch_zone_def threshold_example_eval)
  have n: "ht_escalate_after threshold_example = 3" "ht_recover_after threshold_example = 3"
    by (simp_all add: threshold_example_def)
  have h: "is_hysteresis_state MS_Degraded" by (simp add: is_hysteresis_state_def)
  let ?l0 = "latch_example MS_Degraded"
  let ?l1 = "advance_latch threshold_example ?l0 (dbl_of_int 85) 1 1 1"
  let ?l2 = "advance_latch threshold_example ?l1 (dbl_of_int 85) 2 2 2"
  have l0: "hl_state ?l0 = MS_Degraded" "hl_consecutive ?l0 = 0"
    by (simp_all add: latch_example_def HealthLatch_init_def)
  have l1: "hl_state ?l1 = MS_Degraded" "hl_consecutive ?l1 = 1"
    using advance_latch_step [of ?l0 threshold_example "dbl_of_int 85" 1 1 1] by (simp_all add: l0 z n h)
  have l2: "hl_state ?l2 = MS_Degraded" "hl_consecutive ?l2 = 2"
    using advance_latch_step [of ?l1 threshold_example "dbl_of_int 85" 2 2 2] by (simp_all add: l1 z n h)
  have "hl_state (advance_latch threshold_example ?l2 (dbl_of_int 60) 3 3 3) = MS_Ok"
    using advance_latch_step [of ?l2 threshold_example "dbl_of_int 60" 3 3 3] by (simp add: l2 z n h)
  then show ?thesis by (simp add: latch_run_def n)
qed

text \<open>The loop of \<open>select_threshold\<close> keeps the last match of either kind.\<close>

lemma select_step_pair:
  "select_step metric lane_in (wide, own) t =
     (if \<not> (ht_live t \<and> ht_metric t = metric) then (wide, own)
      else if ht_lane t = lane_in then (wide, Some t)
      else if ht_lane t = kModuleLane then (Some t, own) else (wide, own))"
  by (simp add: select_step_def)

lemma select_step_foldl:
  "foldl (select_step metric lane_in) (None, None) ts =
     (let cands = filter (\<lambda>t. ht_live t \<and> ht_metric t = metric) ts;
          wide = filter (\<lambda>t. ht_lane t \<noteq> lane_in \<and> ht_lane t = kModuleLane) cands;
          own = filter (\<lambda>t. ht_lane t = lane_in) cands
      in (if wide = [] then None else Some (last wide), if own = [] then None else Some (last own)))"
proof (induction ts rule: rev_induct)
  case (snoc t ts)
  consider "\<not> (ht_live t \<and> ht_metric t = metric)"
    | "ht_live t" "ht_metric t = metric" "ht_lane t = lane_in"
    | "ht_live t" "ht_metric t = metric" "ht_lane t \<noteq> lane_in" "ht_lane t = kModuleLane"
    | "ht_live t" "ht_metric t = metric" "ht_lane t \<noteq> lane_in" "ht_lane t \<noteq> kModuleLane"
    by blast
  then show ?case
    by cases (auto simp: snoc.IH select_step_pair Let_def simp del: filter_filter)
qed simp

theorem select_threshold_spec:
  "select_threshold ts metric lane_in =
     (let cands = filter (\<lambda>t. ht_live t \<and> ht_metric t = metric) ts
      in case filter (\<lambda>t. ht_lane t = lane_in) cands of
           [] \<Rightarrow> (case filter (\<lambda>t. ht_lane t = kModuleLane) cands of
                   [] \<Rightarrow> None | w # ws \<Rightarrow> Some (last (w # ws)))
         | t # own \<Rightarrow> Some (last (t # own)))"
proof -
  let ?cands = "filter (\<lambda>t. ht_live t \<and> ht_metric t = metric) ts"
  have "filter (\<lambda>t. ht_lane t = lane_in) ?cands = [] \<Longrightarrow>
      filter (\<lambda>t. ht_lane t \<noteq> lane_in \<and> ht_lane t = kModuleLane) ?cands =
      filter (\<lambda>t. ht_lane t = kModuleLane) ?cands"
    by (rule filter_cong) (auto simp: filter_empty_conv)
  then show ?thesis
    by (simp add: select_threshold_def select_step_foldl Let_def del: filter_filter split: list.splits)
qed


section \<open>What a series classification means\<close>

text \<open>A sample of the module's current incarnation from a live source.\<close>

definition current_sample :: "ModuleUid \<Rightarrow> IncarnationId \<Rightarrow> HealthSample \<Rightarrow> bool" where
  "current_sample uid inc s \<longleftrightarrow> hs_module s = uid \<and> hs_incarnation s = inc \<and> hs_live s"

definition fenced_sample :: "ModuleUid \<Rightarrow> IncarnationId \<Rightarrow> HealthSample \<Rightarrow> bool" where
  "fenced_sample uid inc s \<longleftrightarrow> hs_module s = uid \<and> \<not> (hs_incarnation s = inc \<and> hs_live s)"

text \<open>\<open>s\<close> is the newest current sample of its source.\<close>

definition newest_of_source :: "ModuleUid \<Rightarrow> IncarnationId \<Rightarrow> HealthSample list \<Rightarrow> HealthSample \<Rightarrow> bool" where
  "newest_of_source uid inc samples s \<longleftrightarrow>
     s \<in> set samples \<and> current_sample uid inc s \<and>
     (\<forall>x \<in> set samples. current_sample uid inc x \<and> hs_source x = hs_source s \<longrightarrow>
        hs_observed_at_wall_ns x \<le> hs_observed_at_wall_ns s)"

text \<open>A measurement that may describe the present.\<close>

definition usable_sample :: "WallNs \<Rightarrow> int \<Rightarrow> WallNs \<Rightarrow> HealthSample \<Rightarrow> bool" where
  "usable_sample now skew max_age s \<longleftrightarrow>
     hs_presence s = SP_Present \<and> hs_observed_at_wall_ns s \<le> now + skew \<and> sample_age now s \<le> max_age"

lemma series_step_pair:
  "series_step uid inc (f, m) s =
     (if fenced_sample uid inc s then (f + 1, m)
      else if \<not> current_sample uid inc s then (f, m)
      else if (case oget m (hs_source s) of None \<Rightarrow> True
               | Some e \<Rightarrow> hs_observed_at_wall_ns e \<le> hs_observed_at_wall_ns s)
      then (f, oput (hs_source s) s m) else (f, m))"
  by (auto simp: series_step_def fenced_sample_def current_sample_def)

lemma newest_by_source_snoc:
  "newest_by_source (ss @ [s]) uid inc = series_step uid inc (newest_by_source ss uid inc) s"
  by (simp add: newest_by_source_def)

lemma newest_by_source_spec:
  assumes "newest_by_source samples uid inc = (f, m)"
  shows "osorted m \<and> f = int (length (filter (fenced_sample uid inc) samples)) \<and>
    (\<forall>src s. oget m src = Some s \<longrightarrow> hs_source s = src \<and> newest_of_source uid inc samples s) \<and>
    (\<forall>x \<in> set samples. current_sample uid inc x \<longrightarrow> oget m (hs_source x) \<noteq> None)"
  using assms
proof (induction samples arbitrary: f m rule: rev_induct)
  case Nil
  then show ?case by (auto simp: newest_by_source_def)
next
  case (snoc x samples)
  obtain f' m' where fm: "newest_by_source samples uid inc = (f', m')" by fastforce
  note IH = snoc.IH [OF fm]
  note step = snoc.prems [unfolded newest_by_source_snoc fm series_step_pair]
  consider (fenced) "fenced_sample uid inc x" "\<not> current_sample uid inc x"
    | (other) "\<not> fenced_sample uid inc x" "\<not> current_sample uid inc x"
    | (current) "\<not> fenced_sample uid inc x" "current_sample uid inc x"
    by (auto simp: fenced_sample_def current_sample_def)
  then show ?case
  proof cases
    case current
    show ?thesis
    proof (cases "oget m' (hs_source x)")
      case None
      then have *: "f = f'" "m = oput (hs_source x) x m'" using step current by simp_all
      show ?thesis
        using IH current None by (auto simp: * newest_of_source_def split: if_splits)
    next
      case (Some e)
      then have e: "hs_source e = hs_source x" "newest_of_source uid inc samples e" using IH by auto
      then have le: "hs_observed_at_wall_ns y \<le> hs_observed_at_wall_ns e"
        if "y \<in> set samples" "current_sample uid inc y" "hs_source y = hs_source x" for y
        using that by (simp add: newest_of_source_def)
      show ?thesis
      proof (cases "hs_observed_at_wall_ns e \<le> hs_observed_at_wall_ns x")
        case True
        then have *: "f = f'" "m = oput (hs_source x) x m'" using step current Some by simp_all
        have "newest_of_source uid inc (samples @ [x]) x"
          using current le True by (fastforce simp: newest_of_source_def)
        then show ?thesis
          using IH current Some by (auto simp: * newest_of_source_def split: if_splits)
      next
        case False
        then have *: "f = f'" "m = m'" using step current Some by simp_all
        show ?thesis
          using IH current Some False e by (auto simp: * newest_of_source_def)
      qed
    qed
  qed (use IH step in \<open>auto simp: newest_of_source_def\<close>)
qed

text \<open>The samples that the classification looks at: the newest current sample of each source.\<close>

definition series_evidence :: "HealthSample list \<Rightarrow> ModuleUid \<Rightarrow> IncarnationId \<Rightarrow> HealthSample list" where
  "series_evidence samples uid inc = map snd (snd (newest_by_source samples uid inc))"

text \<open>
  What the classification looks at: one sample for every source that has a current one, the newest of
  that source, and the number of samples of fenced incarnations or retired epochs.
\<close>

theorem series_evidence_spec:
  "distinct (map hs_source (series_evidence samples uid inc)) \<and>
   hs_source ` set (series_evidence samples uid inc) =
     hs_source ` set (filter (current_sample uid inc) samples) \<and>
   list_all (newest_of_source uid inc samples) (series_evidence samples uid inc) \<and>
   fst (newest_by_source samples uid inc) = int (length (filter (fenced_sample uid inc) samples))"
proof -
  obtain f m where fm: "newest_by_source samples uid inc = (f, m)" by fastforce
  note spec = newest_by_source_spec [OF fm]
  then have entry: "oget m k = Some s \<longleftrightarrow> (k, s) \<in> set m" for k s by (simp add: oget_entries)
  have src: "hs_source s = k" if "(k, s) \<in> set m" for k s using spec that entry by blast
  then have keys: "map hs_source (map snd m) = map fst m" by auto
  have "distinct (map fst m)" using spec osorted_distinct by blast
  moreover have "fst ` set m = hs_source ` set (filter (current_sample uid inc) samples)"
  proof -
    have "k \<in> fst ` set m \<longleftrightarrow> oget m k \<noteq> None" for k
      using om.keys_get [of m] spec by auto
    moreover have "oget m k \<noteq> None \<longleftrightarrow> k \<in> hs_source ` set (filter (current_sample uid inc) samples)" for k
      using spec by (fastforce simp: newest_of_source_def)
    ultimately show ?thesis by blast
  qed
  moreover have "\<forall>s \<in> snd ` set m. newest_of_source uid inc samples s"
    using spec entry by fastforce
  ultimately show ?thesis
    unfolding series_evidence_def fm fst_conv snd_conv list_all_iff
    using spec keys by (metis set_map)
qed


lemma note_unusable_kept [simp]:
  "fs_values (note_unusable r k sc) = fs_values sc" "fs_newest (note_unusable r k sc) = fs_newest sc"
  "fs_aged_out (note_unusable r k sc) = fs_aged_out sc"
  by (simp_all add: note_unusable_def)

lemma presence_reason_kept [simp]:
  "fs_values (presence_reason p sc) = fs_values sc" "fs_newest (presence_reason p sc) = fs_newest sc"
  "fs_aged_out (presence_reason p sc) = fs_aged_out sc"
  by (cases p; simp)+

lemma fresh_step_kept:
  "fs_values (fresh_step now skew age sc s) =
     (if usable_sample now skew age s then fs_values sc @ [hs_value s] else fs_values sc)"
  "fs_newest (fresh_step now skew age sc s) =
     (if usable_sample now skew age s \<and> newer (map_option fst (fs_newest sc)) s
      then Some (s, sample_age now s) else fs_newest sc)"
  "fs_aged_out (fresh_step now skew age sc s) =
     (if hs_presence s = SP_Present \<and> \<not> usable_sample now skew age s
      then fs_aged_out sc + 1 else fs_aged_out sc)"
  by (auto simp: fresh_step_def usable_sample_def not_le)

abbreviation fresh_scan :: "WallNs \<Rightarrow> int \<Rightarrow> WallNs \<Rightarrow> HealthSample list \<Rightarrow> FreshScan" where
  "fresh_scan now skew age \<equiv> foldl (fresh_step now skew age) fresh_scan_empty"

lemma fresh_scan_values:
  "fs_values (fresh_scan now skew age ss) = map hs_value (filter (usable_sample now skew age) ss)"
  by (induction ss rule: rev_induct) (simp_all add: fresh_step_kept fresh_scan_empty_def)

lemma fresh_scan_aged:
  "fs_aged_out (fresh_scan now skew age ss) =
     length (filter (\<lambda>s. hs_presence s = SP_Present \<and> \<not> usable_sample now skew age s) ss)"
  by (induction ss rule: rev_induct) (simp_all add: fresh_step_kept fresh_scan_empty_def)

lemma fresh_scan_newest:
  "case fs_newest (fresh_scan now skew age ss) of
     None \<Rightarrow> filter (usable_sample now skew age) ss = []
   | Some (s, a) \<Rightarrow> s \<in> set (filter (usable_sample now skew age) ss) \<and> a = sample_age now s \<and>
       (\<forall>x \<in> set (filter (usable_sample now skew age) ss).
          hs_observed_at_wall_ns x \<le> hs_observed_at_wall_ns s)"
proof (induction ss rule: rev_induct)
  case Nil
  then show ?case by (simp add: fresh_scan_empty_def)
next
  case (snoc x ss)
  then show ?case
    by (cases "fs_newest (fresh_scan now skew age ss)")
      (auto simp: fresh_step_kept newer_def not_le split: if_splits)
qed

lemma fold_min_max:
  assumes "\<forall>x \<in> set (v # vs). isfinite x"
  shows "foldl dbl_min v vs \<in> set (v # vs)" "\<forall>x \<in> set (v # vs). dval (foldl dbl_min v vs) \<le> dval x"
    "foldl dbl_max v vs \<in> set (v # vs)" "\<forall>x \<in> set (v # vs). dval x \<le> dval (foldl dbl_max v vs)"
proof -
  have lo: "foldl dbl_min v vs \<in> set (v # vs) \<and> (\<forall>x \<in> set (v # vs). dval (foldl dbl_min v vs) \<le> dval x)"
    using assms
  proof (induction vs rule: rev_induct)
    case (snoc y ys)
    then have IH: "foldl dbl_min v ys \<in> set (v # ys)"
      "\<forall>x \<in> set (v # ys). dval (foldl dbl_min v ys) \<le> dval x" by simp_all
    have fin: "isfinite (foldl dbl_min v ys)" "isfinite y" using IH(1) snoc.prems by auto
    then have "dbl_lt y (foldl dbl_min v ys) \<longleftrightarrow> dval y < dval (foldl dbl_min v ys)"
      by (simp add: dbl_lt_def)
    then have eq: "foldl dbl_min v (ys @ [y]) = (if dval y < dval (foldl dbl_min v ys) then y else foldl dbl_min v ys)"
      by (simp add: dbl_min_def)
    show ?case unfolding eq using IH by (auto dest: bspec intro: order_trans [OF less_imp_le])
  qed simp
  have hi: "foldl dbl_max v vs \<in> set (v # vs) \<and> (\<forall>x \<in> set (v # vs). dval x \<le> dval (foldl dbl_max v vs))"
    using assms
  proof (induction vs rule: rev_induct)
    case (snoc y ys)
    then have IH: "foldl dbl_max v ys \<in> set (v # ys)"
      "\<forall>x \<in> set (v # ys). dval x \<le> dval (foldl dbl_max v ys)" by simp_all
    have fin: "isfinite (foldl dbl_max v ys)" "isfinite y" using IH(1) snoc.prems by auto
    then have "dbl_lt (foldl dbl_max v ys) y \<longleftrightarrow> dval (foldl dbl_max v ys) < dval y"
      by (simp add: dbl_lt_def)
    then have eq: "foldl dbl_max v (ys @ [y]) = (if dval (foldl dbl_max v ys) < dval y then y else foldl dbl_max v ys)"
      by (simp add: dbl_max_def)
    show ?case unfolding eq using IH by (auto dest: bspec intro: order_trans [OF less_imp_le])
  qed simp
  from lo hi show "foldl dbl_min v vs \<in> set (v # vs)"
    "\<forall>x \<in> set (v # vs). dval (foldl dbl_min v vs) \<le> dval x"
    "foldl dbl_max v vs \<in> set (v # vs)"
    "\<forall>x \<in> set (v # vs). dval x \<le> dval (foldl dbl_max v vs)" by blast+
qed

text \<open>The spread test of the code compares the extremes; it is the test on every pair.\<close>

lemma spread_test:
  assumes fin: "\<forall>x \<in> set (v # vs). isfinite x" and tol: "\<not> isnan tol" "dbl_le dbl_zero tol"
  shows "(length (v # vs) > 1 \<and>
          dbl_lt tol (dbl_sub (foldl dbl_max v (v # vs)) (foldl dbl_min v (v # vs)))) \<longleftrightarrow>
         (\<exists>a \<in> set (v # vs). \<exists>b \<in> set (v # vs). dbl_lt tol (dbl_sub a b))"
proof -
  have v: "dbl_max v v = v" "dbl_min v v = v" by (simp_all add: dbl_max_def dbl_min_def)
  let ?hi = "foldl dbl_max v vs" and ?lo = "foldl dbl_min v vs"
  note ext = fold_min_max [OF fin]
  have fhl: "isfinite ?hi" "isfinite ?lo" using fin ext(1,3) by blast+
  have "dbl_lt tol (dbl_sub ?hi ?lo)"
    if ab: "a \<in> set (v # vs)" "b \<in> set (v # vs)" "dbl_lt tol (dbl_sub a b)" for a b
  proof (rule ccontr)
    assume "\<not> dbl_lt tol (dbl_sub ?hi ?lo)"
    have fab: "isfinite a" "isfinite b" using fin ab(1,2) by blast+
    have "dval a - dval b \<le> dval ?hi - dval ?lo" using ext(2,4) ab by (meson diff_mono)
    then have "dkey (dbl_sub a b) \<le> dkey (dbl_sub ?hi ?lo)"
      unfolding dbl_sub_finite [OF fab] dbl_sub_finite [OF fhl] by (rule dkey_round_int_mono)
    moreover have "\<not> isnan (dbl_sub ?hi ?lo)" 
      unfolding dbl_sub_finite [OF fhl] by simp
    ultimately show False
      using ab(3) \<open>\<not> dbl_lt tol (dbl_sub ?hi ?lo)\<close> by (auto simp: dbl_lt_code)
  qed
  note pairs = this
  have fold: "foldl dbl_max v (v # vs) = ?hi" "foldl dbl_min v (v # vs) = ?lo" by (simp_all add: v)
  show ?thesis
  proof (cases "vs = []")
    case True
    moreover have "\<not> dbl_lt tol (dbl_sub v v)" using dbl_sub_self_le [of v tol] fin tol by simp
    ultimately show ?thesis by simp
  next
    case False
    then have "length (v # vs) > 1" by simp
    then show ?thesis unfolding fold using ext(1,3) pairs by blast
  qed
qed


lemma classify_series_parts:
  "classify_series samples threshold uid inc now skew =
     (let ev = series_evidence samples uid inc;
          result = SeriesClassification_init \<lparr> se_fenced := fst (newest_by_source samples uid inc),
                     se_sources := word_of_nat (length ev) \<rparr>
      in if ev = [] then
           result \<lparr> se_state := (if fst (newest_by_source samples uid inc) > 0 then MS_Fenced else MS_Unknown),
             se_reason_kind := (if fst (newest_by_source samples uid inc) > 0 then HI_Fenced else HI_Missing),
             se_reason := (if fst (newest_by_source samples uid inc) > 0
                           then ''every sample belongs to a fenced incarnation''
                           else ''no sample has been ingested for this metric'') \<rparr>
         else case threshold of
           None \<Rightarrow> classify_unthresholded result ev now
         | Some t \<Rightarrow> classify_thresholded result ev t now skew)"
  by (cases threshold) (simp_all add: classify_series_def series_evidence_def split_beta Let_def)

lemma filter_partition_empty:
  "filter P xs = [] \<Longrightarrow> filter (\<lambda>x. Q x \<and> \<not> P x) xs = [] \<longleftrightarrow> \<not> list_ex Q xs"
  by (induction xs) (auto split: if_splits)

lemma classify_thresholded_state:
  fixes result ev t now skew
  defines "fresh \<equiv> filter (usable_sample now skew (ht_max_age_ns t)) ev"
    and "c \<equiv> classify_thresholded result ev t now skew"
  assumes fin: "list_all (\<lambda>s. isfinite (hs_value s)) fresh" and valid: "validate_threshold t = Inr ()"
  shows "fresh = [] \<Longrightarrow> se_state c = (if list_ex (\<lambda>s. hs_presence s = SP_Present) ev
           then MS_Stale else MS_Unknown) \<and> se_value c = se_value result"
    and "fresh \<noteq> [] \<Longrightarrow> \<exists>s \<in> set fresh.
      (\<forall>x \<in> set fresh. hs_observed_at_wall_ns x \<le> hs_observed_at_wall_ns s) \<and>
      se_value c = Some (hs_value s) \<and> se_age_ns c = Some (sample_age now s) \<and>
      se_state c = (if \<exists>a \<in> set fresh. \<exists>b \<in> set fresh.
            dbl_lt (ht_disagreement_tolerance t) (dbl_sub (hs_value a) (hs_value b))
          then MS_Conflicting else classify_value t (hs_value s))"
proof -
  let ?scan = "fresh_scan now skew (ht_max_age_ns t) ev"
  note vals = fresh_scan_values [of now skew "ht_max_age_ns t" ev, folded fresh_def]
  note new = fresh_scan_newest [of now skew "ht_max_age_ns t" ev, folded fresh_def]
  {
    assume e: "fresh = []"
    then have "fs_values ?scan = []" by (simp add: vals)
    moreover have "fs_aged_out ?scan > 0 \<longleftrightarrow> list_ex (\<lambda>s. hs_presence s = SP_Present) ev"
      using filter_partition_empty [OF e [unfolded fresh_def], of "\<lambda>s. hs_presence s = SP_Present"]
      by (simp add: fresh_scan_aged)
    ultimately show "se_state c = (if list_ex (\<lambda>s. hs_presence s = SP_Present) ev
           then MS_Stale else MS_Unknown) \<and> se_value c = se_value result"
      by (simp add: c_def classify_thresholded_def Let_def)
  next
    assume "fresh \<noteq> []"
    then obtain f fs where f: "fresh = f # fs" by (cases fresh) auto
    then obtain s a where s: "fs_newest ?scan = Some (s, a)" using new by (auto split: option.splits)
    then have s': "s \<in> set fresh" "a = sample_age now s"
      "\<forall>x \<in> set fresh. hs_observed_at_wall_ns x \<le> hs_observed_at_wall_ns s"
      using new by auto
    have v: "fs_values ?scan = hs_value f # map hs_value fs" by (simp add: vals f)
    have "\<forall>x \<in> set (hs_value f # map hs_value fs). isfinite x"
      using fin by (simp add: f list_all_iff)
    note spread = spread_test [OF this isfinite_not_nan [OF validate_threshold_ok(4) [OF valid]]
        validate_threshold_ok(5) [OF valid]]
    have pairs: "(\<exists>a \<in> set (hs_value f # map hs_value fs). \<exists>b \<in> set (hs_value f # map hs_value fs).
          dbl_lt (ht_disagreement_tolerance t) (dbl_sub a b)) \<longleftrightarrow>
        (\<exists>a \<in> set fresh. \<exists>b \<in> set fresh.
          dbl_lt (ht_disagreement_tolerance t) (dbl_sub (hs_value a) (hs_value b)))"
      by (auto simp: f)
    have "se_value c = Some (hs_value s) \<and> se_age_ns c = Some (sample_age now s) \<and>
      se_state c = (if \<exists>a \<in> set fresh. \<exists>b \<in> set fresh.
            dbl_lt (ht_disagreement_tolerance t) (dbl_sub (hs_value a) (hs_value b))
          then MS_Conflicting else classify_value t (hs_value s))"
      unfolding c_def classify_thresholded_def Let_def v s pairs [symmetric] spread [symmetric]
      by (simp add: s')
    then show "\<exists>s \<in> set fresh.
      (\<forall>x \<in> set fresh. hs_observed_at_wall_ns x \<le> hs_observed_at_wall_ns s) \<and>
      se_value c = Some (hs_value s) \<and> se_age_ns c = Some (sample_age now s) \<and>
      se_state c = (if \<exists>a \<in> set fresh. \<exists>b \<in> set fresh.
            dbl_lt (ht_disagreement_tolerance t) (dbl_sub (hs_value a) (hs_value b))
          then MS_Conflicting else classify_value t (hs_value s))"
      using s' by blast
  }
qed

text \<open>
  C12. The classification of a series under a threshold, as a reference: what the state is in terms of
  the newest current sample of each source.
\<close>

theorem series_state:
  fixes samples uid inc now skew t
  defines "ev \<equiv> series_evidence samples uid inc"
    and "fresh \<equiv> filter (usable_sample now skew (ht_max_age_ns t)) (series_evidence samples uid inc)"
    and "c \<equiv> classify_series samples (Some t) uid inc now skew"
  assumes valid: "validate_threshold t = Inr ()"
    and fin: "list_all (\<lambda>s. isfinite (hs_value s)) samples"
  shows "(ev = [] \<longrightarrow> se_state c =
            (if list_ex (fenced_sample uid inc) samples then MS_Fenced else MS_Unknown)) \<and>
         (ev \<noteq> [] \<and> fresh = [] \<longrightarrow> se_state c =
            (if list_ex (\<lambda>s. hs_presence s = SP_Present) ev then MS_Stale else MS_Unknown)) \<and>
         (fresh \<noteq> [] \<longrightarrow> (\<exists>s \<in> set fresh.
            (\<forall>x \<in> set fresh. hs_observed_at_wall_ns x \<le> hs_observed_at_wall_ns s) \<and>
            se_value c = Some (hs_value s) \<and> se_age_ns c = Some (sample_age now s) \<and>
            se_state c = (if \<exists>a \<in> set fresh. \<exists>b \<in> set fresh.
                  dbl_lt (ht_disagreement_tolerance t) (dbl_sub (hs_value a) (hs_value b))
                then MS_Conflicting else classify_value t (hs_value s))))"
proof -
  have "set fresh \<subseteq> set samples"
    using series_evidence_spec [of samples uid inc]
    by (auto simp: fresh_def list_all_iff newest_of_source_def)
  then have fin': "list_all (\<lambda>s. isfinite (hs_value s)) fresh" using fin by (auto simp: list_all_iff)
  have fenced: "fst (newest_by_source samples uid inc) > 0 \<longleftrightarrow> list_ex (fenced_sample uid inc) samples"
    using series_evidence_spec [of samples uid inc] by (auto simp: list_ex_iff filter_empty_conv)
  have 1: "se_state c = (if list_ex (fenced_sample uid inc) samples then MS_Fenced else MS_Unknown)"
    if "ev = []"
    using that fenced by (simp add: c_def ev_def classify_series_parts Let_def)
  have 2: "\<exists>result. c = classify_thresholded result ev t now skew" if "ev \<noteq> []"
    using that by (auto simp: c_def ev_def classify_series_parts Let_def)
  show ?thesis
    using 1 2 classify_thresholded_state [OF _ valid, of now skew ev] fin'
    unfolding fresh_def ev_def by (intro conjI impI) (fastforce+)
qed


text \<open>
  A module is never called good, degraded or critical without evidence: a threshold is published and
  the value classified is that of a present, non-future, unexpired sample of the current incarnation,
  the newest of a live source.
\<close>

theorem series_zone_evidence:
  fixes samples threshold uid inc now skew
  defines "c \<equiv> classify_series samples threshold uid inc now skew"
  assumes zone: "is_hysteresis_state (se_state c)"
  shows "\<exists>t s. threshold = Some t \<and> newest_of_source uid inc samples s \<and>
    usable_sample now skew (ht_max_age_ns t) s \<and>
    se_value c = Some (hs_value s) \<and> se_state c = classify_value t (hs_value s)"
proof -
  let ?ev = "series_evidence samples uid inc"
  have ev: "?ev \<noteq> []"
    using zone by (auto simp: c_def classify_series_parts Let_def is_hysteresis_state_def split: if_splits)
  obtain t result where t: "threshold = Some t" "c = classify_thresholded result ?ev t now skew"
    using zone ev
    by (cases threshold) (auto simp: c_def classify_series_parts Let_def classify_unthresholded_def
        is_hysteresis_state_def split: option.splits)
  let ?scan = "fresh_scan now skew (ht_max_age_ns t) ?ev"
  have "\<exists>s a. fs_newest ?scan = Some (s, a) \<and> se_value c = Some (hs_value s) \<and>
      se_state c = classify_value t (hs_value s)"
    using zone
    by (auto simp: t(2) classify_thresholded_def is_hysteresis_state_def Let_def
        split: list.splits option.splits prod.splits if_splits)
  then obtain s a where s: "fs_newest ?scan = Some (s, a)" "se_value c = Some (hs_value s)"
      "se_state c = classify_value t (hs_value s)"
    by blast
  then have "s \<in> set ?ev \<and> usable_sample now skew (ht_max_age_ns t) s"
    using fresh_scan_newest [of now skew "ht_max_age_ns t" ?ev] by simp
  moreover from this have "newest_of_source uid inc samples s"
    using series_evidence_spec [of samples uid inc] by (simp add: list_all_iff)
  ultimately show ?thesis using t(1) s(2,3) by blast
qed

definition example_sample :: "SourceId \<Rightarrow> double \<Rightarrow> WallNs \<Rightarrow> HealthSample" where
  "example_sample source v at =
     \<lparr> hs_metric = HM_TemperatureCelsius, hs_lane = kModuleLane, hs_presence = SP_Present,
       hs_value = v, hs_observed_at_wall_ns = at, hs_observed_at_monotonic_ns = 0,
       hs_clock_domain = 1, hs_provenance = ht_provenance threshold_example, hs_source = source,
       hs_source_epoch = 1, hs_module = 1, hs_incarnation = 1, hs_generation = 1, hs_sequence = 1,
       hs_live = True \<rparr>"

lemma example_sample_sel [simp]:
  "hs_presence (example_sample src v at) = SP_Present" "hs_value (example_sample src v at) = v"
  "hs_observed_at_wall_ns (example_sample src v at) = at" "hs_source (example_sample src v at) = src"
  "hs_live (example_sample src v at)" "hs_module (example_sample src v at) = 1"
  "hs_incarnation (example_sample src v at) = 1"
  by (simp_all add: example_sample_def)

lemma example_evidence:
  "series_evidence [example_sample 1 v at] 1 1 = [example_sample 1 v at]"
  by (simp add: series_evidence_def newest_by_source_def series_step_def)

lemma series_zone_evidence_witness:
  "se_state (classify_series [example_sample 1 (dbl_of_int 85) 100] (Some threshold_example) 1 1 120 0)
     = MS_Critical \<and>
   (\<exists>s. newest_of_source 1 1 [example_sample 1 (dbl_of_int 85) 100] s \<and>
      usable_sample 120 0 (ht_max_age_ns threshold_example) s)"
proof -
  let ?c = "classify_series [example_sample 1 (dbl_of_int 85) 100] (Some threshold_example) 1 1 120 0"
  have age: "ht_max_age_ns threshold_example = 60" by (simp add: threshold_example_def)
  have z: "classify_value threshold_example (dbl_of_int 85) = MS_Critical"
    by (simp add: classify_value_def threshold_example_eval)
  have c: "se_state ?c = MS_Critical"
    by (simp add: classify_series_parts example_evidence classify_thresholded_def fresh_step_def
        fresh_scan_empty_def sample_age_def newer_def age z Let_def)
  then have "is_hysteresis_state (se_state ?c)" by (simp add: is_hysteresis_state_def)
  from series_zone_evidence [OF this] c show ?thesis by auto
qed

lemma series_state_witness:
  "se_state (classify_series [example_sample 1 (dbl_of_int 85) 100] (Some threshold_example) 1 1 900 0)
     = MS_Stale"
proof -
  have age: "ht_max_age_ns threshold_example = 60" by (simp add: threshold_example_def)
  have old: "filter (usable_sample 900 0 60) [example_sample 1 (dbl_of_int 85) 100] = []"
    by (simp add: usable_sample_def sample_age_def)
  have fin: "list_all (\<lambda>s. isfinite (hs_value s)) [example_sample 1 (dbl_of_int 85) 100]"
    by (simp add: dbl_of_int_temperatures isfinite_code)
  show ?thesis
    using series_state [OF threshold_example_valid fin, of 1 1 900 0] old
    by (simp add: example_evidence age)
qed

lemma latch_zone_holds_witness:
  "latch_zone threshold_example MS_Critical (dbl_of_int 78) = MS_Critical \<and>
   classify_value threshold_example (dbl_of_int 78) = MS_Degraded"
proof -
  have c: "classify_value threshold_example (dbl_of_int 78) = MS_Degraded"
    "latch_zone threshold_example MS_Critical (dbl_of_int 78) \<noteq> MS_Degraded"
    by (simp_all add: classify_value_def latch_zone_def threshold_example_eval)
  with latch_zone_holds [OF threshold_example_valid, of MS_Critical "dbl_of_int 78"]
  show ?thesis by simp
qed

lemma advance_latch_bounded_witness:
  "latch_bounded threshold_example
     (advance_latch threshold_example HealthLatch_init (dbl_of_int 85) 1 1 1)"
  by (rule advance_latch_bounded [OF threshold_example_valid])

lemma series_evidence_spec_witness:
  "hs_source ` set (series_evidence [example_sample 1 (dbl_of_int 60) 100, example_sample 2 (dbl_of_int 65) 90, example_sample 1 (dbl_of_int 70) 120] 1 1)
     = {1, 2}"
  using series_evidence_spec [of "[example_sample 1 (dbl_of_int 60) 100, example_sample 2 (dbl_of_int 65) 90, example_sample 1 (dbl_of_int 70) 120]" 1 1]
  by (auto simp: current_sample_def)

end
