(* ===== verification/RegState.thy ===== *)
theory RegState
  imports Lifecycle Identity Compat Health
begin

text \<open>
  The state of the registry (\<open>src/registry_internal.hpp\<close>), its configuration and handles
  (\<open>include/trxreg/registry.hpp\<close>, \<open>provenance.hpp\<close>, \<open>lifecycle.hpp\<close>), the validation and trimming
  helpers of \<open>src/registry.cpp\<close>, and \<open>RegistryImpl::mutate\<close>, through which every change goes.

  The registry changes its state under one mutex and publishes a complete copy, so an execution is a
  sequence of operations. An operation takes one reading of the clock. \<open>std::map::at\<close> throws on a
  missing key; that is \<open>Inl Internal\<close> here, and theory \<open>RegInv\<close> shows it never happens. The
  autosave after a commit is file output and not part of the state.
\<close>

section \<open>Handles and records\<close>

record LifecycleEvent =
  le_from :: LifecycleState
  le_to :: LifecycleState
  le_incarnation :: IncarnationId
  le_reason :: string
  le_source :: SourceId
  le_source_epoch :: SourceEpoch
  le_generation :: Generation
  le_sequence :: Sequence
  le_wall_ns :: WallNs

record SourceDescriptor =
  ds_name :: string
  ds_description :: string
  ds_declared_kind :: EvidenceKind
  ds_instance_id :: string

record SourceHandle =
  sh_id :: SourceId
  sh_epoch :: SourceEpoch
  sh_generation :: Generation

record ModuleHandle =
  mo_uid :: ModuleUid
  mo_incarnation :: IncarnationId
  mo_generation :: Generation
  mo_key :: string

record RegistryConfig =
  cf_max_sources :: "32 word"
  cf_max_modules :: "32 word"
  cf_max_ports :: "32 word"
  cf_max_rules :: "32 word"
  cf_max_thresholds :: "32 word"
  cf_max_attachments :: "32 word"
  cf_max_claims_per_attribute :: "32 word"
  cf_max_claims_per_module :: "32 word"
  cf_max_declarations_per_module :: "32 word"
  cf_max_declarations_per_port :: "32 word"
  cf_max_samples_per_series :: "32 word"
  cf_max_samples_per_module :: "32 word"
  cf_max_claim_history :: "32 word"
  cf_max_lifecycle_history :: "32 word"
  cf_max_lane_index :: lane
  cf_max_future_skew_ns :: WallNs

definition config_default :: RegistryConfig where
  "config_default =
     \<lparr> cf_max_sources = 256, cf_max_modules = 4096, cf_max_ports = 4096, cf_max_rules = 4096,
       cf_max_thresholds = 4096, cf_max_attachments = 4096, cf_max_claims_per_attribute = 16,
       cf_max_claims_per_module = 4096, cf_max_declarations_per_module = 4096,
       cf_max_declarations_per_port = 1024, cf_max_samples_per_series = 256,
       cf_max_samples_per_module = 65536, cf_max_claim_history = 64, cf_max_lifecycle_history = 64,
       cf_max_lane_index = 63, cf_max_future_skew_ns = 5000000000 \<rparr>"

record ModuleRegistration =
  rn_key :: string
  rn_identity :: "IdentityFieldValue list"
  rn_intent :: RegisterIntent
  rn_provenance :: Provenance
  rn_policy :: MutationPolicy
  rn_expected_generation :: Generation

record AttachmentRecord =
  ar_slot :: string
  ar_port_index :: "32 word"
  ar_uid :: ModuleUid
  ar_incarnation :: IncarnationId
  ar_source :: SourceId
  ar_source_epoch :: SourceEpoch
  ar_generation :: Generation
  ar_sequence :: Sequence
  ar_attached_at_wall_ns :: WallNs
  ar_live :: bool
  ar_note :: string

record HealthLatchRecord =
  lr_metric :: HealthMetric
  lr_lane :: lane
  lr_latch :: HealthLatch

record ThresholdRecord =
  tr_threshold :: HealthThreshold
  tr_generation :: Generation
  tr_sequence :: Sequence
  tr_live :: bool

record ModuleRecord =
  md_key :: string
  md_uid :: ModuleUid
  md_incarnation :: IncarnationId
  md_state :: LifecycleState
  md_state_generation :: Generation
  md_state_sequence :: Sequence
  md_state_wall_ns :: WallNs
  md_created_generation :: Generation
  md_created_sequence :: Sequence
  md_created_wall_ns :: WallNs
  md_fenced_generation :: Generation
  md_incarnation_count :: "32 word"
  md_claims :: "IdentityClaim list"
  md_declarations :: "CapabilityDeclaration list"
  md_samples :: "HealthSample list"
  md_lifecycle :: "LifecycleEvent list"
  md_latches :: "HealthLatchRecord list"
  md_series_counts :: "(HealthMetric \<times> lane, 32 word) omap"

record PortRecord =
  po_key :: string
  po_first_generation :: Generation
  po_sequence :: Sequence
  po_first_wall_ns :: WallNs
  po_declarations :: "CapabilityDeclaration list"

record SourceRecord =
  so_id :: SourceId
  so_name :: string
  so_epoch :: SourceEpoch
  so_descriptor :: SourceDescriptor
  so_generation :: Generation
  so_sequence :: Sequence
  so_registered_wall_ns :: WallNs

record State =
  st_generation :: Generation
  st_registry_incarnation :: "32 word"
  st_next_module_uid :: "64 word"
  st_next_rule_id :: "64 word"
  st_next_source_id :: "64 word"
  st_next_sequence :: "64 word"
  st_sources :: "(SourceId, SourceRecord) omap"
  st_source_id_by_name :: "(string, SourceId) omap"
  st_modules :: "(ModuleUid, ModuleRecord) omap"
  st_module_uid_by_key :: "(string, ModuleUid) omap"
  st_ports :: "(string, PortRecord) omap"
  st_attachments :: "(string, AttachmentRecord) omap"
  st_thresholds :: "ThresholdRecord list"
  st_rules :: "(RuleId, CompatRuleRecord) omap"
  st_mutations :: "64 word"
  st_dropped_samples :: "64 word"
  st_conflicts_observed :: "64 word"

definition State_init :: State where
  "State_init =
     \<lparr> st_generation = 0, st_registry_incarnation = 1, st_next_module_uid = 1, st_next_rule_id = 1,
       st_next_source_id = 1, st_next_sequence = 1, st_sources = [], st_source_id_by_name = [],
       st_modules = [], st_module_uid_by_key = [], st_ports = [], st_attachments = [],
       st_thresholds = [], st_rules = [], st_mutations = 0, st_dropped_samples = 0,
       st_conflicts_observed = 0 \<rparr>"

text \<open>The reading of the clock that an operation works with.\<close>

record Clock =
  ck_wall :: WallNs
  ck_monotonic :: "64 word"
  ck_domain :: ClockDomainId

section \<open>Validation\<close>

definition validate_provenance :: "Provenance \<Rightarrow> unit res" where
  "validate_provenance p =
     (if pv_kind p = EK_Unsupported then Inl InvalidArgument
      else if pv_origin p = [] then Inl InvalidArgument
      else if length (pv_origin p) > 128 \<or> length (pv_method p) > 128 \<or> length (pv_capture_ref p) > 256
      then Inl InvalidArgument
      else if \<not> is_valid_utf8 (pv_origin p) \<or> \<not> is_valid_utf8 (pv_method p) then Inl InvalidArgument
      else Inr ())"

definition require_authority :: "State \<Rightarrow> AuthorityToken \<Rightarrow> unit res" where
  "require_authority st auth =
     (if \<not> id_valid (at_source auth) then Inl InvalidArgument
      else case oget (st_sources st) (at_source auth) of
        None \<Rightarrow> Inl StaleAuthority
      | Some so \<Rightarrow> if so_epoch so \<noteq> at_epoch auth then Inl StaleAuthority else Inr ())"

definition kMaxIdentityValueBytes :: nat where
  "kMaxIdentityValueBytes = 256"

definition validate_identity_value :: "IdentityFieldValue \<Rightarrow> unit res" where
  "validate_identity_value v =
     (if iv_field v = IF_Unknown then Inl InvalidArgument
      else if iv_value v = [] then Inl InvalidArgument
      else if length (iv_value v) > kMaxIdentityValueBytes then Inl InvalidArgument
      else if \<not> is_valid_utf8 (iv_value v) \<or> \<not> is_valid_utf8 (iv_subkey v) then Inl InvalidArgument
      else if iv_field v = IF_VendorSpecific \<and> iv_subkey v = [] then Inl InvalidArgument
      else if iv_field v \<noteq> IF_VendorSpecific \<and> iv_subkey v \<noteq> [] then Inl InvalidArgument
      else if length (iv_subkey v) > 128 then Inl InvalidArgument
      else Inr ())"

section \<open>Trimming\<close>

text \<open>
  The eviction loop of \<open>trim_claims\<close> and both \<open>trim_declarations\<close>: while there are too many entries,
  erase the first superseded one; \<open>guard\<close> is the bound of the loop.
\<close>

fun evict :: "('e list \<Rightarrow> nat \<Rightarrow> bool) \<Rightarrow> nat \<Rightarrow> nat \<Rightarrow> 'e list \<Rightarrow> 'e list res" where
  "evict superseded limit guard es =
     (if length es > limit \<and> guard > 0 then
        (case List.find (superseded es) [0..<length es] of
           None \<Rightarrow> Inl CapacityExceeded
         | Some i \<Rightarrow> evict superseded limit (guard - 1) (take i es @ drop (Suc i) es))
      else Inr es)"

declare evict.simps [simp del]

text \<open>
  The per-attribute history: entries are grouped by key, and the oldest beyond the limit of each
  group are dropped.
\<close>

definition cap_history ::
    "('e \<Rightarrow> 'k::linorder) \<Rightarrow> ('e \<Rightarrow> Sequence) \<Rightarrow> nat \<Rightarrow> 'e list \<Rightarrow> 'e list" where
  "cap_history key seq limit es =
     (let grouped = group_by (\<lambda>i. key (es ! i)) [0..<length es];
          dropped = concat (map (\<lambda>(_, indices).
            take (length indices - limit) (sort_key (\<lambda>i. seq (es ! i)) indices)) grouped)
      in map ((!) es) (filter (\<lambda>i. i \<notin> set dropped) [0..<length es]))"

definition claim_is_superseded :: "IdentityClaim list \<Rightarrow> nat \<Rightarrow> bool" where
  "claim_is_superseded claims index =
     (let candidate = claims ! index
      in list_ex (\<lambda>i. i \<noteq> index \<and>
           (let other = claims ! i
            in ic_source other = ic_source candidate \<and> ic_source_epoch other = ic_source_epoch candidate \<and>
               ic_field other = ic_field candidate \<and> ic_subkey other = ic_subkey candidate \<and>
               ic_incarnation other = ic_incarnation candidate \<and>
               ic_sequence candidate < ic_sequence other)) [0..<length claims])"

definition claim_group :: "IdentityClaim \<Rightarrow> IdentityField \<times> string \<times> SourceId \<times> SourceEpoch" where
  "claim_group c = (ic_field c, ic_subkey c, ic_source c, ic_source_epoch c)"

definition trim_claims :: "ModuleRecord \<Rightarrow> 32 word \<Rightarrow> 32 word \<Rightarrow> ModuleRecord res" where
  "trim_claims md max_total max_history =
     try_res (evict claim_is_superseded (unat max_total) (length (md_claims md)) (md_claims md))
       (\<lambda>claims.
          if length claims > unat max_total then Inl CapacityExceeded
          else Inr (md \<lparr> md_claims := cap_history claim_group ic_sequence (unat max_history) claims \<rparr>))"

definition declaration_is_superseded :: "CapabilityDeclaration list \<Rightarrow> nat \<Rightarrow> bool" where
  "declaration_is_superseded ds index =
     (let candidate = ds ! index
      in list_ex (\<lambda>i. i \<noteq> index \<and>
           (let other = ds ! i
            in cd_source other = cd_source candidate \<and> cd_source_epoch other = cd_source_epoch candidate \<and>
               cd_key other = cd_key candidate \<and> cd_subkey other = cd_subkey candidate \<and>
               cd_module other = cd_module candidate \<and>
               cd_incarnation other = cd_incarnation candidate \<and>
               cd_sequence candidate < cd_sequence other)) [0..<length ds])"

definition declaration_group :: "CapabilityDeclaration \<Rightarrow> CapabilityKey \<times> string \<times> SourceId \<times> SourceEpoch" where
  "declaration_group d = (cd_key d, cd_subkey d, cd_source d, cd_source_epoch d)"

definition trim_declarations :: "ModuleRecord \<Rightarrow> 32 word \<Rightarrow> 32 word \<Rightarrow> ModuleRecord res" where
  "trim_declarations md max_total max_history =
     try_res (evict declaration_is_superseded (unat max_total) (length (md_declarations md))
         (md_declarations md))
       (\<lambda>ds.
          if length ds > unat max_total then Inl CapacityExceeded
          else Inr (md \<lparr> md_declarations :=
                 cap_history declaration_group cd_sequence (unat max_history) ds \<rparr>))"

text \<open>The overload for the declarations of a port.\<close>

definition port_declaration_is_superseded :: "CapabilityDeclaration list \<Rightarrow> nat \<Rightarrow> bool" where
  "port_declaration_is_superseded ds i =
     (let candidate = ds ! i
      in list_ex (\<lambda>j. i \<noteq> j \<and>
           (let other = ds ! j
            in cd_source other = cd_source candidate \<and> cd_source_epoch other = cd_source_epoch candidate \<and>
               cd_key other = cd_key candidate \<and> cd_subkey other = cd_subkey candidate \<and>
               cd_sequence candidate < cd_sequence other)) [0..<length ds])"

definition trim_port_declarations ::
    "CapabilityDeclaration list \<Rightarrow> 32 word \<Rightarrow> CapabilityDeclaration list res" where
  "trim_port_declarations ds max_total =
     evict port_declaration_is_superseded (unat max_total) (length ds) ds"

text \<open>\<open>erase\<close> at the first match, if there is one.\<close>

fun remove_first :: "('e \<Rightarrow> bool) \<Rightarrow> 'e list \<Rightarrow> 'e list option" where
  "remove_first P [] = None"
| "remove_first P (x # xs) =
     (if P x then Some xs else map_option ((#) x) (remove_first P xs))"

lemma remove_first_length: "remove_first P xs = Some ys \<Longrightarrow> length xs = Suc (length ys)"
  by (induction xs arbitrary: ys) (auto split: if_splits)

text \<open>The ring of one series: the samples, its counter and the number of dropped samples.\<close>

function trim_series ::
    "32 word \<Rightarrow> HealthMetric \<times> lane \<Rightarrow> HealthSample list \<Rightarrow> 32 word \<Rightarrow> 64 word \<Rightarrow>
     HealthSample list \<times> 32 word \<times> 64 word" where
  "trim_series limit series samples cnt dropped =
     (if cnt > limit then
        (case remove_first (\<lambda>s. (hs_metric s, hs_lane s) = series) samples of
           None \<Rightarrow> (samples, cnt, dropped)
         | Some samples' \<Rightarrow> trim_series limit series samples' (cnt - 1) (dropped + 1))
      else (samples, cnt, dropped))"
  by pat_completeness auto
termination
  by (relation "measure (\<lambda>(_, _, samples, _, _). length samples)") (auto dest: remove_first_length)

declare trim_series.simps [simp del]

definition trim_series_entry ::
    "32 word \<Rightarrow> HealthSample list \<times> (HealthMetric \<times> lane, 32 word) omap \<times> 64 word \<Rightarrow>
     (HealthMetric \<times> lane) \<times> 32 word \<Rightarrow>
     HealthSample list \<times> (HealthMetric \<times> lane, 32 word) omap \<times> 64 word" where
  "trim_series_entry limit acc entry =
     (let (samples, counts, dropped) = acc;
          (series, cnt) = entry;
          (samples, cnt, dropped) = trim_series limit series samples cnt dropped
      in (samples, counts @ [(series, cnt)], dropped))"

definition trim_samples :: "State \<Rightarrow> ModuleRecord \<Rightarrow> RegistryConfig \<Rightarrow> State \<times> ModuleRecord" where
  "trim_samples st md config =
     (let (samples, counts, dropped) =
            foldl (trim_series_entry (cf_max_samples_per_series config))
              (md_samples md, [], st_dropped_samples st) (md_series_counts md);
          excess = length samples - unat (cf_max_samples_per_module config)
      in (st \<lparr> st_dropped_samples := dropped + word_of_nat excess \<rparr>,
          md \<lparr> md_samples := drop excess samples, md_series_counts := counts \<rparr>))"

text \<open>\<open>while (lifecycle.size() > limit) lifecycle.erase(lifecycle.begin())\<close>\<close>

definition trim_lifecycle :: "RegistryConfig \<Rightarrow> ModuleRecord \<Rightarrow> ModuleRecord" where
  "trim_lifecycle config md =
     md \<lparr> md_lifecycle :=
       drop (length (md_lifecycle md) - unat (cf_max_lifecycle_history config)) (md_lifecycle md) \<rparr>"

section \<open>Liveness of evidence\<close>

definition source_is_live :: "State \<Rightarrow> SourceId \<Rightarrow> SourceEpoch \<Rightarrow> bool" where
  "source_is_live st source epoch =
     (case oget (st_sources st) source of None \<Rightarrow> False | Some so \<Rightarrow> so_epoch so = epoch)"

definition incarnation_is_current :: "ModuleRecord \<Rightarrow> IncarnationId \<Rightarrow> bool" where
  "incarnation_is_current md incarnation \<longleftrightarrow> md_incarnation md = incarnation"

definition claim_shadowed :: "IdentityClaim list \<Rightarrow> IdentityClaim \<Rightarrow> bool" where
  "claim_shadowed claims claim =
     list_ex (\<lambda>other. ic_source other = ic_source claim \<and>
        ic_source_epoch other = ic_source_epoch claim \<and>
        ic_incarnation other = ic_incarnation claim \<and> ic_field other = ic_field claim \<and>
        ic_subkey other = ic_subkey claim \<and> ic_sequence other > ic_sequence claim) claims"

definition declaration_shadowed :: "CapabilityDeclaration list \<Rightarrow> CapabilityDeclaration \<Rightarrow> bool" where
  "declaration_shadowed ds d =
     list_ex (\<lambda>other. cd_source other = cd_source d \<and> cd_source_epoch other = cd_source_epoch d \<and>
        cd_incarnation other = cd_incarnation d \<and> cd_module other = cd_module d \<and>
        cd_port other = cd_port d \<and> cd_key other = cd_key d \<and> cd_subkey other = cd_subkey d \<and>
        cd_sequence other > cd_sequence d) ds"

definition live_claims :: "State \<Rightarrow> ModuleRecord \<Rightarrow> IncarnationId \<Rightarrow> IdentityClaim list" where
  "live_claims st md incarnation =
     map (\<lambda>c. c \<lparr> ic_live := source_is_live st (ic_source c) (ic_source_epoch c) \<and>
                            \<not> claim_shadowed (md_claims md) c \<rparr>)
       (filter (\<lambda>c. ic_incarnation c = incarnation) (md_claims md))"

definition mark_declaration ::
    "State \<Rightarrow> CapabilityDeclaration list \<Rightarrow> CapabilityDeclaration \<Rightarrow> CapabilityDeclaration" where
  "mark_declaration st ds d =
     d \<lparr> cd_live := source_is_live st (cd_source d) (cd_source_epoch d) \<and> \<not> declaration_shadowed ds d \<rparr>"

definition live_declarations :: "State \<Rightarrow> ModuleRecord \<Rightarrow> IncarnationId \<Rightarrow> CapabilityDeclaration list" where
  "live_declarations st md incarnation =
     map (mark_declaration st (md_declarations md))
       (filter (\<lambda>d. cd_incarnation d = incarnation) (md_declarations md))"

definition live_port_declarations :: "State \<Rightarrow> PortRecord \<Rightarrow> CapabilityDeclaration list" where
  "live_port_declarations st po = map (mark_declaration st (po_declarations po)) (po_declarations po)"

definition mark_sample :: "State \<Rightarrow> HealthSample \<Rightarrow> HealthSample" where
  "mark_sample st s = s \<lparr> hs_live := source_is_live st (hs_source s) (hs_source_epoch s) \<rparr>"

definition live_samples :: "State \<Rightarrow> ModuleRecord \<Rightarrow> IncarnationId \<Rightarrow> HealthSample list" where
  "live_samples st md incarnation =
     map (mark_sample st) (filter (\<lambda>s. hs_incarnation s = incarnation) (md_samples md))"

definition live_thresholds :: "State \<Rightarrow> HealthThreshold list" where
  "live_thresholds st = map tr_threshold (filter tr_live (st_thresholds st))"

definition find_latch :: "ModuleRecord \<Rightarrow> HealthMetric \<Rightarrow> lane \<Rightarrow> HealthLatchRecord option" where
  "find_latch md metric lane_in =
     List.find (\<lambda>r. lr_metric r = metric \<and> lr_lane r = lane_in) (md_latches md)"

section \<open>Mutations\<close>

definition next_sequence :: "State \<Rightarrow> State \<times> Sequence" where
  "next_sequence st =
     (let v = st_next_sequence st;
          n = v + 1
      in (st \<lparr> st_next_sequence := (if n = 0 then 1 else n) \<rparr>, v))"

record Registry =
  rg_config :: RegistryConfig
  rg_state :: State
  rg_refusals :: "64 word"
  rg_queries :: "64 word"

definition Registry_init :: "RegistryConfig \<Rightarrow> Registry" where
  "Registry_init config =
     \<lparr> rg_config = config, rg_state = State_init, rg_refusals = 0, rg_queries = 0 \<rparr>"

text \<open>
  The body of a mutation sees a copy of the state with the sequence number taken, the generation the
  change will be published under, and the sequence number; it returns the changed copy and the
  operation's result, or refuses.
\<close>

type_synonym 'a body = "State \<Rightarrow> Generation \<Rightarrow> Sequence \<Rightarrow> (State \<times> 'a) res"

definition refuse :: "Registry \<Rightarrow> Registry" where
  "refuse rg = rg \<lparr> rg_refusals := rg_refusals rg + 1 \<rparr>"

definition mutate :: "bool \<Rightarrow> Generation \<Rightarrow> 'a body \<Rightarrow> Registry \<Rightarrow> Registry \<times> 'a res" where
  "mutate require_generation expected body rg =
     (if require_generation \<and> id_valid expected \<and> expected \<noteq> st_generation (rg_state rg)
      then (refuse rg, Inl StaleGeneration)
      else
        let next_generation = st_generation (rg_state rg) + 1;
            (next, sequence) = next_sequence (rg_state rg)
        in case body next next_generation sequence of
             Inl e \<Rightarrow> (refuse rg, Inl e)
           | Inr (next, x) \<Rightarrow>
               (rg \<lparr> rg_state := next \<lparr> st_generation := next_generation,
                                          st_mutations := st_mutations next + 1 \<rparr> \<rparr>, Inr x))"

text \<open>A \<open>const\<close> operation reads the published state and counts itself.\<close>

definition answer :: "(State \<Rightarrow> 'a) \<Rightarrow> Registry \<Rightarrow> Registry \<times> 'a" where
  "answer query rg = (rg \<lparr> rg_queries := rg_queries rg + 1 \<rparr>, query (rg_state rg))"

definition verify_generation :: "Generation \<Rightarrow> State \<Rightarrow> unit res" where
  "verify_generation expected st =
     (if id_valid expected \<and> expected \<noteq> st_generation st then Inl StaleGeneration else Inr ())"

end
