(* ===== verification/Reports.thy ===== *)
theory Reports
  imports RegState
begin

text \<open>
  What the registry answers (\<open>src/registry.cpp\<close>): the identity and capability views, attachments,
  the health report of a module and the samples and latches behind it, compatibility queries,
  histories and summaries. Each is a function of one published state; \<open>answer\<close> runs it and counts the
  query.
\<close>

definition count32 :: "('a \<Rightarrow> bool) \<Rightarrow> 'a list \<Rightarrow> 32 word" where
  "count32 P xs = word_of_nat (length (filter P xs))"

definition count64 :: "('a \<Rightarrow> bool) \<Rightarrow> 'a list \<Rightarrow> 64 word" where
  "count64 P xs = word_of_nat (length (filter P xs))"

text \<open>The record of a module incarnation, or why there is none.\<close>

definition current_module :: "State \<Rightarrow> ModuleUid \<Rightarrow> IncarnationId \<Rightarrow> ModuleRecord res" where
  "current_module st uid incarnation =
     (case oget (st_modules st) uid of
        None \<Rightarrow> Inl NotFound
      | Some md \<Rightarrow> if \<not> incarnation_is_current md incarnation then Inl Fenced else Inr md)"

definition source_handle :: "SourceId \<Rightarrow> State \<Rightarrow> SourceHandle res" where
  "source_handle i st =
     (case oget (st_sources st) i of
        None \<Rightarrow> Inl NotFound
      | Some so \<Rightarrow> Inr \<lparr> sh_id = so_id so, sh_epoch = so_epoch so, sh_generation = so_generation so \<rparr>)"

section \<open>Identity and capability views\<close>

definition identity :: "ModuleHandle \<Rightarrow> State \<Rightarrow> IdentityView res" where
  "identity h st =
     try_res (current_module st (mo_uid h) (mo_incarnation h)) (\<lambda>md.
       let consensus = build_identity_consensus (live_claims st md (md_incarnation md))
       in Inr \<lparr> vw_uid = md_uid md, vw_incarnation = md_incarnation md, vw_key = md_key md,
                vw_generation = st_generation st, vw_lifecycle = md_state md, vw_fields = consensus,
                vw_digest = digest_identity_fields consensus,
                vw_conflicting_fields = count32 (\<lambda>c. fc_outcome c = CO_Conflicting) consensus,
                vw_superseded_fields = count32 (\<lambda>c. fc_superseded_claims c \<noteq> []) consensus \<rparr>)"

definition module_handle :: "State \<Rightarrow> ModuleRecord \<Rightarrow> ModuleHandle" where
  "module_handle st md =
     \<lparr> mo_uid = md_uid md, mo_incarnation = md_incarnation md, mo_generation = st_generation st,
       mo_key = md_key md \<rparr>"

definition identity_by_key :: "string \<Rightarrow> State \<Rightarrow> IdentityView res" where
  "identity_by_key key st =
     (case oget (st_module_uid_by_key st) key of
        None \<Rightarrow> Inl NotFound
      | Some uid \<Rightarrow>
          (case oget (st_modules st) uid of
             None \<Rightarrow> Inl Internal
           | Some md \<Rightarrow> identity (module_handle st md) st))"

definition modules :: "State \<Rightarrow> ModuleHandle list" where
  "modules st = map (\<lambda>(_, md). module_handle st md) (st_modules st)"

definition capability_view ::
    "State \<Rightarrow> bool \<Rightarrow> ModuleUid \<Rightarrow> IncarnationId \<Rightarrow> string \<Rightarrow> CapabilityDeclaration list \<Rightarrow> CapabilityView" where
  "capability_view st module_subject uid incarnation port ds =
     (let attrs = build_capability_consensus ds
      in \<lparr> cw_module_subject = module_subject, cw_uid = uid, cw_incarnation = incarnation,
           cw_port = port, cw_generation = st_generation st, cw_attributes = attrs,
           cw_digest = digest_capability_attributes attrs,
           cw_conflicting_attributes = count32 (\<lambda>c. cc_outcome c = CO_Conflicting) attrs,
           cw_unestablished_attributes = count32 (\<lambda>c. \<not> cc_established c) attrs \<rparr>)"

definition capabilities :: "ModuleHandle \<Rightarrow> State \<Rightarrow> CapabilityView res" where
  "capabilities h st =
     try_res (current_module st (mo_uid h) (mo_incarnation h)) (\<lambda>md.
       Inr (capability_view st True (md_uid md) (md_incarnation md) []
              (live_declarations st md (md_incarnation md))))"

definition port_capabilities :: "string \<Rightarrow> State \<Rightarrow> CapabilityView res" where
  "port_capabilities port st =
     (case oget (st_ports st) port of
        None \<Rightarrow> Inl NotFound
      | Some po \<Rightarrow> Inr (capability_view st False 0 0 port (live_port_declarations st po)))"

definition ports :: "State \<Rightarrow> string list" where
  "ports st = filter (\<lambda>k. parse_key k = Inr k) (map fst (st_ports st))"

section \<open>Attachments\<close>

definition attachment_of_slot :: "string \<Rightarrow> State \<Rightarrow> AttachmentRecord res" where
  "attachment_of_slot slot st =
     (case oget (st_attachments st) slot of
        None \<Rightarrow> Inl NotFound
      | Some a \<Rightarrow> if \<not> ar_live a then Inl NotFound else Inr a)"

definition attachment_of_module :: "ModuleHandle \<Rightarrow> State \<Rightarrow> AttachmentRecord res" where
  "attachment_of_module h st =
     (case List.find (\<lambda>(_, a). ar_live a \<and> ar_uid a = mo_uid h \<and> ar_incarnation a = mo_incarnation h)
             (st_attachments st) of
        None \<Rightarrow> Inl NotFound
      | Some (_, a) \<Rightarrow> Inr a)"

definition slots :: "State \<Rightarrow> string list" where
  "slots st = filter (\<lambda>k. parse_key k = Inr k) (map fst (st_attachments st))"

section \<open>Health\<close>

definition is_threshold_zone :: "MetricState \<Rightarrow> bool" where
  "is_threshold_zone s \<longleftrightarrow> s = MS_Ok \<or> s = MS_Degraded \<or> s = MS_Critical"

text \<open>The series of a report: published policy, ingested evidence, declared telemetry.\<close>

definition add_row :: "(HealthMetric \<times> lane) list \<Rightarrow> HealthMetric \<times> lane \<Rightarrow> (HealthMetric \<times> lane) list" where
  "add_row rows key = (if key \<in> set rows then rows else rows @ [key])"

definition declared_row :: "ModuleRecord \<Rightarrow> CapabilityDeclaration \<Rightarrow> (HealthMetric \<times> lane) option" where
  "declared_row md d =
     (if cd_incarnation d \<noteq> md_incarnation md \<or> \<not> cd_live d then None
      else case telemetry_capability_metric (cd_key d) of
        None \<Rightarrow> None
      | Some metric \<Rightarrow> if cd_value d = Cap_Boolean True then Some (metric, kModuleLane) else None)"

definition report_rows :: "State \<Rightarrow> ModuleRecord \<Rightarrow> (HealthMetric \<times> lane) list" where
  "report_rows st md =
     sort (foldl add_row []
       (map (\<lambda>t. (ht_metric t, ht_lane t)) (live_thresholds st) @
        map (\<lambda>s. (hs_metric s, hs_lane s))
          (filter (\<lambda>s. hs_incarnation s = md_incarnation md) (md_samples md)) @
        List.map_filter (declared_row md) (md_declarations md)))"

definition report_samples :: "State \<Rightarrow> ModuleRecord \<Rightarrow> HealthSample list" where
  "report_samples st md =
     map (\<lambda>s. s \<lparr> hs_live := hs_incarnation s = md_incarnation md \<and>
                             source_is_live st (hs_source s) (hs_source_epoch s) \<rparr>) (md_samples md)"

text \<open>The classification of one row, and the metric with the latch taken into account.\<close>

definition row_series :: "State \<Rightarrow> ModuleRecord \<Rightarrow> HealthMetric \<times> lane \<Rightarrow> HealthSample list" where
  "row_series st md row = filter (\<lambda>s. (hs_metric s, hs_lane s) = row) (report_samples st md)"

definition row_classification ::
    "State \<Rightarrow> ModuleRecord \<Rightarrow> RegistryConfig \<Rightarrow> WallNs \<Rightarrow> HealthMetric \<times> lane \<Rightarrow> SeriesClassification" where
  "row_classification st md config now row =
     classify_series (row_series st md row)
       (select_threshold (live_thresholds st) (fst row) (snd row))
       (md_uid md) (md_incarnation md) now (cf_max_future_skew_ns config)"

definition row_metric ::
    "State \<Rightarrow> ModuleRecord \<Rightarrow> SeriesClassification \<Rightarrow> HealthMetric \<times> lane \<Rightarrow> MetricHealth" where
  "row_metric st md c row =
     (let metric =
            \<lparr> mh_metric = fst row, mh_lane = snd row, mh_state = se_state c, mh_value = se_value c,
              mh_age_ns = se_age_ns c, mh_sample_count = int (length (row_series st md row)),
              mh_fresh_count = se_fresh c, mh_stale_count = se_stale c, mh_fenced_count = se_fenced c,
              mh_source_count = se_sources c, mh_reason = se_reason c \<rparr>
      in if is_threshold_zone (se_state c) then
           (case find_latch md (fst row) (snd row) of
              Some lr \<Rightarrow>
                if is_threshold_zone (hl_state (lr_latch lr)) then
                  metric \<lparr> mh_state := hl_state (lr_latch lr),
                           mh_reason := ''latched classification with hysteresis'' \<rparr>
                else metric
            | None \<Rightarrow> metric)
         else metric)"

fun row_issue :: "MetricHealth \<Rightarrow> SeriesClassification \<Rightarrow> HealthIssue option" where
  "row_issue m c =
     (let issue = (\<lambda>kind. Some \<lparr> is_kind = kind, is_metric = mh_metric m, is_lane = mh_lane m,
                                   is_detail = se_reason c \<rparr>)
      in case mh_state m of
           MS_Stale \<Rightarrow> issue (se_reason_kind c)
         | MS_Unknown \<Rightarrow> issue (se_reason_kind c)
         | MS_Fenced \<Rightarrow> issue HI_Fenced
         | MS_Conflicting \<Rightarrow> issue HI_SourceConflict
         | MS_Unclassified \<Rightarrow> issue HI_NoThreshold
         | _ \<Rightarrow> None)"

text \<open>The counters of the loop over the rows.\<close>

record ReportScan =
  rs_fresh :: nat
  rs_stale :: nat
  rs_unknown :: nat
  rs_conflicting :: nat
  rs_fenced :: nat
  rs_worst :: MetricState
  rs_metrics :: "MetricHealth list"
  rs_issues :: "HealthIssue list"

definition report_scan_empty :: ReportScan where
  "report_scan_empty =
     \<lparr> rs_fresh = 0, rs_stale = 0, rs_unknown = 0, rs_conflicting = 0, rs_fenced = 0,
       rs_worst = MS_Ok, rs_metrics = [], rs_issues = [] \<rparr>"

fun count_row :: "MetricState \<Rightarrow> ReportScan \<Rightarrow> ReportScan" where
  "count_row MS_Stale sc = sc \<lparr> rs_stale := rs_stale sc + 1 \<rparr>"
| "count_row MS_Unknown sc = sc \<lparr> rs_unknown := rs_unknown sc + 1 \<rparr>"
| "count_row MS_Fenced sc = sc \<lparr> rs_fenced := rs_fenced sc + 1 \<rparr>"
| "count_row MS_Conflicting sc = sc \<lparr> rs_conflicting := rs_conflicting sc + 1 \<rparr>"
| "count_row _ sc = sc \<lparr> rs_fresh := rs_fresh sc + 1 \<rparr>"

definition report_row ::
    "State \<Rightarrow> ModuleRecord \<Rightarrow> RegistryConfig \<Rightarrow> WallNs \<Rightarrow> ReportScan \<Rightarrow> HealthMetric \<times> lane \<Rightarrow> ReportScan" where
  "report_row st md config now sc row =
     (let c = row_classification st md config now row;
          m = row_metric st md c row;
          sc = count_row (mh_state m)
                 (sc \<lparr> rs_issues := rs_issues sc @ (case row_issue m c of None \<Rightarrow> [] | Some i \<Rightarrow> [i]) \<rparr>);
          sc = (if metric_state_severity (mh_state m) > metric_state_severity (rs_worst sc) \<or>
                   rs_metrics sc = []
                then sc \<lparr> rs_worst := mh_state m \<rparr> else sc)
      in sc \<lparr> rs_metrics := rs_metrics sc @ [m] \<rparr>)"

definition report_outcome :: "ReportScan \<Rightarrow> HealthOutcome \<times> MetricState" where
  "report_outcome sc =
     (if rs_metrics sc = [] then (HO_Unknown, MS_Unknown)
      else
        let total = length (rs_metrics sc)
        in (if rs_conflicting sc > 0 then HO_Conflicting
            else if rs_fenced sc = total then HO_Fenced
            else if rs_unknown sc = total then HO_Unknown
            else if rs_stale sc = total then HO_Stale
            else if rs_fresh sc = total then HO_Fresh
            else HO_Partial, rs_worst sc))"

definition write_metric_health :: "MetricHealth \<Rightarrow> CanonicalWriter \<Rightarrow> CanonicalWriter" where
  "write_metric_health m w =
     (let w = w_begin_object 4 w;
          w = w_field ''lane'' w;
          w = w_integer (ucast (mh_lane m)) w;
          w = w_field ''metric'' w;
          w = w_code (HealthMetric_code (mh_metric m)) w;
          w = w_field ''state'' w;
          w = w_code (MetricState_code (mh_state m)) w;
          w = w_field ''value'' w
      in case mh_value m of Some v \<Rightarrow> w_real v w | None \<Rightarrow> w_null_value w)"

definition health_report_digest :: "HealthReport \<Rightarrow> Digest" where
  "health_report_digest r =
     (let w = w_begin_object 8 writer_empty;
          w = w_field ''incarnation'' w;
          w = w_integer (ucast (hr_incarnation r)) w;
          w = w_field ''metrics'' w;
          w = w_begin_array (word_of_nat (length (hr_metrics r))) w;
          w = foldl (\<lambda>w m. write_metric_health m w) w (hr_metrics r);
          w = w_field ''outcome'' w;
          w = w_code (HealthOutcome_code (hr_outcome r)) w;
          w = w_field ''uid'' w;
          w = w_integer (hr_uid r) w;
          w = w_field ''worst'' w;
          w = w_code (MetricState_code (hr_worst r)) w
      in writer_digest w)"

definition build_health_report ::
    "State \<Rightarrow> ModuleRecord \<Rightarrow> RegistryConfig \<Rightarrow> Clock \<Rightarrow> HealthReport" where
  "build_health_report st md config ck =
     (let sc = foldl (report_row st md config (ck_wall ck)) report_scan_empty (report_rows st md);
          (oc, worst) = report_outcome sc;
          report =
            \<lparr> hr_uid = md_uid md, hr_incarnation = md_incarnation md, hr_generation = st_generation st,
              hr_outcome = oc, hr_worst = worst, hr_metrics = rs_metrics sc, hr_issues = rs_issues sc,
              hr_evaluated_at_wall_ns = ck_wall ck, hr_clock_domain = ck_domain ck,
              hr_digest = zero_digest \<rparr>
      in report \<lparr> hr_digest := health_report_digest report \<rparr>)"

definition health :: "RegistryConfig \<Rightarrow> Clock \<Rightarrow> ModuleHandle \<Rightarrow> State \<Rightarrow> HealthReport res" where
  "health config ck h st =
     try_res (current_module st (mo_uid h) (mo_incarnation h)) (\<lambda>md.
       Inr (build_health_report st md config ck))"

record SampleQuery =
  sq_metric :: HealthMetric
  sq_lane :: lane
  sq_all_lanes :: bool
  sq_limit :: "64 word"
  sq_include_superseded :: bool

definition sample_selected :: "ModuleHandle \<Rightarrow> SampleQuery \<Rightarrow> HealthSample \<Rightarrow> bool" where
  "sample_selected h query s =
     (if sq_metric query \<noteq> HM_Unknown \<and> hs_metric s \<noteq> sq_metric query then False
      else if \<not> sq_all_lanes query \<and> hs_lane s \<noteq> sq_lane query then False
      else if \<not> sq_include_superseded query \<and> \<not> hs_live s then False
      else if \<not> sq_include_superseded query \<and> hs_incarnation s \<noteq> mo_incarnation h then False
      else True)"

definition samples :: "ModuleHandle \<Rightarrow> SampleQuery \<Rightarrow> State \<Rightarrow> HealthSample list res" where
  "samples h query st =
     (case oget (st_modules st) (mo_uid h) of
        None \<Rightarrow> Inl NotFound
      | Some md \<Rightarrow>
          Inr (take (unat (sq_limit query))
            (sort_key (\<lambda>s. (- hs_observed_at_wall_ns s, - uint (hs_sequence s)))
              (filter (sample_selected h query) (live_samples st md (mo_incarnation h))))))"

definition latch :: "ModuleHandle \<Rightarrow> HealthMetric \<Rightarrow> lane \<Rightarrow> State \<Rightarrow> HealthLatch res" where
  "latch h metric lane_in st =
     try_res (current_module st (mo_uid h) (mo_incarnation h)) (\<lambda>md.
       case find_latch md metric lane_in of
         None \<Rightarrow> Inr HealthLatch_init
       | Some lr \<Rightarrow> Inr (lr_latch lr))"

section \<open>Compatibility\<close>

definition rules :: "State \<Rightarrow> CompatRuleRecord list" where
  "rules st = sort_key rule_order (map snd (st_rules st))"

definition attribute_resolver ::
    "CapabilityConsensus list \<Rightarrow> CapabilityConsensus list \<Rightarrow> AttributeResolver" where
  "attribute_resolver module_attributes port_attributes =
     Some (\<lambda>subject key subkey.
       List.find (\<lambda>a. cc_key a = key \<and> cc_subkey a = subkey)
         (if subject = RSub_Module then module_attributes else port_attributes))"

definition port_attributes :: "State \<Rightarrow> string \<Rightarrow> CapabilityConsensus list" where
  "port_attributes st port =
     (case oget (st_ports st) port of
        None \<Rightarrow> []
      | Some po \<Rightarrow> build_capability_consensus (live_port_declarations st po))"

definition query_compatibility :: "Clock \<Rightarrow> CompatQuery \<Rightarrow> State \<Rightarrow> CompatDecision res" where
  "query_compatibility ck query st =
     (if \<not> id_valid (cq_uid query) \<or> \<not> id_valid (cq_incarnation query) then Inl InvalidArgument
      else if cq_port query = [] then Inl InvalidArgument
      else if cq_require_latest_generation query \<and> id_valid (cq_expected_generation query) \<and>
              cq_expected_generation query \<noteq> st_generation st then Inl StaleGeneration
      else
        try_res (current_module st (cq_uid query) (cq_incarnation query)) (\<lambda>md.
          Inr (evaluate_compatibility query
                 (filter rr_live (map snd (st_rules st)))
                 (attribute_resolver
                    (build_capability_consensus (live_declarations st md (md_incarnation md)))
                    (port_attributes st (cq_port query)))
                 (st_generation st) (ck_wall ck) (ck_domain ck))))"

definition verify_decision :: "CompatDecision \<Rightarrow> State \<Rightarrow> unit res" where
  "verify_decision d st = verify_generation (de_generation d) st"

section \<open>Lifecycle and evidence histories\<close>

definition lifecycle_state :: "ModuleHandle \<Rightarrow> State \<Rightarrow> LifecycleState res" where
  "lifecycle_state h st =
     try_res (current_module st (mo_uid h) (mo_incarnation h)) (\<lambda>md. Inr (md_state md))"

definition lifecycle_history :: "ModuleHandle \<Rightarrow> State \<Rightarrow> LifecycleEvent list res" where
  "lifecycle_history h st =
     (case oget (st_modules st) (mo_uid h) of
        None \<Rightarrow> Inl NotFound
      | Some md \<Rightarrow> Inr (filter (\<lambda>e. le_incarnation e = mo_incarnation h) (md_lifecycle md)))"

record ClaimQuery =
  cl_field :: IdentityField
  cl_limit :: "64 word"
  cl_include_superseded :: bool

record DeclarationQuery =
  dq_key :: CapabilityKey
  dq_limit :: "64 word"
  dq_include_superseded :: bool

definition keep_last :: "64 word \<Rightarrow> 'a list \<Rightarrow> 'a list" where
  "keep_last limit xs = drop (length xs - unat limit) xs"

definition claim_history :: "ModuleHandle \<Rightarrow> ClaimQuery \<Rightarrow> State \<Rightarrow> IdentityClaim list res" where
  "claim_history h query st =
     (case oget (st_modules st) (mo_uid h) of
        None \<Rightarrow> Inl NotFound
      | Some md \<Rightarrow>
          Inr (keep_last (cl_limit query) (sort_key ic_sequence
            (filter (\<lambda>c. (cl_field query = IF_Unknown \<or> ic_field c = cl_field query) \<and>
                         (cl_include_superseded query \<or> ic_live c))
              (live_claims st md (mo_incarnation h))))))"

definition declaration_history ::
    "ModuleHandle \<Rightarrow> DeclarationQuery \<Rightarrow> State \<Rightarrow> CapabilityDeclaration list res" where
  "declaration_history h query st =
     (case oget (st_modules st) (mo_uid h) of
        None \<Rightarrow> Inl NotFound
      | Some md \<Rightarrow>
          Inr (keep_last (dq_limit query) (sort_key cd_sequence
            (filter (\<lambda>d. (dq_key query = CK_Unknown \<or> cd_key d = dq_key query) \<and>
                         (dq_include_superseded query \<or> cd_live d))
              (live_declarations st md (mo_incarnation h))))))"

record EvidenceSummary =
  es_uid :: ModuleUid
  es_incarnation :: IncarnationId
  es_generation :: Generation
  es_live_claims :: "64 word"
  es_superseded_claims :: "64 word"
  es_live_declarations :: "64 word"
  es_superseded_declarations :: "64 word"
  es_live_samples :: "64 word"
  es_stale_samples :: "64 word"
  es_fenced_samples :: "64 word"
  es_conflicting_attributes :: "32 word"
  es_oldest_sample_wall_ns :: WallNs
  es_newest_sample_wall_ns :: WallNs
  es_digest :: Digest

text \<open>One sample in the loop of \<open>evidence_summary\<close>; the flag is \<open>first_sample\<close>.\<close>

definition summarise_sample ::
    "State \<Rightarrow> ModuleRecord \<Rightarrow> WallNs \<Rightarrow> bool \<times> EvidenceSummary \<Rightarrow> HealthSample \<Rightarrow> bool \<times> EvidenceSummary" where
  "summarise_sample st md now acc s =
     (let (first, es) = acc
      in if hs_incarnation s \<noteq> md_incarnation md then
           (first, es \<lparr> es_fenced_samples := es_fenced_samples es + 1 \<rparr>)
         else if \<not> source_is_live st (hs_source s) (hs_source_epoch s) then
           (first, es \<lparr> es_superseded_declarations := es_superseded_declarations es + 1 \<rparr>)
         else
           let es = es \<lparr> es_live_samples := es_live_samples es + 1 \<rparr>;
               stale = (case select_threshold (live_thresholds st) (hs_metric s) (hs_lane s) of
                          None \<Rightarrow> True
                        | Some t \<Rightarrow> sample_age now s > ht_max_age_ns t);
               es = (if stale then es \<lparr> es_stale_samples := es_stale_samples es + 1 \<rparr> else es);
               es = (if first \<or> hs_observed_at_wall_ns s < es_oldest_sample_wall_ns es
                     then es \<lparr> es_oldest_sample_wall_ns := hs_observed_at_wall_ns s \<rparr> else es);
               es = (if first \<or> hs_observed_at_wall_ns s > es_newest_sample_wall_ns es
                     then es \<lparr> es_newest_sample_wall_ns := hs_observed_at_wall_ns s \<rparr> else es)
           in (False, es))"

definition summary_digest :: "EvidenceSummary \<Rightarrow> Digest" where
  "summary_digest es =
     (let w = w_begin_object 8 writer_empty;
          w = w_field ''conflicting'' w;
          w = w_integer (ucast (es_conflicting_attributes es)) w;
          w = w_field ''fenced_samples'' w;
          w = w_integer (es_fenced_samples es) w;
          w = w_field ''incarnation'' w;
          w = w_integer (ucast (es_incarnation es)) w;
          w = w_field ''live_claims'' w;
          w = w_integer (es_live_claims es) w;
          w = w_field ''live_declarations'' w;
          w = w_integer (es_live_declarations es) w;
          w = w_field ''live_samples'' w;
          w = w_integer (es_live_samples es) w;
          w = w_field ''stale_samples'' w;
          w = w_integer (es_stale_samples es) w;
          w = w_field ''uid'' w;
          w = w_integer (es_uid es) w
      in writer_digest w)"

definition evidence_summary :: "Clock \<Rightarrow> ModuleHandle \<Rightarrow> State \<Rightarrow> EvidenceSummary res" where
  "evidence_summary ck h st =
     try_res (current_module st (mo_uid h) (mo_incarnation h)) (\<lambda>md.
       let claims = live_claims st md (md_incarnation md);
           ds = live_declarations st md (md_incarnation md);
           es = \<lparr> es_uid = md_uid md, es_incarnation = md_incarnation md,
                  es_generation = st_generation st,
                  es_live_claims = count64 ic_live claims,
                  es_superseded_claims = count64 (\<lambda>c. \<not> ic_live c) claims,
                  es_live_declarations = count64 cd_live ds,
                  es_superseded_declarations = count64 (\<lambda>d. \<not> cd_live d) ds,
                  es_live_samples = 0, es_stale_samples = 0, es_fenced_samples = 0,
                  es_conflicting_attributes = 0, es_oldest_sample_wall_ns = 0,
                  es_newest_sample_wall_ns = 0, es_digest = zero_digest \<rparr>;
           (_, es) = foldl (summarise_sample st md (ck_wall ck)) (True, es) (md_samples md);
           es = es \<lparr> es_conflicting_attributes :=
                  count32 (\<lambda>c. fc_outcome c = CO_Conflicting) (build_identity_consensus claims) +
                  count32 (\<lambda>c. cc_outcome c = CO_Conflicting) (build_capability_consensus ds) \<rparr>
       in Inr (es \<lparr> es_digest := summary_digest es \<rparr>))"

section \<open>Statistics\<close>

text \<open>The counters of \<open>stats\<close>; the digest over the whole state is not among them.\<close>

record RegistryStats =
  rt_generation :: Generation
  rt_registry_incarnation :: "32 word"
  rt_sources :: "64 word"
  rt_modules :: "64 word"
  rt_incarnations :: "64 word"
  rt_fenced_incarnations :: "64 word"
  rt_ports :: "64 word"
  rt_rules :: "64 word"
  rt_thresholds :: "64 word"
  rt_attachments :: "64 word"
  rt_live_attachments :: "64 word"
  rt_claims :: "64 word"
  rt_declarations :: "64 word"
  rt_samples :: "64 word"
  rt_mutations :: "64 word"
  rt_refusals :: "64 word"
  rt_queries :: "64 word"
  rt_conflicts_observed :: "64 word"

definition sum64 :: "('a \<Rightarrow> 64 word) \<Rightarrow> 'a list \<Rightarrow> 64 word" where
  "sum64 f xs = foldl (\<lambda>n x. n + f x) 0 xs"

definition size64 :: "'a list \<Rightarrow> 64 word" where
  "size64 xs = word_of_nat (length xs)"

definition stats :: "Registry \<Rightarrow> RegistryStats" where
  "stats rg =
     (let st = rg_state rg; mds = map snd (st_modules st)
      in \<lparr> rt_generation = st_generation st, rt_registry_incarnation = st_registry_incarnation st,
           rt_sources = size64 (st_sources st), rt_modules = size64 (st_modules st),
           rt_incarnations = sum64 (\<lambda>md. ucast (md_incarnation_count md)) mds,
           rt_fenced_incarnations = count64 (\<lambda>md. md_incarnation_count md > 1) mds,
           rt_ports = size64 (st_ports st), rt_rules = size64 (st_rules st),
           rt_thresholds = count64 tr_live (st_thresholds st),
           rt_attachments = size64 (st_attachments st),
           rt_live_attachments = count64 (\<lambda>(_, a). ar_live a) (st_attachments st),
           rt_claims = sum64 (\<lambda>md. size64 (md_claims md)) mds,
           rt_declarations = sum64 (\<lambda>md. size64 (md_declarations md)) mds +
             sum64 (\<lambda>(_, po). size64 (po_declarations po)) (st_ports st),
           rt_samples = sum64 (\<lambda>md. size64 (md_samples md)) mds,
           rt_mutations = st_mutations st, rt_refusals = rg_refusals rg, rt_queries = rg_queries rg,
           rt_conflicts_observed = st_conflicts_observed st \<rparr>)"

end
