(* ===== verification/RegOps.thy ===== *)
theory RegOps
  imports Reports
begin

text \<open>
  The operations that change the registry (\<open>src/registry.cpp\<close>), each as the body of a mutation and
  the guards the code checks before it enters the mutation path. A refused guard leaves the registry
  as it is; a refused body leaves its state as it is and counts a refusal.
\<close>

definition checked :: "unit res \<Rightarrow> (Registry \<Rightarrow> Registry \<times> 'a res) \<Rightarrow> Registry \<Rightarrow> Registry \<times> 'a res" where
  "checked guard k rg = (case guard of Inl e \<Rightarrow> (rg, Inl e) | Inr _ \<Rightarrow> k rg)"

definition require_generation :: "MutationPolicy \<Rightarrow> bool" where
  "require_generation policy \<longleftrightarrow> policy = MP_RequireGeneration"

definition put_module :: "ModuleUid \<Rightarrow> ModuleRecord \<Rightarrow> State \<Rightarrow> State" where
  "put_module uid md st = st \<lparr> st_modules := oput uid md (st_modules st) \<rparr>"

text \<open>
  The preamble of the operations on a module: the authority is live, the module exists and the handle
  names its current incarnation.
\<close>

definition with_module ::
    "AuthorityToken \<Rightarrow> ModuleHandle \<Rightarrow> State \<Rightarrow> (ModuleRecord \<Rightarrow> 'a res) \<Rightarrow> 'a res" where
  "with_module auth h st k =
     try_res (require_authority st auth) (\<lambda>_.
       try_res (current_module st (mo_uid h) (mo_incarnation h)) k)"

definition lifecycle_event ::
    "LifecycleState \<Rightarrow> LifecycleState \<Rightarrow> IncarnationId \<Rightarrow> string \<Rightarrow> AuthorityToken \<Rightarrow> Generation \<Rightarrow>
     Sequence \<Rightarrow> WallNs \<Rightarrow> LifecycleEvent" where
  "lifecycle_event f t inc reason auth gen sq now =
     \<lparr> le_from = f, le_to = t, le_incarnation = inc, le_reason = reason, le_source = at_source auth,
       le_source_epoch = at_epoch auth, le_generation = gen, le_sequence = sq, le_wall_ns = now \<rparr>"

definition push_event :: "LifecycleEvent \<Rightarrow> ModuleRecord \<Rightarrow> ModuleRecord" where
  "push_event ev md = md \<lparr> md_lifecycle := md_lifecycle md @ [ev] \<rparr>"

text \<open>Enter the target state of an event and record it.\<close>

definition enter_state :: "LifecycleEvent \<Rightarrow> ModuleRecord \<Rightarrow> ModuleRecord" where
  "enter_state ev md =
     push_event ev (md \<lparr> md_state := le_to ev, md_state_generation := le_generation ev,
                         md_state_sequence := le_sequence ev, md_state_wall_ns := le_wall_ns ev \<rparr>)"

section \<open>Sources\<close>

definition register_source_body :: "RegistryConfig \<Rightarrow> Clock \<Rightarrow> SourceDescriptor \<Rightarrow> SourceHandle body" where
  "register_source_body config ck d st gen sq =
     (case oget (st_source_id_by_name st) (ds_name d) of
        Some i \<Rightarrow>
          (case oget (st_sources st) i of
             None \<Rightarrow> Inl Internal
           | Some so \<Rightarrow>
               let renewal = (ds_instance_id d \<noteq> [] \<and> ds_instance_id d = ds_instance_id (so_descriptor so))
               in if \<not> renewal \<and> so_epoch so = 0xFFFFFFFF then Inl CapacityExceeded
                  else
                    let so = so \<lparr> so_epoch := (if renewal then so_epoch so else so_epoch so + 1),
                                  so_descriptor := d, so_generation := gen, so_sequence := sq,
                                  so_registered_wall_ns := ck_wall ck \<rparr>
                    in Inr (st \<lparr> st_sources := oput (so_id so) so (st_sources st) \<rparr>,
                            \<lparr> sh_id = so_id so, sh_epoch = so_epoch so, sh_generation = gen \<rparr>))
      | None \<Rightarrow>
          if length (st_sources st) \<ge> unat (cf_max_sources config) then Inl CapacityExceeded
          else if st_next_source_id st \<ge> 0xFFFFFFFF then Inl CapacityExceeded
          else
            let i = ucast (st_next_source_id st);
                so = \<lparr> so_id = i, so_name = ds_name d, so_epoch = 1, so_descriptor = d,
                       so_generation = gen, so_sequence = sq, so_registered_wall_ns = ck_wall ck \<rparr>
            in Inr (st \<lparr> st_next_source_id := st_next_source_id st + 1,
                         st_sources := oput i so (st_sources st),
                         st_source_id_by_name := oput (ds_name d) i (st_source_id_by_name st) \<rparr>,
                    \<lparr> sh_id = i, sh_epoch = 1, sh_generation = gen \<rparr>))"

definition validate_descriptor :: "SourceDescriptor \<Rightarrow> unit res" where
  "validate_descriptor d =
     (if ds_name d = [] \<or> length (ds_name d) > kMaxKeyBytes then Inl InvalidArgument
      else if \<not> is_valid_utf8 (ds_name d) \<or> \<not> is_valid_utf8 (ds_instance_id d) then Inl InvalidArgument
      else if length (ds_description d) > 512 \<or> length (ds_instance_id d) > 128 then Inl InvalidArgument
      else Inr ())"

definition register_source ::
    "Clock \<Rightarrow> SourceDescriptor \<Rightarrow> MutationPolicy \<Rightarrow> Registry \<Rightarrow> Registry \<times> SourceHandle res" where
  "register_source ck d policy rg =
     checked (validate_descriptor d)
       (mutate (require_generation policy) 0 (register_source_body (rg_config rg) ck d)) rg"

section \<open>Modules\<close>

definition repeats_field :: "IdentityFieldValue list \<Rightarrow> bool" where
  "repeats_field vs \<longleftrightarrow> \<not> distinct (map (\<lambda>v. (iv_field v, iv_subkey v)) vs)"

definition validate_registration :: "ModuleRegistration \<Rightarrow> unit res" where
  "validate_registration r =
     (if rn_key r = [] then Inl InvalidArgument
      else try_res (validate_provenance (rn_provenance r)) (\<lambda>_.
           try_res (try_all validate_identity_value (rn_identity r)) (\<lambda>_.
           if repeats_field (rn_identity r) then Inl InvalidArgument else Inr ())))"

text \<open>A module key seen for the first time.\<close>

definition new_module ::
    "Clock \<Rightarrow> string \<Rightarrow> AuthorityToken \<Rightarrow> ModuleUid \<Rightarrow> Generation \<Rightarrow> Sequence \<Rightarrow> ModuleRecord" where
  "new_module ck key auth uid gen sq =
     push_event
       (lifecycle_event LS_Discovered LS_Discovered 1 ''module key observed for the first time'' auth
          gen sq (ck_wall ck))
       \<lparr> md_key = key, md_uid = uid, md_incarnation = 1, md_state = LS_Discovered,
         md_state_generation = gen, md_state_sequence = sq, md_state_wall_ns = ck_wall ck,
         md_created_generation = gen, md_created_sequence = sq, md_created_wall_ns = ck_wall ck,
         md_fenced_generation = 0, md_incarnation_count = 1, md_claims = [], md_declarations = [],
         md_samples = [], md_lifecycle = [], md_latches = [], md_series_counts = [] \<rparr>"

definition fence_attachments :: "ModuleUid \<Rightarrow> State \<Rightarrow> State" where
  "fence_attachments uid st =
     st \<lparr> st_attachments := map (\<lambda>(slot, a).
            (slot, if ar_live a \<and> ar_uid a = uid
                   then a \<lparr> ar_live := False, ar_note := ''the module occupying this slot was replaced'' \<rparr>
                   else a)) (st_attachments st) \<rparr>"

text \<open>A different physical module under a known key.\<close>

definition new_incarnation ::
    "Clock \<Rightarrow> AuthorityToken \<Rightarrow> ModuleUid \<Rightarrow> ModuleRecord \<Rightarrow> State \<Rightarrow> Generation \<Rightarrow> Sequence \<Rightarrow>
     State res" where
  "new_incarnation ck auth uid md st gen sq =
     (let fencing = (md_state md \<noteq> LS_Replaced \<and> md_state md \<noteq> LS_Retired);
          st = (if fencing then fence_attachments (md_uid md) st else st);
          md = (if fencing
                then push_event
                       (lifecycle_event (md_state md) LS_Replaced (md_incarnation md)
                          ''a new physical module incarnation was registered for this module key'' auth
                          gen sq (ck_wall ck))
                       (md \<lparr> md_fenced_generation := gen \<rparr>)
                else md)
      in if md_incarnation md = 0xFFFFFFFF then Inl CapacityExceeded
         else
           let md = md \<lparr> md_incarnation := md_incarnation md + 1,
                         md_incarnation_count := md_incarnation_count md + 1,
                         md_state := LS_Discovered, md_fenced_generation := gen, md_latches := [] \<rparr>;
               md = push_event
                      (lifecycle_event LS_Discovered LS_Discovered (md_incarnation md)
                         ''new module incarnation discovered'' auth gen sq (ck_wall ck)) md
           in Inr (put_module uid md st))"

definition locate_module ::
    "RegistryConfig \<Rightarrow> Clock \<Rightarrow> ModuleRegistration \<Rightarrow> AuthorityToken \<Rightarrow> State \<Rightarrow> Generation \<Rightarrow> Sequence \<Rightarrow>
     (State \<times> ModuleUid) res" where
  "locate_module config ck r auth st gen sq =
     (case oget (st_module_uid_by_key st) (rn_key r) of
        None \<Rightarrow>
          if length (st_modules st) \<ge> unat (cf_max_modules config) then Inl CapacityExceeded
          else
            let uid = st_next_module_uid st;
                md = new_module ck (rn_key r) auth uid gen sq
            in Inr (st \<lparr> st_next_module_uid := uid + 1,
                         st_modules := oput uid md (st_modules st),
                         st_module_uid_by_key := oput (rn_key r) uid (st_module_uid_by_key st) \<rparr>, uid)
      | Some uid \<Rightarrow>
          (case oget (st_modules st) uid of
             None \<Rightarrow> Inl Internal
           | Some md \<Rightarrow>
               if rn_intent r = RI_EnsureCurrent then
                 (if md_state md = LS_Replaced \<or> md_state md = LS_Retired then Inl StaleIncarnation
                  else Inr (st, uid))
               else try_res (new_incarnation ck auth uid md st gen sq) (\<lambda>st. Inr (st, uid))))"

definition identity_claim ::
    "Clock \<Rightarrow> AuthorityToken \<Rightarrow> ModuleRecord \<Rightarrow> Provenance \<Rightarrow> Generation \<Rightarrow> Sequence \<Rightarrow>
     IdentityFieldValue \<Rightarrow> IdentityClaim" where
  "identity_claim ck auth md p gen sq v =
     \<lparr> ic_field = iv_field v, ic_subkey = iv_subkey v, ic_value = iv_value v,
       ic_source = at_source auth, ic_source_epoch = at_epoch auth, ic_module = md_uid md,
       ic_incarnation = md_incarnation md, ic_generation = gen, ic_sequence = sq,
       ic_observed_at_wall_ns = ck_wall ck, ic_clock_domain = ck_domain ck, ic_provenance = p,
       ic_live = True \<rparr>"

text \<open>A discovered module becomes registered.\<close>

definition register_discovered ::
    "Clock \<Rightarrow> AuthorityToken \<Rightarrow> Generation \<Rightarrow> Sequence \<Rightarrow> ModuleRecord \<Rightarrow> ModuleRecord res" where
  "register_discovered ck auth gen sq md =
     (if md_state md = LS_Discovered then
        (if \<not> lifecycle_transition_allowed (md_state md) LS_Registered then Inl Internal
         else Inr (enter_state
                (lifecycle_event (md_state md) LS_Registered (md_incarnation md)
                   ''module identity registered'' auth gen sq (ck_wall ck)) md))
      else Inr md)"

definition register_module_body ::
    "RegistryConfig \<Rightarrow> Clock \<Rightarrow> ModuleRegistration \<Rightarrow> AuthorityToken \<Rightarrow> ModuleHandle body" where
  "register_module_body config ck r auth st gen sq =
     try_res (require_authority st auth) (\<lambda>_.
     try_res (locate_module config ck r auth st gen sq) (\<lambda>(st, uid).
       case oget (st_modules st) uid of
         None \<Rightarrow> Inl Internal
       | Some md \<Rightarrow>
           try_res (register_discovered ck auth gen sq md) (\<lambda>md.
             let md = md \<lparr> md_claims := md_claims md @
                    map (identity_claim ck auth md (rn_provenance r) gen sq) (rn_identity r) \<rparr>
             in try_res (trim_claims md (cf_max_claims_per_module config) (cf_max_claim_history config)) (\<lambda>md.
                  let md = trim_lifecycle config md
                  in Inr (put_module uid md st,
                          \<lparr> mo_uid = md_uid md, mo_incarnation = md_incarnation md,
                            mo_generation = gen, mo_key = md_key md \<rparr>)))))"

definition register_module ::
    "Clock \<Rightarrow> ModuleRegistration \<Rightarrow> AuthorityToken \<Rightarrow> Registry \<Rightarrow> Registry \<times> ModuleHandle res" where
  "register_module ck r auth rg =
     checked (validate_registration r)
       (mutate (require_generation (rn_policy r)) (rn_expected_generation r)
          (register_module_body (rg_config rg) ck r auth)) rg"

definition update_identity_body ::
    "RegistryConfig \<Rightarrow> Clock \<Rightarrow> AuthorityToken \<Rightarrow> ModuleHandle \<Rightarrow> IdentityFieldValue \<Rightarrow> Provenance \<Rightarrow> unit body" where
  "update_identity_body config ck auth h v p st gen sq =
     with_module auth h st (\<lambda>md.
       try_res (trim_claims (md \<lparr> md_claims := md_claims md @ [identity_claim ck auth md p gen sq v] \<rparr>)
           (cf_max_claims_per_module config) (cf_max_claim_history config)) (\<lambda>md.
         Inr (put_module (mo_uid h) md st, ())))"

definition update_identity ::
    "Clock \<Rightarrow> AuthorityToken \<Rightarrow> ModuleHandle \<Rightarrow> IdentityFieldValue \<Rightarrow> Provenance \<Rightarrow> MutationPolicy \<Rightarrow>
     Registry \<Rightarrow> Registry \<times> unit res" where
  "update_identity ck auth h v p policy rg =
     checked (try_res (validate_identity_value v) (\<lambda>_. validate_provenance p))
       (mutate (require_generation policy) (mo_generation h)
          (update_identity_body (rg_config rg) ck auth h v p)) rg"

section \<open>Capabilities\<close>

definition validate_capability_key :: "CapabilityKey \<Rightarrow> string \<Rightarrow> unit res" where
  "validate_capability_key key subkey =
     (if key = CK_Unknown \<or> key = CK_Unsupported then Inl Unsupported
      else if key = CK_VendorSpecific \<and> subkey = [] then Inl InvalidArgument
      else if key \<noteq> CK_VendorSpecific \<and> subkey \<noteq> [] then Inl InvalidArgument
      else Inr ())"

text \<open>The declaration of a module, or of a port where there is no module.\<close>

definition stored_declaration ::
    "Clock \<Rightarrow> AuthorityToken \<Rightarrow> ModuleUid \<Rightarrow> IncarnationId \<Rightarrow> string \<Rightarrow> bool \<Rightarrow> CapabilityKey \<Rightarrow> string \<Rightarrow>
     CapabilityValue \<Rightarrow> Provenance \<Rightarrow> Generation \<Rightarrow> Sequence \<Rightarrow> CapabilityDeclaration" where
  "stored_declaration ck auth uid incarnation port module_subject key subkey v p gen sq =
     \<lparr> cd_key = key, cd_subkey = subkey, cd_value = v, cd_source = at_source auth,
       cd_source_epoch = at_epoch auth, cd_module = uid, cd_incarnation = incarnation, cd_port = port,
       cd_module_subject = module_subject, cd_generation = gen, cd_sequence = sq,
       cd_observed_at_wall_ns = ck_wall ck, cd_clock_domain = ck_domain ck, cd_provenance = p,
       cd_live = True \<rparr>"

definition publish_capability_body ::
    "RegistryConfig \<Rightarrow> Clock \<Rightarrow> AuthorityToken \<Rightarrow> ModuleHandle \<Rightarrow> CapabilityKey \<Rightarrow> string \<Rightarrow>
     CapabilityValue \<Rightarrow> Provenance \<Rightarrow> unit body" where
  "publish_capability_body config ck auth h key subkey v p st gen sq =
     with_module auth h st (\<lambda>md.
       let d = stored_declaration ck auth (md_uid md) (md_incarnation md) [] True key subkey v p gen sq
       in try_res (trim_declarations (md \<lparr> md_declarations := md_declarations md @ [d] \<rparr>)
            (cf_max_declarations_per_module config) (cf_max_claim_history config)) (\<lambda>md.
          Inr (put_module (mo_uid h) md st, ())))"

definition publish_capability ::
    "Clock \<Rightarrow> AuthorityToken \<Rightarrow> ModuleHandle \<Rightarrow> CapabilityKey \<Rightarrow> string \<Rightarrow> CapabilityValue \<Rightarrow> Provenance \<Rightarrow>
     MutationPolicy \<Rightarrow> Registry \<Rightarrow> Registry \<times> unit res" where
  "publish_capability ck auth h key subkey v p policy rg =
     checked
       (try_res (validate_capability_key key subkey) (\<lambda>_.
        if length subkey > 128 then Inl InvalidArgument
        else try_res (validate_for v key) (\<lambda>_. validate_provenance p)))
       (mutate (require_generation policy) (mo_generation h)
          (publish_capability_body (rg_config rg) ck auth h key subkey v p)) rg"

definition publish_port_capability_body ::
    "RegistryConfig \<Rightarrow> Clock \<Rightarrow> AuthorityToken \<Rightarrow> string \<Rightarrow> CapabilityKey \<Rightarrow> string \<Rightarrow>
     CapabilityValue \<Rightarrow> Provenance \<Rightarrow> unit body" where
  "publish_port_capability_body config ck auth port key subkey v p st gen sq =
     try_res (require_authority st auth) (\<lambda>_.
     try_res
       (case oget (st_ports st) port of
          Some po \<Rightarrow> Inr po
        | None \<Rightarrow>
            if length (st_ports st) \<ge> unat (cf_max_ports config) then Inl CapacityExceeded
            else Inr \<lparr> po_key = port, po_first_generation = gen, po_sequence = sq,
                       po_first_wall_ns = ck_wall ck, po_declarations = [] \<rparr>) (\<lambda>po.
     try_res
       (if length (po_declarations po) \<ge> unat (cf_max_declarations_per_port config)
        then trim_port_declarations (po_declarations po) (cf_max_declarations_per_port config - 1)
        else Inr (po_declarations po)) (\<lambda>ds.
       let d = stored_declaration ck auth 0 0 port False key subkey v p gen sq
       in try_res (trim_port_declarations (ds @ [d]) (cf_max_declarations_per_port config)) (\<lambda>ds.
            Inr (st \<lparr> st_ports := oput port (po \<lparr> po_declarations := ds \<rparr>) (st_ports st) \<rparr>, ())))))"

definition publish_port_capability ::
    "Clock \<Rightarrow> AuthorityToken \<Rightarrow> string \<Rightarrow> CapabilityKey \<Rightarrow> string \<Rightarrow> CapabilityValue \<Rightarrow> Provenance \<Rightarrow>
     MutationPolicy \<Rightarrow> Registry \<Rightarrow> Registry \<times> unit res" where
  "publish_port_capability ck auth port key subkey v p policy rg =
     checked
       (try_res (validate_capability_key key subkey) (\<lambda>_.
        if port = [] then Inl InvalidArgument
        else try_res (validate_for v key) (\<lambda>_. validate_provenance p)))
       (mutate (require_generation policy) 0
          (publish_port_capability_body (rg_config rg) ck auth port key subkey v p)) rg"


section \<open>Attachments\<close>

definition new_attachment ::
    "Clock \<Rightarrow> AuthorityToken \<Rightarrow> ModuleRecord \<Rightarrow> string \<Rightarrow> 32 word \<Rightarrow> Generation \<Rightarrow> Sequence \<Rightarrow>
     AttachmentRecord" where
  "new_attachment ck auth md slot port_index gen sq =
     \<lparr> ar_slot = slot, ar_port_index = port_index, ar_uid = md_uid md,
       ar_incarnation = md_incarnation md, ar_source = at_source auth,
       ar_source_epoch = at_epoch auth, ar_generation = gen, ar_sequence = sq,
       ar_attached_at_wall_ns = ck_wall ck, ar_live = True, ar_note = [] \<rparr>"

definition fence_attachment :: "string \<Rightarrow> AttachmentRecord \<Rightarrow> AttachmentRecord" where
  "fence_attachment note a = a \<lparr> ar_live := False, ar_note := note \<rparr>"

text \<open>The module enters \<open>Attached\<close>, unless it is already there.\<close>

definition attached_module ::
    "RegistryConfig \<Rightarrow> Clock \<Rightarrow> AuthorityToken \<Rightarrow> string \<Rightarrow> Generation \<Rightarrow> Sequence \<Rightarrow> ModuleRecord \<Rightarrow>
     ModuleRecord" where
  "attached_module config ck auth slot gen sq md =
     (if md_state md \<noteq> LS_Attached
      then trim_lifecycle config (enter_state
             (lifecycle_event (md_state md) LS_Attached (md_incarnation md)
                (''module attached to slot '' @ slot) auth gen sq (ck_wall ck)) md)
      else md)"

definition put_attachment :: "string \<Rightarrow> AttachmentRecord \<Rightarrow> State \<Rightarrow> State" where
  "put_attachment slot a st = st \<lparr> st_attachments := oput slot a (st_attachments st) \<rparr>"

definition attach_body ::
    "RegistryConfig \<Rightarrow> Clock \<Rightarrow> AuthorityToken \<Rightarrow> ModuleHandle \<Rightarrow> string \<Rightarrow> 32 word \<Rightarrow>
     AttachmentRecord body" where
  "attach_body config ck auth h slot port_index st gen sq =
     with_module auth h st (\<lambda>md.
       let existing = oget (st_attachments st) slot;
           a = new_attachment ck auth md slot port_index gen sq;
           live_attachments = length (filter (\<lambda>(_, a). ar_live a) (st_attachments st));
           commit = (\<lambda>st. Inr (put_attachment slot a
             (put_module (mo_uid h) (attached_module config ck auth slot gen sq md) st), a))
       in case existing of
            Some e \<Rightarrow>
              if ar_live e \<and> ar_uid e = md_uid md \<and> ar_incarnation e = md_incarnation md then Inr (st, e)
              else if md_state md \<noteq> LS_Attached \<and>
                      \<not> lifecycle_transition_allowed (md_state md) LS_Attached then Inl InvalidTransition
              else if ar_live e then
                commit (put_attachment slot
                  (fence_attachment ''slot taken over by another module incarnation'' e) st)
              else commit st
          | None \<Rightarrow>
              if md_state md \<noteq> LS_Attached \<and>
                 \<not> lifecycle_transition_allowed (md_state md) LS_Attached then Inl InvalidTransition
              else if live_attachments \<ge> unat (cf_max_attachments config) then Inl CapacityExceeded
              else commit st)"

definition attach ::
    "Clock \<Rightarrow> AuthorityToken \<Rightarrow> ModuleHandle \<Rightarrow> string \<Rightarrow> 32 word \<Rightarrow> MutationPolicy \<Rightarrow>
     Registry \<Rightarrow> Registry \<times> AttachmentRecord res" where
  "attach ck auth h slot port_index policy rg =
     checked
       (if slot = [] then Inl InvalidArgument
        else if port_index > 255 then Inl InvalidArgument else Inr ())
       (mutate (require_generation policy) (mo_generation h)
          (attach_body (rg_config rg) ck auth h slot port_index)) rg"

definition removed_module ::
    "RegistryConfig \<Rightarrow> Clock \<Rightarrow> AuthorityToken \<Rightarrow> string \<Rightarrow> Generation \<Rightarrow> Sequence \<Rightarrow> ModuleRecord \<Rightarrow>
     ModuleRecord" where
  "removed_module config ck auth slot gen sq md =
     trim_lifecycle config (enter_state
       (lifecycle_event (md_state md) LS_Removed (md_incarnation md)
          (''module detached from slot '' @ slot) auth gen sq (ck_wall ck)) md)"

definition detach_body :: "RegistryConfig \<Rightarrow> Clock \<Rightarrow> AuthorityToken \<Rightarrow> string \<Rightarrow> unit body" where
  "detach_body config ck auth slot st gen sq =
     try_res (require_authority st auth) (\<lambda>_.
       case oget (st_attachments st) slot of
         None \<Rightarrow> Inl NotFound
       | Some a \<Rightarrow>
           if \<not> ar_live a then Inl NotFound
           else
             let st = put_attachment slot (fence_attachment ''detached'' a) st
             in case oget (st_modules st) (ar_uid a) of
                  None \<Rightarrow> Inr (st, ())
                | Some md \<Rightarrow>
                    if md_incarnation md \<noteq> ar_incarnation a then Inr (st, ())
                    else if lifecycle_state_implies_attachment (md_state md) then
                      (if \<not> lifecycle_transition_allowed (md_state md) LS_Removed then Inl Internal
                       else Inr (put_module (ar_uid a)
                              (removed_module config ck auth slot gen sq md) st, ()))
                    else Inr (st, ()))"

definition detach :: "Clock \<Rightarrow> AuthorityToken \<Rightarrow> string \<Rightarrow> MutationPolicy \<Rightarrow> Registry \<Rightarrow> Registry \<times> unit res" where
  "detach ck auth slot policy rg =
     mutate (require_generation policy) 0 (detach_body (rg_config rg) ck auth slot) rg"

section \<open>Health\<close>

definition validate_sample :: "RegistryConfig \<Rightarrow> Clock \<Rightarrow> HealthSampleInput \<Rightarrow> unit res" where
  "validate_sample config ck s =
     (if hi_metric s = HM_Unknown \<or> hi_metric s = HM_Unsupported then Inl Unsupported
      else if hi_lane s \<noteq> kModuleLane \<and> hi_lane s > cf_max_lane_index config then Inl InvalidArgument
      else try_res
        (if hi_presence s = SP_Present then
           (if \<not> isfinite (hi_value s) then Inl InvalidArgument
            else case metric_plausible_range (hi_metric s) of
              None \<Rightarrow> Inl InvalidArgument
            | Some (lo, hi) \<Rightarrow>
                if dbl_lt (hi_value s) lo \<or> dbl_lt hi (hi_value s) then Inl InvalidArgument else Inr ())
         else Inr ()) (\<lambda>_.
      try_res (validate_provenance (hi_provenance s)) (\<lambda>_.
      if hi_observed_at_wall_ns s > ck_wall ck + cf_max_future_skew_ns config then Inl ClockSkew
      else Inr ())))"

text \<open>The stored form of a sample, with the clock filled in where the caller gave none.\<close>

definition sample_domain :: "Clock \<Rightarrow> HealthSampleInput \<Rightarrow> ClockDomainId" where
  "sample_domain ck s = (if id_valid (hi_clock_domain s) then hi_clock_domain s else ck_domain ck)"

definition sample_monotonic :: "Clock \<Rightarrow> HealthSampleInput \<Rightarrow> 64 word" where
  "sample_monotonic ck s =
     (if hi_observed_at_monotonic_ns s = 0 \<and> sample_domain ck s = ck_domain ck
      then ck_monotonic ck else hi_observed_at_monotonic_ns s)"

definition stored_sample ::
    "Clock \<Rightarrow> AuthorityToken \<Rightarrow> ModuleRecord \<Rightarrow> HealthSampleInput \<Rightarrow> Generation \<Rightarrow> Sequence \<Rightarrow> HealthSample" where
  "stored_sample ck auth md s gen sq =
     \<lparr> hs_metric = hi_metric s, hs_lane = hi_lane s, hs_presence = hi_presence s,
       hs_value = (if hi_presence s = SP_Present then hi_value s else dbl_zero),
       hs_observed_at_wall_ns =
         (if hi_observed_at_wall_ns s = 0 then ck_wall ck else hi_observed_at_wall_ns s),
       hs_observed_at_monotonic_ns = sample_monotonic ck s, hs_clock_domain = sample_domain ck s,
       hs_provenance = hi_provenance s, hs_source = at_source auth, hs_source_epoch = at_epoch auth,
       hs_module = md_uid md, hs_incarnation = md_incarnation md, hs_generation = gen,
       hs_sequence = sq, hs_live = True \<rparr>"

text \<open>An earlier sample of the same source and series that is not older in the same clock domain.\<close>

definition replayed :: "AuthorityToken \<Rightarrow> HealthSample \<Rightarrow> HealthSample \<Rightarrow> bool" where
  "replayed auth stored existing \<longleftrightarrow>
     hs_source existing = at_source auth \<and> hs_metric existing = hs_metric stored \<and>
     hs_lane existing = hs_lane stored \<and> hs_clock_domain existing = hs_clock_domain stored \<and>
     hs_observed_at_monotonic_ns existing \<noteq> 0 \<and>
     hs_observed_at_monotonic_ns existing \<ge> hs_observed_at_monotonic_ns stored"

fun update_latch ::
    "(HealthLatch \<Rightarrow> HealthLatch) \<Rightarrow> HealthMetric \<Rightarrow> lane \<Rightarrow> HealthLatchRecord list \<Rightarrow> HealthLatchRecord list" where
  "update_latch f metric lane_in [] =
     [\<lparr> lr_metric = metric, lr_lane = lane_in, lr_latch = f HealthLatch_init \<rparr>]"
| "update_latch f metric lane_in (r # rs) =
     (if lr_metric r = metric \<and> lr_lane r = lane_in then r \<lparr> lr_latch := f (lr_latch r) \<rparr> # rs
      else r # update_latch f metric lane_in rs)"

definition count_series :: "HealthMetric \<times> lane \<Rightarrow> ModuleRecord \<Rightarrow> ModuleRecord" where
  "count_series key md =
     md \<lparr> md_series_counts :=
       oput key ((case oget (md_series_counts md) key of None \<Rightarrow> 0 | Some n \<Rightarrow> n) + 1) (md_series_counts md) \<rparr>"

definition latch_sample :: "State \<Rightarrow> HealthSample \<Rightarrow> ModuleRecord \<Rightarrow> ModuleRecord" where
  "latch_sample st s md =
     (if hs_presence s = SP_Present then
        (case select_threshold (live_thresholds st) (hs_metric s) (hs_lane s) of
           None \<Rightarrow> md
         | Some t \<Rightarrow>
             md \<lparr> md_latches :=
               update_latch (\<lambda>l. advance_latch t l (hs_value s) (hs_observed_at_wall_ns s)
                                   (hs_sequence s) (hs_generation s))
                 (hs_metric s) (hs_lane s) (md_latches md) \<rparr>)
      else md)"

definition ingest_health_body ::
    "RegistryConfig \<Rightarrow> Clock \<Rightarrow> AuthorityToken \<Rightarrow> ModuleHandle \<Rightarrow> HealthSampleInput \<Rightarrow> unit body" where
  "ingest_health_body config ck auth h s st gen sq =
     with_module auth h st (\<lambda>md.
       let stored = stored_sample ck auth md s gen sq
       in if sample_monotonic ck s \<noteq> 0 \<and> list_ex (replayed auth stored) (md_samples md) then Inl Refused
          else
            let md = md \<lparr> md_samples := md_samples md @ [stored] \<rparr>;
                md = count_series (hi_metric s, hi_lane s) md;
                md = latch_sample st stored md;
                (st, md) = trim_samples st md config
            in Inr (put_module (mo_uid h) md st, ()))"

definition ingest_health ::
    "Clock \<Rightarrow> AuthorityToken \<Rightarrow> ModuleHandle \<Rightarrow> HealthSampleInput \<Rightarrow> MutationPolicy \<Rightarrow>
     Registry \<Rightarrow> Registry \<times> unit res" where
  "ingest_health ck auth h s policy rg =
     checked (validate_sample (rg_config rg) ck s)
       (mutate (require_generation policy) (mo_generation h)
          (ingest_health_body (rg_config rg) ck auth h s)) rg"

text \<open>Publishing a threshold retires the live one of the same series and bounds its history.\<close>

definition same_series :: "HealthThreshold \<Rightarrow> ThresholdRecord \<Rightarrow> bool" where
  "same_series t r \<longleftrightarrow>
     ht_metric (tr_threshold r) = ht_metric t \<and> ht_lane (tr_threshold r) = ht_lane t"

definition publish_threshold_body ::
    "RegistryConfig \<Rightarrow> AuthorityToken \<Rightarrow> HealthThreshold \<Rightarrow> unit body" where
  "publish_threshold_body config auth t st gen sq =
     try_res (require_authority st auth) (\<lambda>_.
       let retired = map (\<lambda>r. if tr_live r \<and> same_series t r then r \<lparr> tr_live := False \<rparr> else r)
                       (st_thresholds st)
       in if length (filter tr_live retired) \<ge> unat (cf_max_thresholds config) then Inl CapacityExceeded
          else
            let record = \<lparr> tr_threshold = t \<lparr> ht_source := at_source auth, ht_source_epoch := at_epoch auth,
                             ht_generation := gen, ht_sequence := sq, ht_live := True \<rparr>,
                           tr_generation = 0, tr_sequence = 0, tr_live = True \<rparr>;
                all = retired @ [record];
                all = (if length (filter (same_series t) all) > unat (cf_max_claim_history config)
                       then (case remove_first (\<lambda>r. \<not> tr_live r \<and> same_series t r) all of
                               None \<Rightarrow> all | Some rest \<Rightarrow> rest)
                       else all)
            in Inr (st \<lparr> st_thresholds := all \<rparr>, ()))"

definition publish_threshold ::
    "AuthorityToken \<Rightarrow> HealthThreshold \<Rightarrow> MutationPolicy \<Rightarrow> Registry \<Rightarrow> Registry \<times> unit res" where
  "publish_threshold auth t policy rg =
     checked (try_res (validate_threshold t) (\<lambda>_. validate_provenance (ht_provenance t)))
       (mutate (require_generation policy) 0 (publish_threshold_body (rg_config rg) auth t)) rg"

section \<open>Rules\<close>

record CompatRuleHandle =
  rh_id :: RuleId
  rh_generation :: Generation

definition publish_rule_body :: "RegistryConfig \<Rightarrow> AuthorityToken \<Rightarrow> CompatRule \<Rightarrow> CompatRuleHandle body" where
  "publish_rule_body config auth rule st gen sq =
     try_res (require_authority st auth) (\<lambda>_.
       if length (st_rules st) \<ge> unat (cf_max_rules config) then Inl CapacityExceeded
       else
         let i = ucast (st_next_rule_id st);
             record = \<lparr> rr_id = i, rr_rule = rule, rr_source = at_source auth,
                        rr_source_epoch = at_epoch auth, rr_generation = gen, rr_sequence = sq,
                        rr_live = True \<rparr>
         in Inr (st \<lparr> st_next_rule_id := st_next_rule_id st + 1,
                      st_rules := oput i record (st_rules st) \<rparr>,
                 \<lparr> rh_id = i, rh_generation = gen \<rparr>))"

definition publish_rule ::
    "AuthorityToken \<Rightarrow> CompatRule \<Rightarrow> MutationPolicy \<Rightarrow> Registry \<Rightarrow> Registry \<times> CompatRuleHandle res" where
  "publish_rule auth rule policy rg =
     checked (try_res (validate_rule rule) (\<lambda>_. validate_provenance (cr_provenance rule)))
       (mutate (require_generation policy) 0 (publish_rule_body (rg_config rg) auth rule)) rg"

definition retire_rule_body :: "AuthorityToken \<Rightarrow> RuleId \<Rightarrow> unit body" where
  "retire_rule_body auth i st gen sq =
     try_res (require_authority st auth) (\<lambda>_.
       case oget (st_rules st) i of
         None \<Rightarrow> Inl NotFound
       | Some r \<Rightarrow>
           if \<not> rr_live r then Inl Conflict
           else Inr (st \<lparr> st_rules := oput i
                      (r \<lparr> rr_live := False, rr_generation := gen, rr_sequence := sq \<rparr>) (st_rules st) \<rparr>, ()))"

definition retire_rule :: "AuthorityToken \<Rightarrow> RuleId \<Rightarrow> MutationPolicy \<Rightarrow> Registry \<Rightarrow> Registry \<times> unit res" where
  "retire_rule auth i policy rg =
     mutate (require_generation policy) 0 (retire_rule_body auth i) rg"

section \<open>Lifecycle\<close>

definition transition_body ::
    "RegistryConfig \<Rightarrow> Clock \<Rightarrow> AuthorityToken \<Rightarrow> ModuleHandle \<Rightarrow> LifecycleState \<Rightarrow> string \<Rightarrow>
     LifecycleEvent body" where
  "transition_body config ck auth h target reason st gen sq =
     with_module auth h st (\<lambda>md.
       if \<not> lifecycle_transition_allowed (md_state md) target then Inl InvalidTransition
       else
         let ev = lifecycle_event (md_state md) target (md_incarnation md) reason auth gen sq (ck_wall ck)
         in Inr (put_module (mo_uid h) (trim_lifecycle config (enter_state ev md)) st, ev))"

definition transition ::
    "Clock \<Rightarrow> AuthorityToken \<Rightarrow> ModuleHandle \<Rightarrow> LifecycleState \<Rightarrow> string \<Rightarrow> MutationPolicy \<Rightarrow>
     Registry \<Rightarrow> Registry \<times> LifecycleEvent res" where
  "transition ck auth h target reason policy rg =
     checked (if length reason > 512 then Inl InvalidArgument else Inr ())
       (mutate (require_generation policy) (mo_generation h)
          (transition_body (rg_config rg) ck auth h target reason)) rg"

text \<open>The state that the evidence asks for.\<close>

definition reconcile_target :: "HealthReport \<Rightarrow> LifecycleState \<Rightarrow> LifecycleState" where
  "reconcile_target report s =
     (let unhealthy = (hr_worst report = MS_Critical \<or> hr_worst report = MS_Degraded);
          nominal = (hr_outcome report = HO_Fresh \<and> hr_worst report = MS_Ok)
      in if unhealthy \<and> (s = LS_Active \<or> s = LS_Attached) then LS_Degraded
         else if nominal \<and> (s = LS_Degraded \<or> s = LS_Attached) then LS_Active
         else s)"

definition reconcile_lifecycle_body ::
    "RegistryConfig \<Rightarrow> Clock \<Rightarrow> AuthorityToken \<Rightarrow> ModuleHandle \<Rightarrow> LifecycleEvent body" where
  "reconcile_lifecycle_body config ck auth h st gen sq =
     with_module auth h st (\<lambda>md.
       let report = build_health_report st md config ck;
           target = reconcile_target report (md_state md)
       in if target = md_state md then
            Inr (st, lifecycle_event (md_state md) (md_state md) (md_incarnation md)
                       ''no transition required'' auth gen 0 (ck_wall ck))
          else if \<not> lifecycle_transition_allowed (md_state md) target then Inl InvalidTransition
          else
            let ev = lifecycle_event (md_state md) target (md_incarnation md)
                       (if target = LS_Degraded then ''health evidence indicates degradation''
                        else ''health evidence is fresh and nominal'') auth gen sq (ck_wall ck)
            in Inr (put_module (mo_uid h) (trim_lifecycle config (enter_state ev md)) st, ev))"

definition reconcile_lifecycle ::
    "Clock \<Rightarrow> AuthorityToken \<Rightarrow> ModuleHandle \<Rightarrow> MutationPolicy \<Rightarrow>
     Registry \<Rightarrow> Registry \<times> LifecycleEvent res" where
  "reconcile_lifecycle ck auth h policy rg =
     mutate (require_generation policy) (mo_generation h)
       (reconcile_lifecycle_body (rg_config rg) ck auth h) rg"

end
