(* ===== verification/RegRun.thy ===== *)
theory RegRun
  imports RegOps
begin

text \<open>
  The registry as a state machine: one operation datatype with a step function, the states reachable
  from an empty registry, and what holds of every mutation whatever its body: a refused operation
  leaves the state untouched, a committed one advances the generation by one, and an operation fenced
  on a generation commits only at that generation.

  The two interfaces of the later proofs are locales: an invariant of the bodies is an invariant of
  every reachable state, and a preorder that every body respects relates the two ends of every run.
\<close>

section \<open>Operations and runs\<close>

datatype op =
    Register_source SourceDescriptor MutationPolicy
  | Register_module ModuleRegistration AuthorityToken
  | Update_identity AuthorityToken ModuleHandle IdentityFieldValue Provenance MutationPolicy
  | Publish_capability AuthorityToken ModuleHandle CapabilityKey string CapabilityValue Provenance
      MutationPolicy
  | Publish_port_capability AuthorityToken string CapabilityKey string CapabilityValue Provenance
      MutationPolicy
  | Attach AuthorityToken ModuleHandle string "32 word" MutationPolicy
  | Detach AuthorityToken string MutationPolicy
  | Ingest_health AuthorityToken ModuleHandle HealthSampleInput MutationPolicy
  | Publish_threshold AuthorityToken HealthThreshold MutationPolicy
  | Publish_rule AuthorityToken CompatRule MutationPolicy
  | Retire_rule AuthorityToken RuleId MutationPolicy
  | Transition AuthorityToken ModuleHandle LifecycleState string MutationPolicy
  | Reconcile_lifecycle AuthorityToken ModuleHandle MutationPolicy
  | Ask

definition forget :: "Registry \<times> 'a res \<Rightarrow> Registry \<times> unit res" where
  "forget r = (fst r, map_sum id (\<lambda>_. ()) (snd r))"

fun step :: "Clock \<Rightarrow> op \<Rightarrow> Registry \<Rightarrow> Registry \<times> unit res" where
  "step ck (Register_source d p) rg = forget (register_source ck d p rg)"
| "step ck (Register_module r a) rg = forget (register_module ck r a rg)"
| "step ck (Update_identity a h v pv p) rg = forget (update_identity ck a h v pv p rg)"
| "step ck (Publish_capability a h k sk v pv p) rg = forget (publish_capability ck a h k sk v pv p rg)"
| "step ck (Publish_port_capability a po k sk v pv p) rg =
     forget (publish_port_capability ck a po k sk v pv p rg)"
| "step ck (Attach a h slot i p) rg = forget (attach ck a h slot i p rg)"
| "step ck (Detach a slot p) rg = forget (detach ck a slot p rg)"
| "step ck (Ingest_health a h s p) rg = forget (ingest_health ck a h s p rg)"
| "step ck (Publish_threshold a t p) rg = forget (publish_threshold a t p rg)"
| "step ck (Publish_rule a r p) rg = forget (publish_rule a r p rg)"
| "step ck (Retire_rule a i p) rg = forget (retire_rule a i p rg)"
| "step ck (Transition a h s reason p) rg = forget (transition ck a h s reason p rg)"
| "step ck (Reconcile_lifecycle a h p) rg = forget (reconcile_lifecycle ck a h p rg)"
| "step ck Ask rg = forget (answer (\<lambda>_. Inr ()) rg)"

definition run :: "(Clock \<times> op) list \<Rightarrow> Registry \<Rightarrow> Registry" where
  "run = fold (\<lambda>(ck, op) rg. fst (step ck op rg))"

lemma run_simps [simp]:
  "run [] rg = rg"
  "run ((ck, op) # ops) rg = run ops (fst (step ck op rg))"
  by (simp_all add: run_def)

inductive reachable :: "RegistryConfig \<Rightarrow> Registry \<Rightarrow> bool" for config where
  init: "reachable config (Registry_init config)"
| step: "reachable config (fst (step ck op rg))" if "reachable config rg"

lemma reachable_run: "reachable config rg \<Longrightarrow> reachable config (run ops rg)"
proof (induction ops arbitrary: rg)
  case (Cons o' ops)
  then show ?case by (cases o') (simp add: reachable.step)
qed simp

section \<open>Guard, fence and body of an operation\<close>

definition body_unit :: "'a body \<Rightarrow> unit body" where
  "body_unit b st gen sq = map_sum id (map_prod id (\<lambda>_. ())) (b st gen sq)"

fun op_guard :: "RegistryConfig \<Rightarrow> Clock \<Rightarrow> op \<Rightarrow> unit res" where
  "op_guard config ck (Register_source d p) = validate_descriptor d"
| "op_guard config ck (Register_module r a) = validate_registration r"
| "op_guard config ck (Update_identity a h v pv p) =
     try_res (validate_identity_value v) (\<lambda>_. validate_provenance pv)"
| "op_guard config ck (Publish_capability a h k sk v pv p) =
     try_res (validate_capability_key k sk) (\<lambda>_.
     if length sk > 128 then Inl InvalidArgument
     else try_res (validate_for v k) (\<lambda>_. validate_provenance pv))"
| "op_guard config ck (Publish_port_capability a po k sk v pv p) =
     try_res (validate_capability_key k sk) (\<lambda>_.
     if po = [] then Inl InvalidArgument
     else try_res (validate_for v k) (\<lambda>_. validate_provenance pv))"
| "op_guard config ck (Attach a h slot i p) =
     (if slot = [] then Inl InvalidArgument else if i > 255 then Inl InvalidArgument else Inr ())"
| "op_guard config ck (Detach a slot p) = Inr ()"
| "op_guard config ck (Ingest_health a h s p) = validate_sample config ck s"
| "op_guard config ck (Publish_threshold a t p) =
     try_res (validate_threshold t) (\<lambda>_. validate_provenance (ht_provenance t))"
| "op_guard config ck (Publish_rule a r p) =
     try_res (validate_rule r) (\<lambda>_. validate_provenance (cr_provenance r))"
| "op_guard config ck (Retire_rule a i p) = Inr ()"
| "op_guard config ck (Transition a h s reason p) =
     (if length reason > 512 then Inl InvalidArgument else Inr ())"
| "op_guard config ck (Reconcile_lifecycle a h p) = Inr ()"
| "op_guard config ck Ask = Inr ()"

fun op_fence :: "op \<Rightarrow> MutationPolicy \<times> Generation" where
  "op_fence (Register_source d p) = (p, 0)"
| "op_fence (Register_module r a) = (rn_policy r, rn_expected_generation r)"
| "op_fence (Update_identity a h v pv p) = (p, mo_generation h)"
| "op_fence (Publish_capability a h k sk v pv p) = (p, mo_generation h)"
| "op_fence (Publish_port_capability a po k sk v pv p) = (p, 0)"
| "op_fence (Attach a h slot i p) = (p, mo_generation h)"
| "op_fence (Detach a slot p) = (p, 0)"
| "op_fence (Ingest_health a h s p) = (p, mo_generation h)"
| "op_fence (Publish_threshold a t p) = (p, 0)"
| "op_fence (Publish_rule a r p) = (p, 0)"
| "op_fence (Retire_rule a i p) = (p, 0)"
| "op_fence (Transition a h s reason p) = (p, mo_generation h)"
| "op_fence (Reconcile_lifecycle a h p) = (p, mo_generation h)"
| "op_fence Ask = (MP_AutoRetry, 0)"

fun op_body :: "RegistryConfig \<Rightarrow> Clock \<Rightarrow> op \<Rightarrow> unit body" where
  "op_body config ck (Register_source d p) = body_unit (register_source_body config ck d)"
| "op_body config ck (Register_module r a) = body_unit (register_module_body config ck r a)"
| "op_body config ck (Update_identity a h v pv p) = update_identity_body config ck a h v pv"
| "op_body config ck (Publish_capability a h k sk v pv p) = publish_capability_body config ck a h k sk v pv"
| "op_body config ck (Publish_port_capability a po k sk v pv p) =
     publish_port_capability_body config ck a po k sk v pv"
| "op_body config ck (Attach a h slot i p) = body_unit (attach_body config ck a h slot i)"
| "op_body config ck (Detach a slot p) = detach_body config ck a slot"
| "op_body config ck (Ingest_health a h s p) = ingest_health_body config ck a h s"
| "op_body config ck (Publish_threshold a t p) = publish_threshold_body config a t"
| "op_body config ck (Publish_rule a r p) = body_unit (publish_rule_body config a r)"
| "op_body config ck (Retire_rule a i p) = retire_rule_body a i"
| "op_body config ck (Transition a h s reason p) = body_unit (transition_body config ck a h s reason)"
| "op_body config ck (Reconcile_lifecycle a h p) = body_unit (reconcile_lifecycle_body config ck a h)"
| "op_body config ck Ask = (\<lambda>st gen sq. Inl Refused)"

lemma mutate_body_unit: "forget (mutate req g b rg) = mutate req g (body_unit b) rg"
  by (simp add: forget_def mutate_def body_unit_def Let_def split_beta split: sum.splits)

lemma body_unit_unit [simp]: "body_unit (b :: unit body) = b"
proof (intro ext)
  fix st gen sq
  show "body_unit b st gen sq = b st gen sq"
    by (cases "b st gen sq") (auto simp: body_unit_def)
qed

lemma forget_checked: "forget (checked guard k rg) = checked guard (\<lambda>rg. forget (k rg)) rg"
  by (simp add: checked_def forget_def split: sum.splits)

lemma checked_Inr [simp]: "checked (Inr x) k rg = k rg"
  by (simp add: checked_def)

lemma step_mutate:
  assumes "op \<noteq> Ask"
  shows "step ck op rg =
    checked (op_guard (rg_config rg) ck op)
      (mutate (require_generation (fst (op_fence op))) (snd (op_fence op)) (op_body (rg_config rg) ck op)) rg"
  using assms
  by (cases op) (simp_all add: forget_checked mutate_body_unit register_source_def register_module_def
      update_identity_def publish_capability_def publish_port_capability_def attach_def detach_def
      ingest_health_def publish_threshold_def publish_rule_def retire_rule_def transition_def
      reconcile_lifecycle_def)

section \<open>What a mutation does to the published state\<close>

definition publish :: "Generation \<Rightarrow> State \<Rightarrow> State" where
  "publish gen st = st \<lparr> st_generation := gen, st_mutations := st_mutations st + 1 \<rparr>"

text \<open>The change of state that an operation commits in a given state, if it commits.\<close>

definition op_commit :: "RegistryConfig \<Rightarrow> Clock \<Rightarrow> op \<Rightarrow> State \<Rightarrow> State option" where
  "op_commit config ck op st =
     (case op_body config ck op (fst (next_sequence st)) (st_generation st + 1) (snd (next_sequence st)) of
        Inl _ \<Rightarrow> None
      | Inr (next, _) \<Rightarrow> Some (publish (st_generation st + 1) next))"

lemma mutate_outcome:
  "mutate req g b rg = (rg', r) \<Longrightarrow>
     (\<exists>e. r = Inl e \<and> rg' = refuse rg) \<or>
     (\<exists>x next. r = Inr x \<and> \<not> (req \<and> id_valid g \<and> g \<noteq> st_generation (rg_state rg)) \<and>
        b (fst (next_sequence (rg_state rg))) (st_generation (rg_state rg) + 1)
          (snd (next_sequence (rg_state rg))) = Inr (next, x) \<and>
        rg' = rg \<lparr> rg_state := publish (st_generation (rg_state rg) + 1) next \<rparr>)"
  by (auto simp: mutate_def Let_def split_beta publish_def split: if_splits sum.splits)

text \<open>The three outcomes of an operation.\<close>

lemma step_outcome:
  obtains (ask) "op = Ask" "rg_state (fst (step ck op rg)) = rg_state rg"
  | (refused) e where "op \<noteq> Ask" "snd (step ck op rg) = Inl e" "rg_state (fst (step ck op rg)) = rg_state rg"
  | (committed) st' where "op \<noteq> Ask" "snd (step ck op rg) = Inr ()"
      "op_guard (rg_config rg) ck op = Inr ()"
      "op_commit (rg_config rg) ck op (rg_state rg) = Some st'"
      "rg_state (fst (step ck op rg)) = st'"
      "require_generation (fst (op_fence op)) \<Longrightarrow> id_valid (snd (op_fence op)) \<Longrightarrow>
         snd (op_fence op) = st_generation (rg_state rg)"
proof (cases "op = Ask")
  case True
  then show thesis using ask by (simp add: forget_def answer_def)
next
  case False
  note s = step_mutate [OF False, of ck rg]
  show thesis
  proof (cases "op_guard (rg_config rg) ck op")
    case (Inl e)
    then show thesis using refused [OF False] s by (simp add: checked_def)
  next
    case (Inr u)
    obtain rg' r where m: "mutate (require_generation (fst (op_fence op))) (snd (op_fence op))
        (op_body (rg_config rg) ck op) rg = (rg', r)" by fastforce
    then have st: "step ck op rg = (rg', r)" using s Inr by (simp add: checked_def)
    from mutate_outcome [OF m] show thesis
    proof (elim disjE exE conjE)
      fix e assume "r = Inl e" "rg' = refuse rg"
      then show thesis using refused [OF False] st by (simp add: refuse_def)
    next
      fix x :: unit and next'
      assume *: "r = Inr x"
        "\<not> (require_generation (fst (op_fence op)) \<and> id_valid (snd (op_fence op)) \<and>
           snd (op_fence op) \<noteq> st_generation (rg_state rg))"
        "op_body (rg_config rg) ck op (fst (next_sequence (rg_state rg))) (st_generation (rg_state rg) + 1)
           (snd (next_sequence (rg_state rg))) = Inr (next', x)"
        "rg' = rg\<lparr>rg_state := publish (st_generation (rg_state rg) + 1) next'\<rparr>"
      show thesis
        by (rule committed [OF False, of "publish (st_generation (rg_state rg) + 1) next'"])
          (use * st Inr in \<open>auto simp: op_commit_def\<close>)
    qed
  qed
qed

lemma step_config [simp]: "rg_config (fst (step ck op rg)) = rg_config rg"
proof (cases "op = Ask")
  case True
  then show ?thesis by (simp add: forget_def answer_def)
next
  case False
  show ?thesis
    unfolding step_mutate [OF False]
    by (simp add: checked_def mutate_def refuse_def Let_def split_beta split: sum.splits)
qed

lemma reachable_config: "reachable config rg \<Longrightarrow> rg_config rg = config"
  by (induction rule: reachable.induct) (simp_all add: Registry_init_def)

lemma run_config [simp]: "rg_config (run ops rg) = rg_config rg"
  by (induction ops arbitrary: rg) auto

end
