(* ===== verification/RegInv.thy ===== *)
theory RegInv
  imports RegRun
begin

text \<open>
  What always holds of the registry. \<open>wf\<close> is the well-formedness of a state: the maps are ordered and
  agree with their name indexes, identifiers are dense, stored evidence refers to sources, epochs and
  incarnations that exist, and every collection is within its configured limit. \<open>later\<close> is what a state
  keeps of an earlier one: epochs and incarnations only grow, names and keys stay, and within one
  incarnation a module only moves along the lifecycle table.
\<close>

section \<open>Trimming\<close>

text \<open>The eviction loop only removes, and ends within the limit when it may remove every element.\<close>

lemma evict_Inr:
  "evict s limit g es = Inr es' \<Longrightarrow>
     set es' \<subseteq> set es \<and> (length es \<le> g \<longrightarrow> length es' \<le> limit)"
proof (induction s limit g es rule: evict.induct)
  case (1 s limit g es)
  show ?case
  proof (cases "limit < length es \<and> 0 < g")
    case True
    then obtain i where i: "List.find (s es) [0..<length es] = Some i"
      and rest: "evict s limit (g - 1) (take i es @ drop (Suc i) es) = Inr es'"
      using "1.prems" by (subst (asm) evict.simps) (auto split: option.splits)
    have "i < length es" using i by (auto simp: find_Some_iff)
    then have "length (take i es @ drop (Suc i) es) = length es - 1" by simp
    moreover have "set (take i es @ drop (Suc i) es) \<subseteq> set es"
      using set_take_subset set_drop_subset by fastforce
    ultimately show ?thesis using "1.IH" [OF True i rest] by auto
  next
    case False
    then have "es' = es" using "1.prems" by (subst (asm) evict.simps) (auto split: if_splits)
    then show ?thesis using False by auto
  qed
qed

lemma cap_history_set: "set (cap_history key seq limit es) \<subseteq> set es"
  by (auto simp: cap_history_def Let_def)

lemma cap_history_length: "length (cap_history key seq limit es) \<le> length es"
  unfolding cap_history_def Let_def length_map by (rule order_trans [OF length_filter_le]) simp

lemma trim_claims_Inr:
  assumes "trim_claims md m h = Inr md'"
  obtains claims where "md' = md \<lparr> md_claims := claims \<rparr>" "set claims \<subseteq> set (md_claims md)"
    "length claims \<le> unat m"
proof -
  from assms obtain cs where e: "evict claim_is_superseded (unat m) (length (md_claims md)) (md_claims md) = Inr cs"
    and md: "md' = md \<lparr> md_claims := cap_history claim_group ic_sequence (unat h) cs \<rparr>"
    by (auto simp: trim_claims_def try_res_Inr split: if_splits)
  show thesis
    by (rule that [OF md])
      (use evict_Inr [OF e] cap_history_set cap_history_length in \<open>blast intro: order_trans | force intro: order_trans\<close>)+
qed

lemma trim_declarations_Inr:
  assumes "trim_declarations md m h = Inr md'"
  obtains ds where "md' = md \<lparr> md_declarations := ds \<rparr>" "set ds \<subseteq> set (md_declarations md)"
    "length ds \<le> unat m"
proof -
  from assms obtain cs where e: "evict declaration_is_superseded (unat m) (length (md_declarations md)) (md_declarations md) = Inr cs"
    and md: "md' = md \<lparr> md_declarations := cap_history declaration_group cd_sequence (unat h) cs \<rparr>"
    by (auto simp: trim_declarations_def try_res_Inr split: if_splits)
  show thesis
    by (rule that [OF md])
      (use evict_Inr [OF e] cap_history_set cap_history_length in \<open>blast intro: order_trans | force intro: order_trans\<close>)+
qed

lemma trim_port_declarations_Inr:
  "trim_port_declarations ds m = Inr ds' \<Longrightarrow> set ds' \<subseteq> set ds \<and> length ds' \<le> unat m"
  using evict_Inr unfolding trim_port_declarations_def by blast

lemma remove_first_set: "remove_first P xs = Some ys \<Longrightarrow> set ys \<subseteq> set xs"
  by (induction xs arbitrary: ys) (auto split: if_splits)

lemma remove_first_filter:
  "remove_first P xs = Some ys \<Longrightarrow> (\<And>x. P x \<Longrightarrow> \<not> Q x) \<Longrightarrow> filter Q ys = filter Q xs"
  by (induction xs arbitrary: ys) (auto split: if_splits)

lemma trim_series_set: "trim_series limit series xs c d = (xs', c', d') \<Longrightarrow> set xs' \<subseteq> set xs"
proof (induction limit series xs c d rule: trim_series.induct)
  case (1 limit series xs c d)
  note simp = trim_series.simps [of limit series xs c d]
  show ?case
  proof (cases "c > limit \<and> remove_first (\<lambda>s. (hs_metric s, hs_lane s) = series) xs \<noteq> None")
    case True
    then obtain ys where ys: "c > limit" "remove_first (\<lambda>s. (hs_metric s, hs_lane s) = series) xs = Some ys"
      by auto
    then have "set xs' \<subseteq> set ys" using "1.IH" "1.prems" simp by simp
    then show ?thesis using remove_first_set [OF ys(2)] by blast
  next
    case False
    then show ?thesis using "1.prems" simp by (auto split: if_splits option.splits)
  qed
qed

lemma trim_series_entries:
  "foldl (trim_series_entry limit) (xs, done, d) counts = (xs', done', d') \<Longrightarrow>
     set xs' \<subseteq> set xs \<and> map fst done' = map fst done @ map fst counts"
proof (induction counts arbitrary: xs "done" d)
  case (Cons e counts)
  obtain k c where e: "e = (k, c)" by fastforce
  obtain ys c1 d1 where t: "trim_series limit k xs c d = (ys, c1, d1)" by (metis prod_cases3)
  from Cons.prems have "foldl (trim_series_entry limit) (ys, done @ [(k, c1)], d1) counts = (xs', done', d')"
    using trim_series_entry_def [of limit "(xs, done, d)" e] by (simp add: e t)
  from Cons.IH [OF this] trim_series_set [OF t] show ?case by (auto simp: e)
qed simp

lemma trim_samples_cases:
  assumes "trim_samples st md config = (st', md')"
  obtains kept counts d where "st' = st \<lparr> st_dropped_samples := d \<rparr>"
    "md' = md \<lparr> md_samples := kept, md_series_counts := counts \<rparr>"
    "set kept \<subseteq> set (md_samples md)" "length kept \<le> unat (cf_max_samples_per_module config)"
    "map fst counts = map fst (md_series_counts md)"
proof -
  obtain xs counts d where f: "foldl (trim_series_entry (cf_max_samples_per_series config))
      (md_samples md, [], st_dropped_samples st) (md_series_counts md) = (xs, counts, d)"
    by (metis prod_cases3)
  from trim_series_entries [OF this] have "set xs \<subseteq> set (md_samples md)"
    "map fst counts = map fst (md_series_counts md)" by auto
  moreover have "set (drop n xs) \<subseteq> set xs" for n by (rule set_drop_subset)
  ultimately show thesis
    by (intro that [of "d + word_of_nat (length xs - unat (cf_max_samples_per_module config))"
          counts "drop (length xs - unat (cf_max_samples_per_module config)) xs"])
      (use assms in \<open>auto simp: trim_samples_def f Let_def\<close>)
qed

lemma trim_lifecycle_simps:
  "set (md_lifecycle (trim_lifecycle config md)) \<subseteq> set (md_lifecycle md)"
  "length (md_lifecycle (trim_lifecycle config md)) \<le> unat (cf_max_lifecycle_history config)"
  by (auto simp: trim_lifecycle_def dest: in_set_dropD)

section \<open>Well-formed states\<close>

definition all_entries :: "('k::linorder \<Rightarrow> 'v \<Rightarrow> bool) \<Rightarrow> ('k, 'v) omap \<Rightarrow> bool" where
  "all_entries P m \<longleftrightarrow> osorted m \<and> (\<forall>k v. oget m k = Some v \<longrightarrow> P k v)"

definition extends :: "('v \<Rightarrow> 'v \<Rightarrow> bool) \<Rightarrow> ('k, 'v) omap \<Rightarrow> ('k, 'v) omap \<Rightarrow> bool" where
  "extends R m m' \<longleftrightarrow> (\<forall>k v. oget m k = Some v \<longrightarrow> (\<exists>v'. oget m' k = Some v' \<and> R v v'))"

text \<open>An index by name agrees with the names of the records.\<close>

definition index_ok :: "('k::linorder, 'v) omap \<Rightarrow> ('n::linorder, 'k) omap \<Rightarrow> ('v \<Rightarrow> 'n) \<Rightarrow> bool" where
  "index_ok recs idx name \<longleftrightarrow>
     osorted idx \<and> (\<forall>n k. oget idx n = Some k \<longleftrightarrow> (\<exists>v. oget recs k = Some v \<and> name v = n))"

text \<open>Identifiers are handed out in order, from 1, and never reused.\<close>

definition numbered :: "('a::len word, 'v) omap \<Rightarrow> 64 word \<Rightarrow> bool" where
  "numbered m next \<longleftrightarrow>
     unat next = Suc (length m) \<and> (\<forall>k. oget m k \<noteq> None \<longleftrightarrow> 0 < unat k \<and> unat k \<le> length m)"

type_synonym sources = "(SourceId, SourceRecord) omap"

definition evidence_ok :: "sources \<Rightarrow> SourceId \<Rightarrow> SourceEpoch \<Rightarrow> bool" where
  "evidence_ok srcs s e \<longleftrightarrow> (\<exists>so. oget srcs s = Some so \<and> e \<le> so_epoch so)"

definition claim_ok :: "sources \<Rightarrow> ModuleRecord \<Rightarrow> IdentityClaim \<Rightarrow> bool" where
  "claim_ok srcs md c \<longleftrightarrow>
     ic_module c = md_uid md \<and> ic_incarnation c \<le> md_incarnation md \<and>
     evidence_ok srcs (ic_source c) (ic_source_epoch c)"

definition declaration_ok :: "sources \<Rightarrow> ModuleRecord \<Rightarrow> CapabilityDeclaration \<Rightarrow> bool" where
  "declaration_ok srcs md d \<longleftrightarrow>
     cd_module d = md_uid md \<and> cd_incarnation d \<le> md_incarnation md \<and>
     evidence_ok srcs (cd_source d) (cd_source_epoch d)"

definition sample_ok :: "sources \<Rightarrow> ModuleRecord \<Rightarrow> HealthSample \<Rightarrow> bool" where
  "sample_ok srcs md s \<longleftrightarrow>
     hs_module s = md_uid md \<and> hs_incarnation s \<le> md_incarnation md \<and>
     evidence_ok srcs (hs_source s) (hs_source_epoch s)"

definition module_core :: "sources \<Rightarrow> ModuleUid \<Rightarrow> ModuleRecord \<Rightarrow> bool" where
  "module_core srcs uid md \<longleftrightarrow>
     md_uid md = uid \<and> 0 < md_incarnation md \<and> md_incarnation_count md = md_incarnation md \<and>
     (\<forall>c \<in> set (md_claims md). claim_ok srcs md c) \<and>
     (\<forall>d \<in> set (md_declarations md). declaration_ok srcs md d) \<and>
     (\<forall>s \<in> set (md_samples md). sample_ok srcs md s) \<and>
     (\<forall>ev \<in> set (md_lifecycle md). le_incarnation ev \<le> md_incarnation md) \<and>
     osorted (md_series_counts md) \<and>
     distinct (map (\<lambda>r. (lr_metric r, lr_lane r)) (md_latches md))"

definition module_sized :: "RegistryConfig \<Rightarrow> ModuleRecord \<Rightarrow> bool" where
  "module_sized config md \<longleftrightarrow>
     length (md_claims md) \<le> unat (cf_max_claims_per_module config) \<and>
     length (md_declarations md) \<le> unat (cf_max_declarations_per_module config) \<and>
     length (md_samples md) \<le> unat (cf_max_samples_per_module config) \<and>
     length (md_lifecycle md) \<le> unat (cf_max_lifecycle_history config)"

definition sources_ok :: "RegistryConfig \<Rightarrow> State \<Rightarrow> bool" where
  "sources_ok config st \<longleftrightarrow>
     all_entries (\<lambda>k so. so_id so = k \<and> 0 < so_epoch so) (st_sources st) \<and>
     index_ok (st_sources st) (st_source_id_by_name st) so_name \<and>
     numbered (st_sources st) (st_next_source_id st) \<and>
     length (st_sources st) \<le> unat (cf_max_sources config)"

definition modules_ok :: "RegistryConfig \<Rightarrow> State \<Rightarrow> bool" where
  "modules_ok config st \<longleftrightarrow>
     all_entries (\<lambda>uid md. module_core (st_sources st) uid md \<and> module_sized config md) (st_modules st) \<and>
     index_ok (st_modules st) (st_module_uid_by_key st) md_key \<and>
     numbered (st_modules st) (st_next_module_uid st) \<and>
     length (st_modules st) \<le> unat (cf_max_modules config)"

definition port_ok :: "RegistryConfig \<Rightarrow> sources \<Rightarrow> string \<Rightarrow> PortRecord \<Rightarrow> bool" where
  "port_ok config srcs key po \<longleftrightarrow>
     po_key po = key \<and>
     length (po_declarations po) \<le> unat (cf_max_declarations_per_port config) \<and>
     (\<forall>d \<in> set (po_declarations po). cd_port d = key \<and> \<not> cd_module_subject d \<and>
        evidence_ok srcs (cd_source d) (cd_source_epoch d))"

definition ports_ok :: "RegistryConfig \<Rightarrow> State \<Rightarrow> bool" where
  "ports_ok config st \<longleftrightarrow>
     all_entries (port_ok config (st_sources st)) (st_ports st) \<and>
     length (st_ports st) \<le> unat (cf_max_ports config)"

definition attachment_ok :: "State \<Rightarrow> string \<Rightarrow> AttachmentRecord \<Rightarrow> bool" where
  "attachment_ok st slot a \<longleftrightarrow>
     ar_slot a = slot \<and> unat (ar_port_index a) \<le> 255 \<and>
     (\<exists>md. oget (st_modules st) (ar_uid a) = Some md \<and> ar_incarnation a \<le> md_incarnation md)"

definition thresholds_ok :: "RegistryConfig \<Rightarrow> State \<Rightarrow> bool" where
  "thresholds_ok config st \<longleftrightarrow>
     distinct (map (\<lambda>t. (ht_metric t, ht_lane t)) (live_thresholds st)) \<and>
     (\<forall>t \<in> set (live_thresholds st). validate_threshold t = Inr ()) \<and>
     length (live_thresholds st) \<le> unat (cf_max_thresholds config)"

definition rules_ok :: "RegistryConfig \<Rightarrow> State \<Rightarrow> bool" where
  "rules_ok config st \<longleftrightarrow>
     all_entries (\<lambda>i r. rr_id r = i \<and> validate_rule (rr_rule r) = Inr ()) (st_rules st) \<and>
     numbered (st_rules st) (st_next_rule_id st) \<and>
     length (st_rules st) \<le> unat (cf_max_rules config)"

definition wf :: "RegistryConfig \<Rightarrow> State \<Rightarrow> bool" where
  "wf config st \<longleftrightarrow>
     sources_ok config st \<and> modules_ok config st \<and> ports_ok config st \<and>
     all_entries (attachment_ok st) (st_attachments st) \<and> thresholds_ok config st \<and>
     rules_ok config st \<and> st_generation st = st_mutations st"

lemmas wf_parts = sources_ok_def modules_ok_def ports_ok_def rules_ok_def

section \<open>What a later state keeps\<close>

definition source_later :: "SourceRecord \<Rightarrow> SourceRecord \<Rightarrow> bool" where
  "source_later so so' \<longleftrightarrow> so_name so' = so_name so \<and> so_epoch so \<le> so_epoch so'"

definition module_later :: "ModuleRecord \<Rightarrow> ModuleRecord \<Rightarrow> bool" where
  "module_later md md' \<longleftrightarrow>
     md_key md' = md_key md \<and> md_incarnation md \<le> md_incarnation md' \<and>
     (md_incarnation md' = md_incarnation md \<longrightarrow> lifecycle_path (md_state md) (md_state md'))"

definition rule_later :: "CompatRuleRecord \<Rightarrow> CompatRuleRecord \<Rightarrow> bool" where
  "rule_later r r' \<longleftrightarrow> rr_rule r' = rr_rule r \<and> (rr_live r' \<longrightarrow> rr_live r)"

definition later :: "State \<Rightarrow> State \<Rightarrow> bool" where
  "later st st' \<longleftrightarrow>
     extends source_later (st_sources st) (st_sources st') \<and>
     extends module_later (st_modules st) (st_modules st') \<and>
     extends rule_later (st_rules st) (st_rules st') \<and>
     extends (\<lambda>_ _. True) (st_ports st) (st_ports st') \<and>
     extends (\<lambda>_ _. True) (st_attachments st) (st_attachments st')"

lemma extends_refl: "(\<And>v. R v v) \<Longrightarrow> extends R m m"
  by (auto simp: extends_def)

lemma extends_trans:
  "extends R m1 m2 \<Longrightarrow> extends R m2 m3 \<Longrightarrow> (\<And>x y z. R x y \<Longrightarrow> R y z \<Longrightarrow> R x z) \<Longrightarrow> extends R m1 m3"
  unfolding extends_def by metis

lemma extends_oput:
  assumes "\<And>v. R v v" "\<And>v0. oget m k = Some v0 \<Longrightarrow> R v0 v"
  shows "extends R m (oput k v m)"
  using assms by (auto simp: extends_def)

lemma source_later_refl [simp]: "source_later so so"
  by (simp add: source_later_def)

lemma rule_later_refl [simp]: "rule_later r r"
  by (simp add: rule_later_def)

lemma module_later_refl [simp]: "module_later md md"
  by (simp add: module_later_def path_here)

lemma module_later_trans: "module_later a b \<Longrightarrow> module_later b c \<Longrightarrow> module_later a c"
  unfolding module_later_def by (metis order_antisym order_trans path_trans)

lemma later_refl [simp]: "later st st"
  by (simp add: later_def extends_refl)

lemma later_trans: "later a b \<Longrightarrow> later b c \<Longrightarrow> later a c"
  unfolding later_def
  by (elim conjE, intro conjI; rule extends_trans; assumption?)
    (auto simp: source_later_def rule_later_def intro: module_later_trans)

lemma all_entries_oput: "all_entries P m \<Longrightarrow> P k v \<Longrightarrow> all_entries P (oput k v m)"
  by (auto simp: all_entries_def)

lemma all_entries_get: "all_entries P m \<Longrightarrow> oget m k = Some v \<Longrightarrow> P k v"
  by (simp add: all_entries_def)

lemma all_entries_mono: "all_entries P m \<Longrightarrow> (\<And>k v. P k v \<Longrightarrow> Q k v) \<Longrightarrow> all_entries Q m"
  by (auto simp: all_entries_def)

lemma index_ok_update:
  "index_ok m idx name \<Longrightarrow> oget m k = Some v \<Longrightarrow> name v' = name v \<Longrightarrow> index_ok (oput k v' m) idx name"
  unfolding index_ok_def by auto

lemma index_ok_insert:
  "index_ok m idx name \<Longrightarrow> oget m k = None \<Longrightarrow> oget idx (name v) = None \<Longrightarrow>
     index_ok (oput k v m) (oput (name v) k idx) name"
  unfolding index_ok_def by (auto split: if_splits) (metis option.discI)

lemma numbered_update:
  "numbered m next \<Longrightarrow> osorted m \<Longrightarrow> oget m k = Some v \<Longrightarrow> numbered (oput k v' m) next"
  by (auto simp: numbered_def om.size_put)

text \<open>A fresh identifier: the counter, as long as it still fits the identifier's width.\<close>

lemma numbered_insert:
  fixes m :: "('a::len word, 'v) omap"
  assumes "numbered m next" "osorted m" "Suc (length m) < 2 ^ LENGTH('a)" "Suc (Suc (length m)) < 2 ^ 64"
  defines "k \<equiv> ucast next :: 'a word"
  shows "oget m k = None" "numbered (oput k v m) (next + 1)"
proof -
  have nxt: "unat next = Suc (length m)" using assms(1) by (simp add: numbered_def)
  then have k: "unat k = Suc (length m)"
    using assms(3) by (simp add: k_def unsigned_ucast_eq take_bit_nat_eq_self)
  then show none: "oget m k = None"
    using assms(1) unfolding numbered_def by (metis Suc_n_not_le_n)
  have "unat (next + 1) = Suc (Suc (length m))"
    using nxt assms(4) by (simp add: unat_add_lem [THEN iffD1])
  moreover have "i = k \<longleftrightarrow> unat i = Suc (length m)" for i
    using k by (metis unat_eq_nat_uint word_unat_eq_iff)
  ultimately show "numbered (oput k v m) (next + 1)"
    using assms(1,2) none by (auto simp: numbered_def om.size_put le_Suc_eq)
qed

section \<open>Sound changes\<close>

text \<open>A change of state that a mutation may publish.\<close>

definition sound :: "RegistryConfig \<Rightarrow> State \<Rightarrow> State \<Rightarrow> bool" where
  "sound config st st' \<longleftrightarrow>
     wf config st' \<and> later st st' \<and> st_generation st' = st_generation st \<and>
     st_mutations st' = st_mutations st"

lemma sound_refl: "wf config st \<Longrightarrow> sound config st st"
  by (simp add: sound_def)

lemma sound_wf: "sound config st st' \<Longrightarrow> wf config st'"
  by (simp add: sound_def)

lemma sound_trans: "sound config a b \<Longrightarrow> sound config b c \<Longrightarrow> sound config a c"
  by (auto simp: sound_def intro: later_trans)

lemma attachment_ok_modules:
  assumes "attachment_ok st slot a" "extends module_later (st_modules st) (st_modules st')"
  shows "attachment_ok st' slot a"
  using assms unfolding attachment_ok_def extends_def module_later_def by (metis order_trans)

lemma wf_module:
  assumes "wf config st" "oget (st_modules st) uid = Some md"
  shows "module_core (st_sources st) uid md" "module_sized config md" "md_uid md = uid"
  using assms by (auto simp: wf_def modules_ok_def all_entries_def module_core_def)

lemma counters_sound:
  assumes "wf config st"
  shows "sound config st (fst (next_sequence st))"
    "sound config st (st \<lparr> st_dropped_samples := d \<rparr>)"
proof -
  have att: "attachment_ok (st \<lparr> st_next_sequence := x \<rparr>) = attachment_ok st"
    "attachment_ok (st \<lparr> st_dropped_samples := y \<rparr>) = attachment_ok st" for x y
    by (intro ext; simp add: attachment_ok_def)+
  show "sound config st (fst (next_sequence st))"
    "sound config st (st \<lparr> st_dropped_samples := d \<rparr>)"
    using assms by (simp_all add: sound_def wf_def wf_parts thresholds_ok_def live_thresholds_def
        next_sequence_def Let_def later_def extends_refl att)
qed

lemma put_module_sound:
  assumes wf: "wf config st" and old: "oget (st_modules st) uid = Some md"
    and new: "module_core (st_sources st) uid md'" "module_sized config md'" "module_later md md'"
  shows "sound config st (put_module uid md' st)"
proof -
  let ?st' = "put_module uid md' st"
  have ext: "extends module_later (st_modules st) (st_modules ?st')"
    using old new(3) by (auto simp: put_module_def intro!: extends_oput)
  have "all_entries (attachment_ok ?st') (st_attachments st)"
    using wf ext by (auto simp: wf_def intro: all_entries_mono attachment_ok_modules)
  moreover have "modules_ok config ?st'"
  proof -
    have "osorted (st_modules st)" using wf by (simp add: wf_def modules_ok_def all_entries_def)
    then show ?thesis
      using wf old new
      by (auto simp: wf_def modules_ok_def put_module_def module_later_def om.size_put
          intro!: all_entries_oput numbered_update index_ok_update)
  qed
  ultimately show ?thesis
    using wf ext by (simp add: sound_def wf_def sources_ok_def ports_ok_def rules_ok_def
        thresholds_ok_def live_thresholds_def later_def extends_refl put_module_def)
qed

lemma put_attachment_sound:
  assumes wf: "wf config st" and new: "attachment_ok st slot a"
  shows "sound config st (put_attachment slot a st)"
proof -
  have att: "attachment_ok (st \<lparr> st_attachments := x \<rparr>) = attachment_ok st" for x
    by (intro ext) (simp add: attachment_ok_def)
  show ?thesis
    using assms by (simp add: put_attachment_def sound_def wf_def wf_parts thresholds_ok_def live_thresholds_def
        later_def extends_refl extends_oput att all_entries_oput)
qed

lemma put_port_sound:
  assumes wf: "wf config st" and new: "port_ok config (st_sources st) key po"
    and size: "oget (st_ports st) key = None \<Longrightarrow> length (st_ports st) < unat (cf_max_ports config)"
  shows "sound config st (st \<lparr> st_ports := oput key po (st_ports st) \<rparr>)"
proof -
  have att: "attachment_ok (st \<lparr> st_ports := x \<rparr>) = attachment_ok st" for x
    by (intro ext) (simp add: attachment_ok_def)
  have "osorted (st_ports st)" using wf by (simp add: wf_def ports_ok_def all_entries_def)
  then show ?thesis
    using assms by (auto simp: sound_def wf_def wf_parts thresholds_ok_def live_thresholds_def
        later_def extends_refl extends_oput att all_entries_oput om.size_put)
qed

lemma with_module_Inr:
  assumes "with_module auth h st k = Inr r"
  obtains md where "require_authority st auth = Inr ()" "oget (st_modules st) (mo_uid h) = Some md"
    "md_incarnation md = mo_incarnation h" "k md = Inr r"
  using assms
  by (auto simp: with_module_def try_res_Inr current_module_def incarnation_is_current_def
      split: option.splits if_splits)

lemma authority_Inr:
  "require_authority st auth = Inr u \<longleftrightarrow>
     at_source auth \<noteq> 0 \<and>
     (\<exists>so. oget (st_sources st) (at_source auth) = Some so \<and> so_epoch so = at_epoch auth)"
  by (auto simp: require_authority_def id_valid_def split: option.splits)

lemma authority_evidence:
  "require_authority st auth = Inr () \<Longrightarrow> evidence_ok (st_sources st) (at_source auth) (at_epoch auth)"
  by (auto simp: authority_Inr evidence_ok_def)

lemmas core_defs = module_core_def claim_ok_def declaration_ok_def sample_ok_def

lemma trim_lifecycle_core:
  assumes "module_core srcs uid md"
  shows "module_core srcs uid (trim_lifecycle config md)"
proof -
  have "set (md_lifecycle (trim_lifecycle config md)) \<subseteq> set (md_lifecycle md)"
    by (rule trim_lifecycle_simps)
  then show ?thesis
    using assms by (auto simp: core_defs trim_lifecycle_def dest: in_set_dropD)
qed

lemma trim_lifecycle_sized:
  "length (md_claims md) \<le> unat (cf_max_claims_per_module config) \<Longrightarrow>
   length (md_declarations md) \<le> unat (cf_max_declarations_per_module config) \<Longrightarrow>
   length (md_samples md) \<le> unat (cf_max_samples_per_module config) \<Longrightarrow>
   module_sized config (trim_lifecycle config md)"
  by (auto simp: module_sized_def trim_lifecycle_def)

lemma enter_state_core:
  "module_core srcs uid md \<Longrightarrow> le_incarnation ev = md_incarnation md \<Longrightarrow>
     module_core srcs uid (enter_state ev md)"
  by (auto simp: core_defs enter_state_def push_event_def)

lemma enter_state_later:
  "lifecycle_transition_allowed (md_state md) (le_to ev) \<Longrightarrow> module_later md (enter_state ev md)"
  using path_move [OF path_here] by (simp add: module_later_def enter_state_def push_event_def)

text \<open>A legal move of a module.\<close>

lemma enter_state_sound:
  assumes wf: "wf config st" and old: "oget (st_modules st) uid = Some md"
    and move: "lifecycle_transition_allowed (md_state md) (le_to ev)"
    and inc: "le_incarnation ev = md_incarnation md"
  shows "sound config st (put_module uid (trim_lifecycle config (enter_state ev md)) st)"
proof (rule put_module_sound [OF wf old])
  have "module_core (st_sources st) uid (enter_state ev md)"
    by (rule enter_state_core [OF wf_module(1) [OF wf old] inc])
  then show "module_core (st_sources st) uid (trim_lifecycle config (enter_state ev md))"
    by (rule trim_lifecycle_core)
  show "module_sized config (trim_lifecycle config (enter_state ev md))"
    using wf_module [OF wf old]
    by (intro trim_lifecycle_sized) (simp_all add: module_sized_def enter_state_def push_event_def)
  show "module_later md (trim_lifecycle config (enter_state ev md))"
    using path_move [OF path_here move]
    by (simp add: module_later_def enter_state_def push_event_def trim_lifecycle_def)
qed

lemma module_later_same:
  "md_key md' = md_key md \<Longrightarrow> md_incarnation md' = md_incarnation md \<Longrightarrow> md_state md' = md_state md \<Longrightarrow>
     module_later md md'"
  by (simp add: module_later_def path_here)

section \<open>Every body is sound\<close>

lemma update_identity_sound:
  assumes wf: "wf config st"
    and body: "update_identity_body config ck auth h v p st gen sq = Inr (st', r)"
  shows "sound config st st'"
proof -
  obtain md md' where auth: "require_authority st auth = Inr ()"
    and md: "oget (st_modules st) (mo_uid h) = Some md"
    and trim: "trim_claims (md \<lparr> md_claims := md_claims md @ [identity_claim ck auth md p gen sq v] \<rparr>)
        (cf_max_claims_per_module config) (cf_max_claim_history config) = Inr md'"
    and st': "st' = put_module (mo_uid h) md' st"
    using body unfolding update_identity_body_def
    by (elim with_module_Inr) (auto simp: try_res_Inr)
  obtain claims where md': "md' = md \<lparr> md_claims := claims \<rparr>"
      "set claims \<subseteq> insert (identity_claim ck auth md p gen sq v) (set (md_claims md))"
      "length claims \<le> unat (cf_max_claims_per_module config)"
    by (rule trim_claims_Inr [OF trim]) auto
  note old = wf_module [OF wf md]
  have "claim_ok (st_sources st) md (identity_claim ck auth md p gen sq v)"
    using authority_evidence [OF auth] by (simp add: claim_ok_def identity_claim_def)
  then have "module_core (st_sources st) (mo_uid h) md'"
    using old(1) md' by (auto simp: core_defs)
  moreover have "module_sized config md'" using old(2) md' by (simp add: module_sized_def)
  ultimately show ?thesis
    unfolding st' by (intro put_module_sound [OF wf md] module_later_same) (simp_all add: md'(1))
qed

lemma publish_capability_sound:
  assumes wf: "wf config st"
    and body: "publish_capability_body config ck auth h key subkey v p st gen sq = Inr (st', r)"
  shows "sound config st st'"
proof -
  let ?d = "\<lambda>md. stored_declaration ck auth (md_uid md) (md_incarnation md) [] True key subkey v p gen sq"
  obtain md md' where auth: "require_authority st auth = Inr ()"
    and md: "oget (st_modules st) (mo_uid h) = Some md"
    and trim: "trim_declarations (md \<lparr> md_declarations := md_declarations md @ [?d md] \<rparr>)
        (cf_max_declarations_per_module config) (cf_max_claim_history config) = Inr md'"
    and st': "st' = put_module (mo_uid h) md' st"
    using body unfolding publish_capability_body_def Let_def
    by (elim with_module_Inr) (auto simp: try_res_Inr)
  obtain ds where md': "md' = md \<lparr> md_declarations := ds \<rparr>"
      "set ds \<subseteq> insert (?d md) (set (md_declarations md))"
      "length ds \<le> unat (cf_max_declarations_per_module config)"
    by (rule trim_declarations_Inr [OF trim]) auto
  note old = wf_module [OF wf md]
  have "declaration_ok (st_sources st) md (?d md)"
    using authority_evidence [OF auth] by (simp add: declaration_ok_def stored_declaration_def)
  then have "module_core (st_sources st) (mo_uid h) md'"
    using old(1) md' by (auto simp: core_defs)
  moreover have "module_sized config md'" using old(2) md' by (simp add: module_sized_def)
  ultimately show ?thesis
    unfolding st' by (intro put_module_sound [OF wf md] module_later_same) (simp_all add: md'(1))
qed

lemma port_declarations_subset:
  assumes "(if b then trim_port_declarations ds m else Inr ds) = Inr ds'"
  shows "set ds' \<subseteq> set ds"
  using assms trim_port_declarations_Inr [of ds m ds'] by (auto split: if_splits)

lemma publish_port_capability_sound:
  assumes wf: "wf config st"
    and body: "publish_port_capability_body config ck auth port key subkey v p st gen sq = Inr (st', r)"
  shows "sound config st st'"
proof -
  let ?d = "stored_declaration ck auth 0 0 port False key subkey v p gen sq"
  obtain po ds ds' where auth: "require_authority st auth = Inr ()"
    and po: "(case oget (st_ports st) port of Some po \<Rightarrow> Inr po
        | None \<Rightarrow> if length (st_ports st) \<ge> unat (cf_max_ports config) then Inl CapacityExceeded
            else Inr \<lparr> po_key = port, po_first_generation = gen, po_sequence = sq,
                       po_first_wall_ns = ck_wall ck, po_declarations = [] \<rparr>) = Inr po"
    and first: "(if length (po_declarations po) \<ge> unat (cf_max_declarations_per_port config)
        then trim_port_declarations (po_declarations po) (cf_max_declarations_per_port config - 1)
        else Inr (po_declarations po)) = Inr ds"
    and trim: "trim_port_declarations (ds @ [?d]) (cf_max_declarations_per_port config) = Inr ds'"
    and st': "st' = st \<lparr> st_ports := oput port (po \<lparr> po_declarations := ds' \<rparr>) (st_ports st) \<rparr>"
    using body unfolding publish_port_capability_body_def Let_def try_res_Inr by (elim exE conjE) simp
  have ok: "po_key po = port \<and> (\<forall>d \<in> set (po_declarations po). cd_port d = port \<and> \<not> cd_module_subject d \<and>
        evidence_ok (st_sources st) (cd_source d) (cd_source_epoch d))"
    and size: "oget (st_ports st) port = None \<Longrightarrow> length (st_ports st) < unat (cf_max_ports config)"
    using wf po by (auto simp: wf_def ports_ok_def all_entries_def port_ok_def split: option.splits if_splits)
  have "set ds' \<subseteq> insert ?d (set (po_declarations po))"
    using trim_port_declarations_Inr [OF trim] port_declarations_subset [OF first] by auto
  then have "port_ok config (st_sources st) port (po \<lparr> po_declarations := ds' \<rparr>)"
    using ok trim_port_declarations_Inr [OF trim] authority_evidence [OF auth]
    by (auto simp: port_ok_def stored_declaration_def)
  then show ?thesis unfolding st' by (rule put_port_sound [OF wf _ size])
qed

lemma transition_sound:
  assumes wf: "wf config st"
    and body: "transition_body config ck auth h target reason st gen sq = Inr (st', r)"
  shows "sound config st st'"
  using body unfolding transition_body_def Let_def
  by (elim with_module_Inr)
    (auto simp: lifecycle_event_def split: if_splits intro: enter_state_sound [OF wf])

lemma reconcile_sound:
  assumes wf: "wf config st"
    and body: "reconcile_lifecycle_body config ck auth h st gen sq = Inr (st', r)"
  shows "sound config st st'"
  using body unfolding reconcile_lifecycle_body_def Let_def
  by (elim with_module_Inr)
    (use wf in \<open>auto simp: lifecycle_event_def split: if_splits intro: sound_refl enter_state_sound\<close>)

lemma evidence_ok_mono:
  "extends source_later srcs srcs' \<Longrightarrow> evidence_ok srcs s e \<Longrightarrow> evidence_ok srcs' s e"
  unfolding extends_def evidence_ok_def source_later_def by (metis order_trans)

lemma module_core_mono:
  "extends source_later srcs srcs' \<Longrightarrow> module_core srcs uid md \<Longrightarrow> module_core srcs' uid md"
  unfolding core_defs by (meson evidence_ok_mono)

lemma port_ok_mono:
  "extends source_later srcs srcs' \<Longrightarrow> port_ok config srcs key po \<Longrightarrow> port_ok config srcs' key po"
  unfolding port_ok_def by (meson evidence_ok_mono)

lemma change_sources_sound:
  assumes wf: "wf config st" and ext: "extends source_later (st_sources st) srcs"
    and ok: "all_entries (\<lambda>k so. so_id so = k \<and> 0 < so_epoch so) srcs" "index_ok srcs idx so_name"
      "numbered srcs nxt" "length srcs \<le> unat (cf_max_sources config)"
  shows "sound config st
    (st \<lparr> st_sources := srcs, st_source_id_by_name := idx, st_next_source_id := nxt \<rparr>)"
proof -
  let ?st' = "st \<lparr> st_sources := srcs, st_source_id_by_name := idx, st_next_source_id := nxt \<rparr>"
  have att: "attachment_ok ?st' = attachment_ok st"
    unfolding attachment_ok_def by simp
  have "modules_ok config ?st'"
    using wf by (auto simp: wf_def modules_ok_def intro: all_entries_mono module_core_mono [OF ext])
  moreover have "ports_ok config ?st'"
    using wf by (auto simp: wf_def ports_ok_def intro: all_entries_mono port_ok_mono [OF ext])
  ultimately show ?thesis
    using wf ok ext by (simp add: sound_def wf_def sources_ok_def rules_ok_def thresholds_ok_def
        live_thresholds_def later_def extends_refl att)
qed

lemma length_less_word32:
  assumes "length xs < unat (n :: 32 word)" shows "Suc (length xs) < 2 ^ 32"
proof -
  have "unat n < 2 ^ LENGTH(32)" by (rule unsigned_less)
  then show ?thesis using assms by simp
qed

lemma word32_less_inc: "(w :: 32 word) \<noteq> 0xFFFFFFFF \<Longrightarrow> w < w + 1"
proof -
  assume w: "w \<noteq> 0xFFFFFFFF"
  have "1 + w \<noteq> 0"
  proof
    assume "1 + w = 0"
    then have "w = - 1" by (simp add: eq_neg_iff_add_eq_0 add.commute)
    then show False using w by simp
  qed
  then show "w < w + 1" by (simp add: word_less_nat_alt unatSuc add.commute [of w])
qed

lemma register_source_sound:
  assumes wf: "wf config st"
    and body: "register_source_body config ck d st gen sq = Inr (st', r)"
  shows "sound config st st'"
proof (cases "oget (st_source_id_by_name st) (ds_name d)")
  case (Some i)
  let ?srcs = "st_sources st"
  obtain so where so: "oget ?srcs i = Some so"
    using body Some by (auto simp: register_source_body_def split: option.splits)
  let ?renewal = "ds_instance_id d \<noteq> [] \<and> ds_instance_id d = ds_instance_id (so_descriptor so)"
  define so' where "so' = so \<lparr> so_epoch := (if ?renewal then so_epoch so else so_epoch so + 1),
      so_descriptor := d, so_generation := gen, so_sequence := sq, so_registered_wall_ns := ck_wall ck \<rparr>"
  have st': "st' = st \<lparr> st_sources := oput (so_id so) so' ?srcs \<rparr>"
    and limit: "?renewal \<or> so_epoch so \<noteq> 0xFFFFFFFF"
    using body Some so by (auto simp: register_source_body_def Let_def so'_def split: if_splits)
  have so': "so_id so' = so_id so" "so_name so' = so_name so"
      "so_epoch so' = so_epoch so \<or> so_epoch so' = so_epoch so + 1 \<and> so_epoch so \<noteq> 0xFFFFFFFF"
    using limit by (auto simp: so'_def)
  have ok: "so_id so = i" "0 < so_epoch so" "osorted ?srcs" and src: "sources_ok config st"
    using wf so by (auto simp: wf_def sources_ok_def all_entries_def)
  then have epoch: "so_epoch so \<le> so_epoch so'" "0 < so_epoch so'"
    using so'(3) word32_less_inc [of "so_epoch so"] by auto
  have "sound config st (st \<lparr> st_sources := oput i so' ?srcs,
      st_source_id_by_name := st_source_id_by_name st, st_next_source_id := st_next_source_id st \<rparr>)"
    by (rule change_sources_sound [OF wf])
      (use src so so' ok epoch in \<open>auto simp: sources_ok_def source_later_def om.size_put
        intro!: extends_oput all_entries_oput index_ok_update numbered_update\<close>)
  then show ?thesis using ok(1) by (simp add: st')
next
  case None
  let ?srcs = "st_sources st" and ?i = "ucast (st_next_source_id st) :: SourceId"
  define so where "so = \<lparr> so_id = ?i, so_name = ds_name d, so_epoch = 1, so_descriptor = d,
      so_generation = gen, so_sequence = sq, so_registered_wall_ns = ck_wall ck \<rparr>"
  have so: "so_id so = ?i" "so_name so = ds_name d" "so_epoch so = 1" by (simp_all add: so_def)
  have room: "length ?srcs < unat (cf_max_sources config)"
    and st': "st' = st \<lparr> st_sources := oput ?i so ?srcs,
      st_source_id_by_name := oput (ds_name d) ?i (st_source_id_by_name st),
      st_next_source_id := st_next_source_id st + 1 \<rparr>"
    using body None by (auto simp: register_source_body_def Let_def so_def split: if_splits)
  have src: "sources_ok config st" "osorted ?srcs" "numbered ?srcs (st_next_source_id st)"
    using wf by (auto simp: wf_def sources_ok_def all_entries_def)
  note fresh = numbered_insert [OF src(3,2)]
  have none: "oget ?srcs ?i = None" and num: "numbered (oput ?i so ?srcs) (st_next_source_id st + 1)"
    using length_less_word32 [OF room] by (auto intro!: fresh)
  show ?thesis
    unfolding st'
    by (rule change_sources_sound [OF wf])
      (use src(1) num none so room None in \<open>auto simp: sources_ok_def om.size_put all_entries_def
        intro!: extends_oput index_ok_insert [of _ _ so_name _ so, unfolded so(2)]\<close>)
qed

lemma rules_change_sound:
  assumes wf: "wf config st" and ext: "extends rule_later (st_rules st) rs"
    and ok: "all_entries (\<lambda>i r. rr_id r = i \<and> validate_rule (rr_rule r) = Inr ()) rs"
      "numbered rs nxt" "length rs \<le> unat (cf_max_rules config)"
  shows "sound config st (st \<lparr> st_rules := rs, st_next_rule_id := nxt \<rparr>)"
proof -
  have att: "attachment_ok (st \<lparr> st_rules := rs, st_next_rule_id := nxt \<rparr>) = attachment_ok st"
    unfolding attachment_ok_def by simp
  show ?thesis
    using assms by (simp add: sound_def wf_def wf_parts thresholds_ok_def live_thresholds_def
        later_def extends_refl att)
qed

lemma publish_rule_sound:
  assumes wf: "wf config st" and valid: "validate_rule rule = Inr ()"
    and body: "publish_rule_body config auth rule st gen sq = Inr (st', r)"
  shows "sound config st st'"
proof -
  let ?rs = "st_rules st" and ?i = "ucast (st_next_rule_id st) :: RuleId"
  define rec where "rec = \<lparr> rr_id = ?i, rr_rule = rule, rr_source = at_source auth,
      rr_source_epoch = at_epoch auth, rr_generation = gen, rr_sequence = sq, rr_live = True \<rparr>"
  have room: "length ?rs < unat (cf_max_rules config)"
    and st': "st' = st \<lparr> st_rules := oput ?i rec ?rs, st_next_rule_id := st_next_rule_id st + 1 \<rparr>"
    using body by (auto simp: publish_rule_body_def try_res_Inr Let_def rec_def split: if_splits)
  have ok: "rules_ok config st" "osorted ?rs" "numbered ?rs (st_next_rule_id st)"
    using wf by (auto simp: wf_def rules_ok_def all_entries_def)
  note fresh = numbered_insert [OF ok(3,2)]
  have none: "oget ?rs ?i = None" and num: "numbered (oput ?i rec ?rs) (st_next_rule_id st + 1)"
    using length_less_word32 [OF room] by (auto intro!: fresh)
  show ?thesis
    unfolding st'
    by (rule rules_change_sound [OF wf])
      (use ok none num room valid in \<open>auto simp: rules_ok_def om.size_put rec_def
        intro!: extends_oput all_entries_oput\<close>)
qed

lemma retire_rule_sound:
  assumes wf: "wf config st" and body: "retire_rule_body auth i st gen sq = Inr (st', r)"
  shows "sound config st st'"
proof -
  obtain rec where rec: "oget (st_rules st) i = Some rec" "rr_live rec"
    and st': "st' = st \<lparr> st_rules := oput i
        (rec \<lparr> rr_live := False, rr_generation := gen, rr_sequence := sq \<rparr>) (st_rules st) \<rparr>"
    using body by (auto simp: retire_rule_body_def try_res_Inr split: option.splits if_splits)
  have ok: "rules_ok config st" "osorted (st_rules st)"
    using wf by (auto simp: wf_def rules_ok_def all_entries_def)
  have "sound config st (st \<lparr> st_rules := oput i
      (rec \<lparr> rr_live := False, rr_generation := gen, rr_sequence := sq \<rparr>) (st_rules st),
      st_next_rule_id := st_next_rule_id st \<rparr>)"
    by (rule rules_change_sound [OF wf])
      (use ok rec in \<open>auto simp: rules_ok_def om.size_put rule_later_def dest: all_entries_get
        intro!: extends_oput all_entries_oput numbered_update\<close>)
  then show ?thesis by (simp add: st')
qed

lemma live_after_retiring:
  "map tr_threshold (filter tr_live
     (map (\<lambda>r. if tr_live r \<and> same_series t r then r \<lparr> tr_live := False \<rparr> else r) rs)) =
   filter (\<lambda>u. (ht_metric u, ht_lane u) \<noteq> (ht_metric t, ht_lane t)) (map tr_threshold (filter tr_live rs))"
  by (induction rs) (auto simp: same_series_def)

lemma publish_threshold_sound:
  assumes wf: "wf config st" and valid: "validate_threshold t = Inr ()"
    and body: "publish_threshold_body config auth t st gen sq = Inr (st', r)"
  shows "sound config st st'"
proof -
  define retired where "retired =
    map (\<lambda>r. if tr_live r \<and> same_series t r then r \<lparr> tr_live := False \<rparr> else r) (st_thresholds st)"
  define u where "u = t \<lparr> ht_source := at_source auth, ht_source_epoch := at_epoch auth,
      ht_generation := gen, ht_sequence := sq, ht_live := True \<rparr>"
  define all where "all = retired @ [\<lparr> tr_threshold = u, tr_generation = 0, tr_sequence = 0, tr_live = True \<rparr>]"
  define all' where "all' =
    (if length (filter (same_series t) all) > unat (cf_max_claim_history config)
     then (case remove_first (\<lambda>r. \<not> tr_live r \<and> same_series t r) all of None \<Rightarrow> all | Some rest \<Rightarrow> rest)
     else all)"
  have "(if length (filter tr_live retired) \<ge> unat (cf_max_thresholds config) then Inl CapacityExceeded
      else Inr (st \<lparr> st_thresholds := all' \<rparr>, ())) = Inr (st', r)"
    using body
    unfolding publish_threshold_body_def try_res_Inr Let_def all'_def all_def retired_def u_def by blast
  then have room: "length (filter tr_live retired) < unat (cf_max_thresholds config)"
    and st': "st' = st \<lparr> st_thresholds := all' \<rparr>"
    by (auto split: if_splits)
  have all': "all' = all \<or> remove_first (\<lambda>r. \<not> tr_live r \<and> same_series t r) all = Some all'"
    by (simp add: all'_def split: option.split)
  have "filter tr_live all' = filter tr_live all"
    using all' by (auto intro: remove_first_filter)
  then have f: "filter tr_live all' = filter tr_live retired @
      [\<lparr> tr_threshold = u, tr_generation = 0, tr_sequence = 0, tr_live = True \<rparr>]"
    by (simp add: all_def)
  then have size: "length (live_thresholds st') = Suc (length (filter tr_live retired))"
    by (simp add: live_thresholds_def st')
  have kept: "map tr_threshold (filter tr_live retired) =
      filter (\<lambda>u. (ht_metric u, ht_lane u) \<noteq> (ht_metric t, ht_lane t)) (live_thresholds st)"
    unfolding retired_def live_thresholds_def by (rule live_after_retiring)
  have "live_thresholds st' = map tr_threshold (filter tr_live retired) @ [u]"
    by (simp add: live_thresholds_def st' f)
  then have live: "live_thresholds st' =
      filter (\<lambda>u. (ht_metric u, ht_lane u) \<noteq> (ht_metric t, ht_lane t)) (live_thresholds st) @ [u]"
    unfolding kept .
  have "validate_threshold u = validate_threshold t"
    by (simp add: u_def validate_threshold_def bounds_ordered_def split del: if_split cong: if_cong)
  then have "validate_threshold u = Inr ()" by (simp only: valid)
  moreover have "ht_metric u = ht_metric t" "ht_lane u = ht_lane t" by (simp_all add: u_def)
  moreover have ok: "thresholds_ok config st" using wf by (simp add: wf_def)
  then have "distinct (map (\<lambda>t. (ht_metric t, ht_lane t)) (live_thresholds st'))"
    unfolding live thresholds_ok_def by (auto simp: distinct_map_filter u_def)
  moreover have "length (live_thresholds st') \<le> unat (cf_max_thresholds config)"
    using size room by simp
  ultimately have "thresholds_ok config st'"
    using ok unfolding thresholds_ok_def live by auto
  moreover have "attachment_ok st' = attachment_ok st"
    unfolding attachment_ok_def st' by simp
  ultimately show ?thesis
    using wf by (simp add: sound_def wf_def wf_parts later_def extends_refl st')
qed

lemma attachments_change_sound:
  assumes wf: "wf config st" and ok: "all_entries (attachment_ok st) as"
    and ext: "extends (\<lambda>_ _. True) (st_attachments st) as"
  shows "sound config st (st \<lparr> st_attachments := as \<rparr>)"
proof -
  have att: "attachment_ok (st \<lparr> st_attachments := as \<rparr>) = attachment_ok st"
    unfolding attachment_ok_def by simp
  show ?thesis
    using assms by (simp add: sound_def wf_def wf_parts thresholds_ok_def live_thresholds_def
        later_def extends_refl att)
qed

lemma wf_attachment:
  "wf config st \<Longrightarrow> oget (st_attachments st) slot = Some a \<Longrightarrow> attachment_ok st slot a"
  by (auto simp: wf_def dest: all_entries_get)

lemma attachment_ok_after:
  "sound config st st' \<Longrightarrow> attachment_ok st slot a \<Longrightarrow> attachment_ok st' slot a"
  by (auto simp: sound_def later_def intro: attachment_ok_modules)

lemma attached_module_sound:
  assumes wf: "wf config st" and md: "oget (st_modules st) uid = Some md"
    and move: "md_state md = LS_Attached \<or> lifecycle_transition_allowed (md_state md) LS_Attached"
  shows "sound config st (put_module uid (attached_module config ck auth slot gen sq md) st)"
proof (cases "md_state md = LS_Attached")
  case True
  then show ?thesis
    using put_module_sound [OF wf md wf_module(1,2) [OF wf md]] by (simp add: attached_module_def)
next
  case False
  then show ?thesis
    using move unfolding attached_module_def
    by (simp add: lifecycle_event_def enter_state_sound [OF wf md] del: append.simps)
qed

lemma fence_attachment_sound:
  "wf config st \<Longrightarrow> oget (st_attachments st) slot = Some e \<Longrightarrow>
     sound config st (put_attachment slot (fence_attachment note e) st)"
  using wf_attachment [of config st slot e]
  by (intro put_attachment_sound) (simp_all add: attachment_ok_def fence_attachment_def)

lemma attach_commit_sound:
  assumes wf: "wf config st" and md: "oget (st_modules st) uid = Some md" and idx: "\<not> port_index > 255"
    and move: "md_state md = LS_Attached \<or> lifecycle_transition_allowed (md_state md) LS_Attached"
  shows "sound config st (put_attachment slot (new_attachment ck auth md slot port_index gen sq)
    (put_module uid (attached_module config ck auth slot gen sq md) st))"
proof -
  note s = attached_module_sound [OF wf md move, of ck auth slot gen sq]
  have "attachment_ok st slot (new_attachment ck auth md slot port_index gen sq)"
    using idx md wf_module [OF wf md]
    by (simp add: attachment_ok_def new_attachment_def word_le_nat_alt not_less)
  then show ?thesis
    by (intro sound_trans [OF s] put_attachment_sound sound_wf [OF s] attachment_ok_after [OF s])
qed

lemma attach_sound:
  assumes wf: "wf config st" and idx: "\<not> port_index > 255"
    and body: "attach_body config ck auth h slot port_index st gen sq = Inr (st', r)"
  shows "sound config st st'"
proof -
  obtain md where auth: "require_authority st auth = Inr ()"
    and md: "oget (st_modules st) (mo_uid h) = Some md" and inc: "md_incarnation md = mo_incarnation h"
    using body unfolding attach_body_def by (elim with_module_Inr)
  define commit where "commit st0 =
    put_attachment slot (new_attachment ck auth md slot port_index gen sq)
      (put_module (mo_uid h) (attached_module config ck auth slot gen sq md) st0)" for st0
  define evicted where "evicted e =
    put_attachment slot (fence_attachment ''slot taken over by another module incarnation'' e) st" for e
  have outcome: "st' = st \<or>
      (md_state md = LS_Attached \<or> lifecycle_transition_allowed (md_state md) LS_Attached) \<and>
      (st' = commit st \<or> (\<exists>e. oget (st_attachments st) slot = Some e \<and> st' = commit (evicted e)))"
    using body auth md inc
    unfolding attach_body_def with_module_def current_module_def incarnation_is_current_def Let_def
    by (auto simp: commit_def evicted_def split: option.splits if_splits)
  have commit: "sound config st0 (commit st0)"
    if "md_state md = LS_Attached \<or> lifecycle_transition_allowed (md_state md) LS_Attached"
      "wf config st0" "st_modules st0 = st_modules st" for st0
    unfolding commit_def by (rule attach_commit_sound) (use that md idx in auto)
  have evicted: "sound config st (evicted e)" if "oget (st_attachments st) slot = Some e" for e
    unfolding evicted_def using that by (rule fence_attachment_sound [OF wf])
  have "sound config st (commit (evicted e))"
    if "md_state md = LS_Attached \<or> lifecycle_transition_allowed (md_state md) LS_Attached"
      "oget (st_attachments st) slot = Some e" for e
  proof -
    note s = evicted [OF that(2)]
    have "st_modules (evicted e) = st_modules st" by (simp add: evicted_def put_attachment_def)
    then show ?thesis by (intro sound_trans [OF s] commit [OF that(1) sound_wf [OF s]])
  qed
  then show ?thesis
    using outcome sound_refl [OF wf] commit [OF _ wf refl] by blast
qed

lemma detach_sound:
  assumes wf: "wf config st" and body: "detach_body config ck auth slot st gen sq = Inr (st', r)"
  shows "sound config st st'"
proof -
  obtain a where a: "oget (st_attachments st) slot = Some a" "ar_live a"
    using body by (auto simp: detach_body_def try_res_Inr split: option.splits if_splits)
  define st1 where "st1 = put_attachment slot (fence_attachment ''detached'' a) st"
  have s1: "sound config st st1"
    unfolding st1_def by (rule fence_attachment_sound [OF wf a(1)])
  have "st' = st1 \<or> (\<exists>md. oget (st_modules st1) (ar_uid a) = Some md \<and>
      lifecycle_transition_allowed (md_state md) LS_Removed \<and>
      st' = put_module (ar_uid a) (removed_module config ck auth slot gen sq md) st1)"
    using body a unfolding detach_body_def Let_def
    by (auto simp: try_res_Inr st1_def split: option.splits if_splits)
  then have "sound config st1 st'"
    using sound_refl [OF sound_wf [OF s1]]
    by (auto simp: lifecycle_event_def removed_module_def intro: enter_state_sound [OF sound_wf [OF s1]])
  then show ?thesis by (rule sound_trans [OF s1])
qed

text \<open>A module registration: the last steps, whatever found the module.\<close>

lemma oput_oput [simp]: "oput k v (oput k v' m) = oput k v m"
  by (induction k v' m rule: oput.induct) auto

lemma put_module_twice [simp]: "put_module uid md (put_module uid md' st) = put_module uid md st"
  by (simp add: put_module_def)

definition finish_registration ::
    "RegistryConfig \<Rightarrow> Clock \<Rightarrow> ModuleRegistration \<Rightarrow> AuthorityToken \<Rightarrow> Generation \<Rightarrow> Sequence \<Rightarrow>
     ModuleRecord \<Rightarrow> ModuleRecord res" where
  "finish_registration config ck r auth gen sq md =
     try_res (register_discovered ck auth gen sq md) (\<lambda>md.
       let md = md \<lparr> md_claims := md_claims md @
              map (identity_claim ck auth md (rn_provenance r) gen sq) (rn_identity r) \<rparr>
       in try_res (trim_claims md (cf_max_claims_per_module config) (cf_max_claim_history config))
            (\<lambda>md. Inr (trim_lifecycle config md)))"

lemma register_module_parts:
  assumes "register_module_body config ck r auth st gen sq = Inr (st', h)"
  obtains st1 uid md1 md2 where "require_authority st auth = Inr ()"
    "locate_module config ck r auth st gen sq = Inr (st1, uid)" "oget (st_modules st1) uid = Some md1"
    "finish_registration config ck r auth gen sq md1 = Inr md2" "st' = put_module uid md2 st1"
    "h = \<lparr> mo_uid = md_uid md2, mo_incarnation = md_incarnation md2, mo_generation = gen,
           mo_key = md_key md2 \<rparr>"
  using assms unfolding register_module_body_def finish_registration_def Let_def
  by (auto simp: try_res_Inr split: option.splits prod.splits)

lemma register_discovered_Inr:
  assumes "register_discovered ck auth gen sq md = Inr md'"
  obtains (kept) "md_state md \<noteq> LS_Discovered" "md' = md"
  | (moved) reason where "md_state md = LS_Discovered"
      "lifecycle_transition_allowed LS_Discovered LS_Registered"
      "md' = enter_state (lifecycle_event LS_Discovered LS_Registered (md_incarnation md) reason auth
        gen sq (ck_wall ck)) md"
  using assms unfolding register_discovered_def by (auto split: if_splits)

lemma register_discovered_later:
  assumes d: "register_discovered ck auth gen sq md = Inr md'" and core: "module_core srcs uid md"
  shows "module_core srcs uid md'" "module_later md md'" "md_claims md' = md_claims md"
    "md_declarations md' = md_declarations md" "md_samples md' = md_samples md"
proof -
  have "module_core srcs uid md' \<and> module_later md md' \<and> md_claims md' = md_claims md \<and>
    md_declarations md' = md_declarations md \<and> md_samples md' = md_samples md"
    using d
  proof (cases rule: register_discovered_Inr)
    case kept
    then show ?thesis using core by simp
  next
    case (moved reason)
    define ev where "ev = lifecycle_event LS_Discovered LS_Registered (md_incarnation md) reason auth
        gen sq (ck_wall ck)"
    have "le_incarnation ev = md_incarnation md" "le_to ev = LS_Registered"
      by (simp_all add: ev_def lifecycle_event_def)
    then have "module_core srcs uid (enter_state ev md)" "module_later md (enter_state ev md)"
      using enter_state_core [OF core] enter_state_later [of md ev] moved(1,2) by simp_all
    moreover have "md' = enter_state ev md" using moved(3) by (simp only: ev_def)
    ultimately show ?thesis by (simp add: enter_state_def push_event_def)
  qed
  then show "module_core srcs uid md'" "module_later md md'" "md_claims md' = md_claims md"
    "md_declarations md' = md_declarations md" "md_samples md' = md_samples md" by simp_all
qed

lemma finish_registration_core:
  assumes fin: "finish_registration config ck r auth gen sq md = Inr md'"
    and core: "module_core srcs uid md"
    and size: "length (md_declarations md) \<le> unat (cf_max_declarations_per_module config)"
      "length (md_samples md) \<le> unat (cf_max_samples_per_module config)"
    and auth: "evidence_ok srcs (at_source auth) (at_epoch auth)"
  shows "module_core srcs uid md'" "module_sized config md'" "module_later md md'"
proof -
  obtain md1 md2 where d: "register_discovered ck auth gen sq md = Inr md1"
    and t: "trim_claims (md1 \<lparr> md_claims := md_claims md1 @
        map (identity_claim ck auth md1 (rn_provenance r) gen sq) (rn_identity r) \<rparr>)
        (cf_max_claims_per_module config) (cf_max_claim_history config) = Inr md2"
    and md': "md' = trim_lifecycle config md2"
    using fin unfolding finish_registration_def Let_def by (auto simp: try_res_Inr)
  note later = register_discovered_later [OF d core]
  obtain claims where md2: "md2 = md1 \<lparr> md_claims := claims \<rparr>"
      "set claims \<subseteq> set (md_claims md1) \<union>
         identity_claim ck auth md1 (rn_provenance r) gen sq ` set (rn_identity r)"
      "length claims \<le> unat (cf_max_claims_per_module config)"
    by (rule trim_claims_Inr [OF t]) auto
  have "claim_ok srcs md1 (identity_claim ck auth md1 (rn_provenance r) gen sq v)" for v
    using auth by (simp add: claim_ok_def identity_claim_def)
  then have "module_core srcs uid md2"
    using later(1) md2 unfolding core_defs by auto
  then show "module_core srcs uid md'" unfolding md' by (rule trim_lifecycle_core)
  show "module_sized config md'"
    unfolding md' using size later md2 by (intro trim_lifecycle_sized) simp_all
  show "module_later md md'"
    using later(2) unfolding md' md2(1) by (simp add: module_later_def trim_lifecycle_def)
qed

lemma oget_map: "oget (map (\<lambda>(k, v). (k, f k v)) m) k = map_option (f k) (oget m k)"
  by (induction m) (auto simp: oget_def)

lemma fence_attachments_sound:
  assumes wf: "wf config st"
  shows "sound config st (fence_attachments uid st)"
proof -
  let ?f = "\<lambda>a. if ar_live a \<and> ar_uid a = uid
      then a \<lparr> ar_live := False, ar_note := ''the module occupying this slot was replaced'' \<rparr> else a"
  let ?as = "map (\<lambda>(slot, a). (slot, ?f a)) (st_attachments st)"
  have as: "fence_attachments uid st = st \<lparr> st_attachments := ?as \<rparr>"
    by (simp add: fence_attachments_def)
  have get: "oget ?as slot = map_option ?f (oget (st_attachments st) slot)" for slot
    by (rule oget_map)
  have "all_entries (attachment_ok st) (st_attachments st)" using wf by (simp add: wf_def)
  then have "all_entries (attachment_ok st) ?as"
    unfolding all_entries_def get osorted_def
    by (auto simp: attachment_ok_def case_prod_beta comp_def)
  moreover have "extends (\<lambda>_ _. True) (st_attachments st) ?as"
    unfolding extends_def get by simp
  ultimately show ?thesis unfolding as by (rule attachments_change_sound [OF wf])
qed

lemma new_incarnation_parts:
  assumes wf: "wf config st" and md: "oget (st_modules st) uid = Some md"
    and new: "new_incarnation ck auth uid md st gen sq = Inr st2"
  obtains stf md' where "st2 = put_module uid md' stf" "sound config st stf"
    "st_modules stf = st_modules st" "st_sources stf = st_sources st"
    "module_core (st_sources st) uid md'" "module_later md md'" "md_claims md' = md_claims md"
    "md_declarations md' = md_declarations md" "md_samples md' = md_samples md"
    "md_incarnation md' = md_incarnation md + 1" "md_state md' = LS_Discovered" "md_latches md' = []"
proof -
  let ?fencing = "md_state md \<noteq> LS_Replaced \<and> md_state md \<noteq> LS_Retired"
  define stf where "stf = (if ?fencing then fence_attachments (md_uid md) st else st)"
  define fenced where "fenced = (if ?fencing
      then push_event
             (lifecycle_event (md_state md) LS_Replaced (md_incarnation md)
                ''a new physical module incarnation was registered for this module key'' auth
                gen sq (ck_wall ck))
             (md \<lparr> md_fenced_generation := gen \<rparr>)
      else md)"
  define started where "started = fenced \<lparr> md_incarnation := md_incarnation fenced + 1,
      md_incarnation_count := md_incarnation_count fenced + 1,
      md_state := LS_Discovered, md_fenced_generation := gen, md_latches := [] \<rparr>"
  define ev where "ev = lifecycle_event LS_Discovered LS_Discovered (md_incarnation started)
      ''new module incarnation discovered'' auth gen sq (ck_wall ck)"
  have room: "md_incarnation fenced \<noteq> 0xFFFFFFFF"
    and st2: "st2 = put_module uid (push_event ev started) stf"
    using new
    unfolding new_incarnation_def Let_def stf_def [symmetric] fenced_def [symmetric]
      started_def [symmetric] ev_def [symmetric] by (simp_all split: if_splits)
  have inc: "md_incarnation fenced = md_incarnation md" "md_key fenced = md_key md"
      "md_claims fenced = md_claims md" "md_declarations fenced = md_declarations md"
      "md_samples fenced = md_samples md"
    by (simp_all add: fenced_def push_event_def)
  have core: "module_core (st_sources st) uid md" by (rule wf_module(1) [OF wf md])
  then have "module_core (st_sources st) uid fenced"
    by (auto simp: core_defs fenced_def push_event_def lifecycle_event_def)
  moreover have less: "md_incarnation fenced < md_incarnation started"
    using word32_less_inc [OF room] by (simp add: started_def)
  ultimately have "module_core (st_sources st) uid started"
    unfolding core_defs by (auto simp: started_def intro: order_trans less_imp_le)
  then have "module_core (st_sources st) uid (push_event ev started)"
    by (auto simp: core_defs push_event_def ev_def lifecycle_event_def)
  moreover have "module_later md (push_event ev started)"
    using less less [THEN less_imp_le] inc by (simp add: module_later_def push_event_def started_def)
  moreover have "sound config st stf" "st_modules stf = st_modules st" "st_sources stf = st_sources st"
    using fence_attachments_sound [OF wf] sound_refl [OF wf]
    by (simp_all add: stf_def fence_attachments_def)
  ultimately show thesis
    using inc
    by (intro that [OF st2]) (simp_all add: push_event_def started_def)
qed

lemma new_module_sound:
  assumes wf: "wf config st" and room: "length (st_modules st) < unat (cf_max_modules config)"
    and key: "oget (st_module_uid_by_key st) key = None" "md_key md = key"
    and md: "module_core (st_sources st) (st_next_module_uid st) md" "module_sized config md"
  shows "oget (st_modules st) (st_next_module_uid st) = None"
    "sound config st (st \<lparr> st_next_module_uid := st_next_module_uid st + 1,
      st_modules := oput (st_next_module_uid st) md (st_modules st),
      st_module_uid_by_key := oput key (st_next_module_uid st) (st_module_uid_by_key st) \<rparr>)"
proof -
  let ?uid = "st_next_module_uid st"
  let ?st' = "st \<lparr> st_next_module_uid := ?uid + 1, st_modules := oput ?uid md (st_modules st),
      st_module_uid_by_key := oput key ?uid (st_module_uid_by_key st) \<rparr>"
  have ok: "modules_ok config st" "osorted (st_modules st)" "numbered (st_modules st) ?uid"
    using wf by (auto simp: wf_def modules_ok_def all_entries_def)
  note fresh = numbered_insert [OF ok(3,2), simplified]
  have none: "oget (st_modules st) ?uid = None"
    and num: "numbered (oput ?uid md (st_modules st)) (?uid + 1)"
    using length_less_word32 [OF room] fresh by auto
  have ext: "extends module_later (st_modules st) (st_modules ?st')"
    using none by (auto intro: extends_oput)
  have "attachment_ok ?st' slot a" if "attachment_ok st slot a" for slot a
    by (rule attachment_ok_modules [OF that ext])
  then have "all_entries (attachment_ok ?st') (st_attachments st)"
    using wf unfolding wf_def by (blast intro: all_entries_mono)
  moreover have "modules_ok config ?st'"
    using ok md none num key room index_ok_insert [of "st_modules st" _ md_key ?uid md]
    by (auto simp: modules_ok_def om.size_put intro!: all_entries_oput)
  ultimately show "sound config st ?st'"
    using wf ext by (simp add: sound_def wf_def sources_ok_def ports_ok_def rules_ok_def
        thresholds_ok_def live_thresholds_def later_def extends_refl)
  show "oget (st_modules st) ?uid = None" by (rule none)
qed

lemma new_module_core:
  "evidence_ok srcs (at_source auth) (at_epoch auth) \<Longrightarrow>
     module_core srcs uid (new_module ck key auth uid gen sq)"
  by (simp add: core_defs new_module_def push_event_def lifecycle_event_def)

lemma register_module_sound:
  assumes wf: "wf config st" and body: "register_module_body config ck r auth st gen sq = Inr (st', h)"
  shows "sound config st st'"
  using body
proof (cases rule: register_module_parts)
  case (1 st1 uid md1 md2)
  note auth = authority_evidence [OF 1(1)]
  note fin = finish_registration_core [OF 1(4)]
  show ?thesis
  proof (cases "oget (st_module_uid_by_key st) (rn_key r)")
    case None
    let ?md = "new_module ck (rn_key r) auth (st_next_module_uid st) gen sq"
    have room: "length (st_modules st) < unat (cf_max_modules config)"
      and uid: "uid = st_next_module_uid st"
      and st1: "st1 = st \<lparr> st_next_module_uid := uid + 1, st_modules := oput uid ?md (st_modules st),
        st_module_uid_by_key := oput (rn_key r) uid (st_module_uid_by_key st) \<rparr>"
      using 1(2) None by (auto simp: locate_module_def Let_def split: if_splits)
    have md1: "md1 = ?md" using 1(3) by (simp add: st1)
    note fin = fin [OF new_module_core [OF auth, of "st_next_module_uid st" ck "rn_key r" gen sq, folded md1]]
    have ok: "module_core (st_sources st) uid md2" "module_sized config md2" "md_key md2 = rn_key r"
      using fin auth by (simp_all add: md1 uid new_module_def push_event_def module_later_def)
    have "st' = st \<lparr> st_next_module_uid := uid + 1, st_modules := oput uid md2 (st_modules st),
        st_module_uid_by_key := oput (rn_key r) uid (st_module_uid_by_key st) \<rparr>"
      unfolding 1(5) st1 put_module_def by (rule State.equality) simp_all
    then show ?thesis
      using new_module_sound(2) [OF wf room None ok(3) ok(1,2) [unfolded uid]] by (simp only: uid)
  next
    case (Some uid')
    obtain md where uid: "uid = uid'" and md: "oget (st_modules st) uid = Some md"
      and case2: "st1 = st \<or> new_incarnation ck auth uid md st gen sq = Inr st1"
      using 1(2) Some by (auto simp: locate_module_def try_res_Inr split: option.splits if_splits)
    note old = wf_module [OF wf md]
    from case2 show ?thesis
    proof
      assume st1: "st1 = st"
      then have md1: "md1 = md" using 1(3) md by simp
      note fin = fin [OF old(1) [folded md1] _ _ auth]
      show ?thesis
        unfolding 1(5) st1
        by (rule put_module_sound [OF wf md])
          (use fin old(2) in \<open>simp_all add: md1 module_sized_def\<close>)
    next
      assume new: "new_incarnation ck auth uid md st gen sq = Inr st1"
      show ?thesis
      proof (rule new_incarnation_parts [OF wf md new])
        fix stf md'
        assume *: "st1 = put_module uid md' stf" "sound config st stf" "st_modules stf = st_modules st"
          "st_sources stf = st_sources st" "module_core (st_sources st) uid md'" "module_later md md'"
          "md_declarations md' = md_declarations md" "md_samples md' = md_samples md"
        have md1: "md1 = md'" using 1(3) by (simp add: *(1) put_module_def)
        note fin = fin [OF *(5) [folded md1] _ _ auth]
        have "sound config stf (put_module uid md2 stf)"
        proof (rule put_module_sound [OF sound_wf [OF *(2)]])
          show "oget (st_modules stf) uid = Some md" using md *(3) by simp
          show "module_core (st_sources stf) uid md2" "module_sized config md2"
            using fin old(2) *(4,7,8) by (simp_all add: md1 module_sized_def)
          show "module_later md md2"
            using fin(3) old(2) *(7,8) module_later_trans [OF *(6)] by (simp add: md1 module_sized_def)
        qed
        then show ?thesis
          unfolding 1(5) *(1) put_module_twice by (rule sound_trans [OF *(2)])
      qed
    qed
  qed
qed

lemma update_latch_keys:
  "map (\<lambda>r. (lr_metric r, lr_lane r)) (update_latch f metric lane_in rs) =
     (let keys = map (\<lambda>r. (lr_metric r, lr_lane r)) rs
      in if (metric, lane_in) \<in> set keys then keys else keys @ [(metric, lane_in)])"
  by (induction rs) (auto simp: Let_def)

lemma update_latch_distinct:
  "distinct (map (\<lambda>r. (lr_metric r, lr_lane r)) rs) \<Longrightarrow>
     distinct (map (\<lambda>r. (lr_metric r, lr_lane r)) (update_latch f metric lane_in rs))"
  unfolding update_latch_keys Let_def by auto

lemma latch_sample_simps:
  "md_uid (latch_sample st s md) = md_uid md" "md_key (latch_sample st s md) = md_key md"
  "md_incarnation (latch_sample st s md) = md_incarnation md"
  "md_incarnation_count (latch_sample st s md) = md_incarnation_count md"
  "md_state (latch_sample st s md) = md_state md"
  "md_claims (latch_sample st s md) = md_claims md"
  "md_declarations (latch_sample st s md) = md_declarations md"
  "md_samples (latch_sample st s md) = md_samples md"
  "md_lifecycle (latch_sample st s md) = md_lifecycle md"
  "md_series_counts (latch_sample st s md) = md_series_counts md"
  by (simp_all add: latch_sample_def split: option.split)

lemma latch_sample_distinct:
  "distinct (map (\<lambda>r. (lr_metric r, lr_lane r)) (md_latches md)) \<Longrightarrow>
     distinct (map (\<lambda>r. (lr_metric r, lr_lane r)) (md_latches (latch_sample st s md)))"
  by (simp add: latch_sample_def update_latch_distinct split: option.split)

lemma count_series_simps:
  "md_uid (count_series k md) = md_uid md" "md_key (count_series k md) = md_key md"
  "md_incarnation (count_series k md) = md_incarnation md"
  "md_incarnation_count (count_series k md) = md_incarnation_count md"
  "md_state (count_series k md) = md_state md"
  "md_claims (count_series k md) = md_claims md"
  "md_declarations (count_series k md) = md_declarations md"
  "md_samples (count_series k md) = md_samples md"
  "md_lifecycle (count_series k md) = md_lifecycle md"
  "md_latches (count_series k md) = md_latches md"
  "osorted (md_series_counts md) \<Longrightarrow> osorted (md_series_counts (count_series k md))"
  by (auto simp: count_series_def)

lemma ingest_parts:
  assumes "ingest_health_body config ck auth h s st gen sq = Inr (st', r)"
  obtains md stored st2 md' where "require_authority st auth = Inr ()"
    "oget (st_modules st) (mo_uid h) = Some md" "md_incarnation md = mo_incarnation h"
    "stored = stored_sample ck auth md s gen sq"
    "\<not> (sample_monotonic ck s \<noteq> 0 \<and> list_ex (replayed auth stored) (md_samples md))"
    "trim_samples st (latch_sample st stored (count_series (hi_metric s, hi_lane s)
        (md \<lparr> md_samples := md_samples md @ [stored] \<rparr>))) config = (st2, md')"
    "st' = put_module (mo_uid h) md' st2"
  using assms unfolding ingest_health_body_def Let_def
  by (elim with_module_Inr) (auto split: if_splits prod.splits)

lemma ingest_sound:
  assumes wf: "wf config st" and body: "ingest_health_body config ck auth h s st gen sq = Inr (st', r)"
  shows "sound config st st'"
  using body
proof (cases rule: ingest_parts)
  case (1 md stored st2 md')
  note old = wf_module [OF wf 1(2)]
  define md1 where "md1 = latch_sample st stored (count_series (hi_metric s, hi_lane s)
        (md \<lparr> md_samples := md_samples md @ [stored] \<rparr>))"
  have "sample_ok (st_sources st) md stored"
    using authority_evidence [OF 1(1)] by (simp add: sample_ok_def 1(4) stored_sample_def)
  then have md1: "module_core (st_sources st) (mo_uid h) md1"
    using old(1)
    by (auto simp: core_defs md1_def latch_sample_simps count_series_simps intro: latch_sample_distinct)
  have same: "md_key md1 = md_key md" "md_incarnation md1 = md_incarnation md" "md_state md1 = md_state md"
    "md_claims md1 = md_claims md" "md_declarations md1 = md_declarations md"
    "md_lifecycle md1 = md_lifecycle md"
    by (simp_all add: md1_def latch_sample_simps count_series_simps)
  show ?thesis
  proof (rule trim_samples_cases [OF 1(6) [folded md1_def]])
    fix kept counts d
    assume *: "st2 = st \<lparr> st_dropped_samples := d \<rparr>"
      "md' = md1 \<lparr> md_samples := kept, md_series_counts := counts \<rparr>" "set kept \<subseteq> set (md_samples md1)"
      "length kept \<le> unat (cf_max_samples_per_module config)"
      "map fst counts = map fst (md_series_counts md1)"
    note s2 = counters_sound(2) [OF wf, of d, folded *(1)]
    have "osorted counts" using md1 *(5) by (simp add: module_core_def osorted_def)
    then have "module_core (st_sources st2) (mo_uid h) md'"
      using md1 *(3) by (auto simp: core_defs *(1,2))
    moreover have "module_sized config md'"
      using old(2) *(4) same by (simp add: module_sized_def *(2))
    moreover have "module_later md md'"
      by (rule module_later_same) (simp_all add: *(2) same)
    moreover have "oget (st_modules st2) (mo_uid h) = Some md" using 1(2) by (simp add: *(1))
    ultimately have "sound config st2 st'"
      unfolding 1(7) by (intro put_module_sound [OF sound_wf [OF s2]])
    then show ?thesis by (rule sound_trans [OF s2])
  qed
qed

section \<open>Reachable states\<close>

lemma body_unit_Inr: "body_unit b st gen sq = Inr (st', u) \<Longrightarrow> \<exists>x. b st gen sq = Inr (st', x)"
  by (cases "b st gen sq") (auto simp: body_unit_def)

lemma op_body_sound:
  assumes wf: "wf config st" and guard: "op_guard config ck op = Inr ()"
    and body: "op_body config ck op st gen sq = Inr (st', u)"
  shows "sound config st st'"
  using guard body
  by (cases op)
    (auto simp: try_res_Inr dest!: body_unit_Inr split: if_splits
      intro: register_source_sound [OF wf] register_module_sound [OF wf] update_identity_sound [OF wf]
        publish_capability_sound [OF wf] publish_port_capability_sound [OF wf] attach_sound [OF wf]
        detach_sound [OF wf] ingest_sound [OF wf] publish_threshold_sound [OF wf]
        publish_rule_sound [OF wf] retire_rule_sound [OF wf] transition_sound [OF wf]
        reconcile_sound [OF wf])

text \<open>
  What every commit keeps holds of every reachable state, and a preorder that every commit respects
  relates the two ends of every run.
\<close>

locale registry_invariant =
  fixes config :: RegistryConfig
    and I :: "State \<Rightarrow> bool"
  assumes initially: "I State_init"
    and commit: "I st \<Longrightarrow> op_guard config ck op = Inr () \<Longrightarrow> op_commit config ck op st = Some st' \<Longrightarrow> I st'"
begin

lemma step_inv:
  assumes "rg_config rg = config" "I (rg_state rg)"
  shows "I (rg_state (fst (step ck op rg)))"
  by (rule step_outcome [of op ck rg]) (use assms commit in auto)

lemma reachable_inv: "reachable config rg \<Longrightarrow> I (rg_state rg)"
proof (induction rule: reachable.induct)
  case init
  then show ?case by (simp add: Registry_init_def initially)
next
  case (step rg ck op)
  then show ?case by (simp add: step_inv reachable_config)
qed

end

locale registry_relation = registry_invariant +
  fixes R :: "State \<Rightarrow> State \<Rightarrow> bool"
  assumes refl: "R st st"
    and trans: "R a b \<Longrightarrow> R b c \<Longrightarrow> R a c"
    and commit_rel: "I st \<Longrightarrow> op_guard config ck op = Inr () \<Longrightarrow> op_commit config ck op st = Some st' \<Longrightarrow> R st st'"
begin

lemma step_rel:
  assumes "reachable config rg"
  shows "R (rg_state rg) (rg_state (fst (step ck op rg)))"
  by (rule step_outcome [of op ck rg])
    (use reachable_config [OF assms] reachable_inv [OF assms] commit_rel refl in auto)

lemma run_rel:
  assumes "reachable config rg"
  shows "R (rg_state rg) (rg_state (run ops rg))"
  using assms
proof (induction ops arbitrary: rg)
  case Nil
  then show ?case by (simp add: refl)
next
  case (Cons o' ops)
  obtain ck op where o': "o' = (ck, op)" by fastforce
  show ?case
    using trans [OF step_rel [OF Cons.prems] Cons.IH [OF reachable.step [OF Cons.prems]]]
    by (simp add: o')
qed

end

lemma op_commit_Some:
  assumes "op_commit config ck op st = Some st'"
  obtains nxt u where
    "op_body config ck op (fst (next_sequence st)) (st_generation st + 1) (snd (next_sequence st)) = Inr (nxt, u)"
    "st' = publish (st_generation st + 1) nxt"
  using assms by (auto simp: op_commit_def split: sum.splits)

lemma publish_keeps:
  assumes "sound config st nxt"
  shows "wf config (publish (st_generation st + 1) nxt)" "later st (publish (st_generation st + 1) nxt)"
proof -
  let ?st' = "publish (st_generation st + 1) nxt"
  have att: "attachment_ok ?st' = attachment_ok nxt"
    unfolding attachment_ok_def by (simp add: publish_def)
  have "wf config nxt" and *: "st_generation nxt = st_generation st" "st_mutations nxt = st_mutations st"
    using assms by (simp_all add: sound_def)
  then have "st_generation st = st_mutations st" by (simp add: wf_def)
  with \<open>wf config nxt\<close> * show "wf config ?st'"
    unfolding wf_def att
    by (simp add: wf_parts thresholds_ok_def live_thresholds_def publish_def)
  show "later st ?st'" using assms by (simp add: sound_def later_def publish_def)
qed

lemma op_commit_keeps:
  assumes "wf config st" "op_guard config ck op = Inr ()" "op_commit config ck op st = Some st'"
  shows "wf config st'" "later st st'"
proof -
  obtain nxt u where body: "op_body config ck op (fst (next_sequence st)) (st_generation st + 1)
      (snd (next_sequence st)) = Inr (nxt, u)" and st': "st' = publish (st_generation st + 1) nxt"
    using assms(3) by (rule op_commit_Some)
  note s = counters_sound(1) [OF assms(1)]
  have "sound config st nxt"
    by (rule sound_trans [OF s op_body_sound [OF sound_wf [OF s] assms(2) body]])
  then show "wf config st'" "later st st'" unfolding st' by (rule publish_keeps)+
qed

lemma wf_init: "wf config State_init"
  by (simp add: wf_def wf_parts thresholds_ok_def live_thresholds_def State_init_def all_entries_def
      index_ok_def numbered_def not_le) (meson gr0I)

interpretation reg: registry_relation config "wf config" later for config
  by unfold_locales (auto simp: wf_init intro: op_commit_keeps later_trans)

lemmas reachable_wf = reg.reachable_inv
  and run_later = reg.run_rel

end
