(* ===== verification/RegLaws.thy ===== *)
theory RegLaws
  imports RegInv
begin

text \<open>
  What the registry promises its clients, on every reachable state and along every run: atomicity and
  fencing of mutations, the permanence of superseded authorities and incarnations, the discipline of
  the lifecycle, and what a health report rests on. The example is a small run in which a source
  registers a module, publishes evidence about it, attaches it and takes a reading.
\<close>

section \<open>An example run\<close>

definition example_clock :: Clock where
  "example_clock = \<lparr> ck_wall = 1000, ck_monotonic = 7, ck_domain = 1 \<rparr>"

definition example_descriptor :: SourceDescriptor where
  "example_descriptor =
     \<lparr> ds_name = ''s'', ds_description = [], ds_declared_kind = EK_Synthetic, ds_instance_id = [] \<rparr>"

definition example_provenance :: Provenance where
  "example_provenance =
     \<lparr> pv_kind = EK_Synthetic, pv_origin = ''o'', pv_method = [], pv_content_digest = zero_digest,
       pv_capture_ref = [] \<rparr>"

definition example_authority :: AuthorityToken where
  "example_authority = \<lparr> at_source = 1, at_epoch = 1 \<rparr>"

definition example_handle :: ModuleHandle where
  "example_handle = \<lparr> mo_uid = 1, mo_incarnation = 1, mo_generation = 2, mo_key = ''m'' \<rparr>"

definition example_registration :: "RegisterIntent \<Rightarrow> ModuleRegistration" where
  "example_registration intent =
     \<lparr> rn_key = ''m'',
       rn_identity = [\<lparr> iv_field = IF_SerialNumber, iv_subkey = [], iv_value = ''x1'' \<rparr>],
       rn_intent = intent, rn_provenance = example_provenance, rn_policy = MP_AutoRetry,
       rn_expected_generation = 0 \<rparr>"

definition example_start :: "op list" where
  "example_start =
     [Register_source example_descriptor MP_AutoRetry,
      Register_module (example_registration RI_EnsureCurrent) example_authority]"

definition example_ops :: "op list" where
  "example_ops = example_start @
     [Attach example_authority example_handle ''p1'' 0 MP_AutoRetry,
      Register_source example_descriptor MP_AutoRetry,
      Register_module (example_registration RI_NewIncarnation) (example_authority \<lparr> at_epoch := 2 \<rparr>)]"

definition at_clock :: "op list \<Rightarrow> (Clock \<times> op) list" where
  "at_clock = map (Pair example_clock)"

definition example_registry :: "op list \<Rightarrow> Registry" where
  "example_registry ops = run (at_clock ops) (Registry_init config_default)"

lemma example_reachable: "reachable config_default (example_registry ops)"
  unfolding example_registry_def by (rule reachable_run [OF reachable.init])

section \<open>Well-formedness\<close>



section \<open>Mutations are atomic and fenced\<close>

lemma op_commit_generation:
  "op_commit config ck op st = Some st' \<Longrightarrow> st_generation st' = st_generation st + 1"
  by (elim op_commit_Some) (simp add: publish_def)

lemma step_committed:
  assumes "op \<noteq> Ask" "snd (step ck op rg) = Inr ()"
  shows "st_generation (rg_state (fst (step ck op rg))) = st_generation (rg_state rg) + 1"
    "require_generation (fst (op_fence op)) \<Longrightarrow> id_valid (snd (op_fence op)) \<Longrightarrow>
       snd (op_fence op) = st_generation (rg_state rg)"
  by (rule step_outcome [of op ck rg]; use assms op_commit_generation in auto)+

text \<open>
  C2. A mutation either fails and leaves the published state exactly as it was, or succeeds and
  advances the generation by one; a mutation that requires a generation succeeds only at that one.
\<close>

theorem mutation_atomic:
  assumes "op \<noteq> Ask"
  shows "(\<exists>e. snd (step ck op rg) = Inl e \<and> rg_state (fst (step ck op rg)) = rg_state rg) \<or>
    (snd (step ck op rg) = Inr () \<and>
     st_generation (rg_state (fst (step ck op rg))) = st_generation (rg_state rg) + 1 \<and>
     (require_generation (fst (op_fence op)) \<longrightarrow> id_valid (snd (op_fence op)) \<longrightarrow>
        snd (op_fence op) = st_generation (rg_state rg)))"
  by (rule step_outcome [of op ck rg]) (use assms op_commit_generation in auto)

lemma mutation_atomic_witness:
  "snd (step example_clock (hd example_start) (Registry_init config_default)) = Inr () \<and>
   st_generation (rg_state (fst (step example_clock (hd example_start) (Registry_init config_default)))) = 1"
proof -
  have "hd example_start \<noteq> Ask" by (simp add: example_start_def)
  moreover have "snd (step example_clock (hd example_start) (Registry_init config_default)) = Inr ()"
    by code_simp
  ultimately show ?thesis
    using mutation_atomic [of "hd example_start" example_clock "Registry_init config_default"]
    by (auto simp: Registry_init_def State_init_def)
qed

text \<open>The operations of a run that committed, in order.\<close>

fun committed :: "(Clock \<times> op) list \<Rightarrow> Registry \<Rightarrow> op list" where
  "committed [] rg = []"
| "committed ((ck, op) # ops) rg =
     (if op \<noteq> Ask \<and> snd (step ck op rg) = Inr ()
      then op # committed ops (fst (step ck op rg))
      else committed ops (fst (step ck op rg)))"

definition fenced_on :: "Generation \<Rightarrow> op \<Rightarrow> bool" where
  "fenced_on g op \<longleftrightarrow> require_generation (fst (op_fence op)) \<and> snd (op_fence op) = g"

lemma committed_generation:
  assumes "id_valid g" "i < length (committed ops rg)" "fenced_on g (committed ops rg ! i)"
  shows "g = st_generation (rg_state rg) + of_nat i"
  using assms(2,3)
proof (induction ops arbitrary: rg i)
  case (Cons o' ops)
  obtain ck op where o': "o' = (ck, op)" by fastforce
  let ?rg = "fst (step ck op rg)"
  show ?case
  proof (cases "op \<noteq> Ask \<and> snd (step ck op rg) = Inr ()")
    case True
    then have gen: "st_generation (rg_state ?rg) = st_generation (rg_state rg) + 1"
      and fence: "fenced_on g op \<Longrightarrow> g = st_generation (rg_state rg)"
      using step_committed [of op ck rg] assms(1) by (auto simp: fenced_on_def)
    show ?thesis
    proof (cases i)
      case 0
      then show ?thesis using Cons.prems True fence by (simp add: o')
    next
      case (Suc j)
      then show ?thesis using Cons.IH [of j ?rg] Cons.prems True gen by (simp add: o')
    qed
  next
    case False
    then have "rg_state ?rg = rg_state rg" by (cases rule: step_outcome [of op ck rg]) auto
    then show ?thesis using Cons.IH [of i ?rg] Cons.prems False by (auto simp: o')
  qed
qed simp

lemma committed_length: "length (committed ops rg) \<le> length ops"
  by (induction ops rg rule: committed.induct) (auto intro: le_SucI)

text \<open>
  Optimistic concurrency: along a run of fewer than \<open>2\<^sup>64\<close> operations, at most one of the
  operations that require one and the same generation succeeds; the others are refused.
\<close>

theorem fenced_once:
  assumes "id_valid g" "length ops < 2 ^ 64"
  shows "length (filter (fenced_on g) (committed ops rg)) \<le> 1"
proof (rule ccontr)
  let ?cs = "committed ops rg"
  assume "\<not> ?thesis"
  then have "\<not> card {i. i < length ?cs \<and> fenced_on g (?cs ! i)} \<le> 1"
    by (simp add: length_filter_conv_card)
  then obtain i j where "i < length ?cs" "j < length ?cs" "i \<noteq> j"
    "fenced_on g (?cs ! i)" "fenced_on g (?cs ! j)"
    by (auto simp: card_le_Suc0_iff_eq)
  moreover have "length ?cs < 2 ^ 64"
    using committed_length [of ops rg] assms(2) by simp
  moreover have "(of_nat i :: 64 word) = of_nat j"
    using committed_generation [OF assms(1)] calculation by (metis add_left_cancel)
  ultimately show False by (simp add: word_of_nat_eq_iff take_bit_nat_eq_self)
qed

section \<open>The internal errors are unreachable\<close>

definition no_internal :: "'a res \<Rightarrow> bool" where
  "no_internal r \<longleftrightarrow> r \<noteq> Inl Internal"

lemma no_internal_simps [simp]:
  "no_internal (Inl e) \<longleftrightarrow> e \<noteq> Internal"
  "no_internal (Inr x)"
  "no_internal (try_res r k) \<longleftrightarrow> no_internal r \<and> (\<forall>x. r = Inr x \<longrightarrow> no_internal (k x))"
  by (auto simp: no_internal_def try_res_Inl)

lemma no_internal_try_all [intro]: "(\<And>x. no_internal (f x)) \<Longrightarrow> no_internal (try_all f xs)"
  by (induction xs) simp_all

lemma no_internal_validators [simp]:
  "no_internal (validate_provenance p)"
  "no_internal (validate_identity_value v)"
  "no_internal (validate_descriptor d)"
  "no_internal (validate_capability_key key subkey)"
  "no_internal (validate_threshold t)"
  "no_internal (require_authority st auth)"
  by (simp_all add: validate_provenance_def validate_identity_value_def validate_descriptor_def
      validate_capability_key_def validate_threshold_def require_authority_def split: option.split)

lemma no_internal_registration [simp]: "no_internal (validate_registration r)"
  by (auto simp: validate_registration_def)

lemma no_internal_validate_for [simp]: "no_internal (validate_for v key)"
proof -
  have "no_internal (validate_shape v)" by (cases v) auto
  then show ?thesis by (simp add: validate_for_def Let_def)
qed

lemma no_internal_validate_rule [simp]: "no_internal (validate_rule r)"
proof -
  have "no_internal (validate_requirement q)" for q
    by (simp add: validate_requirement_def Let_def)
  then show ?thesis by (auto simp: validate_rule_def)
qed

lemma no_internal_validate_sample [simp]: "no_internal (validate_sample config ck s)"
  by (simp add: validate_sample_def split: option.split)

lemma no_internal_guard: "no_internal (op_guard config ck op)"
  by (cases op) simp_all

lemma no_internal_evict: "no_internal (evict s limit g es)"
  by (induction s limit g es rule: evict.induct, subst evict.simps) (auto split: option.split)

lemma no_internal_trims [simp]:
  "no_internal (trim_claims md m h)" "no_internal (trim_declarations md m h)"
  "no_internal (trim_port_declarations ds m)"
  by (simp_all add: trim_claims_def trim_declarations_def trim_port_declarations_def no_internal_evict)

lemma no_internal_with_module:
  assumes "\<And>md. oget (st_modules st) (mo_uid h) = Some md \<Longrightarrow> no_internal (k md)"
  shows "no_internal (with_module auth h st k)"
  using assms
  by (auto simp: with_module_def current_module_def split: option.splits if_splits)

lemma index_ok_get: "index_ok m idx name \<Longrightarrow> oget idx n = Some k \<Longrightarrow> \<exists>v. oget m k = Some v"
  unfolding index_ok_def by auto

lemma no_internal_register_source:
  "wf config st \<Longrightarrow> no_internal (register_source_body config ck d st gen sq)"
  by (auto simp: register_source_body_def Let_def wf_def sources_ok_def dest: index_ok_get
      split: option.split)

lemma no_internal_register_discovered [simp]: "no_internal (register_discovered ck auth gen sq md)"
  by (simp add: register_discovered_def transition_allowed_targets)

lemma no_internal_locate_module:
  assumes "wf config st"
  shows "no_internal (locate_module config ck r auth st gen sq)"
proof -
  have "\<exists>md. oget (st_modules st) uid = Some md" if "oget (st_module_uid_by_key st) (rn_key r) = Some uid" for uid
    using assms that by (auto simp: wf_def modules_ok_def dest: index_ok_get)
  then show ?thesis
    by (auto simp: locate_module_def new_incarnation_def Let_def split: option.split)
qed

lemma locate_module_found:
  assumes "locate_module config ck r auth st gen sq = Inr (st1, uid)"
  shows "\<exists>md. oget (st_modules st1) uid = Some md"
  using assms
  by (auto simp: locate_module_def Let_def try_res_Inr new_incarnation_def put_module_def
      split: option.splits if_splits)

lemma no_internal_register_module:
  assumes "wf config st"
  shows "no_internal (register_module_body config ck r auth st gen sq)"
  by (auto simp: register_module_body_def Let_def no_internal_locate_module [OF assms]
      dest: locate_module_found split: option.split)

lemma no_internal_attach: "no_internal (attach_body config ck auth h slot i st gen sq)"
  unfolding attach_body_def Let_def
  by (rule no_internal_with_module) (simp split: option.split)

lemma attached_removable: "lifecycle_state_implies_attachment s \<Longrightarrow> lifecycle_transition_allowed s LS_Removed"
  by (auto simp: lifecycle_state_implies_attachment_def transition_allowed_targets)

lemma no_internal_detach: "no_internal (detach_body config ck auth slot st gen sq)"
  by (auto simp: detach_body_def Let_def attached_removable split: option.split)

lemma no_internal_ingest: "no_internal (ingest_health_body config ck auth h s st gen sq)"
  unfolding ingest_health_body_def Let_def
  by (rule no_internal_with_module) (simp split: prod.split)

lemma no_internal_body_unit [simp]: "no_internal (body_unit b st gen sq) \<longleftrightarrow> no_internal (b st gen sq)"
  by (cases "b st gen sq") (auto simp: body_unit_def)

lemma no_internal_op_body:
  assumes "wf config st"
  shows "no_internal (op_body config ck op st gen sq)"
  by (cases op)
    (auto simp: no_internal_register_source [OF assms] no_internal_register_module [OF assms]
      no_internal_attach no_internal_detach no_internal_ingest update_identity_body_def
      publish_capability_body_def publish_port_capability_body_def publish_threshold_body_def
      publish_rule_body_def retire_rule_body_def transition_body_def reconcile_lifecycle_body_def
      Let_def intro!: no_internal_with_module split: option.split)

lemma no_internal_mutate:
  "no_internal (b (fst (next_sequence (rg_state rg))) (st_generation (rg_state rg) + 1)
      (snd (next_sequence (rg_state rg)))) \<Longrightarrow> no_internal (snd (mutate req g b rg))"
  by (auto simp: mutate_def Let_def split_beta no_internal_def split: sum.splits)



section \<open>Superseded authorities and handles\<close>

fun op_authority :: "op \<Rightarrow> AuthorityToken option" where
  "op_authority (Register_source d p) = None"
| "op_authority (Register_module r a) = Some a"
| "op_authority (Update_identity a h v pv p) = Some a"
| "op_authority (Publish_capability a h k sk v pv p) = Some a"
| "op_authority (Publish_port_capability a po k sk v pv p) = Some a"
| "op_authority (Attach a h slot i p) = Some a"
| "op_authority (Detach a slot p) = Some a"
| "op_authority (Ingest_health a h s p) = Some a"
| "op_authority (Publish_threshold a t p) = Some a"
| "op_authority (Publish_rule a r p) = Some a"
| "op_authority (Retire_rule a i p) = Some a"
| "op_authority (Transition a h s reason p) = Some a"
| "op_authority (Reconcile_lifecycle a h p) = Some a"
| "op_authority Ask = None"

fun op_handle :: "op \<Rightarrow> ModuleHandle option" where
  "op_handle (Update_identity a h v pv p) = Some h"
| "op_handle (Publish_capability a h k sk v pv p) = Some h"
| "op_handle (Attach a h slot i p) = Some h"
| "op_handle (Ingest_health a h s p) = Some h"
| "op_handle (Transition a h s reason p) = Some h"
| "op_handle (Reconcile_lifecycle a h p) = Some h"
| "op_handle _ = None"

lemma op_body_authority:
  "op_authority op = Some auth \<Longrightarrow> op_body config ck op st gen sq = Inr (st', u) \<Longrightarrow>
     require_authority st auth = Inr ()"
  by (cases op)
    (auto dest!: body_unit_Inr simp: try_res_Inr with_module_def register_module_body_def
      update_identity_body_def publish_capability_body_def publish_port_capability_body_def
      attach_body_def detach_body_def ingest_health_body_def publish_threshold_body_def
      publish_rule_body_def retire_rule_body_def transition_body_def reconcile_lifecycle_body_def)

lemma op_body_handle:
  "op_handle op = Some h \<Longrightarrow> op_body config ck op st gen sq = Inr (st', u) \<Longrightarrow>
     \<exists>md. oget (st_modules st) (mo_uid h) = Some md \<and> md_incarnation md = mo_incarnation h"
  by (cases op)
    (auto dest!: body_unit_Inr elim!: with_module_Inr simp: update_identity_body_def
      publish_capability_body_def attach_body_def ingest_health_body_def transition_body_def
      reconcile_lifecycle_body_def)

lemma step_refused:
  assumes "op \<noteq> Ask" "op_commit (rg_config rg) ck op (rg_state rg) = None"
  shows "\<exists>e. snd (step ck op rg) = Inl e" "rg_state (fst (step ck op rg)) = rg_state rg"
  by (rule step_outcome [of op ck rg]; use assms in auto)+

lemma next_sequence_fields [simp]:
  "st_sources (fst (next_sequence st)) = st_sources st"
  "st_modules (fst (next_sequence st)) = st_modules st"
  by (simp_all add: next_sequence_def Let_def)

lemma superseded_authority:
  assumes reach: "reachable config rg"
    and so: "oget (st_sources (rg_state rg)) (at_source auth) = Some so" "at_epoch auth < so_epoch so"
    and op: "op_authority op = Some auth"
  shows "\<exists>e. snd (step ck op (run ops rg)) = Inl e"
    "rg_state (fst (step ck op (run ops rg))) = rg_state (run ops rg)"
proof -
  let ?rg = "run ops rg"
  have "later (rg_state rg) (rg_state ?rg)" by (rule run_later [OF reach])
  then obtain so' where so': "oget (st_sources (rg_state ?rg)) (at_source auth) = Some so'"
    "so_epoch so \<le> so_epoch so'"
    using so(1) unfolding later_def extends_def source_later_def by blast
  then have "so_epoch so' \<noteq> at_epoch auth" using so(2) by auto
  then have "require_authority (fst (next_sequence (rg_state ?rg))) auth \<noteq> Inr ()"
    using so'(1) by (simp add: authority_Inr)
  then have "op_commit (rg_config ?rg) ck op (rg_state ?rg) = None"
    using op_body_authority [OF op] by (metis not_Some_eq op_commit_Some)
  moreover have "op \<noteq> Ask" using op by auto
  ultimately show "\<exists>e. snd (step ck op ?rg) = Inl e"
    "rg_state (fst (step ck op ?rg)) = rg_state ?rg" by (metis step_refused)+
qed

text \<open>
  C7. A superseded authority stays superseded: once a source has moved to a later epoch, every
  operation that carries a token of an earlier epoch is refused and changes nothing, in every state
  of every later run.
\<close>

theorem authority_superseded_forever:
  assumes "reachable config rg" "op_authority op = Some auth"
    and "oget (st_sources (rg_state rg)) (at_source auth) = Some so" "at_epoch auth < so_epoch so"
  shows "(\<exists>e. snd (step ck op (run ops rg)) = Inl e) \<and>
    rg_state (fst (step ck op (run ops rg))) = rg_state (run ops rg)"
  using superseded_authority [OF assms(1,3,4,2)] by blast

lemma example_source_epoch:
  "map_option so_epoch (oget (st_sources (rg_state (example_registry example_ops))) 1) = Some 2"
  by code_simp

lemma authority_superseded_forever_witness:
  "rg_state (fst (step example_clock (Detach example_authority ''p1'' MP_AutoRetry)
     (run (at_clock example_start) (example_registry example_ops)))) =
   rg_state (run (at_clock example_start) (example_registry example_ops))"
proof -
  obtain so where so: "oget (st_sources (rg_state (example_registry example_ops)))
      (at_source example_authority) = Some so" "so_epoch so = 2"
    using example_source_epoch by (auto simp: example_authority_def)
  have "at_epoch example_authority < so_epoch so" by (simp add: so(2) example_authority_def)
  from authority_superseded_forever [OF example_reachable _ so(1) this,
      of "Detach example_authority ''p1'' MP_AutoRetry" example_clock "at_clock example_start"]
  show ?thesis by simp
qed

lemma superseded_handle:
  assumes reach: "reachable config rg"
    and md: "oget (st_modules (rg_state rg)) (mo_uid h) = Some md" "mo_incarnation h < md_incarnation md"
  shows "op_handle op = Some h \<Longrightarrow> \<exists>e. snd (step ck op (run ops rg)) = Inl e"
    "op_handle op = Some h \<Longrightarrow> rg_state (fst (step ck op (run ops rg))) = rg_state (run ops rg)"
    "identity h (rg_state (run ops rg)) = Inl Fenced"
    "capabilities h (rg_state (run ops rg)) = Inl Fenced"
    "health config ck h (rg_state (run ops rg)) = Inl Fenced"
    "lifecycle_state h (rg_state (run ops rg)) = Inl Fenced"
proof -
  let ?rg = "run ops rg"
  have "later (rg_state rg) (rg_state ?rg)" by (rule run_later [OF reach])
  then obtain md' where md': "oget (st_modules (rg_state ?rg)) (mo_uid h) = Some md'"
    "md_incarnation md \<le> md_incarnation md'"
    using md(1) unfolding later_def extends_def module_later_def by blast
  then have ne: "md_incarnation md' \<noteq> mo_incarnation h" using md(2) by auto
  then have "current_module (rg_state ?rg) (mo_uid h) (mo_incarnation h) = Inl Fenced"
    using md'(1) by (simp add: current_module_def incarnation_is_current_def)
  then show "identity h (rg_state ?rg) = Inl Fenced" "capabilities h (rg_state ?rg) = Inl Fenced"
    "health config ck h (rg_state ?rg) = Inl Fenced" "lifecycle_state h (rg_state ?rg) = Inl Fenced"
    by (simp_all add: identity_def capabilities_def health_def lifecycle_state_def)
  show "\<exists>e. snd (step ck op ?rg) = Inl e" "rg_state (fst (step ck op ?rg)) = rg_state ?rg"
    if op: "op_handle op = Some h"
  proof -
    have "op_commit (rg_config ?rg) ck op (rg_state ?rg) = None"
      using op_body_handle [OF op] md'(1) ne
      by (metis next_sequence_fields(2) not_Some_eq op_commit_Some option.inject)
    moreover have "op \<noteq> Ask" using op by auto
    ultimately show "\<exists>e. snd (step ck op ?rg) = Inl e"
      "rg_state (fst (step ck op ?rg)) = rg_state ?rg" by (metis step_refused)+
  qed
qed


lemma example_module:
  "map_option (\<lambda>md. (md_incarnation md, md_state md))
     (oget (st_modules (rg_state (example_registry example_ops))) 1) = Some (2, LS_Registered)"
  by code_simp




lemma fenced_once_witness:
  "id_valid (1 :: Generation) \<and>
   length (filter (fenced_on 1) (committed (at_clock example_ops) (Registry_init config_default))) \<le> 1"
  using fenced_once [of 1 "at_clock example_ops" "Registry_init config_default"]
  by (simp add: id_valid_def at_clock_def example_ops_def example_start_def)

section \<open>Reconciling the lifecycle with the evidence\<close>

lemma reconcile_target_allowed:
  "reconcile_target report s \<noteq> s \<Longrightarrow> lifecycle_transition_allowed s (reconcile_target report s)"
  by (cases s) (auto simp: reconcile_target_def Let_def transition_allowed_targets split: if_splits)

lemma build_health_report_sequence [simp]:
  "build_health_report (fst (next_sequence st)) md config ck = build_health_report st md config ck"
proof -
  have "source_is_live (fst (next_sequence st)) = source_is_live st"
    by (intro ext) (simp add: source_is_live_def)
  moreover have "live_thresholds (fst (next_sequence st)) = live_thresholds st"
    "st_generation (fst (next_sequence st)) = st_generation st"
    by (simp_all add: live_thresholds_def next_sequence_def Let_def)
  ultimately have "report_samples (fst (next_sequence st)) = report_samples st"
    "live_thresholds (fst (next_sequence st)) = live_thresholds st"
    "st_generation (fst (next_sequence st)) = st_generation st"
    "report_rows (fst (next_sequence st)) = report_rows st"
    by (simp_all add: report_samples_def report_rows_def fun_eq_iff)
  then have "report_row (fst (next_sequence st)) = report_row st"
    by (simp add: report_row_def row_classification_def row_metric_def row_series_def fun_eq_iff
        cong: option.case_cong)
  then show ?thesis
    by (simp add: build_health_report_def \<open>report_rows _ = _\<close>
        \<open>st_generation (fst (next_sequence st)) = st_generation st\<close>)
qed

lemma reconcile_body_cases:
  assumes body: "reconcile_lifecycle_body config ck auth h st gen sq = res"
  shows "(\<exists>e \<in> {InvalidArgument, StaleAuthority, NotFound, Fenced}. res = Inl e) \<or>
    (\<exists>md st' ev. res = Inr (st', ev) \<and> oget (st_modules st) (mo_uid h) = Some md \<and>
       md_incarnation md = mo_incarnation h \<and> le_from ev = md_state md \<and>
       le_to ev = reconcile_target (build_health_report st md config ck) (md_state md) \<and>
       (if le_to ev = md_state md then st' = st
        else lifecycle_transition_allowed (md_state md) (le_to ev) \<and>
          st' = put_module (mo_uid h) (trim_lifecycle config (enter_state ev md)) st))"
proof (cases "\<exists>md. require_authority st auth = Inr () \<and> current_module st (mo_uid h) (mo_incarnation h) = Inr md")
  case False
  then have "with_module auth h st k = Inl e \<Longrightarrow> e \<in> {InvalidArgument, StaleAuthority, NotFound, Fenced}"
    "\<exists>e. with_module auth h st k = Inl e" for e and k :: "ModuleRecord \<Rightarrow> (State \<times> LifecycleEvent) res"
    by (auto simp: with_module_def try_res_Inl require_authority_def current_module_def
        split: option.splits if_splits)
  then show ?thesis using body unfolding reconcile_lifecycle_body_def by blast
next
  case True
  then obtain md where md: "require_authority st auth = Inr ()"
    "current_module st (mo_uid h) (mo_incarnation h) = Inr md" by blast
  then have found: "oget (st_modules st) (mo_uid h) = Some md" "md_incarnation md = mo_incarnation h"
    by (auto simp: current_module_def incarnation_is_current_def split: option.splits if_splits)
  let ?target = "reconcile_target (build_health_report st md config ck) (md_state md)"
  define moved where "moved = lifecycle_event (md_state md) ?target (md_incarnation md)
      (if ?target = LS_Degraded then ''health evidence indicates degradation''
       else ''health evidence is fresh and nominal'') auth gen sq (ck_wall ck)"
  define kept where "kept = lifecycle_event (md_state md) (md_state md) (md_incarnation md)
      ''no transition required'' auth gen 0 (ck_wall ck)"
  have ends: "le_from moved = md_state md" "le_to moved = ?target" "le_from kept = md_state md"
    "le_to kept = md_state md" by (simp_all add: moved_def kept_def lifecycle_event_def)
  have res: "res = (if ?target = md_state md then Inr (st, kept)
      else if \<not> lifecycle_transition_allowed (md_state md) ?target then Inl InvalidTransition
      else Inr (put_module (mo_uid h) (trim_lifecycle config (enter_state moved md)) st, moved))"
    using body md unfolding reconcile_lifecycle_body_def with_module_def Let_def moved_def kept_def
    by (simp only: try_res_simps)
  show ?thesis
  proof (cases "?target = md_state md")
    case True
    then have "res = Inr (st, kept)" using res by simp
    then show ?thesis using found ends True by auto
  next
    case False
    then have "res = Inr (put_module (mo_uid h) (trim_lifecycle config (enter_state moved md)) st, moved)"
      using res reconcile_target_allowed [OF False] by simp
    then show ?thesis using found ends reconcile_target_allowed [OF False] False by auto
  qed
qed

text \<open>
  C16. Reconciling never asks for an illegal move: it fails only for an invalid or stale authority, a
  generation conflict, or a missing or fenced module, and then changes nothing; otherwise the module
  is afterwards in the state that the health report of the moment asks for, which is the old state or
  one the lifecycle table allows next to it.
\<close>

theorem reconcile_total:
  "case reconcile_lifecycle ck auth h policy rg of
     (rg', Inl e) \<Rightarrow> e \<in> {InvalidArgument, StaleAuthority, StaleGeneration, NotFound, Fenced} \<and>
       rg_state rg' = rg_state rg
   | (rg', Inr ev) \<Rightarrow>
       (\<exists>md md'. oget (st_modules (rg_state rg)) (mo_uid h) = Some md \<and>
          oget (st_modules (rg_state rg')) (mo_uid h) = Some md' \<and>
          md_state md' = reconcile_target (build_health_report (rg_state rg) md (rg_config rg) ck) (md_state md) \<and>
          le_from ev = md_state md \<and> le_to ev = md_state md' \<and>
          (md_state md' = md_state md \<or> lifecycle_transition_allowed (md_state md) (md_state md')))"
proof -
  let ?stale = "require_generation policy \<and> id_valid (mo_generation h) \<and>
    mo_generation h \<noteq> st_generation (rg_state rg)"
  let ?st = "fst (next_sequence (rg_state rg))" and ?gen = "st_generation (rg_state rg) + 1"
  let ?body = "reconcile_lifecycle_body (rg_config rg) ck auth h ?st ?gen (snd (next_sequence (rg_state rg)))"
  have op: "reconcile_lifecycle ck auth h policy rg =
    (if ?stale then (refuse rg, Inl StaleGeneration)
     else case ?body of Inl e \<Rightarrow> (refuse rg, Inl e)
       | Inr (nxt, x) \<Rightarrow> (rg \<lparr> rg_state := publish ?gen nxt \<rparr>, Inr x))"
    by (simp add: reconcile_lifecycle_def mutate_def Let_def split_beta publish_def split: sum.split)
  show ?thesis
  proof (cases ?stale)
    case True
    then show ?thesis by (simp add: op refuse_def)
  next
    case False
    from reconcile_body_cases [OF refl, of "rg_config rg" ck auth h ?st ?gen "snd (next_sequence (rg_state rg))"]
    show ?thesis
    proof (elim disjE bexE exE conjE)
      fix e assume "e \<in> {InvalidArgument, StaleAuthority, NotFound, Fenced}" "?body = Inl e"
      then show ?thesis by (auto simp: op False refuse_def)
    next
      fix md st' ev
      assume *: "?body = Inr (st', ev)" "oget (st_modules ?st) (mo_uid h) = Some md"
        "le_from ev = md_state md"
        "le_to ev = reconcile_target (build_health_report ?st md (rg_config rg) ck) (md_state md)"
        "if le_to ev = md_state md then st' = ?st
         else lifecycle_transition_allowed (md_state md) (le_to ev) \<and>
          st' = put_module (mo_uid h) (trim_lifecycle (rg_config rg) (enter_state ev md)) ?st"
      have "\<exists>md'. oget (st_modules st') (mo_uid h) = Some md' \<and> md_state md' = le_to ev \<and>
          (md_state md' = md_state md \<or> lifecycle_transition_allowed (md_state md) (md_state md'))"
        using *(2,5)
        by (auto simp: put_module_def trim_lifecycle_def enter_state_def push_event_def split: if_splits)
      then show ?thesis
        using *(2-4) by (simp only: op False *(1)) (auto simp: publish_def)
    qed
  qed
qed

section \<open>What a health report rests on\<close>

lemma report_row_metrics:
  "rs_metrics (report_row st md config now sc row) =
     rs_metrics sc @ [row_metric st md (row_classification st md config now row) row]"
  by (cases "mh_state (row_metric st md (row_classification st md config now row) row)")
    (simp_all add: report_row_def Let_def)

definition row_health :: "State \<Rightarrow> ModuleRecord \<Rightarrow> RegistryConfig \<Rightarrow> WallNs \<Rightarrow> HealthMetric \<times> lane \<Rightarrow> MetricHealth" where
  "row_health st md config now row = row_metric st md (row_classification st md config now row) row"

lemma scan_metrics:
  "rs_metrics (foldl (report_row st md config now) sc rows) =
     rs_metrics sc @ map (row_health st md config now) rows"
  by (induction rows arbitrary: sc) (simp_all add: report_row_metrics row_health_def)

lemma report_metrics:
  "hr_metrics (build_health_report st md config ck) =
     map (row_health st md config (ck_wall ck)) (report_rows st md)"
  by (simp add: build_health_report_def Let_def split_beta scan_metrics report_scan_empty_def)

lemma zone_hysteresis: "is_threshold_zone s \<longleftrightarrow> is_hysteresis_state s"
  by (simp add: is_threshold_zone_def is_hysteresis_state_def)

lemma report_metric_evidence:
  assumes m: "m \<in> set (hr_metrics (build_health_report st md config ck))"
    and zone: "is_threshold_zone (mh_state m)"
  shows "\<exists>t s. select_threshold (live_thresholds st) (mh_metric m) (mh_lane m) = Some t \<and>
    s \<in> set (md_samples md) \<and> hs_metric s = mh_metric m \<and> hs_lane s = mh_lane m \<and>
    hs_module s = md_uid md \<and> hs_incarnation s = md_incarnation md \<and>
    source_is_live st (hs_source s) (hs_source_epoch s) \<and>
    usable_sample (ck_wall ck) (cf_max_future_skew_ns config) (ht_max_age_ns t) s \<and>
    mh_value m = Some (hs_value s)"
proof -
  obtain row where row: "m = row_metric st md (row_classification st md config (ck_wall ck) row) row"
    using m by (auto simp: report_metrics row_health_def)
  let ?c = "row_classification st md config (ck_wall ck) row"
  have key: "mh_metric m = fst row" "mh_lane m = snd row" "mh_value m = se_value ?c"
    by (simp_all add: row row_metric_def Let_def split: option.split)
  have "is_threshold_zone (se_state ?c)"
  proof (rule ccontr)
    assume n: "\<not> is_threshold_zone (se_state ?c)"
    then have "mh_state m = se_state ?c" by (simp add: row row_metric_def Let_def)
    then show False using zone n by simp
  qed
  then obtain t s where t: "select_threshold (live_thresholds st) (fst row) (snd row) = Some t"
    and s: "newest_of_source (md_uid md) (md_incarnation md) (row_series st md row) s"
    and u: "usable_sample (ck_wall ck) (cf_max_future_skew_ns config) (ht_max_age_ns t) s"
    and v: "se_value ?c = Some (hs_value s)"
    unfolding zone_hysteresis row_classification_def
    using series_zone_evidence [of "row_series st md row"] by blast
  then obtain s0 where s0: "s0 \<in> set (md_samples md)" "(hs_metric s, hs_lane s) = row"
      "s = s0 \<lparr> hs_live := hs_incarnation s0 = md_incarnation md \<and>
                             source_is_live st (hs_source s0) (hs_source_epoch s0) \<rparr>"
    by (auto simp: newest_of_source_def row_series_def report_samples_def)
  have "usable_sample (ck_wall ck) (cf_max_future_skew_ns config) (ht_max_age_ns t) s0"
    using u by (simp add: s0(3) usable_sample_def sample_age_def cong: if_cong)
  moreover have "hs_module s0 = md_uid md" "hs_incarnation s0 = md_incarnation md"
    "source_is_live st (hs_source s0) (hs_source_epoch s0)"
    using s by (simp_all add: newest_of_source_def current_sample_def s0(3))
  moreover have "hs_metric s0 = fst row" "hs_lane s0 = snd row" "hs_value s = hs_value s0"
    using s0(2,3) by auto
  ultimately show ?thesis using t v s0(1) key by auto
qed

text \<open>
  C6. A metric of a health report is called ok, degraded or critical only on evidence: there is a
  live threshold for its series, and a stored sample of that very series, of the module's current
  incarnation and from a source at its current epoch, that is present, not from the future and not
  older than the threshold permits, and whose value the report shows.
\<close>

theorem report_zone_evidence:
  assumes m: "m \<in> set (hr_metrics (build_health_report st md config ck))"
    and zone: "is_threshold_zone (mh_state m)"
  shows "\<exists>t s. select_threshold (live_thresholds st) (mh_metric m) (mh_lane m) = Some t \<and>
    s \<in> set (md_samples md) \<and> hs_metric s = mh_metric m \<and> hs_lane s = mh_lane m \<and>
    hs_module s = md_uid md \<and> hs_incarnation s = md_incarnation md \<and>
    source_is_live st (hs_source s) (hs_source_epoch s) \<and>
    usable_sample (ck_wall ck) (cf_max_future_skew_ns config) (ht_max_age_ns t) s \<and>
    mh_value m = Some (hs_value s)"
  by (rule report_metric_evidence [OF assms])

text \<open>What the loop over the rows has counted.\<close>

definition fresh_state :: "MetricState \<Rightarrow> bool" where
  "fresh_state s \<longleftrightarrow> s = MS_Unclassified \<or> is_threshold_zone s"

definition scan_ok :: "ReportScan \<Rightarrow> bool" where
  "scan_ok sc \<longleftrightarrow>
     (let states = map mh_state (rs_metrics sc)
      in rs_fresh sc = length (filter fresh_state states) \<and>
         rs_stale sc = length (filter (\<lambda>s. s = MS_Stale) states) \<and>
         rs_unknown sc = length (filter (\<lambda>s. s = MS_Unknown) states) \<and>
         rs_conflicting sc = length (filter (\<lambda>s. s = MS_Conflicting) states) \<and>
         rs_fenced sc = length (filter (\<lambda>s. s = MS_Fenced) states) \<and>
         (states \<noteq> [] \<longrightarrow> rs_worst sc \<in> set states \<and>
            (\<forall>s \<in> set states. metric_state_severity s \<le> metric_state_severity (rs_worst sc))))"

lemma report_row_ok: "scan_ok sc \<Longrightarrow> scan_ok (report_row st md config now sc row)"
  by (cases "mh_state (row_metric st md (row_classification st md config now row) row)")
    (auto simp: scan_ok_def report_row_def Let_def fresh_state_def is_threshold_zone_def
      split: if_splits intro: order_trans)

lemma scan_rows_ok: "scan_ok sc \<Longrightarrow> scan_ok (foldl (report_row st md config now) sc rows)"
  by (induction rows arbitrary: sc) (simp_all add: report_row_ok)

lemma length_filter_all: "length (filter P xs) = length xs \<longleftrightarrow> Ball (set xs) P"
  by (metis filter_True length_filter_less less_irrefl)

lemma severity_zero: "metric_state_severity s = 0 \<longleftrightarrow> s = MS_Ok"
  by (cases s) simp_all


section \<open>Replacement starts blank\<close>

lemma op_register_module:
  assumes "snd (register_module ck r auth rg) = Inr h"
  obtains nxt where "validate_registration r = Inr ()"
    "register_module_body (rg_config rg) ck r auth (fst (next_sequence (rg_state rg)))
       (st_generation (rg_state rg) + 1) (snd (next_sequence (rg_state rg))) = Inr (nxt, h)"
    "rg_state (fst (register_module ck r auth rg)) = publish (st_generation (rg_state rg) + 1) nxt"
  using assms unfolding register_module_def checked_def mutate_def Let_def publish_def
  by (auto simp: split_beta split: sum.splits if_splits)

text \<open>All evidence of a module is older than its incarnation.\<close>

definition no_current_evidence :: "ModuleRecord \<Rightarrow> bool" where
  "no_current_evidence md \<longleftrightarrow>
     (\<forall>c \<in> set (md_claims md). ic_incarnation c < md_incarnation md) \<and>
     (\<forall>d \<in> set (md_declarations md). cd_incarnation d < md_incarnation md) \<and>
     (\<forall>s \<in> set (md_samples md). hs_incarnation s < md_incarnation md)"

lemma finish_registration_blank:
  assumes fin: "finish_registration config ck r auth gen sq md = Inr md'"
    and blank: "no_current_evidence md" and none: "rn_identity r = []"
  shows "no_current_evidence md'" "md_incarnation md' = md_incarnation md" "md_uid md' = md_uid md"
proof -
  obtain md1 md2 where d: "register_discovered ck auth gen sq md = Inr md1"
    and t: "trim_claims md1 (cf_max_claims_per_module config) (cf_max_claim_history config) = Inr md2"
    and md': "md' = trim_lifecycle config md2"
    using fin none unfolding finish_registration_def Let_def by (auto simp: try_res_Inr)
  have md1: "md_claims md1 = md_claims md" "md_declarations md1 = md_declarations md"
    "md_samples md1 = md_samples md" "md_incarnation md1 = md_incarnation md" "md_uid md1 = md_uid md"
    by (cases rule: register_discovered_Inr [OF d]; simp add: enter_state_def push_event_def)+
  obtain claims where md2: "md2 = md1 \<lparr> md_claims := claims \<rparr>" "set claims \<subseteq> set (md_claims md1)"
    by (rule trim_claims_Inr [OF t])
  show "no_current_evidence md'" "md_incarnation md' = md_incarnation md" "md_uid md' = md_uid md"
    using blank md1 md2(2) by (auto simp: md' md2(1) no_current_evidence_def trim_lifecycle_def)
qed

lemma blank_views:
  assumes md: "oget (st_modules st) (mo_uid h) = Some md" "md_incarnation md = mo_incarnation h"
    and blank: "no_current_evidence md"
  shows "\<exists>v. identity h st = Inr v \<and> vw_fields v = []"
    "\<exists>v. capabilities h st = Inr v \<and> cw_attributes v = []"
    "\<exists>r. health config ck h st = Inr r \<and> (\<forall>m \<in> set (hr_metrics r). \<not> is_threshold_zone (mh_state m))"
proof -
  have cur: "current_module st (mo_uid h) (mo_incarnation h) = Inr md"
    using md by (simp add: current_module_def incarnation_is_current_def)
  have "live_claims st md (md_incarnation md) = []" "live_declarations st md (md_incarnation md) = []"
    using blank by (auto simp: live_claims_def live_declarations_def no_current_evidence_def filter_empty_conv)
  then show "\<exists>v. identity h st = Inr v \<and> vw_fields v = []"
    "\<exists>v. capabilities h st = Inr v \<and> cw_attributes v = []"
    by (simp_all add: identity_def capabilities_def cur Let_def capability_view_def
        build_identity_consensus_def build_capability_consensus_def)
  have "\<not> is_threshold_zone (mh_state m)"
    if m: "m \<in> set (hr_metrics (build_health_report st md config ck))" for m
  proof
    assume "is_threshold_zone (mh_state m)"
    from report_metric_evidence [OF m this] obtain s where "s \<in> set (md_samples md)"
      "hs_incarnation s = md_incarnation md" by blast
    then show False using blank by (auto simp: no_current_evidence_def)
  qed
  then show "\<exists>r. health config ck h st = Inr r \<and>
      (\<forall>m \<in> set (hr_metrics r). \<not> is_threshold_zone (mh_state m))"
    by (simp add: health_def cur)
qed



text \<open>A module with one hot reading from a live source.\<close>

definition example_state :: State where
  "example_state = State_init \<lparr>
     st_sources := [(1, \<lparr> so_id = 1, so_name = ''s'', so_epoch = 1, so_descriptor = example_descriptor,
       so_generation = 1, so_sequence = 1, so_registered_wall_ns = 0 \<rparr>)],
     st_thresholds := [\<lparr> tr_threshold = threshold_example, tr_generation = 1, tr_sequence = 1,
       tr_live = True \<rparr>] \<rparr>"

definition example_module_record :: ModuleRecord where
  "example_module_record =
     new_module example_clock ''m'' example_authority 1 1 1 \<lparr>
       md_samples := [example_sample 1 (dbl_of_int 85) 960] \<rparr>"

lemma example_report:
  "\<exists>m. hr_metrics (build_health_report example_state example_module_record config_default example_clock) = [m] \<and>
     mh_state m = MS_Critical"
proof -
  let ?row = "(HM_TemperatureCelsius, kModuleLane)"
  have live: "live_thresholds example_state = [threshold_example]"
    by (simp add: live_thresholds_def example_state_def)
  have fields: "md_samples example_module_record = [example_sample 1 (dbl_of_int 85) 960]"
    "md_uid example_module_record = 1" "md_incarnation example_module_record = 1"
    "md_declarations example_module_record = []" "md_latches example_module_record = []"
    by (simp_all add: example_module_record_def new_module_def push_event_def)
  have keys: "ht_metric threshold_example = HM_TemperatureCelsius" "ht_lane threshold_example = kModuleLane"
    "hs_metric (example_sample 1 v at) = HM_TemperatureCelsius" "hs_lane (example_sample 1 v at) = kModuleLane"
    "ht_max_age_ns threshold_example = 60" "ht_live threshold_example" "hs_source_epoch (example_sample 1 v at) = 1" for v at
    by (simp_all add: threshold_example_def example_sample_def)
  have rows: "report_rows example_state example_module_record = [?row]"
    by (simp add: report_rows_def live fields keys add_row_def)
  have "source_is_live example_state 1 1"
    by (simp add: source_is_live_def example_state_def oget_def)
  then have "report_samples example_state example_module_record = [example_sample 1 (dbl_of_int 85) 960]"
    by (simp add: report_samples_def fields keys)
  then have series: "row_series example_state example_module_record ?row = [example_sample 1 (dbl_of_int 85) 960]"
    by (simp add: row_series_def keys)
  have select: "select_threshold [threshold_example] HM_TemperatureCelsius kModuleLane = Some threshold_example"
    by (simp add: select_threshold_def select_step_def keys)
  have z: "classify_value threshold_example (dbl_of_int 85) = MS_Critical"
    by (simp add: classify_value_def threshold_example_eval)
  have "se_state (row_classification example_state example_module_record config_default 1000 ?row) = MS_Critical"
    by (simp add: row_classification_def series live select fields classify_series_parts example_evidence
        classify_thresholded_def fresh_step_def fresh_scan_empty_def sample_age_def newer_def keys z Let_def
        config_default_def)
  then show ?thesis
    by (simp add: report_metrics rows row_health_def row_metric_def Let_def find_latch_def fields
        example_clock_def)
qed

lemma report_zone_evidence_witness:
  "\<exists>s \<in> set (md_samples example_module_record).
     source_is_live example_state (hs_source s) (hs_source_epoch s)"
proof -
  obtain m where m: "m \<in> set (hr_metrics (build_health_report example_state example_module_record
      config_default example_clock))" "mh_state m = MS_Critical"
    using example_report by auto
  have "is_threshold_zone (mh_state m)" by (simp add: m(2) is_threshold_zone_def)
  from report_zone_evidence [OF m(1) this] show ?thesis by blast
qed


section \<open>Two gaps in the attachment bookkeeping\<close>

definition gap_config :: RegistryConfig where
  "gap_config = config_default \<lparr> cf_max_attachments := 1 \<rparr>"

definition gap_handle :: "ModuleUid \<Rightarrow> ModuleHandle" where
  "gap_handle uid = \<lparr> mo_uid = uid, mo_incarnation = 1, mo_generation = 0, mo_key = [] \<rparr>"

definition gap_register :: "string \<Rightarrow> RegisterIntent \<Rightarrow> op" where
  "gap_register key intent =
     Register_module (example_registration intent \<lparr> rn_key := key, rn_identity := [] \<rparr>) example_authority"

definition gap_attach :: "ModuleUid \<Rightarrow> string \<Rightarrow> op" where
  "gap_attach uid slot = Attach example_authority (gap_handle uid) slot 0 MP_AutoRetry"

definition gap_move :: "ModuleUid \<Rightarrow> LifecycleState \<Rightarrow> op" where
  "gap_move uid s = Transition example_authority (gap_handle uid) s [] MP_AutoRetry"

definition gap_run :: "op list \<Rightarrow> State" where
  "gap_run ops = rg_state (run (at_clock (hd example_start # ops)) (Registry_init gap_config))"

text \<open>
  The attachment limit is checked only for a slot that has never been used: with a limit of one,
  attaching, detaching, attaching elsewhere and attaching the first slot again leaves two live
  attachments.
\<close>

theorem attachment_limit_bypassed:
  "map (\<lambda>(slot, a). (slot, ar_live a))
     (st_attachments (gap_run
       [gap_register ''a'' RI_EnsureCurrent, gap_register ''b'' RI_EnsureCurrent,
        gap_attach 1 ''p'', Detach example_authority ''p'' MP_AutoRetry, gap_attach 2 ''q'',
        gap_move 1 LS_Registered, gap_attach 1 ''p''])) = [(''p'', True), (''q'', True)] \<and>
   cf_max_attachments gap_config = 1"
  by code_simp

text \<open>
  Replacing a retired module does not fence its attachment: a slot taken by an incarnation that
  was quarantined and retired in place is still reported as live when the next incarnation exists.
\<close>

theorem retired_replacement_keeps_attachment:
  "let st = gap_run
     [gap_register ''a'' RI_EnsureCurrent, gap_attach 1 ''p'', gap_move 1 LS_Quarantined,
      gap_move 1 LS_Retired, gap_register ''a'' RI_NewIncarnation]
   in map (\<lambda>(slot, a). (ar_uid a, ar_incarnation a, ar_live a)) (st_attachments st) = [(1, 1, True)] \<and>
      map (\<lambda>(uid, md). (uid, md_incarnation md)) (st_modules st) = [(1, 2)]"
  by code_simp

end
