(* ===== verification/Codec.thy ===== *)
theory Codec
  imports Reports
begin

text \<open>
  The record codecs of \<open>src/src/codec.cpp\<close>: every record that is stored or sent has an encoder into a
  canonical object and a decoder that checks presence, type, range and enumeration of each member in
  the order of the code. \<open>encode_X\<close> and \<open>decode_X\<close> are \<open>Codec<X>::encode\<close> and
  \<open>Codec<X>::decode\<close>.

  A few C++ structs carry members the rest of the model leaves out; they are extended here so
  that the documents are complete: the diagnostic text of a requirement evaluation and of a decision,
  the state digest of the statistics. A metric's optional value and age are the C++ pairs
  \<open>has_value\<close>/\<open>value\<close> and \<open>has_age\<close>/\<open>age_ns\<close>, whose second part is zero while unset.
\<close>

record DetailedEvaluation = RequirementEvaluation +
  re_detail :: string

record DetailedRule =
  dr_id :: RuleId
  dr_name :: string
  dr_verdict :: CompatVerdict
  dr_priority :: "32 word"
  dr_generation :: Generation
  dr_rationale :: string
  dr_requirements :: "DetailedEvaluation list"

record DetailedDecision =
  dd_outcome :: CompatOutcome
  dd_closure :: KnowledgeClosure
  dd_port :: string
  dd_uid :: ModuleUid
  dd_incarnation :: IncarnationId
  dd_generation :: Generation
  dd_considered_rules :: "32 word"
  dd_indeterminate_rules :: "32 word"
  dd_matched_rules :: "DetailedRule list"
  dd_unmet_requirements :: "DetailedEvaluation list"
  dd_violated_requirements :: "DetailedEvaluation list"
  dd_inputs_digest :: Digest
  dd_decision_digest :: Digest
  dd_evaluated_at_wall_ns :: WallNs
  dd_clock_domain :: ClockDomainId
  dd_explanation :: string

record DigestedStats = RegistryStats +
  rt_state_digest :: Digest

record LoadReport =
  ld_format_version :: "16 word"
  ld_generation :: Generation
  ld_registry_incarnation :: "32 word"
  ld_modules :: "64 word"
  ld_incarnations :: "64 word"
  ld_sources :: "64 word"
  ld_ports :: "64 word"
  ld_rules :: "64 word"
  ld_thresholds :: "64 word"
  ld_claims :: "64 word"
  ld_declarations :: "64 word"
  ld_samples :: "64 word"
  ld_fenced_incarnations :: "64 word"
  ld_evidence_invalidated_on_load :: "64 word"
  ld_tail_recovered :: bool
  ld_dropped_tail_bytes :: "64 word"
  ld_recovery_note :: string
  ld_content_digest :: Digest
  ld_loaded_at_wall_ns :: WallNs

section \<open>Field helpers\<close>

text \<open>\<open>get_enum_field\<close>: the number of an enumerator up to the last one, the list being all of them.\<close>

definition get_enum_field :: "'e list \<Rightarrow> Value \<Rightarrow> string \<Rightarrow> 'e res" where
  "get_enum_field es obj key = try_res (get_integer obj key)
     (\<lambda>raw. if sint raw < 0 \<or> sint raw > int (length es) - 1 then Inl Malformed
            else Inr (es ! nat (sint raw)))"

definition get_u16 :: "Value \<Rightarrow> string \<Rightarrow> 16 word res" where
  "get_u16 obj key = try_res (get_unsigned obj key)
     (\<lambda>raw. if raw > 0xffff then Inl Malformed else Inr (ucast raw))"

definition get_u32 :: "Value \<Rightarrow> string \<Rightarrow> 32 word res" where
  "get_u32 obj key = try_res (get_unsigned obj key)
     (\<lambda>raw. if raw > 0xffffffff then Inl Malformed else Inr (ucast raw))"

definition get_i32 :: "Value \<Rightarrow> string \<Rightarrow> 32 word res" where
  "get_i32 obj key = try_res (get_integer obj key)
     (\<lambda>raw. if sint raw < - (2 ^ 31) \<or> sint raw > 2 ^ 31 - 1 then Inl Malformed
            else Inr (scast raw))"

definition get_finite_real :: "Value \<Rightarrow> string \<Rightarrow> double res" where
  "get_finite_real obj key = try_res (get_real obj key)
     (\<lambda>raw. if \<not> isfinite raw then Inl Malformed else Inr raw)"

definition get_record :: "(Value \<Rightarrow> 'a res) \<Rightarrow> Value \<Rightarrow> string \<Rightarrow> 'a res" where
  "get_record decode obj key = try_res (require_field obj key) decode"

definition get_record_array :: "(Value \<Rightarrow> 'a res) \<Rightarrow> Value \<Rightarrow> string \<Rightarrow> 'a list res" where
  "get_record_array decode obj key = try_res (get_array obj key) (map_res decode)"

definition encode_record_array :: "('a \<Rightarrow> Value) \<Rightarrow> 'a list \<Rightarrow> Value" where
  "encode_record_array encode xs = VArray (map encode xs)"

definition get_digest_field :: "Value \<Rightarrow> string \<Rightarrow> Digest res" where
  "get_digest_field obj key = try_res (get_text obj key)
     (\<lambda>text. case from_hex text of Inl _ \<Rightarrow> Inl Malformed | Inr d \<Rightarrow> Inr d)"

definition get_key :: "Value \<Rightarrow> string \<Rightarrow> string res" where
  "get_key obj key = try_res (get_text obj key)
     (\<lambda>text. if text = [] then Inr [] else parse_key text)"

section \<open>Enumerators in declaration order\<close>

definition EvidenceKind_all :: "EvidenceKind list" where
  "EvidenceKind_all =
     [EK_Real, EK_Synthetic, EK_Unsupported]"

definition IdentityField_all :: "IdentityField list" where
  "IdentityField_all =
     [IF_Unknown, IF_Vendor, IF_PartNumber, IF_SerialNumber, IF_Revision, IF_VendorOui,
      IF_DateCode, IF_FirmwareVersion, IF_FirmwareBuild, IF_EepromContentDigest, IF_VendorSpecific]"

definition ConsensusOutcome_all :: "ConsensusOutcome list" where
  "ConsensusOutcome_all =
     [CO_Unknown, CO_SingleSource, CO_Agreed, CO_Conflicting, CO_Superseded]"

definition LifecycleState_all :: "LifecycleState list" where
  "LifecycleState_all =
     [LS_Discovered, LS_Registered, LS_Attached, LS_Active, LS_Degraded, LS_Quarantined,
      LS_Removed, LS_Retired, LS_Replaced]"

definition RegisterIntent_all :: "RegisterIntent list" where
  "RegisterIntent_all =
     [RI_EnsureCurrent, RI_NewIncarnation]"

definition MutationPolicy_all :: "MutationPolicy list" where
  "MutationPolicy_all =
     [MP_RequireGeneration, MP_AutoRetry]"

definition WavelengthGrid_all :: "WavelengthGrid list" where
  "WavelengthGrid_all =
     [WG_Unknown, WG_None, WG_Cwdm4, WG_LanWdm, WG_Dwdm, WG_Swdm, WG_Unsupported]"

definition CapabilityKey_all :: "CapabilityKey list" where
  "CapabilityKey_all =
     [CK_Unknown, CK_ModuleFamily, CK_MediaClass, CK_ConnectorClass, CK_LaneCount,
      CK_SpeedClasses, CK_Encodings, CK_FecModes, CK_Wavelengths, CK_WavelengthGrid,
      CK_WavelengthTunable, CK_ReachClass, CK_PowerClass, CK_MaxPowerMilliWatts,
      CK_OperatingTemperatureMinCelsius, CK_OperatingTemperatureMaxCelsius,
      CK_TemperatureTelemetry, CK_VoltageTelemetry, CK_TxPowerTelemetry, CK_RxPowerTelemetry,
      CK_BiasCurrentTelemetry, CK_LaneSkewTelemetry, CK_DigitalDiagnosticMonitoring,
      CK_VendorSpecific, CK_Unsupported]"

definition HealthMetric_all :: "HealthMetric list" where
  "HealthMetric_all =
     [HM_Unknown, HM_TemperatureCelsius, HM_SupplyVoltageVolts, HM_TxPowerDbm, HM_RxPowerDbm,
      HM_TxBiasCurrentMilliamps, HM_LaneSkewPicoseconds, HM_Unsupported]"

definition SamplePresence_all :: "SamplePresence list" where
  "SamplePresence_all =
     [SP_Present, SP_NotAvailable, SP_ReadError, SP_NotSupported]"

definition ThresholdDirection_all :: "ThresholdDirection list" where
  "ThresholdDirection_all =
     [TD_Above, TD_Below]"

definition MetricState_all :: "MetricState list" where
  "MetricState_all =
     [MS_Unknown, MS_Ok, MS_Degraded, MS_Critical, MS_Stale, MS_Conflicting, MS_Unclassified,
      MS_Fenced]"

definition HealthIssueKind_all :: "HealthIssueKind list" where
  "HealthIssueKind_all =
     [HI_Missing, HI_Stale, HI_Fenced, HI_SourceConflict, HI_NoThreshold, HI_NotAvailable,
      HI_ReadError, HI_NotSupported, HI_FutureTimestamp, HI_OutOfRange, HI_SupersededThreshold]"

definition HealthOutcome_all :: "HealthOutcome list" where
  "HealthOutcome_all =
     [HO_Unknown, HO_Fresh, HO_Partial, HO_Stale, HO_Conflicting, HO_Fenced]"

definition RequirementSubject_all :: "RequirementSubject list" where
  "RequirementSubject_all =
     [RSub_Module, RSub_Port]"

definition RequirementOp_all :: "RequirementOp list" where
  "RequirementOp_all =
     [RO_Unknown, RO_Equals, RO_NotEquals, RO_In, RO_NotIn, RO_SupersetOf, RO_SubsetOf,
      RO_Overlaps, RO_DisjointFrom, RO_AtMost, RO_AtLeast]"

definition RequirementState_all :: "RequirementState list" where
  "RequirementState_all =
     [RSt_Satisfied, RSt_Violated, RSt_Indeterminate]"

definition CompatVerdict_all :: "CompatVerdict list" where
  "CompatVerdict_all =
     [CV_Unknown, CV_Compatible, CV_Incompatible, CV_Unsupported]"

definition CompatOutcome_all :: "CompatOutcome list" where
  "CompatOutcome_all =
     [CoO_Unknown, CoO_Compatible, CoO_Incompatible, CoO_Unsupported]"

definition KnowledgeClosure_all :: "KnowledgeClosure list" where
  "KnowledgeClosure_all =
     [KC_Open, KC_Partial, KC_Closed]"

lemmas all_defs =
  EvidenceKind_all_def IdentityField_all_def ConsensusOutcome_all_def LifecycleState_all_def
  RegisterIntent_all_def MutationPolicy_all_def WavelengthGrid_all_def CapabilityKey_all_def
  HealthMetric_all_def SamplePresence_all_def ThresholdDirection_all_def MetricState_all_def
  HealthIssueKind_all_def HealthOutcome_all_def RequirementSubject_all_def RequirementOp_all_def
  RequirementState_all_def CompatVerdict_all_def CompatOutcome_all_def KnowledgeClosure_all_def

text \<open>The number of an enumerator is its position.\<close>

lemma EvidenceKind_all [simp]:
  "EvidenceKind_code e < length EvidenceKind_all" "EvidenceKind_all ! EvidenceKind_code e = e"
  "length EvidenceKind_all \<le> 256"
  by (cases e; simp add: EvidenceKind_all_def)+

lemma IdentityField_all [simp]:
  "IdentityField_code e < length IdentityField_all" "IdentityField_all ! IdentityField_code e = e"
  "length IdentityField_all \<le> 256"
  by (cases e; simp add: IdentityField_all_def)+

lemma ConsensusOutcome_all [simp]:
  "ConsensusOutcome_code e < length ConsensusOutcome_all" "ConsensusOutcome_all ! ConsensusOutcome_code e = e"
  "length ConsensusOutcome_all \<le> 256"
  by (cases e; simp add: ConsensusOutcome_all_def)+

lemma LifecycleState_all [simp]:
  "LifecycleState_code e < length LifecycleState_all" "LifecycleState_all ! LifecycleState_code e = e"
  "length LifecycleState_all \<le> 256"
  by (cases e; simp add: LifecycleState_all_def)+

lemma RegisterIntent_all [simp]:
  "RegisterIntent_code e < length RegisterIntent_all" "RegisterIntent_all ! RegisterIntent_code e = e"
  "length RegisterIntent_all \<le> 256"
  by (cases e; simp add: RegisterIntent_all_def)+

lemma MutationPolicy_all [simp]:
  "MutationPolicy_code e < length MutationPolicy_all" "MutationPolicy_all ! MutationPolicy_code e = e"
  "length MutationPolicy_all \<le> 256"
  by (cases e; simp add: MutationPolicy_all_def)+

lemma WavelengthGrid_all [simp]:
  "WavelengthGrid_code e < length WavelengthGrid_all" "WavelengthGrid_all ! WavelengthGrid_code e = e"
  "length WavelengthGrid_all \<le> 256"
  by (cases e; simp add: WavelengthGrid_all_def)+

lemma CapabilityKey_all [simp]:
  "CapabilityKey_code e < length CapabilityKey_all" "CapabilityKey_all ! CapabilityKey_code e = e"
  "length CapabilityKey_all \<le> 256"
  by (cases e; simp add: CapabilityKey_all_def)+

lemma HealthMetric_all [simp]:
  "HealthMetric_code e < length HealthMetric_all" "HealthMetric_all ! HealthMetric_code e = e"
  "length HealthMetric_all \<le> 256"
  by (cases e; simp add: HealthMetric_all_def)+

lemma SamplePresence_all [simp]:
  "SamplePresence_code e < length SamplePresence_all" "SamplePresence_all ! SamplePresence_code e = e"
  "length SamplePresence_all \<le> 256"
  by (cases e; simp add: SamplePresence_all_def)+

lemma ThresholdDirection_all [simp]:
  "ThresholdDirection_code e < length ThresholdDirection_all" "ThresholdDirection_all ! ThresholdDirection_code e = e"
  "length ThresholdDirection_all \<le> 256"
  by (cases e; simp add: ThresholdDirection_all_def)+

lemma MetricState_all [simp]:
  "MetricState_code e < length MetricState_all" "MetricState_all ! MetricState_code e = e"
  "length MetricState_all \<le> 256"
  by (cases e; simp add: MetricState_all_def)+

lemma HealthIssueKind_all [simp]:
  "HealthIssueKind_code e < length HealthIssueKind_all" "HealthIssueKind_all ! HealthIssueKind_code e = e"
  "length HealthIssueKind_all \<le> 256"
  by (cases e; simp add: HealthIssueKind_all_def)+

lemma HealthOutcome_all [simp]:
  "HealthOutcome_code e < length HealthOutcome_all" "HealthOutcome_all ! HealthOutcome_code e = e"
  "length HealthOutcome_all \<le> 256"
  by (cases e; simp add: HealthOutcome_all_def)+

lemma RequirementSubject_all [simp]:
  "RequirementSubject_code e < length RequirementSubject_all" "RequirementSubject_all ! RequirementSubject_code e = e"
  "length RequirementSubject_all \<le> 256"
  by (cases e; simp add: RequirementSubject_all_def)+

lemma RequirementOp_all [simp]:
  "RequirementOp_code e < length RequirementOp_all" "RequirementOp_all ! RequirementOp_code e = e"
  "length RequirementOp_all \<le> 256"
  by (cases e; simp add: RequirementOp_all_def)+

lemma RequirementState_all [simp]:
  "RequirementState_code e < length RequirementState_all" "RequirementState_all ! RequirementState_code e = e"
  "length RequirementState_all \<le> 256"
  by (cases e; simp add: RequirementState_all_def)+

lemma CompatVerdict_all [simp]:
  "CompatVerdict_code e < length CompatVerdict_all" "CompatVerdict_all ! CompatVerdict_code e = e"
  "length CompatVerdict_all \<le> 256"
  by (cases e; simp add: CompatVerdict_all_def)+

lemma CompatOutcome_all [simp]:
  "CompatOutcome_code e < length CompatOutcome_all" "CompatOutcome_all ! CompatOutcome_code e = e"
  "length CompatOutcome_all \<le> 256"
  by (cases e; simp add: CompatOutcome_all_def)+

lemma KnowledgeClosure_all [simp]:
  "KnowledgeClosure_code e < length KnowledgeClosure_all" "KnowledgeClosure_all ! KnowledgeClosure_code e = e"
  "length KnowledgeClosure_all \<le> 256"
  by (cases e; simp add: KnowledgeClosure_all_def)+

section \<open>Provenance and source identity\<close>

definition encode_Provenance :: "Provenance \<Rightarrow> Value" where
  "encode_Provenance x = value_object
     [(''capture_ref'', VText (pv_capture_ref x)),
      (''content_digest'', VText (to_hex (pv_content_digest x))),
      (''kind'', VInteger (word_of_nat (EvidenceKind_code (pv_kind x)))),
      (''method'', VText (pv_method x)), (''origin'', VText (pv_origin x))]"

definition decode_Provenance :: "Value \<Rightarrow> Provenance res" where
  "decode_Provenance encoded =
     try_res (as_object encoded) (\<lambda>_.
     try_res (get_enum_field EvidenceKind_all encoded ''kind'') (\<lambda>kind'.
     try_res (get_text encoded ''origin'') (\<lambda>origin'.
     try_res (get_text encoded ''method'') (\<lambda>method'.
     try_res (get_digest_field encoded ''content_digest'') (\<lambda>content_digest'.
     try_res (get_text encoded ''capture_ref'') (\<lambda>capture_ref'.
     Inr \<lparr>pv_kind = kind', pv_origin = origin', pv_method = method',
          pv_content_digest = content_digest', pv_capture_ref = capture_ref'\<rparr>))))))"

definition encode_SourceDescriptor :: "SourceDescriptor \<Rightarrow> Value" where
  "encode_SourceDescriptor x = value_object
     [(''declared_kind'', VInteger (word_of_nat (EvidenceKind_code (ds_declared_kind x)))),
      (''description'', VText (ds_description x)), (''instance_id'', VText (ds_instance_id x)),
      (''name'', VText (ds_name x))]"

definition decode_SourceDescriptor :: "Value \<Rightarrow> SourceDescriptor res" where
  "decode_SourceDescriptor encoded =
     try_res (as_object encoded) (\<lambda>_.
     try_res (get_text encoded ''name'') (\<lambda>name'.
     try_res (get_text encoded ''description'') (\<lambda>description'.
     try_res (get_enum_field EvidenceKind_all encoded ''declared_kind'') (\<lambda>declared_kind'.
     try_res (get_text encoded ''instance_id'') (\<lambda>instance_id'.
     Inr \<lparr>ds_name = name', ds_description = description', ds_declared_kind = declared_kind',
          ds_instance_id = instance_id'\<rparr>)))))"

definition encode_SourceHandle :: "SourceHandle \<Rightarrow> Value" where
  "encode_SourceHandle x = value_object
     [(''epoch'', VInteger (ucast (sh_epoch x))), (''generation'', VInteger (sh_generation x)),
      (''id'', VInteger (ucast (sh_id x)))]"

definition decode_SourceHandle :: "Value \<Rightarrow> SourceHandle res" where
  "decode_SourceHandle encoded =
     try_res (as_object encoded) (\<lambda>_.
     try_res (get_u32 encoded ''id'') (\<lambda>id'.
     try_res (get_u32 encoded ''epoch'') (\<lambda>epoch'.
     try_res (get_unsigned encoded ''generation'') (\<lambda>generation'.
     Inr \<lparr>sh_id = id', sh_epoch = epoch', sh_generation = generation'\<rparr>))))"

definition encode_ModuleHandle :: "ModuleHandle \<Rightarrow> Value" where
  "encode_ModuleHandle x = value_object
     [(''generation'', VInteger (mo_generation x)),
      (''incarnation'', VInteger (ucast (mo_incarnation x))), (''key'', VText (mo_key x)),
      (''uid'', VInteger (mo_uid x))]"

definition decode_ModuleHandle :: "Value \<Rightarrow> ModuleHandle res" where
  "decode_ModuleHandle encoded =
     try_res (as_object encoded) (\<lambda>_.
     try_res (get_unsigned encoded ''uid'') (\<lambda>uid'.
     try_res (get_u32 encoded ''incarnation'') (\<lambda>incarnation'.
     try_res (get_unsigned encoded ''generation'') (\<lambda>generation'.
     try_res (get_key encoded ''key'') (\<lambda>key'.
     Inr \<lparr>mo_uid = uid', mo_incarnation = incarnation', mo_generation = generation', mo_key = key'\<rparr>)))))"

definition encode_AuthorityToken :: "AuthorityToken \<Rightarrow> Value" where
  "encode_AuthorityToken x = value_object
     [(''epoch'', VInteger (ucast (at_epoch x))), (''source'', VInteger (ucast (at_source x)))]"

definition decode_AuthorityToken :: "Value \<Rightarrow> AuthorityToken res" where
  "decode_AuthorityToken encoded =
     try_res (as_object encoded) (\<lambda>_.
     try_res (get_u32 encoded ''source'') (\<lambda>source'.
     try_res (get_u32 encoded ''epoch'') (\<lambda>epoch'.
     Inr \<lparr>at_source = source', at_epoch = epoch'\<rparr>)))"

section \<open>Identity\<close>

definition encode_IdentityFieldValue :: "IdentityFieldValue \<Rightarrow> Value" where
  "encode_IdentityFieldValue x = value_object
     [(''field'', VInteger (word_of_nat (IdentityField_code (iv_field x)))),
      (''subkey'', VText (iv_subkey x)), (''value'', VText (iv_value x))]"

definition decode_IdentityFieldValue :: "Value \<Rightarrow> IdentityFieldValue res" where
  "decode_IdentityFieldValue encoded =
     try_res (as_object encoded) (\<lambda>_.
     try_res (get_enum_field IdentityField_all encoded ''field'') (\<lambda>field'.
     try_res (get_text encoded ''subkey'') (\<lambda>subkey'.
     try_res (get_text encoded ''value'') (\<lambda>value'.
     Inr \<lparr>iv_field = field', iv_subkey = subkey', iv_value = value'\<rparr>))))"

definition encode_IdentityClaim :: "IdentityClaim \<Rightarrow> Value" where
  "encode_IdentityClaim x = value_object
     [(''clock_domain'', VUnsigned (ic_clock_domain x)),
      (''field'', VInteger (word_of_nat (IdentityField_code (ic_field x)))),
      (''generation'', VInteger (ic_generation x)),
      (''incarnation'', VInteger (ucast (ic_incarnation x))), (''live'', VBoolean (ic_live x)),
      (''module'', VInteger (ic_module x)),
      (''observed_at_wall_ns'', VInteger (word_of_int (ic_observed_at_wall_ns x))),
      (''provenance'', encode_Provenance (ic_provenance x)),
      (''sequence'', VInteger (ic_sequence x)), (''source'', VInteger (ucast (ic_source x))),
      (''source_epoch'', VInteger (ucast (ic_source_epoch x))), (''subkey'', VText (ic_subkey x)),
      (''value'', VText (ic_value x))]"

definition decode_IdentityClaim :: "Value \<Rightarrow> IdentityClaim res" where
  "decode_IdentityClaim encoded =
     try_res (as_object encoded) (\<lambda>_.
     try_res (get_enum_field IdentityField_all encoded ''field'') (\<lambda>field'.
     try_res (get_text encoded ''subkey'') (\<lambda>subkey'.
     try_res (get_text encoded ''value'') (\<lambda>value'.
     try_res (get_u32 encoded ''source'') (\<lambda>source'.
     try_res (get_u32 encoded ''source_epoch'') (\<lambda>source_epoch'.
     try_res (get_unsigned encoded ''module'') (\<lambda>module'.
     try_res (get_u32 encoded ''incarnation'') (\<lambda>incarnation'.
     try_res (get_unsigned encoded ''generation'') (\<lambda>generation'.
     try_res (get_unsigned encoded ''sequence'') (\<lambda>sequence'.
     try_res (get_integer encoded ''observed_at_wall_ns'') (\<lambda>observed_at_wall_ns'.
     try_res (get_unsigned_field encoded ''clock_domain'') (\<lambda>clock_domain'.
     try_res (get_record decode_Provenance encoded ''provenance'') (\<lambda>provenance'.
     try_res (get_boolean encoded ''live'') (\<lambda>live'.
     Inr \<lparr>ic_field = field', ic_subkey = subkey', ic_value = value', ic_source = source',
          ic_source_epoch = source_epoch', ic_module = module', ic_incarnation = incarnation',
          ic_generation = generation', ic_sequence = sequence',
          ic_observed_at_wall_ns = sint observed_at_wall_ns', ic_clock_domain = clock_domain',
          ic_provenance = provenance', ic_live = live'\<rparr>))))))))))))))"

definition encode_FieldConsensus :: "FieldConsensus \<Rightarrow> Value" where
  "encode_FieldConsensus x = value_object
     [(''claims'', encode_record_array encode_IdentityClaim (fc_claims x)),
      (''digest'', VText (to_hex (fc_digest x))),
      (''field'', VInteger (word_of_nat (IdentityField_code (fc_field x)))),
      (''has_value'', VBoolean (fc_has_value x)),
      (''outcome'', VInteger (word_of_nat (ConsensusOutcome_code (fc_outcome x)))),
      (''subkey'', VText (fc_subkey x)),
      (''superseded_claims'', encode_record_array encode_IdentityClaim (fc_superseded_claims x)),
      (''value'', VText (fc_value x))]"

definition decode_FieldConsensus :: "Value \<Rightarrow> FieldConsensus res" where
  "decode_FieldConsensus encoded =
     try_res (as_object encoded) (\<lambda>_.
     try_res (get_enum_field IdentityField_all encoded ''field'') (\<lambda>field'.
     try_res (get_text encoded ''subkey'') (\<lambda>subkey'.
     try_res (get_enum_field ConsensusOutcome_all encoded ''outcome'') (\<lambda>outcome'.
     try_res (get_boolean encoded ''has_value'') (\<lambda>has_value'.
     try_res (get_text encoded ''value'') (\<lambda>value'.
     try_res (get_record_array decode_IdentityClaim encoded ''claims'') (\<lambda>claims'.
     try_res (get_record_array decode_IdentityClaim encoded ''superseded_claims'') (\<lambda>superseded_claims'.
     try_res (get_digest_field encoded ''digest'') (\<lambda>digest'.
     Inr \<lparr>fc_field = field', fc_subkey = subkey', fc_outcome = outcome',
          fc_has_value = has_value', fc_value = value', fc_claims = claims',
          fc_superseded_claims = superseded_claims', fc_digest = digest'\<rparr>)))))))))"

definition encode_IdentityView :: "IdentityView \<Rightarrow> Value" where
  "encode_IdentityView x = value_object
     [(''conflicting_fields'', VInteger (ucast (vw_conflicting_fields x))),
      (''digest'', VText (to_hex (vw_digest x))),
      (''fields'', encode_record_array encode_FieldConsensus (vw_fields x)),
      (''generation'', VInteger (vw_generation x)),
      (''incarnation'', VInteger (ucast (vw_incarnation x))), (''key'', VText (vw_key x)),
      (''lifecycle'', VInteger (word_of_nat (LifecycleState_code (vw_lifecycle x)))),
      (''superseded_fields'', VInteger (ucast (vw_superseded_fields x))),
      (''uid'', VInteger (vw_uid x))]"

definition decode_IdentityView :: "Value \<Rightarrow> IdentityView res" where
  "decode_IdentityView encoded =
     try_res (as_object encoded) (\<lambda>_.
     try_res (get_unsigned encoded ''uid'') (\<lambda>uid'.
     try_res (get_u32 encoded ''incarnation'') (\<lambda>incarnation'.
     try_res (get_key encoded ''key'') (\<lambda>key'.
     try_res (get_unsigned encoded ''generation'') (\<lambda>generation'.
     try_res (get_enum_field LifecycleState_all encoded ''lifecycle'') (\<lambda>lifecycle'.
     try_res (get_record_array decode_FieldConsensus encoded ''fields'') (\<lambda>fields'.
     try_res (get_digest_field encoded ''digest'') (\<lambda>digest'.
     try_res (get_u32 encoded ''conflicting_fields'') (\<lambda>conflicting_fields'.
     try_res (get_u32 encoded ''superseded_fields'') (\<lambda>superseded_fields'.
     Inr \<lparr>vw_uid = uid', vw_incarnation = incarnation', vw_key = key',
          vw_generation = generation', vw_lifecycle = lifecycle', vw_fields = fields',
          vw_digest = digest', vw_conflicting_fields = conflicting_fields',
          vw_superseded_fields = superseded_fields'\<rparr>))))))))))"

definition encode_ModuleRegistration :: "ModuleRegistration \<Rightarrow> Value" where
  "encode_ModuleRegistration x = value_object
     [(''expected_generation'', VInteger (rn_expected_generation x)),
      (''identity'', encode_record_array encode_IdentityFieldValue (rn_identity x)),
      (''intent'', VInteger (word_of_nat (RegisterIntent_code (rn_intent x)))),
      (''key'', VText (rn_key x)),
      (''policy'', VInteger (word_of_nat (MutationPolicy_code (rn_policy x)))),
      (''provenance'', encode_Provenance (rn_provenance x))]"

definition decode_ModuleRegistration :: "Value \<Rightarrow> ModuleRegistration res" where
  "decode_ModuleRegistration encoded =
     try_res (as_object encoded) (\<lambda>_.
     try_res (get_key encoded ''key'') (\<lambda>key'.
     try_res (get_record_array decode_IdentityFieldValue encoded ''identity'') (\<lambda>identity'.
     try_res (get_enum_field RegisterIntent_all encoded ''intent'') (\<lambda>intent'.
     try_res (get_record decode_Provenance encoded ''provenance'') (\<lambda>provenance'.
     try_res (get_enum_field MutationPolicy_all encoded ''policy'') (\<lambda>policy'.
     try_res (get_unsigned encoded ''expected_generation'') (\<lambda>expected_generation'.
     Inr \<lparr>rn_key = key', rn_identity = identity', rn_intent = intent',
          rn_provenance = provenance', rn_policy = policy',
          rn_expected_generation = expected_generation'\<rparr>)))))))"

section \<open>Capability\<close>

definition encode_SpectrumDescriptor :: "SpectrumDescriptor \<Rightarrow> Value" where
  "encode_SpectrumDescriptor x = value_object
     [(''center_nm'', VReal (sd_center_nm x)), (''channel'', VText (sd_channel x)),
      (''frequency_thz'', VReal (sd_frequency_thz x)),
      (''grid'', VInteger (word_of_nat (WavelengthGrid_code (sd_grid x)))),
      (''lane'', VInteger (ucast (sd_lane x)))]"

definition decode_SpectrumDescriptor :: "Value \<Rightarrow> SpectrumDescriptor res" where
  "decode_SpectrumDescriptor encoded =
     try_res (as_object encoded) (\<lambda>_.
     try_res (get_u16 encoded ''lane'') (\<lambda>lane'.
     try_res (get_finite_real encoded ''center_nm'') (\<lambda>center_nm'.
     try_res (get_finite_real encoded ''frequency_thz'') (\<lambda>frequency_thz'.
     try_res (get_enum_field WavelengthGrid_all encoded ''grid'') (\<lambda>grid'.
     try_res (get_text encoded ''channel'') (\<lambda>channel'.
     Inr \<lparr>sd_lane = lane', sd_center_nm = center_nm', sd_frequency_thz = frequency_thz',
          sd_grid = grid', sd_channel = channel'\<rparr>))))))"

definition encode_CapabilityValue :: "CapabilityValue \<Rightarrow> Value" where
  "encode_CapabilityValue x = (case x of
       Cap_None \<Rightarrow> value_object [(''k'', VText ''none'')]
     | Cap_Boolean raw \<Rightarrow> value_object [(''b'', VBoolean raw), (''k'', VText ''boolean'')]
     | Cap_Count raw \<Rightarrow> value_object [(''i'', VInteger raw), (''k'', VText ''count'')]
     | Cap_Enum raw \<Rightarrow> value_object [(''i'', VInteger raw), (''k'', VText ''enum'')]
     | Cap_Real raw \<Rightarrow> value_object [(''k'', VText ''real''), (''r'', VReal raw)]
     | Cap_Text raw \<Rightarrow> value_object [(''k'', VText ''text''), (''t'', VText raw)]
     | Cap_EnumSet entries \<Rightarrow>
         value_object [(''k'', VText ''enum_set''), (''s'', VArray (map VInteger entries))]
     | Cap_TextSet entries \<Rightarrow>
         value_object [(''k'', VText ''text_set''), (''s'', VArray (map VText entries))]
     | Cap_Spectrum entries \<Rightarrow>
         value_object [(''k'', VText ''spectrum''),
           (''s'', VArray (map encode_SpectrumDescriptor entries))])"

definition decode_CapabilityValue :: "Value \<Rightarrow> CapabilityValue res" where
  "decode_CapabilityValue encoded = read_canonical encoded"

definition encode_CapabilityDeclaration :: "CapabilityDeclaration \<Rightarrow> Value" where
  "encode_CapabilityDeclaration x = value_object
     [(''clock_domain'', VUnsigned (cd_clock_domain x)),
      (''generation'', VInteger (cd_generation x)),
      (''incarnation'', VInteger (ucast (cd_incarnation x))),
      (''key'', VInteger (word_of_nat (CapabilityKey_code (cd_key x)))),
      (''live'', VBoolean (cd_live x)), (''module'', VInteger (cd_module x)),
      (''module_subject'', VBoolean (cd_module_subject x)),
      (''observed_at_wall_ns'', VInteger (word_of_int (cd_observed_at_wall_ns x))),
      (''port'', VText (cd_port x)), (''provenance'', encode_Provenance (cd_provenance x)),
      (''sequence'', VInteger (cd_sequence x)), (''source'', VInteger (ucast (cd_source x))),
      (''source_epoch'', VInteger (ucast (cd_source_epoch x))), (''subkey'', VText (cd_subkey x)),
      (''value'', encode_CapabilityValue (cd_value x))]"

definition decode_CapabilityDeclaration :: "Value \<Rightarrow> CapabilityDeclaration res" where
  "decode_CapabilityDeclaration encoded =
     try_res (as_object encoded) (\<lambda>_.
     try_res (get_enum_field CapabilityKey_all encoded ''key'') (\<lambda>key'.
     try_res (get_text encoded ''subkey'') (\<lambda>subkey'.
     try_res (get_record decode_CapabilityValue encoded ''value'') (\<lambda>value'.
     try_res (get_u32 encoded ''source'') (\<lambda>source'.
     try_res (get_u32 encoded ''source_epoch'') (\<lambda>source_epoch'.
     try_res (get_unsigned encoded ''module'') (\<lambda>module'.
     try_res (get_u32 encoded ''incarnation'') (\<lambda>incarnation'.
     try_res (get_key encoded ''port'') (\<lambda>port'.
     try_res (get_boolean encoded ''module_subject'') (\<lambda>module_subject'.
     try_res (get_unsigned encoded ''generation'') (\<lambda>generation'.
     try_res (get_unsigned encoded ''sequence'') (\<lambda>sequence'.
     try_res (get_integer encoded ''observed_at_wall_ns'') (\<lambda>observed_at_wall_ns'.
     try_res (get_unsigned_field encoded ''clock_domain'') (\<lambda>clock_domain'.
     try_res (get_record decode_Provenance encoded ''provenance'') (\<lambda>provenance'.
     try_res (get_boolean encoded ''live'') (\<lambda>live'.
     Inr \<lparr>cd_key = key', cd_subkey = subkey', cd_value = value', cd_source = source',
          cd_source_epoch = source_epoch', cd_module = module', cd_incarnation = incarnation',
          cd_port = port', cd_module_subject = module_subject', cd_generation = generation',
          cd_sequence = sequence', cd_observed_at_wall_ns = sint observed_at_wall_ns',
          cd_clock_domain = clock_domain', cd_provenance = provenance', cd_live = live'\<rparr>))))))))))))))))"

definition encode_CapabilityConsensus :: "CapabilityConsensus \<Rightarrow> Value" where
  "encode_CapabilityConsensus x = value_object
     [(''declarations'', encode_record_array encode_CapabilityDeclaration (cc_declarations x)),
      (''digest'', VText (to_hex (cc_digest x))), (''has_value'', VBoolean (cc_has_value x)),
      (''key'', VInteger (word_of_nat (CapabilityKey_code (cc_key x)))),
      (''outcome'', VInteger (word_of_nat (ConsensusOutcome_code (cc_outcome x)))),
      (''subkey'', VText (cc_subkey x)),
      (''superseded'', encode_record_array encode_CapabilityDeclaration (cc_superseded x)),
      (''value'', encode_CapabilityValue (cc_value x))]"

definition decode_CapabilityConsensus :: "Value \<Rightarrow> CapabilityConsensus res" where
  "decode_CapabilityConsensus encoded =
     try_res (as_object encoded) (\<lambda>_.
     try_res (get_enum_field CapabilityKey_all encoded ''key'') (\<lambda>key'.
     try_res (get_text encoded ''subkey'') (\<lambda>subkey'.
     try_res (get_enum_field ConsensusOutcome_all encoded ''outcome'') (\<lambda>outcome'.
     try_res (get_boolean encoded ''has_value'') (\<lambda>has_value'.
     try_res (get_record decode_CapabilityValue encoded ''value'') (\<lambda>value'.
     try_res (get_record_array decode_CapabilityDeclaration encoded ''declarations'') (\<lambda>declarations'.
     try_res (get_record_array decode_CapabilityDeclaration encoded ''superseded'') (\<lambda>superseded'.
     try_res (get_digest_field encoded ''digest'') (\<lambda>digest'.
     Inr \<lparr>cc_key = key', cc_subkey = subkey', cc_outcome = outcome', cc_has_value = has_value',
          cc_value = value', cc_declarations = declarations', cc_superseded = superseded',
          cc_digest = digest'\<rparr>)))))))))"

definition encode_CapabilityView :: "CapabilityView \<Rightarrow> Value" where
  "encode_CapabilityView x = value_object
     [(''attributes'', encode_record_array encode_CapabilityConsensus (cw_attributes x)),
      (''conflicting_attributes'', VInteger (ucast (cw_conflicting_attributes x))),
      (''digest'', VText (to_hex (cw_digest x))), (''generation'', VInteger (cw_generation x)),
      (''incarnation'', VInteger (ucast (cw_incarnation x))),
      (''module_subject'', VBoolean (cw_module_subject x)), (''port'', VText (cw_port x)),
      (''uid'', VInteger (cw_uid x)),
      (''unestablished_attributes'', VInteger (ucast (cw_unestablished_attributes x)))]"

definition decode_CapabilityView :: "Value \<Rightarrow> CapabilityView res" where
  "decode_CapabilityView encoded =
     try_res (as_object encoded) (\<lambda>_.
     try_res (get_boolean encoded ''module_subject'') (\<lambda>module_subject'.
     try_res (get_unsigned encoded ''uid'') (\<lambda>uid'.
     try_res (get_u32 encoded ''incarnation'') (\<lambda>incarnation'.
     try_res (get_key encoded ''port'') (\<lambda>port'.
     try_res (get_unsigned encoded ''generation'') (\<lambda>generation'.
     try_res (get_record_array decode_CapabilityConsensus encoded ''attributes'') (\<lambda>attributes'.
     try_res (get_digest_field encoded ''digest'') (\<lambda>digest'.
     try_res (get_u32 encoded ''conflicting_attributes'') (\<lambda>conflicting_attributes'.
     try_res (get_u32 encoded ''unestablished_attributes'') (\<lambda>unestablished_attributes'.
     Inr \<lparr>cw_module_subject = module_subject', cw_uid = uid', cw_incarnation = incarnation',
          cw_port = port', cw_generation = generation', cw_attributes = attributes',
          cw_digest = digest', cw_conflicting_attributes = conflicting_attributes',
          cw_unestablished_attributes = unestablished_attributes'\<rparr>))))))))))"

section \<open>Health\<close>

definition encode_HealthSampleInput :: "HealthSampleInput \<Rightarrow> Value" where
  "encode_HealthSampleInput x = value_object
     [(''clock_domain'', VUnsigned (hi_clock_domain x)), (''lane'', VInteger (ucast (hi_lane x))),
      (''metric'', VInteger (word_of_nat (HealthMetric_code (hi_metric x)))),
      (''observed_at_monotonic_ns'', VInteger (hi_observed_at_monotonic_ns x)),
      (''observed_at_wall_ns'', VInteger (word_of_int (hi_observed_at_wall_ns x))),
      (''presence'', VInteger (word_of_nat (SamplePresence_code (hi_presence x)))),
      (''provenance'', encode_Provenance (hi_provenance x)), (''value'', VReal (hi_value x))]"

definition decode_HealthSampleInput :: "Value \<Rightarrow> HealthSampleInput res" where
  "decode_HealthSampleInput encoded =
     try_res (as_object encoded) (\<lambda>_.
     try_res (get_enum_field HealthMetric_all encoded ''metric'') (\<lambda>metric'.
     try_res (get_u16 encoded ''lane'') (\<lambda>lane'.
     try_res (get_enum_field SamplePresence_all encoded ''presence'') (\<lambda>presence'.
     try_res (get_finite_real encoded ''value'') (\<lambda>value'.
     try_res (get_integer encoded ''observed_at_wall_ns'') (\<lambda>observed_at_wall_ns'.
     try_res (get_unsigned encoded ''observed_at_monotonic_ns'') (\<lambda>observed_at_monotonic_ns'.
     try_res (get_unsigned_field encoded ''clock_domain'') (\<lambda>clock_domain'.
     try_res (get_record decode_Provenance encoded ''provenance'') (\<lambda>provenance'.
     Inr \<lparr>hi_metric = metric', hi_lane = lane', hi_presence = presence', hi_value = value',
          hi_observed_at_wall_ns = sint observed_at_wall_ns',
          hi_observed_at_monotonic_ns = observed_at_monotonic_ns',
          hi_clock_domain = clock_domain', hi_provenance = provenance'\<rparr>)))))))))"

definition encode_HealthSample :: "HealthSample \<Rightarrow> Value" where
  "encode_HealthSample x = value_object
     [(''clock_domain'', VUnsigned (hs_clock_domain x)),
      (''generation'', VInteger (hs_generation x)),
      (''incarnation'', VInteger (ucast (hs_incarnation x))),
      (''lane'', VInteger (ucast (hs_lane x))), (''live'', VBoolean (hs_live x)),
      (''metric'', VInteger (word_of_nat (HealthMetric_code (hs_metric x)))),
      (''module'', VInteger (hs_module x)),
      (''observed_at_monotonic_ns'', VInteger (hs_observed_at_monotonic_ns x)),
      (''observed_at_wall_ns'', VInteger (word_of_int (hs_observed_at_wall_ns x))),
      (''presence'', VInteger (word_of_nat (SamplePresence_code (hs_presence x)))),
      (''provenance'', encode_Provenance (hs_provenance x)),
      (''sequence'', VInteger (hs_sequence x)), (''source'', VInteger (ucast (hs_source x))),
      (''source_epoch'', VInteger (ucast (hs_source_epoch x))), (''value'', VReal (hs_value x))]"

definition decode_HealthSample :: "Value \<Rightarrow> HealthSample res" where
  "decode_HealthSample encoded =
     try_res (as_object encoded) (\<lambda>_.
     try_res (get_enum_field HealthMetric_all encoded ''metric'') (\<lambda>metric'.
     try_res (get_u16 encoded ''lane'') (\<lambda>lane'.
     try_res (get_enum_field SamplePresence_all encoded ''presence'') (\<lambda>presence'.
     try_res (get_finite_real encoded ''value'') (\<lambda>value'.
     try_res (get_integer encoded ''observed_at_wall_ns'') (\<lambda>observed_at_wall_ns'.
     try_res (get_unsigned encoded ''observed_at_monotonic_ns'') (\<lambda>observed_at_monotonic_ns'.
     try_res (get_unsigned_field encoded ''clock_domain'') (\<lambda>clock_domain'.
     try_res (get_record decode_Provenance encoded ''provenance'') (\<lambda>provenance'.
     try_res (get_u32 encoded ''source'') (\<lambda>source'.
     try_res (get_u32 encoded ''source_epoch'') (\<lambda>source_epoch'.
     try_res (get_unsigned encoded ''module'') (\<lambda>module'.
     try_res (get_u32 encoded ''incarnation'') (\<lambda>incarnation'.
     try_res (get_unsigned encoded ''generation'') (\<lambda>generation'.
     try_res (get_unsigned encoded ''sequence'') (\<lambda>sequence'.
     try_res (get_boolean encoded ''live'') (\<lambda>live'.
     Inr \<lparr>hs_metric = metric', hs_lane = lane', hs_presence = presence', hs_value = value',
          hs_observed_at_wall_ns = sint observed_at_wall_ns',
          hs_observed_at_monotonic_ns = observed_at_monotonic_ns',
          hs_clock_domain = clock_domain', hs_provenance = provenance', hs_source = source',
          hs_source_epoch = source_epoch', hs_module = module', hs_incarnation = incarnation',
          hs_generation = generation', hs_sequence = sequence', hs_live = live'\<rparr>))))))))))))))))"

definition encode_HealthThreshold :: "HealthThreshold \<Rightarrow> Value" where
  "encode_HealthThreshold x = value_object
     [(''critical_enter'', VReal (ht_critical_enter x)),
      (''critical_exit'', VReal (ht_critical_exit x)),
      (''degraded_enter'', VReal (ht_degraded_enter x)),
      (''degraded_exit'', VReal (ht_degraded_exit x)),
      (''direction'', VInteger (word_of_nat (ThresholdDirection_code (ht_direction x)))),
      (''disagreement_tolerance'', VReal (ht_disagreement_tolerance x)),
      (''escalate_after'', VInteger (ucast (ht_escalate_after x))),
      (''generation'', VInteger (ht_generation x)),
      (''has_critical'', VBoolean (ht_has_critical x)),
      (''has_degraded'', VBoolean (ht_has_degraded x)), (''lane'', VInteger (ucast (ht_lane x))),
      (''live'', VBoolean (ht_live x)),
      (''max_age_ns'', VInteger (word_of_int (ht_max_age_ns x))),
      (''metric'', VInteger (word_of_nat (HealthMetric_code (ht_metric x)))),
      (''provenance'', encode_Provenance (ht_provenance x)),
      (''recover_after'', VInteger (ucast (ht_recover_after x))),
      (''sequence'', VInteger (ht_sequence x)), (''source'', VInteger (ucast (ht_source x))),
      (''source_epoch'', VInteger (ucast (ht_source_epoch x)))]"

definition decode_HealthThreshold :: "Value \<Rightarrow> HealthThreshold res" where
  "decode_HealthThreshold encoded =
     try_res (as_object encoded) (\<lambda>_.
     try_res (get_enum_field HealthMetric_all encoded ''metric'') (\<lambda>metric'.
     try_res (get_u16 encoded ''lane'') (\<lambda>lane'.
     try_res (get_enum_field ThresholdDirection_all encoded ''direction'') (\<lambda>direction'.
     try_res (get_boolean encoded ''has_degraded'') (\<lambda>has_degraded'.
     try_res (get_finite_real encoded ''degraded_enter'') (\<lambda>degraded_enter'.
     try_res (get_finite_real encoded ''degraded_exit'') (\<lambda>degraded_exit'.
     try_res (get_boolean encoded ''has_critical'') (\<lambda>has_critical'.
     try_res (get_finite_real encoded ''critical_enter'') (\<lambda>critical_enter'.
     try_res (get_finite_real encoded ''critical_exit'') (\<lambda>critical_exit'.
     try_res (get_u32 encoded ''escalate_after'') (\<lambda>escalate_after'.
     try_res (get_u32 encoded ''recover_after'') (\<lambda>recover_after'.
     try_res (get_integer encoded ''max_age_ns'') (\<lambda>max_age_ns'.
     try_res (get_finite_real encoded ''disagreement_tolerance'') (\<lambda>disagreement_tolerance'.
     try_res (get_record decode_Provenance encoded ''provenance'') (\<lambda>provenance'.
     try_res (get_u32 encoded ''source'') (\<lambda>source'.
     try_res (get_u32 encoded ''source_epoch'') (\<lambda>source_epoch'.
     try_res (get_unsigned encoded ''generation'') (\<lambda>generation'.
     try_res (get_unsigned encoded ''sequence'') (\<lambda>sequence'.
     try_res (get_boolean encoded ''live'') (\<lambda>live'.
     Inr \<lparr>ht_metric = metric', ht_lane = lane', ht_direction = direction',
          ht_has_degraded = has_degraded', ht_degraded_enter = degraded_enter',
          ht_degraded_exit = degraded_exit', ht_has_critical = has_critical',
          ht_critical_enter = critical_enter', ht_critical_exit = critical_exit',
          ht_escalate_after = escalate_after', ht_recover_after = recover_after',
          ht_max_age_ns = sint max_age_ns', ht_disagreement_tolerance = disagreement_tolerance',
          ht_provenance = provenance', ht_source = source', ht_source_epoch = source_epoch',
          ht_generation = generation', ht_sequence = sequence', ht_live = live'\<rparr>))))))))))))))))))))"

definition encode_HealthLatch :: "HealthLatch \<Rightarrow> Value" where
  "encode_HealthLatch x = value_object
     [(''consecutive'', VInteger (ucast (hl_consecutive x))),
      (''last_sample_sequence'', VInteger (hl_last_sample_sequence x)),
      (''last_sample_wall_ns'', VInteger (word_of_int (hl_last_sample_wall_ns x))),
      (''last_transition_generation'', VInteger (hl_last_transition_generation x)),
      (''last_transition_wall_ns'', VInteger (word_of_int (hl_last_transition_wall_ns x))),
      (''state'', VInteger (word_of_nat (MetricState_code (hl_state x))))]"

definition decode_HealthLatch :: "Value \<Rightarrow> HealthLatch res" where
  "decode_HealthLatch encoded =
     try_res (as_object encoded) (\<lambda>_.
     try_res (get_enum_field MetricState_all encoded ''state'') (\<lambda>state'.
     try_res (get_u32 encoded ''consecutive'') (\<lambda>consecutive'.
     try_res (get_integer encoded ''last_sample_wall_ns'') (\<lambda>last_sample_wall_ns'.
     try_res (get_unsigned encoded ''last_sample_sequence'') (\<lambda>last_sample_sequence'.
     try_res (get_unsigned encoded ''last_transition_generation'') (\<lambda>last_transition_generation'.
     try_res (get_integer encoded ''last_transition_wall_ns'') (\<lambda>last_transition_wall_ns'.
     Inr \<lparr>hl_state = state', hl_consecutive = consecutive',
          hl_last_sample_wall_ns = sint last_sample_wall_ns',
          hl_last_sample_sequence = last_sample_sequence',
          hl_last_transition_generation = last_transition_generation',
          hl_last_transition_wall_ns = sint last_transition_wall_ns'\<rparr>)))))))"

definition encode_MetricHealth :: "MetricHealth \<Rightarrow> Value" where
  "encode_MetricHealth x = value_object
     [(''age_ns'', VInteger (case mh_age_ns x of None \<Rightarrow> 0 | Some a \<Rightarrow> word_of_int a)),
      (''fenced_count'', VInteger (word_of_int (mh_fenced_count x))),
      (''fresh_count'', VInteger (word_of_int (mh_fresh_count x))),
      (''has_age'', VBoolean (mh_age_ns x \<noteq> None)),
      (''has_value'', VBoolean (mh_value x \<noteq> None)),
      (''lane'', VInteger (ucast (mh_lane x))),
      (''metric'', VInteger (word_of_nat (HealthMetric_code (mh_metric x)))),
      (''reason'', VText (mh_reason x)),
      (''sample_count'', VInteger (word_of_int (mh_sample_count x))),
      (''source_count'', VInteger (ucast (mh_source_count x))),
      (''stale_count'', VInteger (word_of_int (mh_stale_count x))),
      (''state'', VInteger (word_of_nat (MetricState_code (mh_state x)))),
      (''value'', VReal (case mh_value x of None \<Rightarrow> dbl_zero | Some d \<Rightarrow> d))]"

definition decode_MetricHealth :: "Value \<Rightarrow> MetricHealth res" where
  "decode_MetricHealth encoded =
     try_res (as_object encoded) (\<lambda>_.
     try_res (get_enum_field HealthMetric_all encoded ''metric'') (\<lambda>metric'.
     try_res (get_u16 encoded ''lane'') (\<lambda>lane'.
     try_res (get_enum_field MetricState_all encoded ''state'') (\<lambda>state'.
     try_res (get_boolean encoded ''has_value'') (\<lambda>has_value'.
     try_res (get_finite_real encoded ''value'') (\<lambda>value'.
     try_res (get_boolean encoded ''has_age'') (\<lambda>has_age'.
     try_res (get_integer encoded ''age_ns'') (\<lambda>age_ns'.
     try_res (get_integer encoded ''sample_count'') (\<lambda>sample_count'.
     try_res (get_integer encoded ''fresh_count'') (\<lambda>fresh_count'.
     try_res (get_integer encoded ''stale_count'') (\<lambda>stale_count'.
     try_res (get_integer encoded ''fenced_count'') (\<lambda>fenced_count'.
     try_res (get_u32 encoded ''source_count'') (\<lambda>source_count'.
     try_res (get_text encoded ''reason'') (\<lambda>reason'.
     Inr \<lparr>mh_metric = metric', mh_lane = lane', mh_state = state',
          mh_value = (if has_value' then Some value' else None),
          mh_age_ns = (if has_age' then Some (sint age_ns') else None),
          mh_sample_count = sint sample_count', mh_fresh_count = sint fresh_count',
          mh_stale_count = sint stale_count', mh_fenced_count = sint fenced_count',
          mh_source_count = source_count', mh_reason = reason'\<rparr>))))))))))))))"

definition encode_HealthIssue :: "HealthIssue \<Rightarrow> Value" where
  "encode_HealthIssue x = value_object
     [(''detail'', VText (is_detail x)),
      (''kind'', VInteger (word_of_nat (HealthIssueKind_code (is_kind x)))),
      (''lane'', VInteger (ucast (is_lane x))),
      (''metric'', VInteger (word_of_nat (HealthMetric_code (is_metric x))))]"

definition decode_HealthIssue :: "Value \<Rightarrow> HealthIssue res" where
  "decode_HealthIssue encoded =
     try_res (as_object encoded) (\<lambda>_.
     try_res (get_enum_field HealthIssueKind_all encoded ''kind'') (\<lambda>kind'.
     try_res (get_enum_field HealthMetric_all encoded ''metric'') (\<lambda>metric'.
     try_res (get_u16 encoded ''lane'') (\<lambda>lane'.
     try_res (get_text encoded ''detail'') (\<lambda>detail'.
     Inr \<lparr>is_kind = kind', is_metric = metric', is_lane = lane', is_detail = detail'\<rparr>)))))"

definition encode_HealthReport :: "HealthReport \<Rightarrow> Value" where
  "encode_HealthReport x = value_object
     [(''clock_domain'', VUnsigned (hr_clock_domain x)),
      (''digest'', VText (to_hex (hr_digest x))),
      (''evaluated_at_wall_ns'', VInteger (word_of_int (hr_evaluated_at_wall_ns x))),
      (''generation'', VInteger (hr_generation x)),
      (''incarnation'', VInteger (ucast (hr_incarnation x))),
      (''issues'', encode_record_array encode_HealthIssue (hr_issues x)),
      (''metrics'', encode_record_array encode_MetricHealth (hr_metrics x)),
      (''outcome'', VInteger (word_of_nat (HealthOutcome_code (hr_outcome x)))),
      (''uid'', VInteger (hr_uid x)),
      (''worst'', VInteger (word_of_nat (MetricState_code (hr_worst x))))]"

definition decode_HealthReport :: "Value \<Rightarrow> HealthReport res" where
  "decode_HealthReport encoded =
     try_res (as_object encoded) (\<lambda>_.
     try_res (get_unsigned encoded ''uid'') (\<lambda>uid'.
     try_res (get_u32 encoded ''incarnation'') (\<lambda>incarnation'.
     try_res (get_unsigned encoded ''generation'') (\<lambda>generation'.
     try_res (get_enum_field HealthOutcome_all encoded ''outcome'') (\<lambda>outcome'.
     try_res (get_enum_field MetricState_all encoded ''worst'') (\<lambda>worst'.
     try_res (get_record_array decode_MetricHealth encoded ''metrics'') (\<lambda>metrics'.
     try_res (get_record_array decode_HealthIssue encoded ''issues'') (\<lambda>issues'.
     try_res (get_integer encoded ''evaluated_at_wall_ns'') (\<lambda>evaluated_at_wall_ns'.
     try_res (get_unsigned_field encoded ''clock_domain'') (\<lambda>clock_domain'.
     try_res (get_digest_field encoded ''digest'') (\<lambda>digest'.
     Inr \<lparr>hr_uid = uid', hr_incarnation = incarnation', hr_generation = generation',
          hr_outcome = outcome', hr_worst = worst', hr_metrics = metrics', hr_issues = issues',
          hr_evaluated_at_wall_ns = sint evaluated_at_wall_ns', hr_clock_domain = clock_domain',
          hr_digest = digest'\<rparr>)))))))))))"

section \<open>Evidence summary and attachment\<close>

definition encode_EvidenceSummary :: "EvidenceSummary \<Rightarrow> Value" where
  "encode_EvidenceSummary x = value_object
     [(''conflicting_attributes'', VInteger (ucast (es_conflicting_attributes x))),
      (''digest'', VText (to_hex (es_digest x))),
      (''fenced_samples'', VInteger (es_fenced_samples x)),
      (''generation'', VInteger (es_generation x)),
      (''incarnation'', VInteger (ucast (es_incarnation x))),
      (''live_claims'', VInteger (es_live_claims x)),
      (''live_declarations'', VInteger (es_live_declarations x)),
      (''live_samples'', VInteger (es_live_samples x)),
      (''newest_sample_wall_ns'', VInteger (word_of_int (es_newest_sample_wall_ns x))),
      (''oldest_sample_wall_ns'', VInteger (word_of_int (es_oldest_sample_wall_ns x))),
      (''stale_samples'', VInteger (es_stale_samples x)),
      (''superseded_claims'', VInteger (es_superseded_claims x)),
      (''superseded_declarations'', VInteger (es_superseded_declarations x)),
      (''uid'', VInteger (es_uid x))]"

definition decode_EvidenceSummary :: "Value \<Rightarrow> EvidenceSummary res" where
  "decode_EvidenceSummary encoded =
     try_res (as_object encoded) (\<lambda>_.
     try_res (get_unsigned encoded ''uid'') (\<lambda>uid'.
     try_res (get_u32 encoded ''incarnation'') (\<lambda>incarnation'.
     try_res (get_unsigned encoded ''generation'') (\<lambda>generation'.
     try_res (get_unsigned encoded ''live_claims'') (\<lambda>live_claims'.
     try_res (get_unsigned encoded ''superseded_claims'') (\<lambda>superseded_claims'.
     try_res (get_unsigned encoded ''live_declarations'') (\<lambda>live_declarations'.
     try_res (get_unsigned encoded ''superseded_declarations'') (\<lambda>superseded_declarations'.
     try_res (get_unsigned encoded ''live_samples'') (\<lambda>live_samples'.
     try_res (get_unsigned encoded ''stale_samples'') (\<lambda>stale_samples'.
     try_res (get_unsigned encoded ''fenced_samples'') (\<lambda>fenced_samples'.
     try_res (get_u32 encoded ''conflicting_attributes'') (\<lambda>conflicting_attributes'.
     try_res (get_integer encoded ''oldest_sample_wall_ns'') (\<lambda>oldest_sample_wall_ns'.
     try_res (get_integer encoded ''newest_sample_wall_ns'') (\<lambda>newest_sample_wall_ns'.
     try_res (get_digest_field encoded ''digest'') (\<lambda>digest'.
     Inr \<lparr>es_uid = uid', es_incarnation = incarnation', es_generation = generation',
          es_live_claims = live_claims', es_superseded_claims = superseded_claims',
          es_live_declarations = live_declarations',
          es_superseded_declarations = superseded_declarations', es_live_samples = live_samples',
          es_stale_samples = stale_samples', es_fenced_samples = fenced_samples',
          es_conflicting_attributes = conflicting_attributes',
          es_oldest_sample_wall_ns = sint oldest_sample_wall_ns',
          es_newest_sample_wall_ns = sint newest_sample_wall_ns', es_digest = digest'\<rparr>)))))))))))))))"

definition encode_AttachmentRecord :: "AttachmentRecord \<Rightarrow> Value" where
  "encode_AttachmentRecord x = value_object
     [(''attached_at_wall_ns'', VInteger (word_of_int (ar_attached_at_wall_ns x))),
      (''generation'', VInteger (ar_generation x)),
      (''incarnation'', VInteger (ucast (ar_incarnation x))), (''live'', VBoolean (ar_live x)),
      (''note'', VText (ar_note x)), (''port_index'', VInteger (ucast (ar_port_index x))),
      (''sequence'', VInteger (ar_sequence x)), (''slot'', VText (ar_slot x)),
      (''source'', VInteger (ucast (ar_source x))),
      (''source_epoch'', VInteger (ucast (ar_source_epoch x))), (''uid'', VInteger (ar_uid x))]"

definition decode_AttachmentRecord :: "Value \<Rightarrow> AttachmentRecord res" where
  "decode_AttachmentRecord encoded =
     try_res (as_object encoded) (\<lambda>_.
     try_res (get_key encoded ''slot'') (\<lambda>slot'.
     try_res (get_u32 encoded ''port_index'') (\<lambda>port_index'.
     try_res (get_unsigned encoded ''uid'') (\<lambda>uid'.
     try_res (get_u32 encoded ''incarnation'') (\<lambda>incarnation'.
     try_res (get_u32 encoded ''source'') (\<lambda>source'.
     try_res (get_u32 encoded ''source_epoch'') (\<lambda>source_epoch'.
     try_res (get_unsigned encoded ''generation'') (\<lambda>generation'.
     try_res (get_unsigned encoded ''sequence'') (\<lambda>sequence'.
     try_res (get_integer encoded ''attached_at_wall_ns'') (\<lambda>attached_at_wall_ns'.
     try_res (get_boolean encoded ''live'') (\<lambda>live'.
     try_res (get_text encoded ''note'') (\<lambda>note'.
     Inr \<lparr>ar_slot = slot', ar_port_index = port_index', ar_uid = uid',
          ar_incarnation = incarnation', ar_source = source', ar_source_epoch = source_epoch',
          ar_generation = generation', ar_sequence = sequence',
          ar_attached_at_wall_ns = sint attached_at_wall_ns', ar_live = live', ar_note = note'\<rparr>))))))))))))"

section \<open>Lifecycle\<close>

definition encode_LifecycleEvent :: "LifecycleEvent \<Rightarrow> Value" where
  "encode_LifecycleEvent x = value_object
     [(''from'', VInteger (word_of_nat (LifecycleState_code (le_from x)))),
      (''generation'', VInteger (le_generation x)),
      (''incarnation'', VInteger (ucast (le_incarnation x))), (''reason'', VText (le_reason x)),
      (''sequence'', VInteger (le_sequence x)), (''source'', VInteger (ucast (le_source x))),
      (''source_epoch'', VInteger (ucast (le_source_epoch x))),
      (''to'', VInteger (word_of_nat (LifecycleState_code (le_to x)))),
      (''wall_ns'', VInteger (word_of_int (le_wall_ns x)))]"

definition decode_LifecycleEvent :: "Value \<Rightarrow> LifecycleEvent res" where
  "decode_LifecycleEvent encoded =
     try_res (as_object encoded) (\<lambda>_.
     try_res (get_enum_field LifecycleState_all encoded ''from'') (\<lambda>from'.
     try_res (get_enum_field LifecycleState_all encoded ''to'') (\<lambda>to'.
     try_res (get_u32 encoded ''incarnation'') (\<lambda>incarnation'.
     try_res (get_text encoded ''reason'') (\<lambda>reason'.
     try_res (get_u32 encoded ''source'') (\<lambda>source'.
     try_res (get_u32 encoded ''source_epoch'') (\<lambda>source_epoch'.
     try_res (get_unsigned encoded ''generation'') (\<lambda>generation'.
     try_res (get_unsigned encoded ''sequence'') (\<lambda>sequence'.
     try_res (get_integer encoded ''wall_ns'') (\<lambda>wall_ns'.
     Inr \<lparr>le_from = from', le_to = to', le_incarnation = incarnation', le_reason = reason',
          le_source = source', le_source_epoch = source_epoch', le_generation = generation',
          le_sequence = sequence', le_wall_ns = sint wall_ns'\<rparr>))))))))))"

section \<open>Compatibility\<close>

definition encode_Requirement :: "Requirement \<Rightarrow> Value" where
  "encode_Requirement x = value_object
     [(''key'', VInteger (word_of_nat (CapabilityKey_code (rq_key x)))),
      (''note'', VText (rq_note x)),
      (''op'', VInteger (word_of_nat (RequirementOp_code (rq_op x)))),
      (''operand'', encode_CapabilityValue (rq_operand x)),
      (''subject'', VInteger (word_of_nat (RequirementSubject_code (rq_subject x)))),
      (''subkey'', VText (rq_subkey x))]"

definition decode_Requirement :: "Value \<Rightarrow> Requirement res" where
  "decode_Requirement encoded =
     try_res (as_object encoded) (\<lambda>_.
     try_res (get_enum_field RequirementSubject_all encoded ''subject'') (\<lambda>subject'.
     try_res (get_enum_field CapabilityKey_all encoded ''key'') (\<lambda>key'.
     try_res (get_text encoded ''subkey'') (\<lambda>subkey'.
     try_res (get_enum_field RequirementOp_all encoded ''op'') (\<lambda>op'.
     try_res (get_record decode_CapabilityValue encoded ''operand'') (\<lambda>operand'.
     try_res (get_text encoded ''note'') (\<lambda>note'.
     Inr \<lparr>rq_subject = subject', rq_key = key', rq_subkey = subkey', rq_op = op',
          rq_operand = operand', rq_note = note'\<rparr>)))))))"

definition encode_RequirementEvaluation :: "DetailedEvaluation \<Rightarrow> Value" where
  "encode_RequirementEvaluation x = value_object
     [(''consensus'', VInteger (word_of_nat (ConsensusOutcome_code (re_consensus x)))),
      (''detail'', VText (re_detail x)), (''has_observed'', VBoolean (re_has_observed x)),
      (''observed'', encode_CapabilityValue (re_observed x)),
      (''requirement'', encode_Requirement (re_requirement x)),
      (''state'', VInteger (word_of_nat (RequirementState_code (re_state x))))]"

definition decode_RequirementEvaluation :: "Value \<Rightarrow> DetailedEvaluation res" where
  "decode_RequirementEvaluation encoded =
     try_res (as_object encoded) (\<lambda>_.
     try_res (get_record decode_Requirement encoded ''requirement'') (\<lambda>requirement'.
     try_res (get_enum_field RequirementState_all encoded ''state'') (\<lambda>state'.
     try_res (get_enum_field ConsensusOutcome_all encoded ''consensus'') (\<lambda>consensus'.
     try_res (get_boolean encoded ''has_observed'') (\<lambda>has_observed'.
     try_res (get_record decode_CapabilityValue encoded ''observed'') (\<lambda>observed'.
     try_res (get_text encoded ''detail'') (\<lambda>detail'.
     Inr \<lparr>re_requirement = requirement', re_state = state', re_consensus = consensus',
          re_has_observed = has_observed', re_observed = observed', re_detail = detail'\<rparr>)))))))"

definition encode_MatchedRule :: "DetailedRule \<Rightarrow> Value" where
  "encode_MatchedRule x = value_object
     [(''generation'', VInteger (dr_generation x)), (''id'', VInteger (ucast (dr_id x))),
      (''name'', VText (dr_name x)), (''priority'', VInteger (scast (dr_priority x))),
      (''rationale'', VText (dr_rationale x)),
      (''requirements'', encode_record_array encode_RequirementEvaluation (dr_requirements x)),
      (''verdict'', VInteger (word_of_nat (CompatVerdict_code (dr_verdict x))))]"

definition decode_MatchedRule :: "Value \<Rightarrow> DetailedRule res" where
  "decode_MatchedRule encoded =
     try_res (as_object encoded) (\<lambda>_.
     try_res (get_u32 encoded ''id'') (\<lambda>id'.
     try_res (get_text encoded ''name'') (\<lambda>name'.
     try_res (get_enum_field CompatVerdict_all encoded ''verdict'') (\<lambda>verdict'.
     try_res (get_i32 encoded ''priority'') (\<lambda>priority'.
     try_res (get_unsigned encoded ''generation'') (\<lambda>generation'.
     try_res (get_text encoded ''rationale'') (\<lambda>rationale'.
     try_res (get_record_array decode_RequirementEvaluation encoded ''requirements'') (\<lambda>requirements'.
     Inr \<lparr>dr_id = id', dr_name = name', dr_verdict = verdict', dr_priority = priority',
          dr_generation = generation', dr_rationale = rationale', dr_requirements = requirements'\<rparr>))))))))"

definition encode_CompatRule :: "CompatRule \<Rightarrow> Value" where
  "encode_CompatRule x = value_object
     [(''enabled'', VBoolean (cr_enabled x)), (''name'', VText (cr_name x)),
      (''priority'', VInteger (scast (cr_priority x))),
      (''provenance'', encode_Provenance (cr_provenance x)),
      (''rationale'', VText (cr_rationale x)),
      (''requirements'', encode_record_array encode_Requirement (cr_requirements x)),
      (''verdict'', VInteger (word_of_nat (CompatVerdict_code (cr_verdict x))))]"

definition decode_CompatRule :: "Value \<Rightarrow> CompatRule res" where
  "decode_CompatRule encoded =
     try_res (as_object encoded) (\<lambda>_.
     try_res (get_text encoded ''name'') (\<lambda>name'.
     try_res (get_record_array decode_Requirement encoded ''requirements'') (\<lambda>requirements'.
     try_res (get_enum_field CompatVerdict_all encoded ''verdict'') (\<lambda>verdict'.
     try_res (get_i32 encoded ''priority'') (\<lambda>priority'.
     try_res (get_text encoded ''rationale'') (\<lambda>rationale'.
     try_res (get_record decode_Provenance encoded ''provenance'') (\<lambda>provenance'.
     try_res (get_boolean encoded ''enabled'') (\<lambda>enabled'.
     Inr \<lparr>cr_name = name', cr_requirements = requirements', cr_verdict = verdict',
          cr_priority = priority', cr_rationale = rationale', cr_provenance = provenance',
          cr_enabled = enabled'\<rparr>))))))))"

definition encode_CompatRuleRecord :: "CompatRuleRecord \<Rightarrow> Value" where
  "encode_CompatRuleRecord x = value_object
     [(''generation'', VInteger (rr_generation x)), (''id'', VInteger (ucast (rr_id x))),
      (''live'', VBoolean (rr_live x)), (''rule'', encode_CompatRule (rr_rule x)),
      (''sequence'', VInteger (rr_sequence x)), (''source'', VInteger (ucast (rr_source x))),
      (''source_epoch'', VInteger (ucast (rr_source_epoch x)))]"

definition decode_CompatRuleRecord :: "Value \<Rightarrow> CompatRuleRecord res" where
  "decode_CompatRuleRecord encoded =
     try_res (as_object encoded) (\<lambda>_.
     try_res (get_u32 encoded ''id'') (\<lambda>id'.
     try_res (get_record decode_CompatRule encoded ''rule'') (\<lambda>rule'.
     try_res (get_u32 encoded ''source'') (\<lambda>source'.
     try_res (get_u32 encoded ''source_epoch'') (\<lambda>source_epoch'.
     try_res (get_unsigned encoded ''generation'') (\<lambda>generation'.
     try_res (get_unsigned encoded ''sequence'') (\<lambda>sequence'.
     try_res (get_boolean encoded ''live'') (\<lambda>live'.
     Inr \<lparr>rr_id = id', rr_rule = rule', rr_source = source', rr_source_epoch = source_epoch',
          rr_generation = generation', rr_sequence = sequence', rr_live = live'\<rparr>))))))))"

definition encode_CompatDecision :: "DetailedDecision \<Rightarrow> Value" where
  "encode_CompatDecision x = value_object
     [(''clock_domain'', VUnsigned (dd_clock_domain x)),
      (''closure'', VInteger (word_of_nat (KnowledgeClosure_code (dd_closure x)))),
      (''considered_rules'', VInteger (ucast (dd_considered_rules x))),
      (''decision_digest'', VText (to_hex (dd_decision_digest x))),
      (''evaluated_at_wall_ns'', VInteger (word_of_int (dd_evaluated_at_wall_ns x))),
      (''explanation'', VText (dd_explanation x)), (''generation'', VInteger (dd_generation x)),
      (''incarnation'', VInteger (ucast (dd_incarnation x))),
      (''indeterminate_rules'', VInteger (ucast (dd_indeterminate_rules x))),
      (''inputs_digest'', VText (to_hex (dd_inputs_digest x))),
      (''matched_rules'', encode_record_array encode_MatchedRule (dd_matched_rules x)),
      (''outcome'', VInteger (word_of_nat (CompatOutcome_code (dd_outcome x)))),
      (''port'', VText (dd_port x)), (''uid'', VInteger (dd_uid x)),
      (''unmet_requirements'', encode_record_array encode_RequirementEvaluation (dd_unmet_requirements x)),
      (''violated_requirements'', encode_record_array encode_RequirementEvaluation (dd_violated_requirements x))]"

definition decode_CompatDecision :: "Value \<Rightarrow> DetailedDecision res" where
  "decode_CompatDecision encoded =
     try_res (as_object encoded) (\<lambda>_.
     try_res (get_enum_field CompatOutcome_all encoded ''outcome'') (\<lambda>outcome'.
     try_res (get_enum_field KnowledgeClosure_all encoded ''closure'') (\<lambda>closure'.
     try_res (get_key encoded ''port'') (\<lambda>port'.
     try_res (get_unsigned encoded ''uid'') (\<lambda>uid'.
     try_res (get_u32 encoded ''incarnation'') (\<lambda>incarnation'.
     try_res (get_unsigned encoded ''generation'') (\<lambda>generation'.
     try_res (get_u32 encoded ''considered_rules'') (\<lambda>considered_rules'.
     try_res (get_u32 encoded ''indeterminate_rules'') (\<lambda>indeterminate_rules'.
     try_res (get_record_array decode_MatchedRule encoded ''matched_rules'') (\<lambda>matched_rules'.
     try_res (get_record_array decode_RequirementEvaluation encoded ''unmet_requirements'') (\<lambda>unmet_requirements'.
     try_res (get_record_array decode_RequirementEvaluation encoded ''violated_requirements'') (\<lambda>violated_requirements'.
     try_res (get_digest_field encoded ''inputs_digest'') (\<lambda>inputs_digest'.
     try_res (get_digest_field encoded ''decision_digest'') (\<lambda>decision_digest'.
     try_res (get_integer encoded ''evaluated_at_wall_ns'') (\<lambda>evaluated_at_wall_ns'.
     try_res (get_unsigned_field encoded ''clock_domain'') (\<lambda>clock_domain'.
     try_res (get_text encoded ''explanation'') (\<lambda>explanation'.
     Inr \<lparr>dd_outcome = outcome', dd_closure = closure', dd_port = port', dd_uid = uid',
          dd_incarnation = incarnation', dd_generation = generation',
          dd_considered_rules = considered_rules', dd_indeterminate_rules = indeterminate_rules',
          dd_matched_rules = matched_rules', dd_unmet_requirements = unmet_requirements',
          dd_violated_requirements = violated_requirements', dd_inputs_digest = inputs_digest',
          dd_decision_digest = decision_digest',
          dd_evaluated_at_wall_ns = sint evaluated_at_wall_ns', dd_clock_domain = clock_domain',
          dd_explanation = explanation'\<rparr>)))))))))))))))))"

section \<open>Aggregate reports\<close>

definition encode_RegistryStats :: "DigestedStats \<Rightarrow> Value" where
  "encode_RegistryStats x = value_object
     [(''attachments'', VInteger (rt_attachments x)), (''claims'', VInteger (rt_claims x)),
      (''conflicts_observed'', VInteger (rt_conflicts_observed x)),
      (''declarations'', VInteger (rt_declarations x)),
      (''fenced_incarnations'', VInteger (rt_fenced_incarnations x)),
      (''generation'', VInteger (rt_generation x)),
      (''incarnations'', VInteger (rt_incarnations x)),
      (''live_attachments'', VInteger (rt_live_attachments x)),
      (''modules'', VInteger (rt_modules x)), (''mutations'', VInteger (rt_mutations x)),
      (''ports'', VInteger (rt_ports x)), (''queries'', VInteger (rt_queries x)),
      (''refusals'', VInteger (rt_refusals x)),
      (''registry_incarnation'', VInteger (ucast (rt_registry_incarnation x))),
      (''rules'', VInteger (rt_rules x)), (''samples'', VInteger (rt_samples x)),
      (''sources'', VInteger (rt_sources x)),
      (''state_digest'', VText (to_hex (rt_state_digest x))),
      (''thresholds'', VInteger (rt_thresholds x))]"

definition decode_RegistryStats :: "Value \<Rightarrow> DigestedStats res" where
  "decode_RegistryStats encoded =
     try_res (as_object encoded) (\<lambda>_.
     try_res (get_unsigned encoded ''generation'') (\<lambda>generation'.
     try_res (get_u32 encoded ''registry_incarnation'') (\<lambda>registry_incarnation'.
     try_res (get_unsigned encoded ''sources'') (\<lambda>sources'.
     try_res (get_unsigned encoded ''modules'') (\<lambda>modules'.
     try_res (get_unsigned encoded ''incarnations'') (\<lambda>incarnations'.
     try_res (get_unsigned encoded ''fenced_incarnations'') (\<lambda>fenced_incarnations'.
     try_res (get_unsigned encoded ''ports'') (\<lambda>ports'.
     try_res (get_unsigned encoded ''rules'') (\<lambda>rules'.
     try_res (get_unsigned encoded ''thresholds'') (\<lambda>thresholds'.
     try_res (get_unsigned encoded ''attachments'') (\<lambda>attachments'.
     try_res (get_unsigned encoded ''live_attachments'') (\<lambda>live_attachments'.
     try_res (get_unsigned encoded ''claims'') (\<lambda>claims'.
     try_res (get_unsigned encoded ''declarations'') (\<lambda>declarations'.
     try_res (get_unsigned encoded ''samples'') (\<lambda>samples'.
     try_res (get_unsigned encoded ''mutations'') (\<lambda>mutations'.
     try_res (get_unsigned encoded ''refusals'') (\<lambda>refusals'.
     try_res (get_unsigned encoded ''queries'') (\<lambda>queries'.
     try_res (get_unsigned encoded ''conflicts_observed'') (\<lambda>conflicts_observed'.
     try_res (get_digest_field encoded ''state_digest'') (\<lambda>state_digest'.
     Inr \<lparr>rt_generation = generation', rt_registry_incarnation = registry_incarnation',
          rt_sources = sources', rt_modules = modules', rt_incarnations = incarnations',
          rt_fenced_incarnations = fenced_incarnations', rt_ports = ports', rt_rules = rules',
          rt_thresholds = thresholds', rt_attachments = attachments',
          rt_live_attachments = live_attachments', rt_claims = claims',
          rt_declarations = declarations', rt_samples = samples', rt_mutations = mutations',
          rt_refusals = refusals', rt_queries = queries',
          rt_conflicts_observed = conflicts_observed', rt_state_digest = state_digest'\<rparr>))))))))))))))))))))"

definition encode_LoadReport :: "LoadReport \<Rightarrow> Value" where
  "encode_LoadReport x = value_object
     [(''claims'', VInteger (ld_claims x)),
      (''content_digest'', VText (to_hex (ld_content_digest x))),
      (''declarations'', VInteger (ld_declarations x)),
      (''dropped_tail_bytes'', VInteger (ld_dropped_tail_bytes x)),
      (''evidence_invalidated_on_load'', VInteger (ld_evidence_invalidated_on_load x)),
      (''fenced_incarnations'', VInteger (ld_fenced_incarnations x)),
      (''format_version'', VInteger (ucast (ld_format_version x))),
      (''generation'', VInteger (ld_generation x)),
      (''incarnations'', VInteger (ld_incarnations x)),
      (''loaded_at_wall_ns'', VInteger (word_of_int (ld_loaded_at_wall_ns x))),
      (''modules'', VInteger (ld_modules x)), (''ports'', VInteger (ld_ports x)),
      (''recovery_note'', VText (ld_recovery_note x)),
      (''registry_incarnation'', VInteger (ucast (ld_registry_incarnation x))),
      (''rules'', VInteger (ld_rules x)), (''samples'', VInteger (ld_samples x)),
      (''sources'', VInteger (ld_sources x)),
      (''tail_recovered'', VBoolean (ld_tail_recovered x)),
      (''thresholds'', VInteger (ld_thresholds x))]"

definition decode_LoadReport :: "Value \<Rightarrow> LoadReport res" where
  "decode_LoadReport encoded =
     try_res (as_object encoded) (\<lambda>_.
     try_res (get_u16 encoded ''format_version'') (\<lambda>format_version'.
     try_res (get_unsigned encoded ''generation'') (\<lambda>generation'.
     try_res (get_u32 encoded ''registry_incarnation'') (\<lambda>registry_incarnation'.
     try_res (get_unsigned encoded ''modules'') (\<lambda>modules'.
     try_res (get_unsigned encoded ''incarnations'') (\<lambda>incarnations'.
     try_res (get_unsigned encoded ''sources'') (\<lambda>sources'.
     try_res (get_unsigned encoded ''ports'') (\<lambda>ports'.
     try_res (get_unsigned encoded ''rules'') (\<lambda>rules'.
     try_res (get_unsigned encoded ''thresholds'') (\<lambda>thresholds'.
     try_res (get_unsigned encoded ''claims'') (\<lambda>claims'.
     try_res (get_unsigned encoded ''declarations'') (\<lambda>declarations'.
     try_res (get_unsigned encoded ''samples'') (\<lambda>samples'.
     try_res (get_unsigned encoded ''fenced_incarnations'') (\<lambda>fenced_incarnations'.
     try_res (get_unsigned encoded ''evidence_invalidated_on_load'') (\<lambda>evidence_invalidated_on_load'.
     try_res (get_boolean encoded ''tail_recovered'') (\<lambda>tail_recovered'.
     try_res (get_unsigned encoded ''dropped_tail_bytes'') (\<lambda>dropped_tail_bytes'.
     try_res (get_text encoded ''recovery_note'') (\<lambda>recovery_note'.
     try_res (get_digest_field encoded ''content_digest'') (\<lambda>content_digest'.
     try_res (get_integer encoded ''loaded_at_wall_ns'') (\<lambda>loaded_at_wall_ns'.
     Inr \<lparr>ld_format_version = format_version', ld_generation = generation',
          ld_registry_incarnation = registry_incarnation', ld_modules = modules',
          ld_incarnations = incarnations', ld_sources = sources', ld_ports = ports',
          ld_rules = rules', ld_thresholds = thresholds', ld_claims = claims',
          ld_declarations = declarations', ld_samples = samples',
          ld_fenced_incarnations = fenced_incarnations',
          ld_evidence_invalidated_on_load = evidence_invalidated_on_load',
          ld_tail_recovered = tail_recovered', ld_dropped_tail_bytes = dropped_tail_bytes',
          ld_recovery_note = recovery_note', ld_content_digest = content_digest',
          ld_loaded_at_wall_ns = sint loaded_at_wall_ns'\<rparr>))))))))))))))))))))"

end
