(* ===== verification/CodecLaws.thy ===== *)
theory CodecLaws
  imports Codec
begin

text \<open>
  The laws of the record codecs. The contract is the locale \<open>record_codec\<close>: decoding the encoding of
  a valid record gives the record back, and a refused document is reported as \<open>Malformed\<close> or, for a
  bad key text, \<open>InvalidArgument\<close>. Every codec of the code is an interpretation; arrays of records
  and nested records inherit the contract. Validity is what the encoder silently assumes: unsigned
  64-bit members below 2 to the 63 (they are written as signed integers), finite reals,
  times in the 64-bit range, 32-byte digests and keys the key grammar accepts.
\<close>

named_theorems member_simps \<open>reading one member of an encoded object\<close>
named_theorems le_intros \<open>decoding a document with further members\<close>
named_theorems fails_intros \<open>the errors a decoder can report\<close>

section \<open>Members of an object\<close>

definition member :: "(Value \<Rightarrow> 'a res) \<Rightarrow> (string \<times> Value) list \<Rightarrow> string \<Rightarrow> 'a res" where
  "member read ms key = (case map_of ms key of None \<Rightarrow> Inl Malformed | Some v \<Rightarrow> read v)"

lemma member_Cons [member_simps]:
  "member read ((k, v) # ms) key = (if key = k then read v else member read ms key)"
  "member read [] key = Inl Malformed"
  by (simp_all add: member_def)

lemma is_object_value_object [member_simps]: "is_object (value_object ms)"
  "as_object (value_object ms) = Inr (value_object ms)"
  by (simp_all add: value_object_def as_object_def)

lemma find_value_object [member_simps]: "value_find (value_object ms) key = map_of ms key"
proof -
  have "sorted (map fst (sort_key fst ms))" by simp
  then show ?thesis
    using sorted_unique_keys [of "sort_key fst ms" key]
    by (simp add: value_object_def value_find_oget map_of_sort_key del: value_find.simps)
qed

lemma require_field_object: "require_field (value_object ms) key = member Inr ms key"
  by (simp add: require_field_def find_value_object is_object_value_object member_def)

lemma member_bind: "try_res (member Inr ms key) f = member f ms key"
  by (simp add: member_def split: option.split)

lemma member_try: "try_res (member read ms key) f = member (\<lambda>v. try_res (read v) f) ms key"
  by (simp add: member_def split: option.split)

text \<open>The readers of one value that the accessors apply to the member they find.\<close>

definition integer_of :: "Value \<Rightarrow> 64 word res" where
  "integer_of v = (case v of VInteger i \<Rightarrow> Inr i | _ \<Rightarrow> Inl Malformed)"

definition unsigned_of :: "Value \<Rightarrow> 64 word res" where
  "unsigned_of v = try_res (integer_of v) (\<lambda>i. if sint i < 0 then Inl Malformed else Inr i)"

definition unsigned_field_of :: "Value \<Rightarrow> 64 word res" where
  "unsigned_field_of v = (case v of
        VUnsigned u \<Rightarrow> Inr u
      | VInteger i \<Rightarrow> if sint i < 0 then Inl Malformed else Inr i
      | _ \<Rightarrow> Inl Malformed)"

definition boolean_of :: "Value \<Rightarrow> bool res" where
  "boolean_of v = (case v of VBoolean b \<Rightarrow> Inr b | _ \<Rightarrow> Inl Malformed)"

definition real_of :: "Value \<Rightarrow> double res" where
  "real_of v = (case number_as_double v of Some d \<Rightarrow> Inr d | None \<Rightarrow> Inl Malformed)"

definition finite_real_of :: "Value \<Rightarrow> double res" where
  "finite_real_of v = try_res (real_of v) (\<lambda>d. if \<not> isfinite d then Inl Malformed else Inr d)"

definition text_of :: "Value \<Rightarrow> string res" where
  "text_of v = (case v of VText s \<Rightarrow> Inr s | _ \<Rightarrow> Inl Malformed)"

definition array_of :: "Value \<Rightarrow> Value list res" where
  "array_of v = (case v of VArray vs \<Rightarrow> Inr vs | _ \<Rightarrow> Inl Malformed)"

definition enum_of :: "'e list \<Rightarrow> Value \<Rightarrow> 'e res" where
  "enum_of es v = try_res (integer_of v)
     (\<lambda>raw. if sint raw < 0 \<or> sint raw > int (length es) - 1 then Inl Malformed
            else Inr (es ! nat (sint raw)))"

definition u16_of :: "Value \<Rightarrow> 16 word res" where
  "u16_of v = try_res (unsigned_of v) (\<lambda>raw. if raw > 0xffff then Inl Malformed else Inr (ucast raw))"

definition u32_of :: "Value \<Rightarrow> 32 word res" where
  "u32_of v = try_res (unsigned_of v) (\<lambda>raw. if raw > 0xffffffff then Inl Malformed else Inr (ucast raw))"

definition i32_of :: "Value \<Rightarrow> 32 word res" where
  "i32_of v = try_res (integer_of v)
     (\<lambda>raw. if sint raw < - (2 ^ 31) \<or> sint raw > 2 ^ 31 - 1 then Inl Malformed
            else Inr (scast raw))"

definition digest_of :: "Value \<Rightarrow> Digest res" where
  "digest_of v = try_res (text_of v)
     (\<lambda>text. case from_hex text of Inl _ \<Rightarrow> Inl Malformed | Inr d \<Rightarrow> Inr d)"

definition key_of :: "Value \<Rightarrow> string res" where
  "key_of v = try_res (text_of v) (\<lambda>text. if text = [] then Inr [] else parse_key text)"

definition records_of :: "(Value \<Rightarrow> 'a res) \<Rightarrow> Value \<Rightarrow> 'a list res" where
  "records_of decode v = try_res (array_of v) (map_res decode)"

lemma accessors_object [member_simps]:
  "get_integer (value_object ms) key = member integer_of ms key"
  "get_unsigned (value_object ms) key = member unsigned_of ms key"
  "get_unsigned_field (value_object ms) key = member unsigned_field_of ms key"
  "get_boolean (value_object ms) key = member boolean_of ms key"
  "get_real (value_object ms) key = member real_of ms key"
  "get_finite_real (value_object ms) key = member finite_real_of ms key"
  "get_text (value_object ms) key = member text_of ms key"
  "get_array (value_object ms) key = member array_of ms key"
  "get_enum_field es (value_object ms) key = member (enum_of es) ms key"
  "get_u16 (value_object ms) key = member u16_of ms key"
  "get_u32 (value_object ms) key = member u32_of ms key"
  "get_i32 (value_object ms) key = member i32_of ms key"
  "get_digest_field (value_object ms) key = member digest_of ms key"
  "get_key (value_object ms) key = member key_of ms key"
  "get_record decode (value_object ms) key = member decode ms key"
  "get_record_array decode (value_object ms) key = member (records_of decode) ms key"
  by (simp_all add: get_integer_def get_unsigned_def get_unsigned_field_def get_boolean_def get_real_def
      get_finite_real_def get_text_def get_array_def get_enum_field_def get_u16_def get_u32_def
      get_i32_def get_digest_field_def get_key_def get_record_def get_record_array_def
      require_field_object member_bind member_try
      integer_of_def [abs_def] unsigned_of_def [abs_def] unsigned_field_of_def [abs_def]
      boolean_of_def [abs_def] real_of_def [abs_def] finite_real_of_def [abs_def] text_of_def [abs_def]
      array_of_def [abs_def] enum_of_def [abs_def] u16_of_def [abs_def] u32_of_def [abs_def]
      i32_of_def [abs_def] digest_of_def [abs_def] key_of_def [abs_def] records_of_def [abs_def])

text \<open>What is written reads back.\<close>

definition u63 :: "64 word \<Rightarrow> bool" where
  "u63 u \<longleftrightarrow> uint u < 2 ^ 63"

definition i64 :: "int \<Rightarrow> bool" where
  "i64 i \<longleftrightarrow> - (2 ^ 63) \<le> i \<and> i < 2 ^ 63"

definition key_text :: "string \<Rightarrow> bool" where
  "key_text k \<longleftrightarrow> k = [] \<or> parse_key k = Inr k"

lemma sint_of_int: "i64 i \<Longrightarrow> sint (word_of_int i :: 64 word) = i"
  by (simp add: i64_def sint_uint unsigned_of_int signed_take_bit_take_bit signed_take_bit_int_eq_self)

lemma u63_sint: "u63 u \<longleftrightarrow> 0 \<le> sint u"
proof
  assume "u63 u"
  then have "sint (word_of_int (uint u) :: 64 word) = uint u"
    by (intro sint_of_int) (simp add: u63_def i64_def order_trans [of _ 0])
  then show "0 \<le> sint u" by simp
next
  assume "0 \<le> sint u"
  moreover have b: "sint u < 2 ^ 63" using sint_less [of u] by simp
  ultimately have "uint u = sint u" by (simp add: uint_sint take_bit_int_eq_self)
  then show "u63 u" using b by (simp add: u63_def)
qed

lemma integer_of_simps [member_simps]:
  "integer_of (VInteger i) = Inr i"
  "u63 u \<Longrightarrow> unsigned_of (VInteger u) = Inr u"
  "unsigned_field_of (VUnsigned u) = Inr u"
  "boolean_of (VBoolean b) = Inr b"
  "real_of (VReal d) = Inr d"
  "isfinite d \<Longrightarrow> finite_real_of (VReal d) = Inr d"
  "text_of (VText s) = Inr s"
  "array_of (VArray vs) = Inr vs"
  "length h = 32 \<Longrightarrow> digest_of (VText (to_hex h)) = Inr h"
  "key_text k \<Longrightarrow> key_of (VText k) = Inr k"
  by (auto simp: integer_of_def unsigned_of_def unsigned_field_of_def boolean_of_def real_of_def
      finite_real_of_def text_of_def array_of_def digest_of_def from_hex_to_hex key_of_def key_text_def
      u63_sint)

lemma isfinite_zero [member_simps]: "isfinite dbl_zero"
  by code_simp

lemma i32_of_simps [member_simps]: "i32_of (VInteger (scast (w :: 32 word))) = Inr w"
proof -
  have b: "- (2 ^ 31) \<le> sint w" "sint w < 2 ^ 31"
    using sint_greater_eq [of w] sint_less [of w] by simp_all
  have "i64 (sint w)" using b by (simp add: i64_def)
  then have s: "sint (scast w :: 64 word) = sint w" unfolding scast_eq by (rule sint_of_int)
  have "scast (scast w :: 64 word) = (word_of_int (sint w) :: 32 word)" unfolding scast_eq [of "scast w"] s ..
  then have "scast (scast w :: 64 word) = w" by simp
  then show ?thesis using b s by (simp add: i32_of_def integer_of_def)
qed

lemma ucast_small:
  assumes "LENGTH('a::len) < 64"
  shows "uint (ucast (w :: 'a word) :: 64 word) = uint w" "u63 (ucast w)"
    "ucast (ucast w :: 64 word) = w"
proof -
  have b: "uint w < 2 ^ LENGTH('a)" by (rule unsigned_less)
  have p: "(2::int) ^ LENGTH('a) \<le> 2 ^ 63" using assms by (intro power_increasing) simp_all
  show u: "uint (ucast w :: 64 word) = uint w"
    using less_le_trans [OF b p] by (simp add: unsigned_ucast_eq take_bit_int_eq_self)
  show "u63 (ucast w)" using less_le_trans [OF b p] u by (simp add: u63_def)
  show "ucast (ucast w :: 64 word) = w"
    using assms by (intro bit_word_eqI) (simp add: bit_ucast_iff)
qed

lemma narrow_of_simps [member_simps]:
  "u32_of (VInteger (ucast (w :: 32 word))) = Inr w"
  "u16_of (VInteger (ucast (l :: 16 word))) = Inr l"
proof -
  have "uint w < 2 ^ LENGTH(32)" "uint l < 2 ^ LENGTH(16)" by (rule unsigned_less)+
  then have "\<not> (ucast w :: 64 word) > 0xffffffff" "\<not> (ucast l :: 64 word) > 0xffff"
    by (simp_all add: word_less_def ucast_small)
  then show "u32_of (VInteger (ucast w)) = Inr w" "u16_of (VInteger (ucast l)) = Inr l"
    by (simp_all add: u32_of_def u16_of_def integer_of_simps ucast_small)
qed

lemma enum_of_code:
  "n < length es \<Longrightarrow> length es \<le> 256 \<Longrightarrow> enum_of es (VInteger (word_of_nat n)) = Inr (es ! n)"
  by (simp add: enum_of_def integer_of_def sint_word_of_nat)

lemmas [member_simps] = sint_of_int

section \<open>Errors of a decoder\<close>

definition fails_in :: "StatusCode set \<Rightarrow> 'a res \<Rightarrow> bool" where
  "fails_in E r \<longleftrightarrow> (\<forall>e. r = Inl e \<longrightarrow> e \<in> E)"

lemma fails_in_try [fails_intros]:
  "fails_in E r \<Longrightarrow> (\<And>x. fails_in E (f x)) \<Longrightarrow> fails_in E (try_res r f)"
  by (auto simp: fails_in_def try_res_Inl)

lemma fails_in_basic [fails_intros]:
  "fails_in E (Inr x)" "e \<in> E \<Longrightarrow> fails_in E (Inl e)"
  "(b \<Longrightarrow> fails_in E r) \<Longrightarrow> (\<not> b \<Longrightarrow> fails_in E s) \<Longrightarrow> fails_in E (if b then r else s)"
  by (simp_all add: fails_in_def)

lemma fails_cases:
  "Malformed \<in> E \<Longrightarrow> fails_in E (case v of VInteger i \<Rightarrow> Inr i | _ \<Rightarrow> Inl Malformed)"
  "Malformed \<in> E \<Longrightarrow> fails_in E (case v of VText s \<Rightarrow> Inr s | _ \<Rightarrow> Inl Malformed)"
  by (simp_all add: fails_in_def split: Value.split)

lemma fails_in_map_res [fails_intros]: "(\<And>x. fails_in E (f x)) \<Longrightarrow> fails_in E (map_res f xs)"
  by (induction xs) (auto intro!: fails_intros)

lemma fails_fields:
  assumes "Malformed \<in> E"
  shows "fails_in E (require_field v key)" "fails_in E (as_object v)"
    "fails_in E (get_integer v key)" "fails_in E (get_boolean v key)" "fails_in E (get_real v key)"
    "fails_in E (get_text v key)" "fails_in E (get_array v key)" "fails_in E (get_unsigned_field v key)"
proof -
  show r: "fails_in E (require_field v key)" "fails_in E (as_object v)"
    using assms by (auto simp: fails_in_def require_field_def as_object_def split: option.splits if_splits)
  show "fails_in E (get_integer v key)" "fails_in E (get_boolean v key)" "fails_in E (get_real v key)"
    "fails_in E (get_text v key)" "fails_in E (get_array v key)" "fails_in E (get_unsigned_field v key)"
    unfolding get_integer_def get_boolean_def get_real_def get_text_def get_array_def get_unsigned_field_def
    using assms
    by (auto intro!: fails_intros r split: Value.split option.split)
qed

lemma fails_accessors [fails_intros]:
  assumes "Malformed \<in> E"
  shows "fails_in E (get_unsigned v key)" "fails_in E (get_u16 v key)" "fails_in E (get_u32 v key)"
    "fails_in E (get_i32 v key)" "fails_in E (get_finite_real v key)" "fails_in E (get_digest_field v key)"
    "fails_in E (get_enum_field es v key)" "fails_in E (get_enum table v key)"
proof -
  note fails = fails_intros fails_fields [OF assms] assms
  show u: "fails_in E (get_unsigned v key)"
    unfolding get_unsigned_def by (intro fails)
  show "fails_in E (get_u16 v key)" "fails_in E (get_u32 v key)" "fails_in E (get_i32 v key)"
    "fails_in E (get_finite_real v key)" "fails_in E (get_enum_field es v key)"
    unfolding get_u16_def get_u32_def get_i32_def get_finite_real_def get_enum_field_def
    by (intro fails u)+
  show "fails_in E (get_digest_field v key)" "fails_in E (get_enum table v key)"
    unfolding get_digest_field_def get_enum_def
    by (auto intro!: fails split: sum.split option.split)
qed

lemma fails_key [fails_intros]:
  "Malformed \<in> E \<Longrightarrow> InvalidArgument \<in> E \<Longrightarrow> fails_in E (get_key v key)"
  unfolding get_key_def parse_key_def validate_key_text_def
  by (intro fails_intros fails_fields)

lemma fails_record [fails_intros]:
  "Malformed \<in> E \<Longrightarrow> (\<And>w. fails_in E (decode w)) \<Longrightarrow> fails_in E (get_record decode v key)"
  "Malformed \<in> E \<Longrightarrow> (\<And>w. fails_in E (decode w)) \<Longrightarrow> fails_in E (get_record_array decode v key)"
  unfolding get_record_def get_record_array_def by (intro fails_intros fails_fields; assumption)+

lemmas [fails_intros] = fails_fields

section \<open>Documents with further members\<close>

text \<open>\<open>extends\<close>: whatever the first result is, when it is a success the second is the same one.\<close>

definition res_le :: "'a res \<Rightarrow> 'a res \<Rightarrow> bool" where
  "res_le r s \<longleftrightarrow> (\<forall>x. r = Inr x \<longrightarrow> s = Inr x)"

lemma res_le_intros [le_intros]:
  "res_le r r"
  "res_le r s \<Longrightarrow> (\<And>x. res_le (f x) (g x)) \<Longrightarrow> res_le (try_res r f) (try_res s g)"
  by (auto simp: res_le_def try_res_Inr)

lemma le_if: "(b \<Longrightarrow> res_le r r') \<Longrightarrow> (\<not> b \<Longrightarrow> res_le s s') \<Longrightarrow> res_le (if b then r else s) (if b then r' else s')"
  by simp

lemma res_le_member [le_intros]:
  "map_of ms \<subseteq>\<^sub>m map_of ms' \<Longrightarrow> res_le (member read ms key) (member read ms' key)"
  by (auto simp: res_le_def member_def map_le_def dom_def split: option.splits)

section \<open>The contract\<close>

text \<open>
  A record survives a codec when its document decodes to it, in memory and through the bytes of the
  writer and the strict reader, under all limits that the document meets.
\<close>

definition survives :: "('a \<Rightarrow> Value) \<Rightarrow> (Value \<Rightarrow> 'a res) \<Rightarrow> 'a \<Rightarrow> bool" where
  "survives encode decode x \<longleftrightarrow>
     decode (encode x) = Inr x \<and>
     (\<forall>L. document_fits L (encode x) \<and>
          length (w_buffer (write_value (encode x) writer_empty)) \<le> unat (max_document_bytes L) \<longrightarrow>
          try_res (read_document L (w_buffer (write_value (encode x) writer_empty))) decode = Inr x)"

locale record_codec =
  fixes encode :: "'a \<Rightarrow> Value"
    and decode :: "Value \<Rightarrow> 'a res"
    and valid :: "'a \<Rightarrow> bool"
  assumes decode_extends: "map_of ms \<subseteq>\<^sub>m map_of ms' \<Longrightarrow>
        res_le (decode (value_object ms)) (decode (value_object ms'))"
    and decode_encode: "valid x \<Longrightarrow> decode (encode x) = Inr x"
    and decode_fails: "fails_in {Malformed, InvalidArgument} (decode v)"
begin

lemma encode_inj: "valid x \<Longrightarrow> valid y \<Longrightarrow> encode x = encode y \<longleftrightarrow> x = y"
  by (metis decode_encode sum.inject(2))

lemma array_decode:
  "\<forall>x \<in> set xs. valid x \<Longrightarrow> records_of decode (encode_record_array encode xs) = Inr xs"
  by (simp add: records_of_def encode_record_array_def integer_of_simps map_res_map decode_encode)

text \<open>Adding members to a document changes nothing.\<close>

lemma decode_further:
  assumes "decode (value_object ms) = Inr x"
  shows "decode (value_object (ms @ further)) = Inr x"
proof -
  have "map_of ms \<subseteq>\<^sub>m map_of (ms @ further)" by (auto simp: map_le_def map_add_def dom_def)
  then show ?thesis using decode_extends assms unfolding res_le_def by blast
qed

text \<open>Through the bytes: what the writer produces for a valid record decodes to the record.\<close>

lemma bytes_decode:
  assumes "valid x" "document_fits L (encode x)"
    "length (w_buffer (write_value (encode x) writer_empty)) \<le> unat (max_document_bytes L)"
  shows "try_res (read_document L (w_buffer (write_value (encode x) writer_empty))) decode = Inr x"
proof -
  have "writable (encode x)" using assms(2) unfolding document_fits_def by (blast intro: fits_writable)
  then have "w_buffer (write_value (encode x) writer_empty) = canonical_bytes (encode x)"
    by (simp add: write_value_writable w_append_def writer_empty_def)
  then have "read_document L (w_buffer (write_value (encode x) writer_empty)) = Inr (encode x)"
    using assms by (simp add: read_document_Inr)
  then show ?thesis using assms(1) by (simp add: decode_encode)
qed

lemma record_survives: "valid x \<Longrightarrow> survives encode decode x"
  using bytes_decode by (auto simp: survives_def decode_encode)

end

text \<open>The number of an enumerator reads back as the enumerator.\<close>

lemma enum_of_EvidenceKind [member_simps]:
  "enum_of EvidenceKind_all (VInteger (word_of_nat (EvidenceKind_code e))) = Inr e"
  by (simp add: enum_of_code)

lemma enum_of_IdentityField [member_simps]:
  "enum_of IdentityField_all (VInteger (word_of_nat (IdentityField_code e))) = Inr e"
  by (simp add: enum_of_code)

lemma enum_of_ConsensusOutcome [member_simps]:
  "enum_of ConsensusOutcome_all (VInteger (word_of_nat (ConsensusOutcome_code e))) = Inr e"
  by (simp add: enum_of_code)

lemma enum_of_LifecycleState [member_simps]:
  "enum_of LifecycleState_all (VInteger (word_of_nat (LifecycleState_code e))) = Inr e"
  by (simp add: enum_of_code)

lemma enum_of_RegisterIntent [member_simps]:
  "enum_of RegisterIntent_all (VInteger (word_of_nat (RegisterIntent_code e))) = Inr e"
  by (simp add: enum_of_code)

lemma enum_of_MutationPolicy [member_simps]:
  "enum_of MutationPolicy_all (VInteger (word_of_nat (MutationPolicy_code e))) = Inr e"
  by (simp add: enum_of_code)

lemma enum_of_WavelengthGrid [member_simps]:
  "enum_of WavelengthGrid_all (VInteger (word_of_nat (WavelengthGrid_code e))) = Inr e"
  by (simp add: enum_of_code)

lemma enum_of_CapabilityKey [member_simps]:
  "enum_of CapabilityKey_all (VInteger (word_of_nat (CapabilityKey_code e))) = Inr e"
  by (simp add: enum_of_code)

lemma enum_of_HealthMetric [member_simps]:
  "enum_of HealthMetric_all (VInteger (word_of_nat (HealthMetric_code e))) = Inr e"
  by (simp add: enum_of_code)

lemma enum_of_SamplePresence [member_simps]:
  "enum_of SamplePresence_all (VInteger (word_of_nat (SamplePresence_code e))) = Inr e"
  by (simp add: enum_of_code)

lemma enum_of_ThresholdDirection [member_simps]:
  "enum_of ThresholdDirection_all (VInteger (word_of_nat (ThresholdDirection_code e))) = Inr e"
  by (simp add: enum_of_code)

lemma enum_of_MetricState [member_simps]:
  "enum_of MetricState_all (VInteger (word_of_nat (MetricState_code e))) = Inr e"
  by (simp add: enum_of_code)

lemma enum_of_HealthIssueKind [member_simps]:
  "enum_of HealthIssueKind_all (VInteger (word_of_nat (HealthIssueKind_code e))) = Inr e"
  by (simp add: enum_of_code)

lemma enum_of_HealthOutcome [member_simps]:
  "enum_of HealthOutcome_all (VInteger (word_of_nat (HealthOutcome_code e))) = Inr e"
  by (simp add: enum_of_code)

lemma enum_of_RequirementSubject [member_simps]:
  "enum_of RequirementSubject_all (VInteger (word_of_nat (RequirementSubject_code e))) = Inr e"
  by (simp add: enum_of_code)

lemma enum_of_RequirementOp [member_simps]:
  "enum_of RequirementOp_all (VInteger (word_of_nat (RequirementOp_code e))) = Inr e"
  by (simp add: enum_of_code)

lemma enum_of_RequirementState [member_simps]:
  "enum_of RequirementState_all (VInteger (word_of_nat (RequirementState_code e))) = Inr e"
  by (simp add: enum_of_code)

lemma enum_of_CompatVerdict [member_simps]:
  "enum_of CompatVerdict_all (VInteger (word_of_nat (CompatVerdict_code e))) = Inr e"
  by (simp add: enum_of_code)

lemma enum_of_CompatOutcome [member_simps]:
  "enum_of CompatOutcome_all (VInteger (word_of_nat (CompatOutcome_code e))) = Inr e"
  by (simp add: enum_of_code)

lemma enum_of_KnowledgeClosure [member_simps]:
  "enum_of KnowledgeClosure_all (VInteger (word_of_nat (KnowledgeClosure_code e))) = Inr e"
  by (simp add: enum_of_code)

section \<open>The codecs\<close>

definition valid_Provenance :: "Provenance \<Rightarrow> bool" where
  "valid_Provenance x \<longleftrightarrow>
     length (pv_content_digest x) = 32"

lemma decode_encode_Provenance [member_simps]:
  "valid_Provenance x \<Longrightarrow> decode_Provenance (encode_Provenance x) = Inr x"
  by (cases x) (simp add: decode_Provenance_def encode_Provenance_def valid_Provenance_def member_simps)

lemma decode_Provenance_fails [fails_intros]:
  "Malformed \<in> E \<Longrightarrow> fails_in E (decode_Provenance v)"
  unfolding decode_Provenance_def by (intro fails_intros)

lemma decode_Provenance_extends:
  "map_of ms \<subseteq>\<^sub>m map_of ms' \<Longrightarrow>
   res_le (decode_Provenance (value_object ms)) (decode_Provenance (value_object ms'))"
  unfolding decode_Provenance_def accessors_object is_object_value_object try_res_simps
  by (intro le_intros)

interpretation codec_Provenance: record_codec encode_Provenance decode_Provenance valid_Provenance
  by unfold_locales (simp_all add: decode_Provenance_extends decode_encode_Provenance decode_Provenance_fails)

definition valid_SourceDescriptor :: "SourceDescriptor \<Rightarrow> bool" where
  "valid_SourceDescriptor x \<longleftrightarrow>
     True"

lemma decode_encode_SourceDescriptor [member_simps]:
  "valid_SourceDescriptor x \<Longrightarrow> decode_SourceDescriptor (encode_SourceDescriptor x) = Inr x"
  by (cases x) (simp add: decode_SourceDescriptor_def encode_SourceDescriptor_def valid_SourceDescriptor_def member_simps)

lemma decode_SourceDescriptor_fails [fails_intros]:
  "Malformed \<in> E \<Longrightarrow> fails_in E (decode_SourceDescriptor v)"
  unfolding decode_SourceDescriptor_def by (intro fails_intros)

lemma decode_SourceDescriptor_extends:
  "map_of ms \<subseteq>\<^sub>m map_of ms' \<Longrightarrow>
   res_le (decode_SourceDescriptor (value_object ms)) (decode_SourceDescriptor (value_object ms'))"
  unfolding decode_SourceDescriptor_def accessors_object is_object_value_object try_res_simps
  by (intro le_intros)

interpretation codec_SourceDescriptor: record_codec encode_SourceDescriptor decode_SourceDescriptor valid_SourceDescriptor
  by unfold_locales (simp_all add: decode_SourceDescriptor_extends decode_encode_SourceDescriptor decode_SourceDescriptor_fails)

definition valid_SourceHandle :: "SourceHandle \<Rightarrow> bool" where
  "valid_SourceHandle x \<longleftrightarrow>
     u63 (sh_generation x)"

lemma decode_encode_SourceHandle [member_simps]:
  "valid_SourceHandle x \<Longrightarrow> decode_SourceHandle (encode_SourceHandle x) = Inr x"
  by (cases x) (simp add: decode_SourceHandle_def encode_SourceHandle_def valid_SourceHandle_def member_simps)

lemma decode_SourceHandle_fails [fails_intros]:
  "Malformed \<in> E \<Longrightarrow> fails_in E (decode_SourceHandle v)"
  unfolding decode_SourceHandle_def by (intro fails_intros)

lemma decode_SourceHandle_extends:
  "map_of ms \<subseteq>\<^sub>m map_of ms' \<Longrightarrow>
   res_le (decode_SourceHandle (value_object ms)) (decode_SourceHandle (value_object ms'))"
  unfolding decode_SourceHandle_def accessors_object is_object_value_object try_res_simps
  by (intro le_intros)

interpretation codec_SourceHandle: record_codec encode_SourceHandle decode_SourceHandle valid_SourceHandle
  by unfold_locales (simp_all add: decode_SourceHandle_extends decode_encode_SourceHandle decode_SourceHandle_fails)

definition valid_ModuleHandle :: "ModuleHandle \<Rightarrow> bool" where
  "valid_ModuleHandle x \<longleftrightarrow>
     u63 (mo_uid x) \<and>
     u63 (mo_generation x) \<and>
     key_text (mo_key x)"

lemma decode_encode_ModuleHandle [member_simps]:
  "valid_ModuleHandle x \<Longrightarrow> decode_ModuleHandle (encode_ModuleHandle x) = Inr x"
  by (cases x) (simp add: decode_ModuleHandle_def encode_ModuleHandle_def valid_ModuleHandle_def member_simps)

lemma decode_ModuleHandle_fails [fails_intros]:
  "Malformed \<in> E \<Longrightarrow> InvalidArgument \<in> E \<Longrightarrow> fails_in E (decode_ModuleHandle v)"
  unfolding decode_ModuleHandle_def by (intro fails_intros)

lemma decode_ModuleHandle_extends:
  "map_of ms \<subseteq>\<^sub>m map_of ms' \<Longrightarrow>
   res_le (decode_ModuleHandle (value_object ms)) (decode_ModuleHandle (value_object ms'))"
  unfolding decode_ModuleHandle_def accessors_object is_object_value_object try_res_simps
  by (intro le_intros)

interpretation codec_ModuleHandle: record_codec encode_ModuleHandle decode_ModuleHandle valid_ModuleHandle
  by unfold_locales (simp_all add: decode_ModuleHandle_extends decode_encode_ModuleHandle decode_ModuleHandle_fails)

definition valid_AuthorityToken :: "AuthorityToken \<Rightarrow> bool" where
  "valid_AuthorityToken x \<longleftrightarrow>
     True"

lemma decode_encode_AuthorityToken [member_simps]:
  "valid_AuthorityToken x \<Longrightarrow> decode_AuthorityToken (encode_AuthorityToken x) = Inr x"
  by (cases x) (simp add: decode_AuthorityToken_def encode_AuthorityToken_def valid_AuthorityToken_def member_simps)

lemma decode_AuthorityToken_fails [fails_intros]:
  "Malformed \<in> E \<Longrightarrow> fails_in E (decode_AuthorityToken v)"
  unfolding decode_AuthorityToken_def by (intro fails_intros)

lemma decode_AuthorityToken_extends:
  "map_of ms \<subseteq>\<^sub>m map_of ms' \<Longrightarrow>
   res_le (decode_AuthorityToken (value_object ms)) (decode_AuthorityToken (value_object ms'))"
  unfolding decode_AuthorityToken_def accessors_object is_object_value_object try_res_simps
  by (intro le_intros)

interpretation codec_AuthorityToken: record_codec encode_AuthorityToken decode_AuthorityToken valid_AuthorityToken
  by unfold_locales (simp_all add: decode_AuthorityToken_extends decode_encode_AuthorityToken decode_AuthorityToken_fails)

definition valid_IdentityFieldValue :: "IdentityFieldValue \<Rightarrow> bool" where
  "valid_IdentityFieldValue x \<longleftrightarrow>
     True"

lemma decode_encode_IdentityFieldValue [member_simps]:
  "valid_IdentityFieldValue x \<Longrightarrow> decode_IdentityFieldValue (encode_IdentityFieldValue x) = Inr x"
  by (cases x) (simp add: decode_IdentityFieldValue_def encode_IdentityFieldValue_def valid_IdentityFieldValue_def member_simps)

lemma decode_IdentityFieldValue_fails [fails_intros]:
  "Malformed \<in> E \<Longrightarrow> fails_in E (decode_IdentityFieldValue v)"
  unfolding decode_IdentityFieldValue_def by (intro fails_intros)

lemma decode_IdentityFieldValue_extends:
  "map_of ms \<subseteq>\<^sub>m map_of ms' \<Longrightarrow>
   res_le (decode_IdentityFieldValue (value_object ms)) (decode_IdentityFieldValue (value_object ms'))"
  unfolding decode_IdentityFieldValue_def accessors_object is_object_value_object try_res_simps
  by (intro le_intros)

interpretation codec_IdentityFieldValue: record_codec encode_IdentityFieldValue decode_IdentityFieldValue valid_IdentityFieldValue
  by unfold_locales (simp_all add: decode_IdentityFieldValue_extends decode_encode_IdentityFieldValue decode_IdentityFieldValue_fails)

declare codec_IdentityFieldValue.array_decode [member_simps]

definition valid_IdentityClaim :: "IdentityClaim \<Rightarrow> bool" where
  "valid_IdentityClaim x \<longleftrightarrow>
     u63 (ic_module x) \<and>
     u63 (ic_generation x) \<and>
     u63 (ic_sequence x) \<and>
     i64 (ic_observed_at_wall_ns x) \<and>
     valid_Provenance (ic_provenance x)"

lemma decode_encode_IdentityClaim [member_simps]:
  "valid_IdentityClaim x \<Longrightarrow> decode_IdentityClaim (encode_IdentityClaim x) = Inr x"
  by (cases x) (simp add: decode_IdentityClaim_def encode_IdentityClaim_def valid_IdentityClaim_def member_simps)

lemma decode_IdentityClaim_fails [fails_intros]:
  "Malformed \<in> E \<Longrightarrow> fails_in E (decode_IdentityClaim v)"
  unfolding decode_IdentityClaim_def by (intro fails_intros)

lemma decode_IdentityClaim_extends:
  "map_of ms \<subseteq>\<^sub>m map_of ms' \<Longrightarrow>
   res_le (decode_IdentityClaim (value_object ms)) (decode_IdentityClaim (value_object ms'))"
  unfolding decode_IdentityClaim_def accessors_object is_object_value_object try_res_simps
  by (intro le_intros)

interpretation codec_IdentityClaim: record_codec encode_IdentityClaim decode_IdentityClaim valid_IdentityClaim
  by unfold_locales (simp_all add: decode_IdentityClaim_extends decode_encode_IdentityClaim decode_IdentityClaim_fails)

declare codec_IdentityClaim.array_decode [member_simps]

definition valid_FieldConsensus :: "FieldConsensus \<Rightarrow> bool" where
  "valid_FieldConsensus x \<longleftrightarrow>
     (\<forall>y \<in> set (fc_claims x). valid_IdentityClaim y) \<and>
     (\<forall>y \<in> set (fc_superseded_claims x). valid_IdentityClaim y) \<and>
     length (fc_digest x) = 32"

lemma decode_encode_FieldConsensus [member_simps]:
  "valid_FieldConsensus x \<Longrightarrow> decode_FieldConsensus (encode_FieldConsensus x) = Inr x"
  by (cases x) (simp add: decode_FieldConsensus_def encode_FieldConsensus_def valid_FieldConsensus_def member_simps)

lemma decode_FieldConsensus_fails [fails_intros]:
  "Malformed \<in> E \<Longrightarrow> fails_in E (decode_FieldConsensus v)"
  unfolding decode_FieldConsensus_def by (intro fails_intros)

lemma decode_FieldConsensus_extends:
  "map_of ms \<subseteq>\<^sub>m map_of ms' \<Longrightarrow>
   res_le (decode_FieldConsensus (value_object ms)) (decode_FieldConsensus (value_object ms'))"
  unfolding decode_FieldConsensus_def accessors_object is_object_value_object try_res_simps
  by (intro le_intros)

interpretation codec_FieldConsensus: record_codec encode_FieldConsensus decode_FieldConsensus valid_FieldConsensus
  by unfold_locales (simp_all add: decode_FieldConsensus_extends decode_encode_FieldConsensus decode_FieldConsensus_fails)

declare codec_FieldConsensus.array_decode [member_simps]

definition valid_IdentityView :: "IdentityView \<Rightarrow> bool" where
  "valid_IdentityView x \<longleftrightarrow>
     u63 (vw_uid x) \<and>
     key_text (vw_key x) \<and>
     u63 (vw_generation x) \<and>
     (\<forall>y \<in> set (vw_fields x). valid_FieldConsensus y) \<and>
     length (vw_digest x) = 32"

lemma decode_encode_IdentityView [member_simps]:
  "valid_IdentityView x \<Longrightarrow> decode_IdentityView (encode_IdentityView x) = Inr x"
  by (cases x) (simp add: decode_IdentityView_def encode_IdentityView_def valid_IdentityView_def member_simps)

lemma decode_IdentityView_fails [fails_intros]:
  "Malformed \<in> E \<Longrightarrow> InvalidArgument \<in> E \<Longrightarrow> fails_in E (decode_IdentityView v)"
  unfolding decode_IdentityView_def by (intro fails_intros)

lemma decode_IdentityView_extends:
  "map_of ms \<subseteq>\<^sub>m map_of ms' \<Longrightarrow>
   res_le (decode_IdentityView (value_object ms)) (decode_IdentityView (value_object ms'))"
  unfolding decode_IdentityView_def accessors_object is_object_value_object try_res_simps
  by (intro le_intros)

interpretation codec_IdentityView: record_codec encode_IdentityView decode_IdentityView valid_IdentityView
  by unfold_locales (simp_all add: decode_IdentityView_extends decode_encode_IdentityView decode_IdentityView_fails)

definition valid_ModuleRegistration :: "ModuleRegistration \<Rightarrow> bool" where
  "valid_ModuleRegistration x \<longleftrightarrow>
     key_text (rn_key x) \<and>
     (\<forall>y \<in> set (rn_identity x). valid_IdentityFieldValue y) \<and>
     valid_Provenance (rn_provenance x) \<and>
     u63 (rn_expected_generation x)"

lemma decode_encode_ModuleRegistration [member_simps]:
  "valid_ModuleRegistration x \<Longrightarrow> decode_ModuleRegistration (encode_ModuleRegistration x) = Inr x"
  by (cases x) (simp add: decode_ModuleRegistration_def encode_ModuleRegistration_def valid_ModuleRegistration_def member_simps)

lemma decode_ModuleRegistration_fails [fails_intros]:
  "Malformed \<in> E \<Longrightarrow> InvalidArgument \<in> E \<Longrightarrow> fails_in E (decode_ModuleRegistration v)"
  unfolding decode_ModuleRegistration_def by (intro fails_intros)

lemma decode_ModuleRegistration_extends:
  "map_of ms \<subseteq>\<^sub>m map_of ms' \<Longrightarrow>
   res_le (decode_ModuleRegistration (value_object ms)) (decode_ModuleRegistration (value_object ms'))"
  unfolding decode_ModuleRegistration_def accessors_object is_object_value_object try_res_simps
  by (intro le_intros)

interpretation codec_ModuleRegistration: record_codec encode_ModuleRegistration decode_ModuleRegistration valid_ModuleRegistration
  by unfold_locales (simp_all add: decode_ModuleRegistration_extends decode_encode_ModuleRegistration decode_ModuleRegistration_fails)

definition valid_SpectrumDescriptor :: "SpectrumDescriptor \<Rightarrow> bool" where
  "valid_SpectrumDescriptor x \<longleftrightarrow>
     isfinite (sd_center_nm x) \<and>
     isfinite (sd_frequency_thz x)"

lemma decode_encode_SpectrumDescriptor [member_simps]:
  "valid_SpectrumDescriptor x \<Longrightarrow> decode_SpectrumDescriptor (encode_SpectrumDescriptor x) = Inr x"
  by (cases x) (simp add: decode_SpectrumDescriptor_def encode_SpectrumDescriptor_def valid_SpectrumDescriptor_def member_simps)

lemma decode_SpectrumDescriptor_fails [fails_intros]:
  "Malformed \<in> E \<Longrightarrow> fails_in E (decode_SpectrumDescriptor v)"
  unfolding decode_SpectrumDescriptor_def by (intro fails_intros)

lemma decode_SpectrumDescriptor_extends:
  "map_of ms \<subseteq>\<^sub>m map_of ms' \<Longrightarrow>
   res_le (decode_SpectrumDescriptor (value_object ms)) (decode_SpectrumDescriptor (value_object ms'))"
  unfolding decode_SpectrumDescriptor_def accessors_object is_object_value_object try_res_simps
  by (intro le_intros)

interpretation codec_SpectrumDescriptor: record_codec encode_SpectrumDescriptor decode_SpectrumDescriptor valid_SpectrumDescriptor
  by unfold_locales (simp_all add: decode_SpectrumDescriptor_extends decode_encode_SpectrumDescriptor decode_SpectrumDescriptor_fails)

definition valid_CapabilityValue :: "CapabilityValue \<Rightarrow> bool" where
  "valid_CapabilityValue x \<longleftrightarrow> validate_shape x = Inr () \<and> canonical_value x"

lemma value_object_sorted: "osorted ms \<Longrightarrow> value_object ms = VObject ms"
proof -
  assume o: "osorted ms"
  then have "sorted (map fst ms)" "distinct (map fst ms)"
    by (simp_all add: osorted_def strict_sorted_iff)
  then have s: "sort_key fst ms = ms" by (simp add: sort_key_sorted)
  have "osorted ms \<Longrightarrow> unique_keys ms = ms"
    by (induction ms rule: unique_keys.induct) (auto simp: osorted_def)
  then show ?thesis using o s by (simp add: value_object_def)
qed

lemma encode_CapabilityValue_tree: "encode_CapabilityValue x = capability_tree x"
proof -
  have "encode_SpectrumDescriptor = descriptor_tree"
    by (rule ext) (simp add: encode_SpectrumDescriptor_def descriptor_tree_def
        value_object_sorted osorted_literals)
  then show ?thesis
    by (cases x) (simp_all add: encode_CapabilityValue_def value_object_sorted osorted_literals)
qed

lemma decode_encode_CapabilityValue [member_simps]:
  "valid_CapabilityValue x \<Longrightarrow> decode_CapabilityValue (encode_CapabilityValue x) = Inr x"
  by (simp add: decode_CapabilityValue_def encode_CapabilityValue_tree valid_CapabilityValue_def
      read_canonical_tree)

lemma decode_CapabilityValue_fails [fails_intros]:
  "Malformed \<in> E \<Longrightarrow> fails_in E (decode_CapabilityValue v)"
  unfolding decode_CapabilityValue_def read_canonical_def read_spectrum_descriptor_def
    as_integer_entry_def as_text_entry_def
  by (intro fails_intros fails_cases)

lemma decode_CapabilityValue_extends:
  "map_of ms \<subseteq>\<^sub>m map_of ms' \<Longrightarrow>
   res_le (decode_CapabilityValue (value_object ms)) (decode_CapabilityValue (value_object ms'))"
  unfolding decode_CapabilityValue_def read_canonical_def accessors_object is_object_value_object try_res_simps
  by (intro le_intros le_if)

interpretation codec_CapabilityValue: record_codec encode_CapabilityValue decode_CapabilityValue valid_CapabilityValue
  by unfold_locales (simp_all add: decode_CapabilityValue_extends decode_encode_CapabilityValue decode_CapabilityValue_fails)

definition valid_CapabilityDeclaration :: "CapabilityDeclaration \<Rightarrow> bool" where
  "valid_CapabilityDeclaration x \<longleftrightarrow>
     valid_CapabilityValue (cd_value x) \<and>
     u63 (cd_module x) \<and>
     key_text (cd_port x) \<and>
     u63 (cd_generation x) \<and>
     u63 (cd_sequence x) \<and>
     i64 (cd_observed_at_wall_ns x) \<and>
     valid_Provenance (cd_provenance x)"

lemma decode_encode_CapabilityDeclaration [member_simps]:
  "valid_CapabilityDeclaration x \<Longrightarrow> decode_CapabilityDeclaration (encode_CapabilityDeclaration x) = Inr x"
  by (cases x) (simp add: decode_CapabilityDeclaration_def encode_CapabilityDeclaration_def valid_CapabilityDeclaration_def member_simps)

lemma decode_CapabilityDeclaration_fails [fails_intros]:
  "Malformed \<in> E \<Longrightarrow> InvalidArgument \<in> E \<Longrightarrow> fails_in E (decode_CapabilityDeclaration v)"
  unfolding decode_CapabilityDeclaration_def by (intro fails_intros)

lemma decode_CapabilityDeclaration_extends:
  "map_of ms \<subseteq>\<^sub>m map_of ms' \<Longrightarrow>
   res_le (decode_CapabilityDeclaration (value_object ms)) (decode_CapabilityDeclaration (value_object ms'))"
  unfolding decode_CapabilityDeclaration_def accessors_object is_object_value_object try_res_simps
  by (intro le_intros)

interpretation codec_CapabilityDeclaration: record_codec encode_CapabilityDeclaration decode_CapabilityDeclaration valid_CapabilityDeclaration
  by unfold_locales (simp_all add: decode_CapabilityDeclaration_extends decode_encode_CapabilityDeclaration decode_CapabilityDeclaration_fails)

declare codec_CapabilityDeclaration.array_decode [member_simps]

definition valid_CapabilityConsensus :: "CapabilityConsensus \<Rightarrow> bool" where
  "valid_CapabilityConsensus x \<longleftrightarrow>
     valid_CapabilityValue (cc_value x) \<and>
     (\<forall>y \<in> set (cc_declarations x). valid_CapabilityDeclaration y) \<and>
     (\<forall>y \<in> set (cc_superseded x). valid_CapabilityDeclaration y) \<and>
     length (cc_digest x) = 32"

lemma decode_encode_CapabilityConsensus [member_simps]:
  "valid_CapabilityConsensus x \<Longrightarrow> decode_CapabilityConsensus (encode_CapabilityConsensus x) = Inr x"
  by (cases x) (simp add: decode_CapabilityConsensus_def encode_CapabilityConsensus_def valid_CapabilityConsensus_def member_simps)

lemma decode_CapabilityConsensus_fails [fails_intros]:
  "Malformed \<in> E \<Longrightarrow> InvalidArgument \<in> E \<Longrightarrow> fails_in E (decode_CapabilityConsensus v)"
  unfolding decode_CapabilityConsensus_def by (intro fails_intros)

lemma decode_CapabilityConsensus_extends:
  "map_of ms \<subseteq>\<^sub>m map_of ms' \<Longrightarrow>
   res_le (decode_CapabilityConsensus (value_object ms)) (decode_CapabilityConsensus (value_object ms'))"
  unfolding decode_CapabilityConsensus_def accessors_object is_object_value_object try_res_simps
  by (intro le_intros)

interpretation codec_CapabilityConsensus: record_codec encode_CapabilityConsensus decode_CapabilityConsensus valid_CapabilityConsensus
  by unfold_locales (simp_all add: decode_CapabilityConsensus_extends decode_encode_CapabilityConsensus decode_CapabilityConsensus_fails)

declare codec_CapabilityConsensus.array_decode [member_simps]

definition valid_CapabilityView :: "CapabilityView \<Rightarrow> bool" where
  "valid_CapabilityView x \<longleftrightarrow>
     u63 (cw_uid x) \<and>
     key_text (cw_port x) \<and>
     u63 (cw_generation x) \<and>
     (\<forall>y \<in> set (cw_attributes x). valid_CapabilityConsensus y) \<and>
     length (cw_digest x) = 32"

lemma decode_encode_CapabilityView [member_simps]:
  "valid_CapabilityView x \<Longrightarrow> decode_CapabilityView (encode_CapabilityView x) = Inr x"
  by (cases x) (simp add: decode_CapabilityView_def encode_CapabilityView_def valid_CapabilityView_def member_simps)

lemma decode_CapabilityView_fails [fails_intros]:
  "Malformed \<in> E \<Longrightarrow> InvalidArgument \<in> E \<Longrightarrow> fails_in E (decode_CapabilityView v)"
  unfolding decode_CapabilityView_def by (intro fails_intros)

lemma decode_CapabilityView_extends:
  "map_of ms \<subseteq>\<^sub>m map_of ms' \<Longrightarrow>
   res_le (decode_CapabilityView (value_object ms)) (decode_CapabilityView (value_object ms'))"
  unfolding decode_CapabilityView_def accessors_object is_object_value_object try_res_simps
  by (intro le_intros)

interpretation codec_CapabilityView: record_codec encode_CapabilityView decode_CapabilityView valid_CapabilityView
  by unfold_locales (simp_all add: decode_CapabilityView_extends decode_encode_CapabilityView decode_CapabilityView_fails)

definition valid_HealthSampleInput :: "HealthSampleInput \<Rightarrow> bool" where
  "valid_HealthSampleInput x \<longleftrightarrow>
     isfinite (hi_value x) \<and>
     i64 (hi_observed_at_wall_ns x) \<and>
     u63 (hi_observed_at_monotonic_ns x) \<and>
     valid_Provenance (hi_provenance x)"

lemma decode_encode_HealthSampleInput [member_simps]:
  "valid_HealthSampleInput x \<Longrightarrow> decode_HealthSampleInput (encode_HealthSampleInput x) = Inr x"
  by (cases x) (simp add: decode_HealthSampleInput_def encode_HealthSampleInput_def valid_HealthSampleInput_def member_simps)

lemma decode_HealthSampleInput_fails [fails_intros]:
  "Malformed \<in> E \<Longrightarrow> fails_in E (decode_HealthSampleInput v)"
  unfolding decode_HealthSampleInput_def by (intro fails_intros)

lemma decode_HealthSampleInput_extends:
  "map_of ms \<subseteq>\<^sub>m map_of ms' \<Longrightarrow>
   res_le (decode_HealthSampleInput (value_object ms)) (decode_HealthSampleInput (value_object ms'))"
  unfolding decode_HealthSampleInput_def accessors_object is_object_value_object try_res_simps
  by (intro le_intros)

interpretation codec_HealthSampleInput: record_codec encode_HealthSampleInput decode_HealthSampleInput valid_HealthSampleInput
  by unfold_locales (simp_all add: decode_HealthSampleInput_extends decode_encode_HealthSampleInput decode_HealthSampleInput_fails)

definition valid_HealthSample :: "HealthSample \<Rightarrow> bool" where
  "valid_HealthSample x \<longleftrightarrow>
     isfinite (hs_value x) \<and>
     i64 (hs_observed_at_wall_ns x) \<and>
     u63 (hs_observed_at_monotonic_ns x) \<and>
     valid_Provenance (hs_provenance x) \<and>
     u63 (hs_module x) \<and>
     u63 (hs_generation x) \<and>
     u63 (hs_sequence x)"

lemma decode_encode_HealthSample [member_simps]:
  "valid_HealthSample x \<Longrightarrow> decode_HealthSample (encode_HealthSample x) = Inr x"
  by (cases x) (simp add: decode_HealthSample_def encode_HealthSample_def valid_HealthSample_def member_simps)

lemma decode_HealthSample_fails [fails_intros]:
  "Malformed \<in> E \<Longrightarrow> fails_in E (decode_HealthSample v)"
  unfolding decode_HealthSample_def by (intro fails_intros)

lemma decode_HealthSample_extends:
  "map_of ms \<subseteq>\<^sub>m map_of ms' \<Longrightarrow>
   res_le (decode_HealthSample (value_object ms)) (decode_HealthSample (value_object ms'))"
  unfolding decode_HealthSample_def accessors_object is_object_value_object try_res_simps
  by (intro le_intros)

interpretation codec_HealthSample: record_codec encode_HealthSample decode_HealthSample valid_HealthSample
  by unfold_locales (simp_all add: decode_HealthSample_extends decode_encode_HealthSample decode_HealthSample_fails)

definition valid_HealthThreshold :: "HealthThreshold \<Rightarrow> bool" where
  "valid_HealthThreshold x \<longleftrightarrow>
     isfinite (ht_degraded_enter x) \<and>
     isfinite (ht_degraded_exit x) \<and>
     isfinite (ht_critical_enter x) \<and>
     isfinite (ht_critical_exit x) \<and>
     i64 (ht_max_age_ns x) \<and>
     isfinite (ht_disagreement_tolerance x) \<and>
     valid_Provenance (ht_provenance x) \<and>
     u63 (ht_generation x) \<and>
     u63 (ht_sequence x)"

lemma decode_encode_HealthThreshold [member_simps]:
  "valid_HealthThreshold x \<Longrightarrow> decode_HealthThreshold (encode_HealthThreshold x) = Inr x"
  by (cases x) (simp add: decode_HealthThreshold_def encode_HealthThreshold_def valid_HealthThreshold_def member_simps)

lemma decode_HealthThreshold_fails [fails_intros]:
  "Malformed \<in> E \<Longrightarrow> fails_in E (decode_HealthThreshold v)"
  unfolding decode_HealthThreshold_def by (intro fails_intros)

lemma decode_HealthThreshold_extends:
  "map_of ms \<subseteq>\<^sub>m map_of ms' \<Longrightarrow>
   res_le (decode_HealthThreshold (value_object ms)) (decode_HealthThreshold (value_object ms'))"
  unfolding decode_HealthThreshold_def accessors_object is_object_value_object try_res_simps
  by (intro le_intros)

interpretation codec_HealthThreshold: record_codec encode_HealthThreshold decode_HealthThreshold valid_HealthThreshold
  by unfold_locales (simp_all add: decode_HealthThreshold_extends decode_encode_HealthThreshold decode_HealthThreshold_fails)

definition valid_HealthLatch :: "HealthLatch \<Rightarrow> bool" where
  "valid_HealthLatch x \<longleftrightarrow>
     i64 (hl_last_sample_wall_ns x) \<and>
     u63 (hl_last_sample_sequence x) \<and>
     u63 (hl_last_transition_generation x) \<and>
     i64 (hl_last_transition_wall_ns x)"

lemma decode_encode_HealthLatch [member_simps]:
  "valid_HealthLatch x \<Longrightarrow> decode_HealthLatch (encode_HealthLatch x) = Inr x"
  by (cases x) (simp add: decode_HealthLatch_def encode_HealthLatch_def valid_HealthLatch_def member_simps)

lemma decode_HealthLatch_fails [fails_intros]:
  "Malformed \<in> E \<Longrightarrow> fails_in E (decode_HealthLatch v)"
  unfolding decode_HealthLatch_def by (intro fails_intros)

lemma decode_HealthLatch_extends:
  "map_of ms \<subseteq>\<^sub>m map_of ms' \<Longrightarrow>
   res_le (decode_HealthLatch (value_object ms)) (decode_HealthLatch (value_object ms'))"
  unfolding decode_HealthLatch_def accessors_object is_object_value_object try_res_simps
  by (intro le_intros)

interpretation codec_HealthLatch: record_codec encode_HealthLatch decode_HealthLatch valid_HealthLatch
  by unfold_locales (simp_all add: decode_HealthLatch_extends decode_encode_HealthLatch decode_HealthLatch_fails)

definition valid_MetricHealth :: "MetricHealth \<Rightarrow> bool" where
  "valid_MetricHealth x \<longleftrightarrow>
     (case mh_value x of None \<Rightarrow> True | Some d \<Rightarrow> isfinite d) \<and>
     (case mh_age_ns x of None \<Rightarrow> True | Some a \<Rightarrow> i64 a) \<and>
     i64 (mh_sample_count x) \<and>
     i64 (mh_fresh_count x) \<and>
     i64 (mh_stale_count x) \<and>
     i64 (mh_fenced_count x)"

lemma decode_encode_MetricHealth [member_simps]:
  "valid_MetricHealth x \<Longrightarrow> decode_MetricHealth (encode_MetricHealth x) = Inr x"
  by (cases x) (simp add: decode_MetricHealth_def encode_MetricHealth_def valid_MetricHealth_def member_simps
      split: option.splits)

lemma decode_MetricHealth_fails [fails_intros]:
  "Malformed \<in> E \<Longrightarrow> fails_in E (decode_MetricHealth v)"
  unfolding decode_MetricHealth_def by (intro fails_intros)

lemma decode_MetricHealth_extends:
  "map_of ms \<subseteq>\<^sub>m map_of ms' \<Longrightarrow>
   res_le (decode_MetricHealth (value_object ms)) (decode_MetricHealth (value_object ms'))"
  unfolding decode_MetricHealth_def accessors_object is_object_value_object try_res_simps
  by (intro le_intros)

interpretation codec_MetricHealth: record_codec encode_MetricHealth decode_MetricHealth valid_MetricHealth
  by unfold_locales (simp_all add: decode_MetricHealth_extends decode_encode_MetricHealth decode_MetricHealth_fails)

declare codec_MetricHealth.array_decode [member_simps]

definition valid_HealthIssue :: "HealthIssue \<Rightarrow> bool" where
  "valid_HealthIssue x \<longleftrightarrow>
     True"

lemma decode_encode_HealthIssue [member_simps]:
  "valid_HealthIssue x \<Longrightarrow> decode_HealthIssue (encode_HealthIssue x) = Inr x"
  by (cases x) (simp add: decode_HealthIssue_def encode_HealthIssue_def valid_HealthIssue_def member_simps)

lemma decode_HealthIssue_fails [fails_intros]:
  "Malformed \<in> E \<Longrightarrow> fails_in E (decode_HealthIssue v)"
  unfolding decode_HealthIssue_def by (intro fails_intros)

lemma decode_HealthIssue_extends:
  "map_of ms \<subseteq>\<^sub>m map_of ms' \<Longrightarrow>
   res_le (decode_HealthIssue (value_object ms)) (decode_HealthIssue (value_object ms'))"
  unfolding decode_HealthIssue_def accessors_object is_object_value_object try_res_simps
  by (intro le_intros)

interpretation codec_HealthIssue: record_codec encode_HealthIssue decode_HealthIssue valid_HealthIssue
  by unfold_locales (simp_all add: decode_HealthIssue_extends decode_encode_HealthIssue decode_HealthIssue_fails)

declare codec_HealthIssue.array_decode [member_simps]

definition valid_HealthReport :: "HealthReport \<Rightarrow> bool" where
  "valid_HealthReport x \<longleftrightarrow>
     u63 (hr_uid x) \<and>
     u63 (hr_generation x) \<and>
     (\<forall>y \<in> set (hr_metrics x). valid_MetricHealth y) \<and>
     (\<forall>y \<in> set (hr_issues x). valid_HealthIssue y) \<and>
     i64 (hr_evaluated_at_wall_ns x) \<and>
     length (hr_digest x) = 32"

lemma decode_encode_HealthReport [member_simps]:
  "valid_HealthReport x \<Longrightarrow> decode_HealthReport (encode_HealthReport x) = Inr x"
  by (cases x) (simp add: decode_HealthReport_def encode_HealthReport_def valid_HealthReport_def member_simps)

lemma decode_HealthReport_fails [fails_intros]:
  "Malformed \<in> E \<Longrightarrow> fails_in E (decode_HealthReport v)"
  unfolding decode_HealthReport_def by (intro fails_intros)

lemma decode_HealthReport_extends:
  "map_of ms \<subseteq>\<^sub>m map_of ms' \<Longrightarrow>
   res_le (decode_HealthReport (value_object ms)) (decode_HealthReport (value_object ms'))"
  unfolding decode_HealthReport_def accessors_object is_object_value_object try_res_simps
  by (intro le_intros)

interpretation codec_HealthReport: record_codec encode_HealthReport decode_HealthReport valid_HealthReport
  by unfold_locales (simp_all add: decode_HealthReport_extends decode_encode_HealthReport decode_HealthReport_fails)

definition valid_EvidenceSummary :: "EvidenceSummary \<Rightarrow> bool" where
  "valid_EvidenceSummary x \<longleftrightarrow>
     u63 (es_uid x) \<and>
     u63 (es_generation x) \<and>
     u63 (es_live_claims x) \<and>
     u63 (es_superseded_claims x) \<and>
     u63 (es_live_declarations x) \<and>
     u63 (es_superseded_declarations x) \<and>
     u63 (es_live_samples x) \<and>
     u63 (es_stale_samples x) \<and>
     u63 (es_fenced_samples x) \<and>
     i64 (es_oldest_sample_wall_ns x) \<and>
     i64 (es_newest_sample_wall_ns x) \<and>
     length (es_digest x) = 32"

lemma decode_encode_EvidenceSummary [member_simps]:
  "valid_EvidenceSummary x \<Longrightarrow> decode_EvidenceSummary (encode_EvidenceSummary x) = Inr x"
  by (cases x) (simp add: decode_EvidenceSummary_def encode_EvidenceSummary_def valid_EvidenceSummary_def member_simps)

lemma decode_EvidenceSummary_fails [fails_intros]:
  "Malformed \<in> E \<Longrightarrow> fails_in E (decode_EvidenceSummary v)"
  unfolding decode_EvidenceSummary_def by (intro fails_intros)

lemma decode_EvidenceSummary_extends:
  "map_of ms \<subseteq>\<^sub>m map_of ms' \<Longrightarrow>
   res_le (decode_EvidenceSummary (value_object ms)) (decode_EvidenceSummary (value_object ms'))"
  unfolding decode_EvidenceSummary_def accessors_object is_object_value_object try_res_simps
  by (intro le_intros)

interpretation codec_EvidenceSummary: record_codec encode_EvidenceSummary decode_EvidenceSummary valid_EvidenceSummary
  by unfold_locales (simp_all add: decode_EvidenceSummary_extends decode_encode_EvidenceSummary decode_EvidenceSummary_fails)

definition valid_AttachmentRecord :: "AttachmentRecord \<Rightarrow> bool" where
  "valid_AttachmentRecord x \<longleftrightarrow>
     key_text (ar_slot x) \<and>
     u63 (ar_uid x) \<and>
     u63 (ar_generation x) \<and>
     u63 (ar_sequence x) \<and>
     i64 (ar_attached_at_wall_ns x)"

lemma decode_encode_AttachmentRecord [member_simps]:
  "valid_AttachmentRecord x \<Longrightarrow> decode_AttachmentRecord (encode_AttachmentRecord x) = Inr x"
  by (cases x) (simp add: decode_AttachmentRecord_def encode_AttachmentRecord_def valid_AttachmentRecord_def member_simps)

lemma decode_AttachmentRecord_fails [fails_intros]:
  "Malformed \<in> E \<Longrightarrow> InvalidArgument \<in> E \<Longrightarrow> fails_in E (decode_AttachmentRecord v)"
  unfolding decode_AttachmentRecord_def by (intro fails_intros)

lemma decode_AttachmentRecord_extends:
  "map_of ms \<subseteq>\<^sub>m map_of ms' \<Longrightarrow>
   res_le (decode_AttachmentRecord (value_object ms)) (decode_AttachmentRecord (value_object ms'))"
  unfolding decode_AttachmentRecord_def accessors_object is_object_value_object try_res_simps
  by (intro le_intros)

interpretation codec_AttachmentRecord: record_codec encode_AttachmentRecord decode_AttachmentRecord valid_AttachmentRecord
  by unfold_locales (simp_all add: decode_AttachmentRecord_extends decode_encode_AttachmentRecord decode_AttachmentRecord_fails)

definition valid_LifecycleEvent :: "LifecycleEvent \<Rightarrow> bool" where
  "valid_LifecycleEvent x \<longleftrightarrow>
     u63 (le_generation x) \<and>
     u63 (le_sequence x) \<and>
     i64 (le_wall_ns x)"

lemma decode_encode_LifecycleEvent [member_simps]:
  "valid_LifecycleEvent x \<Longrightarrow> decode_LifecycleEvent (encode_LifecycleEvent x) = Inr x"
  by (cases x) (simp add: decode_LifecycleEvent_def encode_LifecycleEvent_def valid_LifecycleEvent_def member_simps)

lemma decode_LifecycleEvent_fails [fails_intros]:
  "Malformed \<in> E \<Longrightarrow> fails_in E (decode_LifecycleEvent v)"
  unfolding decode_LifecycleEvent_def by (intro fails_intros)

lemma decode_LifecycleEvent_extends:
  "map_of ms \<subseteq>\<^sub>m map_of ms' \<Longrightarrow>
   res_le (decode_LifecycleEvent (value_object ms)) (decode_LifecycleEvent (value_object ms'))"
  unfolding decode_LifecycleEvent_def accessors_object is_object_value_object try_res_simps
  by (intro le_intros)

interpretation codec_LifecycleEvent: record_codec encode_LifecycleEvent decode_LifecycleEvent valid_LifecycleEvent
  by unfold_locales (simp_all add: decode_LifecycleEvent_extends decode_encode_LifecycleEvent decode_LifecycleEvent_fails)

definition valid_Requirement :: "Requirement \<Rightarrow> bool" where
  "valid_Requirement x \<longleftrightarrow>
     valid_CapabilityValue (rq_operand x)"

lemma decode_encode_Requirement [member_simps]:
  "valid_Requirement x \<Longrightarrow> decode_Requirement (encode_Requirement x) = Inr x"
  by (cases x) (simp add: decode_Requirement_def encode_Requirement_def valid_Requirement_def member_simps)

lemma decode_Requirement_fails [fails_intros]:
  "Malformed \<in> E \<Longrightarrow> fails_in E (decode_Requirement v)"
  unfolding decode_Requirement_def by (intro fails_intros)

lemma decode_Requirement_extends:
  "map_of ms \<subseteq>\<^sub>m map_of ms' \<Longrightarrow>
   res_le (decode_Requirement (value_object ms)) (decode_Requirement (value_object ms'))"
  unfolding decode_Requirement_def accessors_object is_object_value_object try_res_simps
  by (intro le_intros)

interpretation codec_Requirement: record_codec encode_Requirement decode_Requirement valid_Requirement
  by unfold_locales (simp_all add: decode_Requirement_extends decode_encode_Requirement decode_Requirement_fails)

declare codec_Requirement.array_decode [member_simps]

definition valid_RequirementEvaluation :: "DetailedEvaluation \<Rightarrow> bool" where
  "valid_RequirementEvaluation x \<longleftrightarrow>
     valid_Requirement (re_requirement x) \<and>
     valid_CapabilityValue (re_observed x)"

lemma decode_encode_RequirementEvaluation [member_simps]:
  "valid_RequirementEvaluation x \<Longrightarrow> decode_RequirementEvaluation (encode_RequirementEvaluation x) = Inr x"
  by (cases x) (simp add: decode_RequirementEvaluation_def encode_RequirementEvaluation_def valid_RequirementEvaluation_def member_simps)

lemma decode_RequirementEvaluation_fails [fails_intros]:
  "Malformed \<in> E \<Longrightarrow> fails_in E (decode_RequirementEvaluation v)"
  unfolding decode_RequirementEvaluation_def by (intro fails_intros)

lemma decode_RequirementEvaluation_extends:
  "map_of ms \<subseteq>\<^sub>m map_of ms' \<Longrightarrow>
   res_le (decode_RequirementEvaluation (value_object ms)) (decode_RequirementEvaluation (value_object ms'))"
  unfolding decode_RequirementEvaluation_def accessors_object is_object_value_object try_res_simps
  by (intro le_intros)

interpretation codec_RequirementEvaluation: record_codec encode_RequirementEvaluation decode_RequirementEvaluation valid_RequirementEvaluation
  by unfold_locales (simp_all add: decode_RequirementEvaluation_extends decode_encode_RequirementEvaluation decode_RequirementEvaluation_fails)

declare codec_RequirementEvaluation.array_decode [member_simps]

definition valid_MatchedRule :: "DetailedRule \<Rightarrow> bool" where
  "valid_MatchedRule x \<longleftrightarrow>
     u63 (dr_generation x) \<and>
     (\<forall>y \<in> set (dr_requirements x). valid_RequirementEvaluation y)"

lemma decode_encode_MatchedRule [member_simps]:
  "valid_MatchedRule x \<Longrightarrow> decode_MatchedRule (encode_MatchedRule x) = Inr x"
  by (cases x) (simp add: decode_MatchedRule_def encode_MatchedRule_def valid_MatchedRule_def member_simps)

lemma decode_MatchedRule_fails [fails_intros]:
  "Malformed \<in> E \<Longrightarrow> fails_in E (decode_MatchedRule v)"
  unfolding decode_MatchedRule_def by (intro fails_intros)

lemma decode_MatchedRule_extends:
  "map_of ms \<subseteq>\<^sub>m map_of ms' \<Longrightarrow>
   res_le (decode_MatchedRule (value_object ms)) (decode_MatchedRule (value_object ms'))"
  unfolding decode_MatchedRule_def accessors_object is_object_value_object try_res_simps
  by (intro le_intros)

interpretation codec_MatchedRule: record_codec encode_MatchedRule decode_MatchedRule valid_MatchedRule
  by unfold_locales (simp_all add: decode_MatchedRule_extends decode_encode_MatchedRule decode_MatchedRule_fails)

declare codec_MatchedRule.array_decode [member_simps]

definition valid_CompatRule :: "CompatRule \<Rightarrow> bool" where
  "valid_CompatRule x \<longleftrightarrow>
     (\<forall>y \<in> set (cr_requirements x). valid_Requirement y) \<and>
     valid_Provenance (cr_provenance x)"

lemma decode_encode_CompatRule [member_simps]:
  "valid_CompatRule x \<Longrightarrow> decode_CompatRule (encode_CompatRule x) = Inr x"
  by (cases x) (simp add: decode_CompatRule_def encode_CompatRule_def valid_CompatRule_def member_simps)

lemma decode_CompatRule_fails [fails_intros]:
  "Malformed \<in> E \<Longrightarrow> fails_in E (decode_CompatRule v)"
  unfolding decode_CompatRule_def by (intro fails_intros)

lemma decode_CompatRule_extends:
  "map_of ms \<subseteq>\<^sub>m map_of ms' \<Longrightarrow>
   res_le (decode_CompatRule (value_object ms)) (decode_CompatRule (value_object ms'))"
  unfolding decode_CompatRule_def accessors_object is_object_value_object try_res_simps
  by (intro le_intros)

interpretation codec_CompatRule: record_codec encode_CompatRule decode_CompatRule valid_CompatRule
  by unfold_locales (simp_all add: decode_CompatRule_extends decode_encode_CompatRule decode_CompatRule_fails)

definition valid_CompatRuleRecord :: "CompatRuleRecord \<Rightarrow> bool" where
  "valid_CompatRuleRecord x \<longleftrightarrow>
     valid_CompatRule (rr_rule x) \<and>
     u63 (rr_generation x) \<and>
     u63 (rr_sequence x)"

lemma decode_encode_CompatRuleRecord [member_simps]:
  "valid_CompatRuleRecord x \<Longrightarrow> decode_CompatRuleRecord (encode_CompatRuleRecord x) = Inr x"
  by (cases x) (simp add: decode_CompatRuleRecord_def encode_CompatRuleRecord_def valid_CompatRuleRecord_def member_simps)

lemma decode_CompatRuleRecord_fails [fails_intros]:
  "Malformed \<in> E \<Longrightarrow> fails_in E (decode_CompatRuleRecord v)"
  unfolding decode_CompatRuleRecord_def by (intro fails_intros)

lemma decode_CompatRuleRecord_extends:
  "map_of ms \<subseteq>\<^sub>m map_of ms' \<Longrightarrow>
   res_le (decode_CompatRuleRecord (value_object ms)) (decode_CompatRuleRecord (value_object ms'))"
  unfolding decode_CompatRuleRecord_def accessors_object is_object_value_object try_res_simps
  by (intro le_intros)

interpretation codec_CompatRuleRecord: record_codec encode_CompatRuleRecord decode_CompatRuleRecord valid_CompatRuleRecord
  by unfold_locales (simp_all add: decode_CompatRuleRecord_extends decode_encode_CompatRuleRecord decode_CompatRuleRecord_fails)

definition valid_CompatDecision :: "DetailedDecision \<Rightarrow> bool" where
  "valid_CompatDecision x \<longleftrightarrow>
     key_text (dd_port x) \<and>
     u63 (dd_uid x) \<and>
     u63 (dd_generation x) \<and>
     (\<forall>y \<in> set (dd_matched_rules x). valid_MatchedRule y) \<and>
     (\<forall>y \<in> set (dd_unmet_requirements x). valid_RequirementEvaluation y) \<and>
     (\<forall>y \<in> set (dd_violated_requirements x). valid_RequirementEvaluation y) \<and>
     length (dd_inputs_digest x) = 32 \<and>
     length (dd_decision_digest x) = 32 \<and>
     i64 (dd_evaluated_at_wall_ns x)"

lemma decode_encode_CompatDecision [member_simps]:
  "valid_CompatDecision x \<Longrightarrow> decode_CompatDecision (encode_CompatDecision x) = Inr x"
  by (cases x) (simp add: decode_CompatDecision_def encode_CompatDecision_def valid_CompatDecision_def member_simps)

lemma decode_CompatDecision_fails [fails_intros]:
  "Malformed \<in> E \<Longrightarrow> InvalidArgument \<in> E \<Longrightarrow> fails_in E (decode_CompatDecision v)"
  unfolding decode_CompatDecision_def by (intro fails_intros)

lemma decode_CompatDecision_extends:
  "map_of ms \<subseteq>\<^sub>m map_of ms' \<Longrightarrow>
   res_le (decode_CompatDecision (value_object ms)) (decode_CompatDecision (value_object ms'))"
  unfolding decode_CompatDecision_def accessors_object is_object_value_object try_res_simps
  by (intro le_intros)

interpretation codec_CompatDecision: record_codec encode_CompatDecision decode_CompatDecision valid_CompatDecision
  by unfold_locales (simp_all add: decode_CompatDecision_extends decode_encode_CompatDecision decode_CompatDecision_fails)

definition valid_RegistryStats :: "DigestedStats \<Rightarrow> bool" where
  "valid_RegistryStats x \<longleftrightarrow>
     u63 (rt_generation x) \<and>
     u63 (rt_sources x) \<and>
     u63 (rt_modules x) \<and>
     u63 (rt_incarnations x) \<and>
     u63 (rt_fenced_incarnations x) \<and>
     u63 (rt_ports x) \<and>
     u63 (rt_rules x) \<and>
     u63 (rt_thresholds x) \<and>
     u63 (rt_attachments x) \<and>
     u63 (rt_live_attachments x) \<and>
     u63 (rt_claims x) \<and>
     u63 (rt_declarations x) \<and>
     u63 (rt_samples x) \<and>
     u63 (rt_mutations x) \<and>
     u63 (rt_refusals x) \<and>
     u63 (rt_queries x) \<and>
     u63 (rt_conflicts_observed x) \<and>
     length (rt_state_digest x) = 32"

lemma decode_encode_RegistryStats [member_simps]:
  "valid_RegistryStats x \<Longrightarrow> decode_RegistryStats (encode_RegistryStats x) = Inr x"
  by (cases x) (simp add: decode_RegistryStats_def encode_RegistryStats_def valid_RegistryStats_def member_simps)

lemma decode_RegistryStats_fails [fails_intros]:
  "Malformed \<in> E \<Longrightarrow> fails_in E (decode_RegistryStats v)"
  unfolding decode_RegistryStats_def by (intro fails_intros)

lemma decode_RegistryStats_extends:
  "map_of ms \<subseteq>\<^sub>m map_of ms' \<Longrightarrow>
   res_le (decode_RegistryStats (value_object ms)) (decode_RegistryStats (value_object ms'))"
  unfolding decode_RegistryStats_def accessors_object is_object_value_object try_res_simps
  by (intro le_intros)

interpretation codec_RegistryStats: record_codec encode_RegistryStats decode_RegistryStats valid_RegistryStats
  by unfold_locales (simp_all add: decode_RegistryStats_extends decode_encode_RegistryStats decode_RegistryStats_fails)

definition valid_LoadReport :: "LoadReport \<Rightarrow> bool" where
  "valid_LoadReport x \<longleftrightarrow>
     u63 (ld_generation x) \<and>
     u63 (ld_modules x) \<and>
     u63 (ld_incarnations x) \<and>
     u63 (ld_sources x) \<and>
     u63 (ld_ports x) \<and>
     u63 (ld_rules x) \<and>
     u63 (ld_thresholds x) \<and>
     u63 (ld_claims x) \<and>
     u63 (ld_declarations x) \<and>
     u63 (ld_samples x) \<and>
     u63 (ld_fenced_incarnations x) \<and>
     u63 (ld_evidence_invalidated_on_load x) \<and>
     u63 (ld_dropped_tail_bytes x) \<and>
     length (ld_content_digest x) = 32 \<and>
     i64 (ld_loaded_at_wall_ns x)"

lemma decode_encode_LoadReport [member_simps]:
  "valid_LoadReport x \<Longrightarrow> decode_LoadReport (encode_LoadReport x) = Inr x"
  by (cases x) (simp add: decode_LoadReport_def encode_LoadReport_def valid_LoadReport_def member_simps)

lemma decode_LoadReport_fails [fails_intros]:
  "Malformed \<in> E \<Longrightarrow> fails_in E (decode_LoadReport v)"
  unfolding decode_LoadReport_def by (intro fails_intros)

lemma decode_LoadReport_extends:
  "map_of ms \<subseteq>\<^sub>m map_of ms' \<Longrightarrow>
   res_le (decode_LoadReport (value_object ms)) (decode_LoadReport (value_object ms'))"
  unfolding decode_LoadReport_def accessors_object is_object_value_object try_res_simps
  by (intro le_intros)

interpretation codec_LoadReport: record_codec encode_LoadReport decode_LoadReport valid_LoadReport
  by unfold_locales (simp_all add: decode_LoadReport_extends decode_encode_LoadReport decode_LoadReport_fails)

section \<open>Properties\<close>


definition example_attachment :: AttachmentRecord where
  "example_attachment =
     \<lparr>ar_slot = ''slot-1'', ar_port_index = 3, ar_uid = 7, ar_incarnation = 2, ar_source = 1,
      ar_source_epoch = 4, ar_generation = 19, ar_sequence = 23, ar_attached_at_wall_ns = - 5,
      ar_live = True, ar_note = ''''\<rparr>"


text \<open>\<open>refuses_with\<close>: a refused document is reported with one of these codes.\<close>

definition refuses_with :: "StatusCode set \<Rightarrow> (Value \<Rightarrow> 'a res) \<Rightarrow> bool" where
  "refuses_with E decode \<longleftrightarrow> (\<forall>v. fails_in E (decode v))"

definition ignores_further :: "(Value \<Rightarrow> 'a res) \<Rightarrow> bool" where
  "ignores_further decode \<longleftrightarrow>
     (\<forall>ms further x. decode (value_object ms) = Inr x \<longrightarrow>
        decode (value_object (ms @ further)) = Inr x)"

text \<open>
  C32. What a decoder does with documents it did not write. A document it refuses is reported as
  \<open>Malformed\<close>, or, where the record names a module, a slot or a port, as \<open>InvalidArgument\<close> for a key
  text that the key grammar refuses; no other status leaves a decoder. And members it does not know,
  which a later writer may add, change nothing.
\<close>

theorem codec_contract:
  "refuses_with {Malformed} decode_Provenance \<and> refuses_with {Malformed} decode_SourceDescriptor \<and>
   refuses_with {Malformed} decode_SourceHandle \<and> refuses_with {Malformed} decode_AuthorityToken \<and>
   refuses_with {Malformed} decode_IdentityFieldValue \<and>
   refuses_with {Malformed} decode_HealthSampleInput \<and>
   refuses_with {Malformed} decode_HealthThreshold \<and>
   refuses_with {Malformed} decode_HealthReport \<and> refuses_with {Malformed} decode_CompatRule \<and>
   refuses_with {Malformed} decode_EvidenceSummary \<and>
   refuses_with {Malformed} decode_LifecycleEvent \<and>
   refuses_with {Malformed} decode_RegistryStats \<and> refuses_with {Malformed} decode_LoadReport \<and>
   refuses_with {Malformed, InvalidArgument} decode_ModuleHandle \<and>
   refuses_with {Malformed, InvalidArgument} decode_ModuleRegistration \<and>
   refuses_with {Malformed, InvalidArgument} decode_IdentityView \<and>
   refuses_with {Malformed, InvalidArgument} decode_CapabilityView \<and>
   refuses_with {Malformed, InvalidArgument} decode_AttachmentRecord \<and>
   refuses_with {Malformed, InvalidArgument} decode_CompatDecision \<and>
   ignores_further decode_Provenance \<and> ignores_further decode_SourceDescriptor \<and>
   ignores_further decode_SourceHandle \<and> ignores_further decode_AuthorityToken \<and>
   ignores_further decode_IdentityFieldValue \<and> ignores_further decode_HealthSampleInput \<and>
   ignores_further decode_HealthThreshold \<and> ignores_further decode_HealthReport \<and>
   ignores_further decode_CompatRule \<and> ignores_further decode_EvidenceSummary \<and>
   ignores_further decode_LifecycleEvent \<and> ignores_further decode_RegistryStats \<and>
   ignores_further decode_LoadReport \<and> ignores_further decode_ModuleHandle \<and>
   ignores_further decode_ModuleRegistration \<and> ignores_further decode_IdentityView \<and>
   ignores_further decode_CapabilityView \<and> ignores_further decode_AttachmentRecord \<and>
   ignores_further decode_CompatDecision"
  unfolding refuses_with_def ignores_further_def
  by (intro conjI allI impI
      decode_Provenance_fails decode_SourceDescriptor_fails decode_SourceHandle_fails
      decode_AuthorityToken_fails decode_IdentityFieldValue_fails decode_HealthSampleInput_fails
      decode_HealthThreshold_fails decode_HealthReport_fails decode_CompatRule_fails
      decode_EvidenceSummary_fails decode_LifecycleEvent_fails decode_RegistryStats_fails
      decode_LoadReport_fails decode_ModuleHandle_fails decode_ModuleRegistration_fails
      decode_IdentityView_fails decode_CapabilityView_fails decode_AttachmentRecord_fails
      decode_CompatDecision_fails
      codec_Provenance.decode_further codec_SourceDescriptor.decode_further
      codec_SourceHandle.decode_further codec_AuthorityToken.decode_further
      codec_IdentityFieldValue.decode_further codec_HealthSampleInput.decode_further
      codec_HealthThreshold.decode_further codec_HealthReport.decode_further
      codec_CompatRule.decode_further codec_EvidenceSummary.decode_further
      codec_LifecycleEvent.decode_further codec_RegistryStats.decode_further
      codec_LoadReport.decode_further codec_ModuleHandle.decode_further
      codec_ModuleRegistration.decode_further codec_IdentityView.decode_further
      codec_CapabilityView.decode_further codec_AttachmentRecord.decode_further
      codec_CompatDecision.decode_further)
    simp_all

text \<open>
  The encoder writes unsigned 64-bit members as signed integers and the decoder refuses negative
  ones: a handle survives exactly when its generation is below 2 to the 63.
\<close>

lemma handle_roundtrip_exact:
  "decode_SourceHandle (encode_SourceHandle x) =
     (if u63 (sh_generation x) then Inr x else Inl Malformed)"
proof (cases "u63 (sh_generation x)")
  case True
  then show ?thesis by (simp add: decode_encode_SourceHandle valid_SourceHandle_def)
next
  case False
  then have "unsigned_of (VInteger (sh_generation x)) = Inl Malformed"
    by (simp add: unsigned_of_def integer_of_simps u63_sint)
  then show ?thesis using False
    by (simp add: decode_SourceHandle_def encode_SourceHandle_def member_simps)
qed

end
