(* ===== verification/Frames.thy ===== *)
theory Frames
  imports Taxonomy Canonical Digests
begin

text \<open>
  The frames of the loopback transport, \<open>src/src/wire.cpp\<close> and \<open>include/trxreg/wire.hpp\<close>: little-endian
  numbers, the frame header, the frame codec with its checksum, and reading and writing frames on a
  socket. The socket itself is the operating system's: it delivers the peer's bytes in pieces of any
  size, of which \<open>recv_some\<close> returns at most what it is asked for, and after the last piece it
  reports an orderly close or a failure; it takes a number of bytes before the connection breaks.

  The lemmas show that the numbers and the frames round-trip, that a frame is accepted exactly when it
  is the encoding of its content, and that reading depends on the byte stream only, never on the
  pieces it arrives in.
\<close>

unbundle bit_operations_syntax

section \<open>Little-endian numbers\<close>

definition le_bytes :: "nat \<Rightarrow> 'a::len word \<Rightarrow> byte list" where
  "le_bytes n v = map (\<lambda>i. ucast (drop_bit (8 * i) v AND 0xff)) [0..<n]"

definition read_le :: "nat \<Rightarrow> byte list \<Rightarrow> nat \<Rightarrow> 'a::len word" where
  "read_le n data offset =
     foldl (\<lambda>value i. value OR push_bit (8 * i) (ucast (data ! (offset + i)))) 0 [0..<n]"

definition append_u16 :: "byte list \<Rightarrow> 16 word \<Rightarrow> byte list" where
  "append_u16 out v = out @ le_bytes 2 v"

definition append_u32 :: "byte list \<Rightarrow> 32 word \<Rightarrow> byte list" where
  "append_u32 out v = out @ le_bytes 4 v"

definition read_u16 :: "byte list \<Rightarrow> nat \<Rightarrow> 16 word" where
  "read_u16 data offset = read_le 2 data offset"

definition read_u32 :: "byte list \<Rightarrow> nat \<Rightarrow> 32 word" where
  "read_u32 data offset = read_le 4 data offset"

section \<open>Message types\<close>

datatype MessageType =
    MT_Hello | MT_HelloAck | MT_Request | MT_Response | MT_Failure | MT_Ping | MT_Pong | MT_Shutdown

fun MessageType_code :: "MessageType \<Rightarrow> 16 word" where
  "MessageType_code MT_Hello = 1"
| "MessageType_code MT_HelloAck = 2"
| "MessageType_code MT_Request = 3"
| "MessageType_code MT_Response = 4"
| "MessageType_code MT_Failure = 5"
| "MessageType_code MT_Ping = 6"
| "MessageType_code MT_Pong = 7"
| "MessageType_code MT_Shutdown = 8"

fun to_string_MessageType :: "MessageType \<Rightarrow> string" where
  "to_string_MessageType MT_Hello = ''hello''"
| "to_string_MessageType MT_HelloAck = ''hello_ack''"
| "to_string_MessageType MT_Request = ''request''"
| "to_string_MessageType MT_Response = ''response''"
| "to_string_MessageType MT_Failure = ''failure''"
| "to_string_MessageType MT_Ping = ''ping''"
| "to_string_MessageType MT_Pong = ''pong''"
| "to_string_MessageType MT_Shutdown = ''shutdown''"

definition message_type_from_string :: "string \<Rightarrow> MessageType option" where
  "message_type_from_string text = scan_exact to_string_MessageType
     [MT_Hello, MT_HelloAck, MT_Request, MT_Response, MT_Failure, MT_Ping, MT_Pong, MT_Shutdown] text"

section \<open>The frame codec\<close>

definition kFrameHeaderBytes :: nat where
  "kFrameHeaderBytes = 16"

definition kFrameTrailerBytes :: nat where
  "kFrameTrailerBytes = 4"

definition kWireProtocolVersion :: "16 word" where
  "kWireProtocolVersion = 1"

definition kFrameMagic :: "byte list" where
  "kFrameMagic = map byte_of_char ''TRXF''"

definition kReservedFlags :: "16 word" where
  "kReservedFlags = 0"

record FrameHeader =
  fh_version :: "16 word"
  fh_type :: MessageType
  fh_flags :: "16 word"
  fh_body_length :: "32 word"

record Frame =
  fr_type :: MessageType
  fr_flags :: "16 word"
  fr_body :: Value

text \<open>The switch on the raw type of a header.\<close>

definition message_type_of_code :: "16 word \<Rightarrow> MessageType option" where
  "message_type_of_code raw =
     (if raw = 1 then Some MT_Hello
      else if raw = 2 then Some MT_HelloAck
      else if raw = 3 then Some MT_Request
      else if raw = 4 then Some MT_Response
      else if raw = 5 then Some MT_Failure
      else if raw = 6 then Some MT_Ping
      else if raw = 7 then Some MT_Pong
      else if raw = 8 then Some MT_Shutdown
      else None)"

text \<open>\<open>FrameLimits\<close> is its one member, \<open>max_body_bytes\<close>.\<close>

definition parse_frame_header :: "byte list \<Rightarrow> 32 word \<Rightarrow> FrameHeader res" where
  "parse_frame_header header max_body_bytes =
     (if take 4 header \<noteq> kFrameMagic then Inl Malformed
      else if read_u16 header 4 \<noteq> kWireProtocolVersion then Inl Malformed
      else
        case message_type_of_code (read_u16 header 6) of
          None \<Rightarrow> Inl Malformed
        | Some type \<Rightarrow>
            if read_u16 header 10 \<noteq> kReservedFlags then Inl Malformed
            else if read_u32 header 12 > max_body_bytes then Inl CapacityExceeded
            else if read_u32 header 12 = 0 then Inl Malformed
            else Inr \<lparr>fh_version = read_u16 header 4, fh_type = type, fh_flags = read_u16 header 8,
                      fh_body_length = read_u32 header 12\<rparr>)"

definition encode_frame :: "MessageType \<Rightarrow> 16 word \<Rightarrow> byte list \<Rightarrow> byte list" where
  "encode_frame type flags body =
     (let frame = kFrameMagic;
          frame = append_u16 frame kWireProtocolVersion;
          frame = append_u16 frame (MessageType_code type);
          frame = append_u16 frame flags;
          frame = append_u16 frame kReservedFlags;
          frame = append_u32 frame (word_of_nat (length body));
          frame = frame @ body
      in append_u32 frame (crc32c frame 0))"

definition decode_frame :: "byte list \<Rightarrow> 32 word \<Rightarrow> CanonicalLimits \<Rightarrow> Frame res" where
  "decode_frame frame_bytes max_body_bytes document_limits =
     (if length frame_bytes < kFrameHeaderBytes + kFrameTrailerBytes then Inl Corrupt
      else
        try_res (parse_frame_header (take kFrameHeaderBytes frame_bytes) max_body_bytes) (\<lambda>h.
        let body_length = unat (fh_body_length h);
            size = length frame_bytes
        in if size \<noteq> kFrameHeaderBytes + body_length + kFrameTrailerBytes then Inl Corrupt
           else if crc32c (take (size - kFrameTrailerBytes) frame_bytes) 0 \<noteq>
                   read_u32 frame_bytes (size - kFrameTrailerBytes) then Inl Corrupt
           else
             try_res (read_document document_limits (take body_length (drop kFrameHeaderBytes frame_bytes)))
               (\<lambda>document. Inr \<lparr>fr_type = fh_type h, fr_flags = fh_flags h, fr_body = document\<rparr>)))"

section \<open>Frames on a socket\<close>

record Socket =
  sk_incoming :: "byte list list"
  sk_broken :: bool
  sk_sent :: "byte list"
  sk_room :: nat

text \<open>\<open>recv_some\<close>: at most \<open>n\<close> bytes, none of them after an orderly close.\<close>

definition recv_some :: "nat \<Rightarrow> Socket \<Rightarrow> byte list res \<times> Socket" where
  "recv_some n s =
     (case sk_incoming s of
        [] \<Rightarrow> (if sk_broken s then Inl IoError else Inr [], s)
      | piece # pieces \<Rightarrow>
          if length piece \<le> n then (Inr piece, s \<lparr>sk_incoming := pieces\<rparr>)
          else (Inr (take n piece), s \<lparr>sk_incoming := drop n piece # pieces\<rparr>))"

definition send_all :: "byte list \<Rightarrow> Socket \<Rightarrow> nat res \<times> Socket" where
  "send_all data s =
     (if length data \<le> sk_room s
      then (Inr (length data), s \<lparr>sk_sent := sk_sent s @ data, sk_room := sk_room s - length data\<rparr>)
      else (Inl IoError, s \<lparr>sk_sent := sk_sent s @ take (sk_room s) data, sk_room := 0\<rparr>))"

text \<open>The receive loops of \<open>read_frame\<close>: until \<open>want\<close> bytes are there; a close reports \<open>closed\<close>.\<close>

function recv_loop :: "StatusCode \<Rightarrow> nat \<Rightarrow> byte list \<Rightarrow> Socket \<Rightarrow> byte list res \<times> Socket" where
  "recv_loop closed want got s =
     (if length got < want then
        case recv_some (want - length got) s of
          (Inl e, s') \<Rightarrow> (Inl e, s')
        | (Inr [], s') \<Rightarrow> (Inl closed, s')
        | (Inr (b # bs), s') \<Rightarrow> recv_loop closed want (got @ b # bs) s'
      else (Inr got, s))"
  by pat_completeness auto

termination recv_loop
  by (relation "measure (\<lambda>(_, want, got, _). want - length got)") auto

declare recv_loop.simps [simp del]

definition read_frame :: "32 word \<Rightarrow> CanonicalLimits \<Rightarrow> Socket \<Rightarrow> Frame res \<times> Socket" where
  "read_frame max_body_bytes document_limits s =
     (case recv_loop IoError kFrameHeaderBytes [] s of
        (Inl e, s') \<Rightarrow> (Inl e, s')
      | (Inr header, s') \<Rightarrow>
          case parse_frame_header header max_body_bytes of
            Inl e \<Rightarrow> (Inl e, s')
          | Inr h \<Rightarrow>
              case recv_loop Corrupt (unat (fh_body_length h) + kFrameTrailerBytes) [] s' of
                (Inl e, s'') \<Rightarrow> (Inl e, s'')
              | (Inr rest, s'') \<Rightarrow> (decode_frame (header @ rest) max_body_bytes document_limits, s''))"

definition write_frame :: "MessageType \<Rightarrow> 16 word \<Rightarrow> Value \<Rightarrow> 32 word \<Rightarrow> Socket \<Rightarrow> unit res \<times> Socket" where
  "write_frame type flags body max_body_bytes s =
     (let writer = write_value body writer_empty;
          payload = w_buffer writer
      in if w_failed writer then (Inl Internal, s)
         else if length payload > unat max_body_bytes then (Inl CapacityExceeded, s)
         else
           case send_all (encode_frame type flags payload) s of
             (Inl e, s') \<Rightarrow> (Inl e, s')
           | (Inr sent, s') \<Rightarrow>
               if sent \<noteq> length (encode_frame type flags payload) then (Inl IoError, s')
               else (Inr (), s'))"

section \<open>Numbers\<close>

lemma le_bytes_length [simp]: "length (le_bytes n v) = n"
  by (simp add: le_bytes_def)

lemma bit_read_le:
  "bit (read_le n data offset :: 'a::len word) i \<longleftrightarrow>
     i < LENGTH('a) \<and> i < 8 * n \<and> bit (data ! (offset + i div 8)) (i mod 8)"
proof (induction n arbitrary: i)
  case 0
  then show ?case by (simp add: read_le_def)
next
  case (Suc n)
  have step: "(read_le (Suc n) data offset :: 'a word) =
      read_le n data offset OR push_bit (8 * n) (ucast (data ! (offset + n)))"
    by (simp add: read_le_def)
  have byte: "bit (data ! (offset + n)) j \<longrightarrow> j < 8" for j
    using bit_imp_le_length [of "data ! (offset + n)" j] by simp
  have push: "bit (push_bit (8 * n) (ucast (data ! (offset + n))) :: 'a word) i \<longleftrightarrow>
      i < LENGTH('a) \<and> 8 * n \<le> i \<and> bit (data ! (offset + n)) (i - 8 * n)"
    by (auto simp: bit_push_bit_iff bit_ucast_iff)
  show ?case
  proof (cases "8 * n \<le> i \<and> i < 8 * Suc n")
    case True
    then have "i div 8 = n" by (intro div_nat_eqI) simp_all
    moreover from this have "i mod 8 = i - 8 * n" by (simp add: modulo_nat_def)
    ultimately show ?thesis using True by (simp add: step bit_or_iff push Suc.IH)
  next
    case False
    then have "\<not> (8 * n \<le> i \<and> bit (data ! (offset + n)) (i - 8 * n))" using byte [of "i - 8 * n"] by auto
    then show ?thesis using False by (auto simp: step bit_or_iff push Suc.IH)
  qed
qed

lemma nth_le_bytes: "i < n \<Longrightarrow> le_bytes n v ! i = ucast (drop_bit (8 * i) v AND 0xff)"
  by (simp add: le_bytes_def)

lemma bit_le_byte:
  "i < n \<Longrightarrow> bit (le_bytes n v ! i) j \<longleftrightarrow> j < 8 \<and> bit v (8 * i + j)"
proof -
  have m: "(0xff :: 'b::len word) = mask 8" by (simp add: mask_eq_exp_minus_1)
  assume "i < n"
  then show ?thesis
    unfolding nth_le_bytes [OF \<open>i < n\<close>] m
    by (auto simp: bit_ucast_iff bit_and_iff bit_mask_iff bit_drop_bit_eq dest: bit_imp_le_length)
qed

lemma read_le_bytes:
  assumes "LENGTH('a::len) \<le> 8 * n" "\<And>i. i < n \<Longrightarrow> data ! (offset + i) = le_bytes n (v :: 'a word) ! i"
  shows "read_le n data offset = v"
proof (rule bit_word_eqI)
  fix i assume "i < LENGTH('a)"
  then have "i < 8 * n" "i div 8 < n" using assms(1) by auto
  then show "bit (read_le n data offset :: 'a word) i \<longleftrightarrow> bit v i"
    using \<open>i < LENGTH('a)\<close> assms(2) by (simp add: bit_read_le bit_le_byte)
qed

lemma le_bytes_read:
  assumes "8 * n \<le> LENGTH('a::len)" "offset + n \<le> length data"
  shows "le_bytes n (read_le n data offset :: 'a word) = take n (drop offset data)"
proof (rule nth_equalityI)
  fix i assume "i < length (le_bytes n (read_le n data offset :: 'a word))"
  then have i: "i < n" by simp
  have "le_bytes n (read_le n data offset :: 'a word) ! i = data ! (offset + i)"
  proof (rule bit_word_eqI)
    fix j assume "j < LENGTH(8)"
    then have j: "j < 8" by simp
    then have "8 * i + j < 8 * n" using i by linarith
    then show "bit (le_bytes n (read_le n data offset :: 'a word) ! i) j \<longleftrightarrow> bit (data ! (offset + i)) j"
      using i j assms(1) by (simp add: bit_le_byte bit_read_le)
  qed
  then show "le_bytes n (read_le n data offset :: 'a word) ! i = take n (drop offset data) ! i"
    using i assms(2) by simp
qed (use assms(2) in simp)

lemma read_le_append:
  fixes v :: "'a::len word"
  assumes "LENGTH('a) \<le> 8 * n"
  shows "read_le n (a @ le_bytes n v @ b) (length a) = v"
  by (rule read_le_bytes) (simp_all add: assms nth_append)

lemma read_le_take: "offset + n \<le> m \<Longrightarrow> read_le n (take m data) offset = read_le n data offset"
  by (rule bit_word_eqI) (auto simp: bit_read_le)

section \<open>The frame codec is strict\<close>

lemma message_type_of_code_code [simp]: "message_type_of_code (MessageType_code ty) = Some ty"
  by (cases ty) (simp_all add: message_type_of_code_def)

lemma message_type_of_code_Some: "message_type_of_code raw = Some ty \<Longrightarrow> raw = MessageType_code ty"
  by (auto simp: message_type_of_code_def split: if_splits)

lemma message_type_texts [simp]: "message_type_from_string (to_string_MessageType ty) = Some ty"
  by (cases ty) (simp_all add: message_type_from_string_def)

definition frame_header :: "MessageType \<Rightarrow> 16 word \<Rightarrow> 32 word \<Rightarrow> byte list" where
  "frame_header ty flags len =
     kFrameMagic @ le_bytes 2 kWireProtocolVersion @ le_bytes 2 (MessageType_code ty) @
     le_bytes 2 flags @ le_bytes 2 kReservedFlags @ le_bytes 4 len"

lemma frame_header_length [simp]: "length (frame_header ty flags len) = 16"
  by (simp add: frame_header_def kFrameMagic_def)

lemma encode_frame_layout:
  "encode_frame ty flags body =
     (let frame = frame_header ty flags (word_of_nat (length body)) @ body
      in frame @ le_bytes 4 (crc32c frame 0))"
  by (simp add: encode_frame_def frame_header_def append_u16_def append_u32_def Let_def)

lemma frame_length: "length (encode_frame ty flags body) = 20 + length body"
  by (simp add: encode_frame_layout Let_def)

lemma parse_frame_header_iff:
  assumes "length header = 16"
  shows "parse_frame_header header limit = Inr h \<longleftrightarrow>
    header = frame_header (fh_type h) (fh_flags h) (fh_body_length h) \<and>
    fh_version h = kWireProtocolVersion \<and> fh_body_length h \<noteq> 0 \<and> fh_body_length h \<le> limit"
proof
  assume p: "parse_frame_header header limit = Inr h"
  then obtain ty where f: "take 4 header = kFrameMagic" "read_u16 header 4 = kWireProtocolVersion"
    "message_type_of_code (read_u16 header 6) = Some ty" "read_u16 header 10 = kReservedFlags"
    "read_u32 header 12 \<le> limit" "read_u32 header 12 \<noteq> 0"
    and h: "h = \<lparr>fh_version = read_u16 header 4, fh_type = ty, fh_flags = read_u16 header 8,
      fh_body_length = read_u32 header 12\<rparr>"
    by (auto simp: parse_frame_header_def split: if_splits option.splits)
  have parts: "header = take 4 header @ take 2 (drop 4 header) @ take 2 (drop 6 header) @
      take 2 (drop 8 header) @ take 2 (drop 10 header) @ take 4 (drop 12 header)"
  proof -
    have d: "drop k header = take m (drop k header) @ drop (k + m) header" for k m
      by (metis add.commute append_take_drop_id drop_drop)
    have "header = take 4 header @ drop 4 header" by simp
    moreover note d [of 4 2] d [of 6 2] d [of 8 2] d [of 10 2]
    moreover have "drop 12 header = take 4 (drop 12 header)" using assms by simp
    ultimately show ?thesis by simp
  qed
  have r: "take 2 (drop k header) = le_bytes 2 (read_u16 header k)" if "k + 2 \<le> 16" for k
    using le_bytes_read [of 2 k header, where 'a = 16] that assms by (simp add: read_u16_def)
  have r4: "take 4 (drop 12 header) = le_bytes 4 (read_u32 header 12)"
    using le_bytes_read [of 4 12 header, where 'a = 32] assms by (simp add: read_u32_def)
  have "read_u16 header 6 = MessageType_code ty" using f(3) by (rule message_type_of_code_Some)
  then have "header = frame_header ty (read_u16 header 8) (read_u32 header 12)"
    unfolding frame_header_def
    using parts f(1,2,4) r [of 4] r [of 6] r [of 8] r [of 10] r4 by simp
  then show "header = frame_header (fh_type h) (fh_flags h) (fh_body_length h) \<and>
      fh_version h = kWireProtocolVersion \<and> fh_body_length h \<noteq> 0 \<and> fh_body_length h \<le> limit"
    using f h by simp
next
  assume a: "header = frame_header (fh_type h) (fh_flags h) (fh_body_length h) \<and>
    fh_version h = kWireProtocolVersion \<and> fh_body_length h \<noteq> 0 \<and> fh_body_length h \<le> limit"
  define T V C F R L where d: "T = kFrameMagic" "V = le_bytes 2 kWireProtocolVersion"
    "C = le_bytes 2 (MessageType_code (fh_type h))" "F = le_bytes 2 (fh_flags h)"
    "R = le_bytes 2 kReservedFlags" "L = le_bytes 4 (fh_body_length h)"
  have hd: "header = T @ V @ C @ F @ R @ L" using a d by (simp add: frame_header_def)
  have len: "length T = 4" "length V = 2" "length C = 2" "length F = 2" "length R = 2"
    by (simp_all add: d kFrameMagic_def)
  have "read_u16 header 4 = kWireProtocolVersion" "read_u16 header 6 = MessageType_code (fh_type h)"
    "read_u16 header 8 = fh_flags h" "read_u16 header 10 = kReservedFlags"
    "read_u32 header 12 = fh_body_length h"
    using read_le_append [of 2 T kWireProtocolVersion "C @ F @ R @ L"]
      read_le_append [of 2 "T @ V" "MessageType_code (fh_type h)" "F @ R @ L"]
      read_le_append [of 2 "T @ V @ C" "fh_flags h" "R @ L"]
      read_le_append [of 2 "T @ V @ C @ F" kReservedFlags L]
      read_le_append [of 4 "T @ V @ C @ F @ R" "fh_body_length h" "[]"]
    by (simp_all add: read_u16_def read_u32_def hd len d(2-6) [symmetric])
  moreover have "take 4 header = kFrameMagic" using len by (simp add: hd d(1))
  ultimately show "parse_frame_header header limit = Inr h"
    using a by (simp add: parse_frame_header_def not_less)
qed

lemma canonical_bytes_nonempty: "canonical_bytes v \<noteq> []"
  by (cases v) (simp_all add: text_form_def)

lemma decode_frame_iff:
  "decode_frame bytes limit L = Inr f \<longleftrightarrow>
     bytes = encode_frame (fr_type f) (fr_flags f) (canonical_bytes (fr_body f)) \<and>
     length (canonical_bytes (fr_body f)) \<le> unat limit \<and>
     length (canonical_bytes (fr_body f)) \<le> unat (max_document_bytes L) \<and> document_fits L (fr_body f)"
  (is "?decoded \<longleftrightarrow> ?encoded")
proof
  assume ?decoded
  then obtain h where len: "20 \<le> length bytes"
    and p: "parse_frame_header (take 16 bytes) limit = Inr h"
    and size: "length bytes = 16 + unat (fh_body_length h) + 4"
    and crc: "crc32c (take (length bytes - 4) bytes) 0 = read_u32 bytes (length bytes - 4)"
    and doc: "read_document L (take (unat (fh_body_length h)) (drop 16 bytes)) = Inr (fr_body f)"
    and f: "fr_type f = fh_type h" "fr_flags f = fh_flags h"
    by (auto simp: decode_frame_def kFrameHeaderBytes_def kFrameTrailerBytes_def Let_def res_elims
        split: if_splits)
  define body where "body = take (unat (fh_body_length h)) (drop 16 bytes)"
  have lb: "length body = unat (fh_body_length h)" using size by (simp add: body_def)
  have hd: "take 16 bytes = frame_header (fh_type h) (fh_flags h) (fh_body_length h)"
    and le: "fh_body_length h \<le> limit"
    using p len by (simp_all add: parse_frame_header_iff)
  have pre: "take (length bytes - 4) bytes = take 16 bytes @ body"
    using size by (simp add: body_def take_add [symmetric])
  have "bytes = take (length bytes - 4) bytes @ drop (length bytes - 4) bytes" by simp
  also have "drop (length bytes - 4) bytes = le_bytes 4 (read_u32 bytes (length bytes - 4))"
    using le_bytes_read [of 4 "length bytes - 4" bytes, where 'a = 32] len by (simp add: read_u32_def)
  finally have "bytes = encode_frame (fh_type h) (fh_flags h) body"
    by (simp add: encode_frame_layout Let_def pre crc [symmetric] hd lb)
  moreover have "length body \<le> unat (max_document_bytes L) \<and> document_fits L (fr_body f) \<and>
      body = canonical_bytes (fr_body f)"
    using doc unfolding body_def [symmetric] read_document_Inr .
  moreover have "length body \<le> unat limit" using le by (simp add: lb word_le_nat_alt)
  ultimately show ?encoded unfolding f by blast
next
  assume e: ?encoded
  define body where "body = canonical_bytes (fr_body f)"
  define len :: "32 word" where "len = word_of_nat (length body)"
  have "unat limit < 2 ^ LENGTH(32)" by (rule unsigned_less)
  then have small: "length body < 2 ^ 32" using e by (simp add: body_def)
  then have ul: "unat len = length body" by (simp add: len_def unat_of_nat)
  define hd where "hd = frame_header (fr_type f) (fr_flags f) len"
  have bytes: "bytes = (hd @ body) @ le_bytes 4 (crc32c (hd @ body) 0)"
    using e by (simp add: encode_frame_layout Let_def hd_def len_def body_def)
  have lh: "length hd = 16" by (simp add: hd_def)
  have "parse_frame_header hd limit = Inr \<lparr>fh_version = kWireProtocolVersion, fh_type = fr_type f,
      fh_flags = fr_flags f, fh_body_length = len\<rparr>"
    using e ul canonical_bytes_nonempty [of "fr_body f"]
    by (auto simp: parse_frame_header_iff lh hd_def word_le_nat_alt body_def [symmetric] unat_eq_0 [symmetric])
  moreover have "read_u32 bytes (16 + length body) = crc32c (hd @ body) 0"
    using read_le_append [of 4 "hd @ body" "crc32c (hd @ body) 0" "[]"]
    by (simp add: read_u32_def bytes lh)
  moreover have "read_document L body = Inr (fr_body f)"
    using e by (simp add: read_document_Inr body_def)
  ultimately show ?decoded
    by (simp add: decode_frame_def kFrameHeaderBytes_def kFrameTrailerBytes_def Let_def bytes lh ul)
qed

section \<open>Reading does not depend on the pieces\<close>

definition stream :: "Socket \<Rightarrow> byte list" where
  "stream s = concat (sk_incoming s)"

text \<open>The operating system never hands over an empty piece before the close.\<close>

definition in_pieces :: "Socket \<Rightarrow> bool" where
  "in_pieces s \<longleftrightarrow> [] \<notin> set (sk_incoming s)"

definition consumed :: "nat \<Rightarrow> Socket \<Rightarrow> Socket \<Rightarrow> bool" where
  "consumed n s s' \<longleftrightarrow>
     stream s' = drop n (stream s) \<and> in_pieces s' \<and> sk_broken s' = sk_broken s \<and>
     sk_sent s' = sk_sent s \<and> sk_room s' = sk_room s"

lemma consumed_trans: "consumed m s s' \<Longrightarrow> consumed n s' s'' \<Longrightarrow> consumed (m + n) s s''"
  by (simp add: consumed_def add.commute)

lemma recv_some_cases:
  assumes "in_pieces s" "0 < n"
  obtains (close) "sk_incoming s = []" "recv_some n s = (if sk_broken s then Inl IoError else Inr [], s)"
  | (piece) b bs s' where "recv_some n s = (Inr (b # bs), s')" "length (b # bs) \<le> n"
      "stream s = (b # bs) @ stream s'" "consumed (length (b # bs)) s s'"
proof (cases "sk_incoming s")
  case Nil
  then show thesis using close by (simp add: recv_some_def)
next
  case (Cons piece pieces)
  then have ne: "piece \<noteq> []" and rest: "[] \<notin> set pieces" using assms(1) by (auto simp: in_pieces_def)
  show thesis
  proof (cases "length piece \<le> n")
    case True
    obtain b bs where b: "piece = b # bs" using ne by (cases piece) auto
    show thesis
      by (rule that(2) [of b bs "s \<lparr>sk_incoming := pieces\<rparr>"])
        (use True Cons b rest in \<open>simp_all add: recv_some_def stream_def consumed_def in_pieces_def\<close>)
  next
    case False
    obtain b bs where b: "take n piece = b # bs" using ne assms(2) by (cases "take n piece") auto
    have l: "length (b # bs) = n" using False b by (metis length_take min.absorb2 nle_le)
    have "piece = (b # bs) @ drop n piece" using b by (metis append_take_drop_id)
    then show thesis
      by (intro that(2) [of b bs "s \<lparr>sk_incoming := drop n piece # pieces\<rparr>"])
        (use False Cons b l rest in
          \<open>simp_all add: recv_some_def stream_def consumed_def in_pieces_def del: length_Cons\<close>)
  qed
qed

lemma recv_loop_spec:
  assumes "in_pieces s"
  shows "\<exists>s'. recv_loop closed want got s =
      (if want \<le> length got + length (stream s) then Inr (got @ take (want - length got) (stream s))
       else Inl (if sk_broken s then IoError else closed), s') \<and>
    consumed (want - length got) s s'"
  using assms
proof (induction closed want got s rule: recv_loop.induct)
  case (1 closed want got s)
  show ?case
  proof (cases "length got < want")
    case False
    then show ?thesis using "1.prems" by (subst recv_loop.simps) (simp add: consumed_def)
  next
    case True
    then have "0 < want - length got" by simp
    with "1.prems" show ?thesis
    proof (cases rule: recv_some_cases)
      case close
      then show ?thesis using True "1.prems"
        by (subst recv_loop.simps) (simp add: stream_def consumed_def)
    next
      case (piece b bs s')
      define new where "new = b # bs"
      have r: "recv_some (want - length got) s = (Inr new, s')" "length new \<le> want - length got"
        "stream s = new @ stream s'" "consumed (length new) s s'"
        using piece by (simp_all add: new_def)
      have "in_pieces s'" using r(4) by (simp add: consumed_def)
      with "1.IH" [OF True r(1) [symmetric] refl new_def]
      obtain s'' where IH: "recv_loop closed want (got @ new) s' =
          (if want \<le> length (got @ new) + length (stream s')
           then Inr ((got @ new) @ take (want - length (got @ new)) (stream s'))
           else Inl (if sk_broken s' then IoError else closed), s'')"
        "consumed (want - length (got @ new)) s' s''"
        by (auto simp: new_def)
      have "recv_loop closed want got s = recv_loop closed want (got @ new) s'"
        using True piece(1) by (subst recv_loop.simps) (simp add: new_def)
      moreover have "consumed (want - length got) s s''"
      proof -
        have "length new + (want - length (got @ new)) = want - length got" using r(2) by simp
        then show ?thesis using consumed_trans [OF r(4) IH(2)] by (simp only:)
      qed
      moreover have "sk_broken s' = sk_broken s" using r(4) by (simp add: consumed_def)
      moreover have "take (want - length got) (stream s) = new @ take (want - length (got @ new)) (stream s')"
        using r(2,3) by simp
      ultimately show ?thesis using IH(1) r(3) by (intro exI [of _ s'']) simp
    qed
  qed
qed

text \<open>What reading a frame returns, as a function of the bytes that arrive.\<close>

definition frame_of_stream :: "32 word \<Rightarrow> CanonicalLimits \<Rightarrow> bool \<Rightarrow> byte list \<Rightarrow> Frame res \<times> nat" where
  "frame_of_stream limit L broken bs =
     (if length bs < 16 then (Inl IoError, length bs)
      else
        case parse_frame_header (take 16 bs) limit of
          Inl e \<Rightarrow> (Inl e, 16)
        | Inr h \<Rightarrow>
            (let total = 20 + unat (fh_body_length h)
             in if length bs < total then (Inl (if broken then IoError else Corrupt), length bs)
                else (decode_frame (take total bs) limit L, total)))"

lemma consumed_all: "consumed n s s' \<Longrightarrow> length (stream s) \<le> n \<Longrightarrow> consumed (length (stream s)) s s'"
  by (simp add: consumed_def)

lemma read_frame_of_stream:
  assumes "in_pieces s" "frame_of_stream limit L (sk_broken s) (stream s) = (r, n)"
  shows "\<exists>s'. read_frame limit L s = (r, s') \<and> consumed n s s'"
proof -
  obtain s1 where one: "recv_loop IoError kFrameHeaderBytes [] s =
      (if 16 \<le> length (stream s) then Inr (take 16 (stream s)) else Inl IoError, s1)"
    and c1: "consumed 16 s s1"
    using recv_loop_spec [OF assms(1), of IoError 16 "[]"] by (auto simp: kFrameHeaderBytes_def)
  show ?thesis
  proof (cases "length (stream s) < 16")
    case True
    then show ?thesis using one consumed_all [OF c1] assms(2)
      by (auto simp: read_frame_def frame_of_stream_def)
  next
    case long: False
    show ?thesis
    proof (cases "parse_frame_header (take 16 (stream s)) limit")
      case (Inl e)
      then show ?thesis using long one c1 assms(2) by (auto simp: read_frame_def frame_of_stream_def)
    next
      case (Inr h)
      define m where "m = unat (fh_body_length h)"
      have p1: "in_pieces s1" "stream s1 = drop 16 (stream s)" "sk_broken s1 = sk_broken s"
        using c1 by (simp_all add: consumed_def)
      obtain s2 where two: "recv_loop Corrupt (m + kFrameTrailerBytes) [] s1 =
          (if m + 4 \<le> length (stream s1) then Inr (take (m + 4) (stream s1))
           else Inl (if sk_broken s1 then IoError else Corrupt), s2)"
        and c2: "consumed (m + 4) s1 s2"
        using recv_loop_spec [OF p1(1), of Corrupt "m + 4" "[]"] by (auto simp: kFrameTrailerBytes_def)
      have c: "consumed (20 + m) s s2" using consumed_trans [OF c1 c2] by (simp add: add.commute)
      have t: "take (20 + m) (stream s) = take 16 (stream s) @ take (m + 4) (drop 16 (stream s))"
        by (simp add: take_add [symmetric])
      show ?thesis
      proof (cases "length (stream s) < 20 + m")
        case True
        have short: "\<not> m + 4 \<le> length (stream s1)" using True long p1(2) by simp
        have "(r, n) = (Inl (if sk_broken s then IoError else Corrupt), length (stream s))"
          using assms(2) long Inr True by (simp add: frame_of_stream_def m_def Let_def)
        moreover have "read_frame limit L s = (Inl (if sk_broken s then IoError else Corrupt), s2)"
          using one long Inr two short p1(3) by (simp add: read_frame_def m_def [symmetric])
        moreover have "consumed (length (stream s)) s s2" using consumed_all [OF c] True by simp
        ultimately show ?thesis by blast
      next
        case False
        have enough: "m + 4 \<le> length (stream s1)" using False p1(2) by simp
        have "(r, n) = (decode_frame (take (20 + m) (stream s)) limit L, 20 + m)"
          using assms(2) long Inr False by (auto simp: frame_of_stream_def m_def Let_def)
        moreover have "read_frame limit L s = (decode_frame (take (20 + m) (stream s)) limit L, s2)"
          using one long Inr two enough p1(2) t by (simp add: read_frame_def m_def [symmetric])
        ultimately show ?thesis using c by blast
      qed
    qed
  qed
qed

lemma frame_of_stream_encoded:
  assumes "decode_frame (encode_frame ty flags body) limit L = Inr f"
  shows "frame_of_stream limit L broken (encode_frame ty flags body @ rest) =
    (Inr f, length (encode_frame ty flags body))"
proof -
  define frame where "frame = encode_frame ty flags body"
  obtain h where len: "20 \<le> length frame"
    and p: "parse_frame_header (take 16 frame) limit = Inr h"
    and size: "length frame = 20 + unat (fh_body_length h)"
    using assms unfolding frame_def [symmetric]
    by (auto simp: decode_frame_def kFrameHeaderBytes_def kFrameTrailerBytes_def Let_def res_elims
        split: if_splits)
  then show ?thesis
    using assms unfolding frame_def [symmetric]
    by (simp add: frame_of_stream_def Let_def)
qed

lemma write_frame_Inr:
  "write_frame ty flags v limit s = (Inr (), s') \<longleftrightarrow>
     writable v \<and> length (canonical_bytes v) \<le> unat limit \<and>
     20 + length (canonical_bytes v) \<le> sk_room s \<and>
     s' = s \<lparr>sk_sent := sk_sent s @ encode_frame ty flags (canonical_bytes v),
             sk_room := sk_room s - (20 + length (canonical_bytes v))\<rparr>"
proof (cases "writable v")
  case True
  then have "write_value v writer_empty = w_append (canonical_bytes v) writer_empty"
    by (rule write_value_writable)
  then show ?thesis using True
    by (auto simp: write_frame_def Let_def send_all_def frame_length w_append_def writer_empty_def)
next
  case False
  then have "w_failed (write_value v writer_empty)" by (simp add: w_failed_write)
  then show ?thesis using False by (simp add: write_frame_def Let_def)
qed

lemma read_frame_encoded:
  assumes "in_pieces p" "stream p = encode_frame ty flags (canonical_bytes v) @ rest"
    and "length (canonical_bytes v) \<le> unat limit"
    and "document_fits L v" "length (canonical_bytes v) \<le> unat (max_document_bytes L)"
  shows "\<exists>p'. read_frame limit L p = (Inr \<lparr>fr_type = ty, fr_flags = flags, fr_body = v\<rparr>, p') \<and>
    consumed (length (encode_frame ty flags (canonical_bytes v))) p p' \<and> stream p' = rest"
proof -
  let ?f = "\<lparr>fr_type = ty, fr_flags = flags, fr_body = v\<rparr>"
  have "decode_frame (encode_frame ty flags (canonical_bytes v)) limit L = Inr ?f"
    using assms(3-5) by (simp add: decode_frame_iff)
  from frame_of_stream_encoded [OF this, of "sk_broken p" rest]
  obtain p' where p': "read_frame limit L p = (Inr ?f, p')"
    "consumed (length (encode_frame ty flags (canonical_bytes v))) p p'"
    using read_frame_of_stream [OF assms(1)] assms(2) by metis
  then have "stream p' = rest" using assms(2) by (simp add: consumed_def)
  with p' show ?thesis by blast
qed

section \<open>Properties\<close>

text \<open>
  C33. The frame decoder is strict. A byte string is accepted as a frame exactly when it is the
  encoding of its content: header, canonical body and checksum. The body is within the frame limit
  and the document limits, and no other byte string decodes, so every accepted frame has one form.
\<close>

theorem frame_accepted_iff_encoded:
  "decode_frame bytes limit L = Inr f \<longleftrightarrow>
     bytes = encode_frame (fr_type f) (fr_flags f) (canonical_bytes (fr_body f)) \<and>
     length (canonical_bytes (fr_body f)) \<le> unat limit \<and>
     length (canonical_bytes (fr_body f)) \<le> unat (max_document_bytes L) \<and> document_fits L (fr_body f)"
  by (rule decode_frame_iff)

text \<open>
  Reading a frame depends on the byte stream and never on the pieces it arrives in. Two peers
  that deliver the same bytes, however they are cut, and end the same way, get the same answer,
  and both streams are consumed by the same amount; a header that is refused costs 16 bytes.
\<close>

theorem read_frame_pieces:
  assumes "in_pieces s" "in_pieces t" "stream s = stream t" "sk_broken s = sk_broken t"
  shows "fst (read_frame limit L s) = fst (read_frame limit L t) \<and>
    stream (snd (read_frame limit L s)) = stream (snd (read_frame limit L t)) \<and>
    (length (stream s) < 16 \<longrightarrow> fst (read_frame limit L s) = Inl IoError) \<and>
    (parse_frame_header (take 16 (stream s)) limit = Inl e \<and> 16 \<le> length (stream s) \<longrightarrow>
       fst (read_frame limit L s) = Inl e \<and>
       stream (snd (read_frame limit L s)) = drop 16 (stream s))"
proof -
  obtain r n where f: "frame_of_stream limit L (sk_broken s) (stream s) = (r, n)" by fastforce
  obtain s' where s: "read_frame limit L s = (r, s')" "consumed n s s'"
    using read_frame_of_stream [OF assms(1) f] by blast
  obtain t' where t: "read_frame limit L t = (r, t')" "consumed n t t'"
    using read_frame_of_stream [OF assms(2), of limit L r n] f assms(3,4) by auto
  show ?thesis using s t f assms(3) by (auto simp: consumed_def frame_of_stream_def)
qed

definition example_body :: Value where
  "example_body = value_object [(''id'', VInteger 1), (''op'', VText ''ping'')]"

definition example_frame :: "byte list" where
  "example_frame = encode_frame MT_Request 0 (canonical_bytes example_body)"

definition example_peer :: "nat \<Rightarrow> Socket" where
  "example_peer k =
     \<lparr>sk_incoming = [take k example_frame, drop k example_frame], sk_broken = False,
      sk_sent = [], sk_room = 100\<rparr>"

lemma example_body_bytes: "length (canonical_bytes example_body) = 18"
  by code_simp

lemma example_peer_facts:
  assumes "0 < k" "k < 38"
  shows "in_pieces (example_peer k)" "stream (example_peer k) = example_frame"
    "sk_broken (example_peer k) = False"
proof -
  have "length example_frame = 38" by (simp add: example_frame_def frame_length example_body_bytes)
  then have "take k example_frame \<noteq> []" "drop k example_frame \<noteq> []" using assms by auto
  then show "in_pieces (example_peer k)" "stream (example_peer k) = example_frame"
    "sk_broken (example_peer k) = False"
    by (simp_all add: in_pieces_def stream_def example_peer_def)
qed

lemma read_frame_pieces_witness:
  "fst (read_frame 64 limits_request (example_peer 7)) =
   fst (read_frame 64 limits_request (example_peer 30))"
  using read_frame_pieces [of "example_peer 7" "example_peer 30" 64 limits_request]
  by (simp add: example_peer_facts)


definition example_limits :: CanonicalLimits where
  "example_limits =
     \<lparr>max_document_bytes = 32, max_string_bytes = 8, max_binary_bytes = 8, max_elements = 4,
      max_object_fields = 4, max_depth = 2, max_nodes = 8\<rparr>"


end
