(* ===== verification/Snapshot.thy ===== *)
theory Snapshot
  imports CodecLaws Frames RegOps
begin

text \<open>
  Persistence, \<open>src/src/snapshot.cpp\<close>: the documents of the stored records, the framed record stream,
  the state digest, writing a snapshot atomically, parsing a snapshot with recovery of a torn tail,
  and loading it into an empty registry.

  The file system is the operating system's: a disk holds the files and says which of the calls on the
  temporary file succeed. Everything else is translated. \<open>std::sort\<close> with a comparison on some of the
  members is modelled by the stable sort, which is one of the orders it may produce.
\<close>

section \<open>Little-endian 64-bit numbers\<close>

definition append_u64 :: "byte list \<Rightarrow> 64 word \<Rightarrow> byte list" where
  "append_u64 out v = out @ le_bytes 8 v"

definition read_u64 :: "byte list \<Rightarrow> nat \<Rightarrow> 64 word" where
  "read_u64 data offset = read_le 8 data offset"

section \<open>Records\<close>

definition kRecordHeader :: byte where "kRecordHeader = 1"
definition kRecordSource :: byte where "kRecordSource = 2"
definition kRecordModule :: byte where "kRecordModule = 3"
definition kRecordPort :: byte where "kRecordPort = 4"
definition kRecordAttachment :: byte where "kRecordAttachment = 5"
definition kRecordThreshold :: byte where "kRecordThreshold = 6"
definition kRecordRule :: byte where "kRecordRule = 7"

lemmas kRecord_defs = kRecordHeader_def kRecordSource_def kRecordModule_def kRecordPort_def
  kRecordAttachment_def kRecordThreshold_def kRecordRule_def

definition kMaxRecordBytes :: nat where
  "kMaxRecordBytes = 16 * 2 ^ 20"

definition kMaxSnapshotBytes :: nat where
  "kMaxSnapshotBytes = 256 * 2 ^ 20"

definition kRecordTrailerMagic :: "byte list" where
  "kRecordTrailerMagic = map byte_of_char ''TRXREOF1''"

definition kSnapshotMagic :: "byte list" where
  "kSnapshotMagic = map byte_of_char ''TRXRSNAP''"

definition kSnapshotFormatVersion :: "16 word" where
  "kSnapshotFormatVersion = 1"

record SnapshotRecord =
  rc_kind :: byte
  rc_payload :: "byte list"

definition encode_document :: "Value \<Rightarrow> byte list" where
  "encode_document document =
     (let writer = write_value document writer_empty
      in if w_failed writer then [] else w_buffer writer)"

definition decode_document :: "byte list \<Rightarrow> CanonicalLimits \<Rightarrow> Value res" where
  "decode_document payload limits = read_document limits payload"

definition append_record :: "byte list \<Rightarrow> SnapshotRecord \<Rightarrow> byte list" where
  "append_record out r =
     (let body_length = word_of_nat (length (rc_payload r) + 1);
          body = rc_kind r # rc_payload r
      in append_u32 (append_u32 out body_length @ body) (crc32c body 0))"

section \<open>Documents\<close>

definition encode_latch_record :: "HealthLatchRecord \<Rightarrow> Value" where
  "encode_latch_record r = value_object
     [(''latch'', encode_HealthLatch (lr_latch r)),
      (''lane'', VInteger (ucast (lr_lane r))),
      (''metric'', VInteger (word_of_nat (HealthMetric_code (lr_metric r))))]"

definition decode_latch_record :: "Value \<Rightarrow> HealthLatchRecord res" where
  "decode_latch_record encoded =
     try_res (as_object encoded) (\<lambda>obj.
     try_res (get_enum_field HealthMetric_all obj ''metric'') (\<lambda>metric'.
     try_res (get_unsigned obj ''lane'') (\<lambda>lane'.
     if lane' > 65535 then Inl Malformed
     else
       case value_find obj ''latch'' of
         None \<Rightarrow> Inl Malformed
       | Some latch_encoded \<Rightarrow>
           try_res (decode_HealthLatch latch_encoded) (\<lambda>latch'.
           Inr \<lparr>lr_metric = metric', lr_lane = ucast lane', lr_latch = latch'\<rparr>))))"

definition encode_source :: "SourceRecord \<Rightarrow> Value" where
  "encode_source so = value_object
     [(''descriptor'', encode_SourceDescriptor (so_descriptor so)),
      (''epoch'', VInteger (ucast (so_epoch so))),
      (''generation'', VInteger (so_generation so)),
      (''id'', VInteger (ucast (so_id so))),
      (''name'', VText (so_name so)),
      (''registered_wall_ns'', VInteger (word_of_int (so_registered_wall_ns so))),
      (''sequence'', VInteger (so_sequence so))]"

definition SourceDescriptor_init :: SourceDescriptor where
  "SourceDescriptor_init =
     \<lparr>ds_name = [], ds_description = [], ds_declared_kind = EK_Unsupported, ds_instance_id = []\<rparr>"

definition decode_source :: "Value \<Rightarrow> SourceRecord res" where
  "decode_source encoded =
     try_res (as_object encoded) (\<lambda>obj.
     try_res (get_unsigned obj ''id'') (\<lambda>id'.
     try_res (get_unsigned obj ''epoch'') (\<lambda>epoch'.
     if id' = 0 \<or> id' > 0xFFFFFFFF \<or> epoch' = 0 \<or> epoch' > 0xFFFFFFFF then Inl Malformed
     else if get_text_or obj ''name'' [] = [] then Inl Malformed
     else
       try_res (case value_find obj ''descriptor'' of
           None \<Rightarrow> Inr SourceDescriptor_init
         | Some d \<Rightarrow> decode_SourceDescriptor d) (\<lambda>descriptor'.
       Inr \<lparr>so_id = ucast id', so_name = get_text_or obj ''name'' [], so_epoch = ucast epoch',
            so_descriptor = descriptor', so_generation = get_unsigned_or obj ''generation'' 0,
            so_sequence = get_unsigned_or obj ''sequence'' 0,
            so_registered_wall_ns = sint (get_integer_or obj ''registered_wall_ns'' 0)\<rparr>))))"

definition encode_module :: "ModuleRecord \<Rightarrow> bool \<Rightarrow> Value" where
  "encode_module md include_history = value_object
     [(''key'', VText (md_key md)),
      (''uid'', VInteger (md_uid md)),
      (''incarnation'', VInteger (ucast (md_incarnation md))),
      (''incarnation_count'', VInteger (ucast (md_incarnation_count md))),
      (''state'', VInteger (word_of_nat (LifecycleState_code (md_state md)))),
      (''state_generation'', VInteger (md_state_generation md)),
      (''state_sequence'', VInteger (md_state_sequence md)),
      (''state_wall_ns'', VInteger (word_of_int (md_state_wall_ns md))),
      (''created_generation'', VInteger (md_created_generation md)),
      (''created_sequence'', VInteger (md_created_sequence md)),
      (''created_wall_ns'', VInteger (word_of_int (md_created_wall_ns md))),
      (''fenced_generation'', VInteger (md_fenced_generation md)),
      (''claims'', VArray (map encode_IdentityClaim
         (sort_key (\<lambda>c. (ic_sequence c, ic_value c))
           (filter (\<lambda>c. include_history \<or> ic_live c) (md_claims md))))),
      (''declarations'', VArray (map encode_CapabilityDeclaration
         (sort_key (\<lambda>d. (cd_sequence d, cd_key d))
           (filter (\<lambda>d. include_history \<or> cd_live d) (md_declarations md))))),
      (''samples'', VArray (map encode_HealthSample
         (sort_key (\<lambda>s. (hs_sequence s, hs_observed_at_wall_ns s)) (md_samples md)))),
      (''latches'', VArray (map encode_latch_record (md_latches md))),
      (''lifecycle'', VArray (map encode_LifecycleEvent
         (sort_key (\<lambda>e. (le_sequence e, le_wall_ns e)) (md_lifecycle md))))]"

text \<open>An optional array member: its records, or none where the member is missing or not an array.\<close>

definition records_or :: "(Value \<Rightarrow> 'a res) \<Rightarrow> Value \<Rightarrow> string \<Rightarrow> 'a list res" where
  "records_or decode obj key =
     (case get_array obj key of Inl _ \<Rightarrow> Inr [] | Inr entries \<Rightarrow> map_res decode entries)"

text \<open>The event of a module whose document carries no history.\<close>

definition restored_event :: "ModuleRecord \<Rightarrow> LifecycleEvent" where
  "restored_event md =
     \<lparr>le_from = LS_Discovered, le_to = md_state md, le_incarnation = md_incarnation md,
      le_reason = ''restored from a snapshot that carried no lifecycle history'', le_source = 0,
      le_source_epoch = 0, le_generation = md_state_generation md,
      le_sequence = md_state_sequence md, le_wall_ns = md_created_wall_ns md\<rparr>"

definition decode_module :: "Value \<Rightarrow> ModuleRecord res" where
  "decode_module encoded =
     try_res (as_object encoded) (\<lambda>obj.
     try_res (get_text obj ''key'') (\<lambda>key_text'.
     try_res (parse_key key_text') (\<lambda>key'.
     try_res (get_unsigned obj ''uid'') (\<lambda>uid'.
     if uid' = 0 then Inl Malformed
     else
       try_res (get_unsigned obj ''incarnation'') (\<lambda>incarnation'.
       if incarnation' = 0 \<or> incarnation' > 0xFFFFFFFF then Inl Malformed
       else
         try_res (get_enum_field LifecycleState_all obj ''state'') (\<lambda>state'.
         let incarnation_count' = get_unsigned_or obj ''incarnation_count'' 1
         in if incarnation_count' = 0 \<or> incarnation_count' > 0xFFFFFFFF then Inl Malformed
            else
              try_res (records_or decode_IdentityClaim obj ''claims'') (\<lambda>claims'.
              try_res (records_or decode_CapabilityDeclaration obj ''declarations'') (\<lambda>declarations'.
              try_res (records_or decode_HealthSample obj ''samples'') (\<lambda>samples'.
              try_res (records_or decode_latch_record obj ''latches'') (\<lambda>latches'.
              try_res (records_or decode_LifecycleEvent obj ''lifecycle'') (\<lambda>lifecycle'.
              let md = foldl (\<lambda>md s. count_series (hs_metric s, hs_lane s) md)
                \<lparr>md_key = key', md_uid = uid', md_incarnation = ucast incarnation', md_state = state',
                 md_state_generation = get_unsigned_or obj ''state_generation'' 0,
                 md_state_sequence = get_unsigned_or obj ''state_sequence'' 0,
                 md_state_wall_ns = sint (get_integer_or obj ''state_wall_ns'' 0),
                 md_created_generation = get_unsigned_or obj ''created_generation'' 0,
                 md_created_sequence = get_unsigned_or obj ''created_sequence'' 0,
                 md_created_wall_ns = sint (get_integer_or obj ''created_wall_ns'' 0),
                 md_fenced_generation = get_unsigned_or obj ''fenced_generation'' 0,
                 md_incarnation_count = ucast incarnation_count', md_claims = claims',
                 md_declarations = declarations', md_samples = samples', md_lifecycle = lifecycle',
                 md_latches = latches', md_series_counts = []\<rparr> samples'
              in Inr (if md_lifecycle md = [] then md \<lparr>md_lifecycle := [restored_event md]\<rparr>
                      else md))))))))))))"

definition encode_port :: "PortRecord \<Rightarrow> Value" where
  "encode_port po = value_object
     [(''declarations'', VArray (map encode_CapabilityDeclaration (po_declarations po))),
      (''first_generation'', VInteger (po_first_generation po)),
      (''first_wall_ns'', VInteger (word_of_int (po_first_wall_ns po))),
      (''key'', VText (po_key po)),
      (''sequence'', VInteger (po_sequence po))]"

definition decode_port :: "Value \<Rightarrow> PortRecord res" where
  "decode_port encoded =
     try_res (as_object encoded) (\<lambda>obj.
     try_res (get_text obj ''key'') (\<lambda>key_text'.
     try_res (parse_key key_text') (\<lambda>key'.
     try_res (records_or decode_CapabilityDeclaration obj ''declarations'') (\<lambda>declarations'.
     Inr \<lparr>po_key = key', po_first_generation = get_unsigned_or obj ''first_generation'' 0,
          po_sequence = get_unsigned_or obj ''sequence'' 0,
          po_first_wall_ns = sint (get_integer_or obj ''first_wall_ns'' 0),
          po_declarations = declarations'\<rparr>))))"

definition encode_threshold :: "ThresholdRecord \<Rightarrow> Value" where
  "encode_threshold tr = value_object
     [(''generation'', VInteger (tr_generation tr)),
      (''live'', VBoolean (tr_live tr)),
      (''sequence'', VInteger (tr_sequence tr)),
      (''threshold'', encode_HealthThreshold (tr_threshold tr))]"

definition decode_threshold :: "Value \<Rightarrow> ThresholdRecord res" where
  "decode_threshold encoded =
     try_res (as_object encoded) (\<lambda>obj.
     case value_find obj ''threshold'' of
       None \<Rightarrow> Inl Malformed
     | Some threshold \<Rightarrow>
         try_res (decode_HealthThreshold threshold) (\<lambda>parsed.
         Inr \<lparr>tr_threshold = parsed, tr_generation = get_unsigned_or obj ''generation'' 0,
              tr_sequence = get_unsigned_or obj ''sequence'' 0,
              tr_live = get_boolean_or obj ''live'' True\<rparr>))"

definition encode_state_header :: "State \<Rightarrow> Value" where
  "encode_state_header st = value_object
     [(''conflicts_observed'', VInteger (st_conflicts_observed st)),
      (''dropped_samples'', VInteger (st_dropped_samples st)),
      (''generation'', VInteger (st_generation st)),
      (''mutations'', VInteger (st_mutations st)),
      (''next_module_uid'', VInteger (st_next_module_uid st)),
      (''next_rule_id'', VInteger (st_next_rule_id st)),
      (''next_sequence'', VInteger (st_next_sequence st)),
      (''next_source_id'', VInteger (st_next_source_id st)),
      (''registry_incarnation'', VInteger (ucast (st_registry_incarnation st)))]"

definition decode_state_header :: "Value \<Rightarrow> State res" where
  "decode_state_header encoded =
     try_res (as_object encoded) (\<lambda>obj.
     try_res (get_unsigned obj ''registry_incarnation'') (\<lambda>incarnation'.
     if incarnation' = 0 \<or> incarnation' > 0xFFFFFFFF then Inl Malformed
     else Inr (State_init
       \<lparr>st_generation := get_unsigned_or obj ''generation'' 0,
        st_registry_incarnation := ucast incarnation',
        st_next_module_uid := get_unsigned_or obj ''next_module_uid'' 1,
        st_next_rule_id := get_unsigned_or obj ''next_rule_id'' 1,
        st_next_source_id := get_unsigned_or obj ''next_source_id'' 1,
        st_next_sequence := get_unsigned_or obj ''next_sequence'' 1,
        st_mutations := get_unsigned_or obj ''mutations'' 0,
        st_dropped_samples := get_unsigned_or obj ''dropped_samples'' 0,
        st_conflicts_observed := get_unsigned_or obj ''conflicts_observed'' 0\<rparr>)))"

section \<open>The record stream\<close>

definition document_record :: "byte \<Rightarrow> Value \<Rightarrow> SnapshotRecord" where
  "document_record kind document = \<lparr>rc_kind = kind, rc_payload = encode_document document\<rparr>"

text \<open>The records of a state in the order of the stream.\<close>

definition state_records :: "State \<Rightarrow> bool \<Rightarrow> SnapshotRecord list" where
  "state_records st include_history =
     document_record kRecordHeader (encode_state_header st) #
     map (\<lambda>so. document_record kRecordSource (encode_source so))
       (sort_key so_id (map snd (st_sources st))) @
     map (\<lambda>md. document_record kRecordModule (encode_module md include_history))
       (sort_key md_uid (map snd (st_modules st))) @
     map (\<lambda>po. document_record kRecordPort (encode_port po))
       (sort_key po_key (map snd (st_ports st))) @
     map (\<lambda>ar. document_record kRecordAttachment (encode_AttachmentRecord ar))
       (sort_key ar_slot (map snd (st_attachments st))) @
     map (\<lambda>tr. document_record kRecordThreshold (encode_threshold tr))
       (filter (\<lambda>tr. include_history \<or> tr_live tr) (st_thresholds st)) @
     map (\<lambda>r. document_record kRecordRule (encode_CompatRuleRecord r))
       (sort_key rr_id (map snd (st_rules st)))"

definition encode_state_records :: "State \<Rightarrow> bool \<Rightarrow> byte list" where
  "encode_state_records st include_history = foldl append_record [] (state_records st include_history)"

definition compute_state_digest :: "State \<Rightarrow> Digest" where
  "compute_state_digest st = sha256 (encode_state_records st True)"

text \<open>\<open>Registry::stats\<close> with its digest.\<close>

definition registry_stats :: "Registry \<Rightarrow> DigestedStats" where
  "registry_stats rg = RegistryStats.extend (stats rg) (DigestedStats.fields
     (compute_state_digest (rg_state rg)))"

section \<open>Writing a snapshot\<close>

text \<open>
  The disk: its files, and what the operating system does with the temporary file (whether it opens,
  how many bytes are written, and whether flushing, closing and renaming succeed) and with a file that
  is read (after how many bytes, if ever, reading fails).
\<close>

record Disk =
  dk_files :: "string \<Rightarrow> byte list option"
  dk_opens :: bool
  dk_writes :: nat
  dk_flushes :: bool
  dk_closes :: bool
  dk_renames :: bool
  dk_read_error :: "nat option"

definition write_file_atomically :: "string \<Rightarrow> byte list \<Rightarrow> bool \<Rightarrow> Disk \<Rightarrow> Disk \<times> unit res" where
  "write_file_atomically path bytes fsync dk =
     (if path = [] then (dk, Inl InvalidArgument)
      else
        let temporary = path @ ''.tmp''
        in if \<not> dk_opens dk then (dk, Inl IoError)
           else
             let stored = take (dk_writes dk) bytes;
                 files = (dk_files dk)(temporary \<mapsto> stored);
                 ok = (length stored = length bytes);
                 ok = (if ok \<and> fsync then dk_flushes dk else ok);
                 ok = (ok \<and> dk_closes dk)
             in if \<not> ok \<or> \<not> dk_renames dk then (dk \<lparr>dk_files := files(temporary := None)\<rparr>, Inl IoError)
                else (dk \<lparr>dk_files := (files(path \<mapsto> stored))(temporary := None)\<rparr>, Inr ()))"

definition snapshot_file :: "State \<Rightarrow> bool \<Rightarrow> byte list" where
  "snapshot_file st include_history =
     (let records = encode_state_records st include_history;
          file = kSnapshotMagic;
          file = append_u16 file kSnapshotFormatVersion;
          file = append_u16 file 0;
          file = append_u32 file 0;
          file = append_u64 file (word_of_nat (length records));
          file = append_u64 file (st_generation st);
          file = file @ records;
          file = file @ kRecordTrailerMagic;
          file = append_u64 file (st_next_sequence st)
      in append_u32 file (crc32c records 0))"

definition save_snapshot :: "State \<Rightarrow> string \<Rightarrow> bool \<Rightarrow> bool \<Rightarrow> Disk \<Rightarrow> Disk \<times> unit res" where
  "save_snapshot st path fsync include_history dk =
     write_file_atomically path (snapshot_file st include_history) fsync dk"

section \<open>Parsing a snapshot\<close>

record LoadOptions =
  lo_allow_tail_recovery :: bool
  lo_require_supported_version :: bool
  lo_limits :: CanonicalLimits

record ParsedSnapshot =
  ps_state :: State
  ps_tail_recovered :: bool
  ps_dropped_bytes :: "64 word"
  ps_note :: string
  ps_content_digest :: Digest
  ps_format_version :: "16 word"
  ps_records :: "64 word"

definition ParsedSnapshot_init :: ParsedSnapshot where
  "ParsedSnapshot_init =
     \<lparr>ps_state = State_init, ps_tail_recovered = False, ps_dropped_bytes = 0, ps_note = [],
      ps_content_digest = zero_digest, ps_format_version = kSnapshotFormatVersion, ps_records = 0\<rparr>"

definition kHeaderBytes :: nat where
  "kHeaderBytes = 8 + 2 + 2 + 4 + 8 + 8"

text \<open>A damaged tail: an error, or the records so far with the number of bytes dropped.\<close>

definition torn :: "LoadOptions \<Rightarrow> nat \<Rightarrow> string \<Rightarrow> ParsedSnapshot \<Rightarrow> ParsedSnapshot res" where
  "torn options dropped note parsed =
     (if \<not> lo_allow_tail_recovery options then Inl Corrupt
      else Inr (parsed \<lparr>ps_tail_recovered := True, ps_dropped_bytes := word_of_nat dropped,
                       ps_note := note\<rparr>))"

text \<open>The switch on the kind of a record.\<close>

definition apply_record :: "Generation \<Rightarrow> byte \<Rightarrow> Value \<Rightarrow> State \<Rightarrow> State res" where
  "apply_record generation kind document st =
     (if kind = kRecordHeader then
        try_res (decode_state_header document) (\<lambda>header. Inr (header \<lparr>st_generation := generation\<rparr>))
      else if kind = kRecordSource then
        try_res (decode_source document) (\<lambda>so.
          Inr (st \<lparr>st_source_id_by_name := oput (so_name so) (so_id so) (st_source_id_by_name st),
                  st_sources := oput (so_id so) so (st_sources st)\<rparr>))
      else if kind = kRecordModule then
        try_res (decode_module document) (\<lambda>md.
          if oget (st_modules st) (md_uid md) \<noteq> None then Inl Malformed
          else Inr (st \<lparr>st_module_uid_by_key := oput (md_key md) (md_uid md) (st_module_uid_by_key st),
                       st_modules := oput (md_uid md) md (st_modules st)\<rparr>))
      else if kind = kRecordPort then
        try_res (decode_port document) (\<lambda>po.
          Inr (st \<lparr>st_ports := oput (po_key po) po (st_ports st)\<rparr>))
      else if kind = kRecordAttachment then
        try_res (decode_AttachmentRecord document) (\<lambda>ar.
          Inr (st \<lparr>st_attachments := oput (ar_slot ar) ar (st_attachments st)\<rparr>))
      else if kind = kRecordThreshold then
        try_res (decode_threshold document) (\<lambda>tr.
          Inr (st \<lparr>st_thresholds := st_thresholds st @ [tr]\<rparr>))
      else if kind = kRecordRule then
        try_res (decode_CompatRuleRecord document) (\<lambda>r.
          Inr (st \<lparr>st_rules := oput (rr_id r) r (st_rules st)\<rparr>))
      else Inl Malformed)"

text \<open>
  The record loop: \<open>position\<close> is the offset of the next record in the file and \<open>record_end\<close> the end of
  the record stream; \<open>accepted\<close> collects the framed bytes of the accepted records.
\<close>

function parse_records ::
    "LoadOptions \<Rightarrow> byte list \<Rightarrow> Generation \<Rightarrow> nat \<Rightarrow> nat \<Rightarrow> ParsedSnapshot \<Rightarrow> byte list
       \<Rightarrow> (ParsedSnapshot \<times> byte list) res" where
  "parse_records options file generation record_end position parsed accepted =
     (if \<not> position < record_end then Inr (parsed, accepted)
      else
        let stop = (\<lambda>note. try_res (torn options (record_end - position) note parsed)
              (\<lambda>parsed. Inr (parsed, accepted)));
            body_length = unat (read_u32 file position);
            body_start = position + 4;
            next = body_start + body_length + 4;
            body = take body_length (drop body_start file)
        in if record_end - position < 4 then
             stop ''a partial record header ends the snapshot payload''
           else if body_length = 0 \<or> body_length > kMaxRecordBytes then
             stop ''a record length is out of range; the rest of the payload was dropped''
           else if next > record_end then
             stop ''the final record is incomplete; it and everything after it were dropped''
           else if crc32c body 0 \<noteq> read_u32 file (body_start + body_length) then
             stop ''a record failed its integrity check; it and everything after it were dropped''
           else
             try_res (decode_document (tl body) (lo_limits options)) (\<lambda>document.
             try_res (apply_record generation (hd body) document (ps_state parsed)) (\<lambda>st.
               parse_records options file generation record_end next
                 (parsed \<lparr>ps_state := st, ps_records := ps_records parsed + 1\<rparr>)
                 (accepted @ take (next - position) (drop position file)))))"
  by pat_completeness auto

termination parse_records
  by (relation "measure (\<lambda>(_, _, _, record_end, position, _, _). record_end - position)") auto

declare parse_records.simps [simp del]

text \<open>The trailer: only looked at when the record stream was complete.\<close>

definition parse_trailer ::
    "LoadOptions \<Rightarrow> byte list \<Rightarrow> nat \<Rightarrow> byte list \<Rightarrow> ParsedSnapshot \<Rightarrow> ParsedSnapshot res" where
  "parse_trailer options file trailer_start accepted parsed =
     (if ps_tail_recovered parsed then Inr parsed
      else if length file < trailer_start + length kRecordTrailerMagic + 12 then
        torn options (length file - trailer_start) ''the snapshot trailer is incomplete'' parsed
      else if take 8 (drop trailer_start file) \<noteq> kRecordTrailerMagic then
        torn options (length file - trailer_start) ''the snapshot trailer is damaged'' parsed
      else if crc32c accepted 0 \<noteq> read_u32 file (length file - 4) then Inl Corrupt
      else Inr parsed)"

definition parse_snapshot :: "byte list \<Rightarrow> LoadOptions \<Rightarrow> ParsedSnapshot res" where
  "parse_snapshot file options =
     (if length file < kHeaderBytes + length kRecordTrailerMagic + 12 then Inl Corrupt
      else if take 8 file \<noteq> kSnapshotMagic then Inl Corrupt
      else
        let version = read_u16 file 8;
            parsed = ParsedSnapshot_init \<lparr>ps_format_version := version\<rparr>
        in if version \<noteq> kSnapshotFormatVersion then
             Inl (if lo_require_supported_version options then Unsupported else Corrupt)
           else if read_u16 file 10 \<noteq> 0 \<or> read_u32 file 12 \<noteq> 0 then Inl Malformed
           else
             let record_bytes = unat (read_u64 file 16)
             in if record_bytes > kMaxSnapshotBytes - kHeaderBytes then Inl Corrupt
                else if length file < kHeaderBytes + record_bytes then
                  torn options (length file - kHeaderBytes)
                    ''the snapshot payload is shorter than its header declares'' parsed
                else
                  let generation = read_u64 file 24;
                      parsed = parsed \<lparr>ps_state := State_init \<lparr>st_generation := generation\<rparr>\<rparr>;
                      record_end = kHeaderBytes + record_bytes
                  in try_res (parse_records options file generation record_end kHeaderBytes parsed [])
                       (\<lambda>(parsed, accepted).
                     try_res (parse_trailer options file record_end accepted parsed) (\<lambda>parsed.
                     Inr (parsed \<lparr>ps_content_digest := sha256 accepted\<rparr>))))"

section \<open>Loading\<close>

text \<open>\<open>revalidate_evidence\<close>: one latch, then the latches of a module, then all modules.\<close>

definition newest_for_latch :: "State \<Rightarrow> ModuleRecord \<Rightarrow> HealthLatchRecord \<Rightarrow> HealthSample option" where
  "newest_for_latch st md r =
     foldl (\<lambda>newest s.
         if hs_metric s \<noteq> lr_metric r \<or> hs_lane s \<noteq> lr_lane r then newest
         else if hs_incarnation s \<noteq> md_incarnation md \<or> \<not> hs_live s then newest
         else if \<not> source_is_live st (hs_source s) (hs_source_epoch s) then newest
         else
           case newest of
             None \<Rightarrow> Some s
           | Some n \<Rightarrow> if hs_observed_at_wall_ns n < hs_observed_at_wall_ns s then Some s else newest)
       None (md_samples md)"

definition latch_invalid :: "State \<Rightarrow> WallNs \<Rightarrow> ModuleRecord \<Rightarrow> HealthLatchRecord \<Rightarrow> bool" where
  "latch_invalid st now md r =
     (case (select_threshold (live_thresholds st) (lr_metric r) (lr_lane r), newest_for_latch st md r) of
        (Some t, Some newest) \<Rightarrow>
          if hs_presence newest \<noteq> SP_Present then True
          else
            let age = (if now > hs_observed_at_wall_ns newest then now - hs_observed_at_wall_ns newest else 0)
            in age > ht_max_age_ns t
      | _ \<Rightarrow> True)"

definition revalidate_module :: "State \<Rightarrow> WallNs \<Rightarrow> ModuleRecord \<Rightarrow> ModuleRecord" where
  "revalidate_module st now md =
     md \<lparr>md_latches := map (\<lambda>r. if latch_invalid st now md r then r \<lparr>lr_latch := HealthLatch_init\<rparr> else r)
           (md_latches md)\<rparr>"

definition revalidate_evidence :: "WallNs \<Rightarrow> State \<Rightarrow> State \<times> 64 word" where
  "revalidate_evidence now st =
     (st \<lparr>st_modules := map (\<lambda>(uid, md). (uid, revalidate_module st now md)) (st_modules st)\<rparr>,
      word_of_nat (sum_list (map (\<lambda>(uid, md). length (filter (latch_invalid st now md) (md_latches md)))
        (st_modules st))))"

text \<open>\<open>std::to_string\<close> of an unsigned number.\<close>

fun decimal :: "nat \<Rightarrow> string" where
  "decimal n = (if n < 10 then [char_of (48 + n)] else decimal (n div 10) @ [char_of (48 + n mod 10)])"

declare decimal.simps [simp del]

definition read_file :: "string \<Rightarrow> Disk \<Rightarrow> byte list res" where
  "read_file path dk =
     (case dk_files dk path of
        None \<Rightarrow> Inl IoError
      | Some bytes \<Rightarrow>
          (case dk_read_error dk of
             None \<Rightarrow> if length bytes > kMaxSnapshotBytes then Inl CapacityExceeded else Inr bytes
           | Some n \<Rightarrow> if length (take n bytes) > kMaxSnapshotBytes then Inl CapacityExceeded else Inl IoError))"

definition registry_empty :: "State \<Rightarrow> bool" where
  "registry_empty st \<longleftrightarrow>
     st_modules st = [] \<and> st_ports st = [] \<and> st_rules st = [] \<and> st_sources st = [] \<and>
     st_attachments st = [] \<and> st_thresholds st = []"

text \<open>What a load publishes for a parsed snapshot: the state, the counts of what was invalidated and dropped.\<close>

definition loaded_state :: "WallNs \<Rightarrow> State \<Rightarrow> State \<times> 64 word \<times> nat" where
  "loaded_state now st =
     (let (st, invalidated) = revalidate_evidence now st;
          present = (\<lambda>(slot, ar). oget (st_modules st) (ar_uid ar) \<noteq> None);
          dropped = length (filter (\<lambda>a. \<not> present a) (st_attachments st));
          st = st \<lparr>st_attachments := filter present (st_attachments st)\<rparr>;
          st = st \<lparr>st_registry_incarnation :=
                  (if st_registry_incarnation st = 0xFFFFFFFF then 1 else st_registry_incarnation st + 1),
                st_generation := st_generation st + 1,
                st_next_sequence := (if st_next_sequence st = 0 then 1 else st_next_sequence st)\<rparr>
      in (st, invalidated, dropped))"

definition load_note :: "string \<Rightarrow> nat \<Rightarrow> string" where
  "load_note note dropped =
     (if dropped > 0 then
        (if note \<noteq> [] then note @ ''; '' else note) @ ''dropped '' @ decimal dropped @
        '' attachment(s) whose module did not survive the recovery''
      else note)"

definition load_report :: "WallNs \<Rightarrow> ParsedSnapshot \<Rightarrow> State \<Rightarrow> 64 word \<Rightarrow> nat \<Rightarrow> LoadReport" where
  "load_report now parsed st invalidated dropped =
     (let mds = map snd (st_modules st)
      in \<lparr>ld_format_version = ps_format_version parsed, ld_generation = st_generation st,
          ld_registry_incarnation = st_registry_incarnation st, ld_modules = size64 (st_modules st),
          ld_incarnations = sum64 (\<lambda>md. ucast (md_incarnation_count md)) mds,
          ld_sources = size64 (st_sources st), ld_ports = size64 (st_ports st),
          ld_rules = size64 (st_rules st), ld_thresholds = count64 tr_live (st_thresholds st),
          ld_claims = sum64 (\<lambda>md. size64 (md_claims md)) mds,
          ld_declarations = sum64 (\<lambda>md. size64 (md_declarations md)) mds +
            sum64 (\<lambda>(_, po). size64 (po_declarations po)) (st_ports st),
          ld_samples = sum64 (\<lambda>md. size64 (md_samples md)) mds,
          ld_fenced_incarnations = count64 (\<lambda>md. md_incarnation_count md > 1) mds,
          ld_evidence_invalidated_on_load = invalidated,
          ld_tail_recovered = ps_tail_recovered parsed,
          ld_dropped_tail_bytes = ps_dropped_bytes parsed,
          ld_recovery_note = load_note (ps_note parsed) dropped,
          ld_content_digest = ps_content_digest parsed, ld_loaded_at_wall_ns = now\<rparr>)"

definition load_snapshot :: "Clock \<Rightarrow> string \<Rightarrow> LoadOptions \<Rightarrow> Disk \<Rightarrow> Registry \<Rightarrow> Registry \<times> LoadReport res" where
  "load_snapshot ck path options dk rg =
     (if \<not> registry_empty (rg_state rg) then (rg, Inl Conflict)
      else
        case try_res (read_file path dk) (\<lambda>file. parse_snapshot file options) of
          Inl e \<Rightarrow> (rg, Inl e)
        | Inr parsed \<Rightarrow>
            let (st, invalidated, dropped) = loaded_state (ck_wall ck) (ps_state parsed)
            in (rg \<lparr>rg_state := st\<rparr>, Inr (load_report (ck_wall ck) parsed st invalidated dropped)))"

definition inspect_snapshot :: "Clock \<Rightarrow> string \<Rightarrow> LoadOptions \<Rightarrow> Disk \<Rightarrow> LoadReport res" where
  "inspect_snapshot ck path options dk =
     snd (load_snapshot ck path options dk (Registry_init config_default))"

end
