(* ===== verification/SnapshotLaws.thy ===== *)
theory SnapshotLaws
  imports Snapshot RegInv
begin

text \<open>
  What persistence promises. A saved registry is restored by a load; a damaged tail costs exactly the
  records from the damage on; a file is replaced atomically. The record documents round-trip, the
  record stream is parsed record by record, and the maps of the state are rebuilt in their order.
\<close>

section \<open>Optional members\<close>

lemma or_else_simps [member_simps]: "or_else (Inr x) d = x" "or_else (Inl e) d = d"
  by (simp_all add: or_else_def)

lemma optional_object [member_simps]:
  "get_unsigned_or (value_object ms) key d = or_else (member unsigned_of ms key) d"
  "get_integer_or (value_object ms) key i = or_else (member integer_of ms key) i"
  "get_boolean_or (value_object ms) key b = or_else (member boolean_of ms key) b"
  "get_text_or (value_object ms) key s = or_else (member text_of ms key) s"
  by (simp_all add: get_unsigned_or_def get_integer_or_def get_boolean_or_def get_text_or_def
      accessors_object)

lemma records_or_object [member_simps]:
  "records_or decode (value_object ms) key =
     (case member array_of ms key of Inl _ \<Rightarrow> Inr [] | Inr entries \<Rightarrow> map_res decode entries)"
  by (simp add: records_or_def accessors_object)

lemma narrow_unsigned [member_simps]:
  "unsigned_of (VInteger (ucast (w :: 32 word))) = Inr (ucast w)"
  "unsigned_of (VInteger (ucast (l :: 16 word))) = Inr (ucast l)"
  by (simp_all add: integer_of_simps ucast_small)

lemma ucast_32 [member_simps]:
  "(ucast (w :: 32 word) :: 64 word) = 0 \<longleftrightarrow> w = 0"
  "\<not> (0xFFFFFFFF :: 64 word) < ucast w"
  "ucast (ucast w :: 64 word) = w"
proof -
  have "uint w < 2 ^ LENGTH(32)" by (rule unsigned_less)
  then show "\<not> (0xFFFFFFFF :: 64 word) < ucast w" by (simp add: word_less_def ucast_small)
  show "(ucast w :: 64 word) = 0 \<longleftrightarrow> w = 0" by (simp add: uint_0_iff [symmetric] ucast_small)
  show "ucast (ucast w :: 64 word) = w" by (rule ucast_small) simp
qed

lemma ucast_16 [member_simps]:
  "\<not> (65535 :: 64 word) < ucast (l :: 16 word)" "ucast (ucast l :: 64 word) = l"
proof -
  have "uint l < 2 ^ LENGTH(16)" by (rule unsigned_less)
  then show "\<not> (65535 :: 64 word) < ucast l" by (simp add: word_less_def ucast_small)
  show "ucast (ucast l :: 64 word) = l" by (rule ucast_small) simp
qed

section \<open>Stored records\<close>

definition valid_latch_record :: "HealthLatchRecord \<Rightarrow> bool" where
  "valid_latch_record r \<longleftrightarrow> valid_HealthLatch (lr_latch r)"

lemma decode_latch_record_encode [member_simps]:
  "valid_latch_record r \<Longrightarrow> decode_latch_record (encode_latch_record r) = Inr r"
  by (cases r) (simp add: decode_latch_record_def encode_latch_record_def valid_latch_record_def member_simps)

definition valid_source :: "SourceRecord \<Rightarrow> bool" where
  "valid_source so \<longleftrightarrow>
     so_id so \<noteq> 0 \<and> so_epoch so \<noteq> 0 \<and> so_name so \<noteq> [] \<and> u63 (so_generation so) \<and>
     u63 (so_sequence so) \<and> i64 (so_registered_wall_ns so)"

lemma decode_source_encode:
  "valid_source so \<Longrightarrow> decode_source (encode_source so) = Inr so"
  by (cases so)
    (simp add: decode_source_def encode_source_def valid_source_def valid_SourceDescriptor_def member_simps)

definition valid_port :: "PortRecord \<Rightarrow> bool" where
  "valid_port po \<longleftrightarrow>
     parse_key (po_key po) = Inr (po_key po) \<and> u63 (po_first_generation po) \<and> u63 (po_sequence po) \<and>
     i64 (po_first_wall_ns po) \<and> (\<forall>d \<in> set (po_declarations po). valid_CapabilityDeclaration d)"

lemma map_res_codec:
  "\<forall>x \<in> set xs. valid x \<Longrightarrow> (\<And>x. valid x \<Longrightarrow> f (g x) = Inr x) \<Longrightarrow> map_res f (map g xs) = Inr xs"
  by (rule map_res_map) blast

lemma decode_port_encode: "valid_port po \<Longrightarrow> decode_port (encode_port po) = Inr po"
  by (cases po)
    (simp add: decode_port_def encode_port_def valid_port_def member_simps
      map_res_codec [where valid = valid_CapabilityDeclaration])

definition valid_threshold :: "ThresholdRecord \<Rightarrow> bool" where
  "valid_threshold tr \<longleftrightarrow>
     valid_HealthThreshold (tr_threshold tr) \<and> u63 (tr_generation tr) \<and> u63 (tr_sequence tr)"

lemma decode_threshold_encode: "valid_threshold tr \<Longrightarrow> decode_threshold (encode_threshold tr) = Inr tr"
  by (cases tr) (simp add: decode_threshold_def encode_threshold_def valid_threshold_def member_simps)

definition valid_module :: "ModuleRecord \<Rightarrow> bool" where
  "valid_module md \<longleftrightarrow>
     parse_key (md_key md) = Inr (md_key md) \<and> md_uid md \<noteq> 0 \<and> u63 (md_uid md) \<and>
     md_incarnation md \<noteq> 0 \<and> md_incarnation_count md \<noteq> 0 \<and> u63 (md_state_generation md) \<and>
     u63 (md_state_sequence md) \<and> i64 (md_state_wall_ns md) \<and> u63 (md_created_generation md) \<and>
     u63 (md_created_sequence md) \<and> i64 (md_created_wall_ns md) \<and> u63 (md_fenced_generation md) \<and>
     (\<forall>c \<in> set (md_claims md). valid_IdentityClaim c) \<and>
     (\<forall>d \<in> set (md_declarations md). valid_CapabilityDeclaration d) \<and>
     (\<forall>s \<in> set (md_samples md). valid_HealthSample s) \<and>
     (\<forall>r \<in> set (md_latches md). valid_latch_record r) \<and>
     md_lifecycle md \<noteq> [] \<and> (\<forall>e \<in> set (md_lifecycle md). valid_LifecycleEvent e)"

text \<open>
  A module as a snapshot stores it: the evidence in order of its sequence numbers, without the
  superseded claims and declarations when history is left out, and the series counted anew.
\<close>

definition count_all :: "HealthSample list \<Rightarrow> (HealthMetric \<times> lane, 32 word) omap" where
  "count_all ss = md_series_counts (foldl (\<lambda>md s. count_series (hs_metric s, hs_lane s) md)
     \<lparr>md_key = [], md_uid = 0, md_incarnation = 0, md_state = LS_Discovered, md_state_generation = 0,
      md_state_sequence = 0, md_state_wall_ns = 0, md_created_generation = 0, md_created_sequence = 0,
      md_created_wall_ns = 0, md_fenced_generation = 0, md_incarnation_count = 0, md_claims = [],
      md_declarations = [], md_samples = [], md_lifecycle = [], md_latches = [], md_series_counts = []\<rparr> ss)"

definition stored_module :: "bool \<Rightarrow> ModuleRecord \<Rightarrow> ModuleRecord" where
  "stored_module include_history md =
     (let ss = sort_key (\<lambda>s. (hs_sequence s, hs_observed_at_wall_ns s)) (md_samples md)
      in md \<lparr>md_claims := sort_key (\<lambda>c. (ic_sequence c, ic_value c))
               (filter (\<lambda>c. include_history \<or> ic_live c) (md_claims md)),
             md_declarations := sort_key (\<lambda>d. (cd_sequence d, cd_key d))
               (filter (\<lambda>d. include_history \<or> cd_live d) (md_declarations md)),
             md_samples := ss,
             md_lifecycle := sort_key (\<lambda>e. (le_sequence e, le_wall_ns e)) (md_lifecycle md),
             md_series_counts := count_all ss\<rparr>)"

lemma count_series_fields:
  "foldl (\<lambda>md s. count_series (hs_metric s, hs_lane s) md) md ss =
     md \<lparr>md_series_counts :=
       md_series_counts (foldl (\<lambda>md s. count_series (hs_metric s, hs_lane s) md) md ss)\<rparr>"
proof (induction ss arbitrary: md)
  case (Cons s ss)
  obtain c where "foldl (\<lambda>md s. count_series (hs_metric s, hs_lane s) md)
      (count_series (hs_metric s, hs_lane s) md) ss =
    count_series (hs_metric s, hs_lane s) md \<lparr>md_series_counts := c\<rparr>"
    using Cons.IH by blast
  then show ?case by (simp add: count_series_def)
qed simp

lemma count_series_counts:
  "md_series_counts md = md_series_counts md' \<Longrightarrow>
   md_series_counts (foldl (\<lambda>md s. count_series (hs_metric s, hs_lane s) md) md ss) =
   md_series_counts (foldl (\<lambda>md s. count_series (hs_metric s, hs_lane s) md) md' ss)"
  by (induction ss arbitrary: md md') (simp_all add: count_series_def)

lemma count_series_all:
  "md_series_counts md = [] \<Longrightarrow>
   foldl (\<lambda>md s. count_series (hs_metric s, hs_lane s) md) md ss = md \<lparr>md_series_counts := count_all ss\<rparr>"
proof -
  assume "md_series_counts md = []"
  then have "md_series_counts (foldl (\<lambda>md s. count_series (hs_metric s, hs_lane s) md) md ss) = count_all ss"
    unfolding count_all_def by (intro count_series_counts) simp
  then show ?thesis using count_series_fields [of md ss] by simp
qed

text \<open>The members of the stored lists.\<close>

lemma stored_module_parts:
  "set (md_claims (stored_module h md)) \<subseteq> set (md_claims md)"
  "set (md_declarations (stored_module h md)) \<subseteq> set (md_declarations md)"
  "set (md_samples (stored_module h md)) = set (md_samples md)"
  "set (md_lifecycle (stored_module h md)) = set (md_lifecycle md)"
  "md_latches (stored_module h md) = md_latches md" "md_uid (stored_module h md) = md_uid md"
  "md_key (stored_module h md) = md_key md" "md_incarnation (stored_module h md) = md_incarnation md"
  by (auto simp: stored_module_def Let_def)

lemma decode_module_encode:
  assumes "valid_module md"
  shows "decode_module (encode_module md h) = Inr (stored_module h md)"
proof -
  define cs where "cs = md_claims (stored_module h md)"
  define ds where "ds = md_declarations (stored_module h md)"
  define ss where "ss = md_samples (stored_module h md)"
  define es where "es = md_lifecycle (stored_module h md)"
  have v: "\<forall>c \<in> set cs. valid_IdentityClaim c" "\<forall>d \<in> set ds. valid_CapabilityDeclaration d"
    "\<forall>s \<in> set ss. valid_HealthSample s" "\<forall>e \<in> set es. valid_LifecycleEvent e" "es \<noteq> []"
    using assms stored_module_parts [of h md]
    by (auto simp: valid_module_def cs_def ds_def ss_def es_def simp flip: set_empty)
  have lists: "map_res decode_IdentityClaim (map encode_IdentityClaim cs) = Inr cs"
    "map_res decode_CapabilityDeclaration (map encode_CapabilityDeclaration ds) = Inr ds"
    "map_res decode_HealthSample (map encode_HealthSample ss) = Inr ss"
    "map_res decode_LifecycleEvent (map encode_LifecycleEvent es) = Inr es"
    using v by (auto intro!: map_res_map decode_encode_IdentityClaim decode_encode_CapabilityDeclaration
        decode_encode_HealthSample decode_encode_LifecycleEvent)
  have latches: "map_res decode_latch_record (map encode_latch_record (md_latches md)) = Inr (md_latches md)"
    using assms by (intro map_res_map decode_latch_record_encode) (simp add: valid_module_def)
  have sel: "sort_key (\<lambda>c. (ic_sequence c, ic_value c)) (filter (\<lambda>c. h \<or> ic_live c) (md_claims md)) = cs"
    "sort_key (\<lambda>d. (cd_sequence d, cd_key d)) (filter (\<lambda>d. h \<or> cd_live d) (md_declarations md)) = ds"
    "sort_key (\<lambda>s. (hs_sequence s, hs_observed_at_wall_ns s)) (md_samples md) = ss"
    "sort_key (\<lambda>e. (le_sequence e, le_wall_ns e)) (md_lifecycle md) = es"
    by (simp_all add: stored_module_def cs_def ds_def ss_def es_def Let_def)
  have stored: "stored_module h md = md \<lparr>md_claims := cs, md_declarations := ds, md_samples := ss,
      md_lifecycle := es, md_series_counts := count_all ss\<rparr>"
    by (simp add: stored_module_def Let_def sel)
  show ?thesis
    using assms v(5) latches unfolding stored encode_module_def sel valid_module_def
    by (cases md) (simp add: decode_module_def member_simps lists latches count_series_all Let_def)
qed

section \<open>The record stream\<close>

definition frame_record :: "SnapshotRecord \<Rightarrow> byte list" where
  "frame_record r =
     le_bytes 4 (word_of_nat (length (rc_payload r) + 1) :: 32 word) @ (rc_kind r # rc_payload r) @
     le_bytes 4 (crc32c (rc_kind r # rc_payload r) 0)"

definition record_stream :: "SnapshotRecord list \<Rightarrow> byte list" where
  "record_stream rs = concat (map frame_record rs)"

lemma record_stream_simps [simp]:
  "record_stream [] = []" "record_stream (r # rs) = frame_record r @ record_stream rs"
  by (simp_all add: record_stream_def)

lemma frame_record_length: "length (frame_record r) = 9 + length (rc_payload r)"
  by (simp add: frame_record_def)

lemma record_stream_length:
  "list_all (\<lambda>r. length (rc_payload r) < n) rs \<Longrightarrow> length (record_stream rs) \<le> length rs * (n + 9)"
  by (induction rs) (simp_all add: frame_record_length)

lemma encode_state_records_stream: "encode_state_records st h = record_stream (state_records st h)"
proof -
  have "append_record out r = out @ frame_record r" for out r
    by (simp add: append_record_def frame_record_def append_u32_def Let_def)
  then have "foldl append_record out rs = out @ record_stream rs" for out rs
    by (induction rs arbitrary: out) simp_all
  then show ?thesis by (simp add: encode_state_records_def)
qed

text \<open>The records that are accepted one after the other, and the state they build.\<close>

fun accept_records ::
    "LoadOptions \<Rightarrow> Generation \<Rightarrow> SnapshotRecord list \<Rightarrow> State \<Rightarrow> State res" where
  "accept_records options generation [] st = Inr st"
| "accept_records options generation (r # rs) st =
     try_res (decode_document (rc_payload r) (lo_limits options)) (\<lambda>document.
     try_res (apply_record generation (rc_kind r) document st) (accept_records options generation rs))"

definition small_record :: "SnapshotRecord \<Rightarrow> bool" where
  "small_record r \<longleftrightarrow> length (rc_payload r) < kMaxRecordBytes"

lemma parse_record:
  assumes whole: "file = pre @ frame_record r @ rest" and "small_record r"
    and fit: "length pre + length (frame_record r) \<le> record_end"
  shows "parse_records options file generation record_end (length pre) parsed accepted =
    try_res (decode_document (rc_payload r) (lo_limits options)) (\<lambda>document.
    try_res (apply_record generation (rc_kind r) document (ps_state parsed)) (\<lambda>st.
      parse_records options file generation record_end (length (pre @ frame_record r))
        (parsed \<lparr>ps_state := st, ps_records := ps_records parsed + 1\<rparr>) (accepted @ frame_record r)))"
proof -
  define body where "body = rc_kind r # rc_payload r"
  define len :: "32 word" where "len = word_of_nat (length body)"
  have small: "length body \<le> kMaxRecordBytes" using assms(2) by (simp add: body_def small_record_def)
  then have "length body < 2 ^ 32" by (simp add: kMaxRecordBytes_def)
  then have ul: "unat len = length body" by (simp add: len_def unat_of_nat)
  have fr: "frame_record r = le_bytes 4 len @ body @ le_bytes 4 (crc32c body 0)"
    by (simp add: frame_record_def body_def len_def)
  have l: "length (frame_record r) = length body + 8" by (simp add: fr)
  have r1: "read_u32 file (length pre) = len"
    using read_le_append [of 4 pre len "body @ le_bytes 4 (crc32c body 0) @ rest"]
    by (simp add: read_u32_def whole fr)
  have r2: "read_u32 file (length pre + 4 + length body) = crc32c body 0"
    using read_le_append [of 4 "pre @ le_bytes 4 len @ body" "crc32c body 0" rest]
    by (simp add: read_u32_def whole fr add.assoc)
  have b: "take (length body) (drop (length pre + 4) file) = body" by (simp add: whole fr)
  have n: "length pre + 4 + length body + 4 = length (pre @ frame_record r)" by (simp add: l)
  have a: "take (length (pre @ frame_record r) - length pre) (drop (length pre) file) = frame_record r"
    by (simp add: whole)
  have ok: "length pre < record_end" "\<not> record_end - length pre < 4" "length body \<noteq> 0"
    "\<not> record_end < length (pre @ frame_record r)"
    using fit by (simp_all add: l body_def)
  show ?thesis
    by (subst parse_records.simps)
      (use ok small in \<open>simp add: r1 r2 ul b n a Let_def del: length_append, simp add: body_def\<close>)
qed

lemma parse_stream:
  assumes "file = pre @ record_stream rs @ rest" "list_all small_record rs"
    "length pre + length (record_stream rs) \<le> record_end"
  shows "parse_records options file generation record_end (length pre) parsed accepted =
    try_res (accept_records options generation rs (ps_state parsed)) (\<lambda>st.
      parse_records options file generation record_end (length (pre @ record_stream rs))
        (parsed \<lparr>ps_state := st, ps_records := ps_records parsed + word_of_nat (length rs)\<rparr>)
        (accepted @ record_stream rs))"
  using assms
proof (induction rs arbitrary: pre parsed accepted)
  case (Cons r rs)
  have step: "parse_records options file generation record_end (length pre) parsed accepted =
    try_res (decode_document (rc_payload r) (lo_limits options)) (\<lambda>document.
    try_res (apply_record generation (rc_kind r) document (ps_state parsed)) (\<lambda>st.
      parse_records options file generation record_end (length (pre @ frame_record r))
        (parsed \<lparr>ps_state := st, ps_records := ps_records parsed + 1\<rparr>) (accepted @ frame_record r)))"
    using Cons.prems by (intro parse_record [where rest = "record_stream rs @ rest"]) simp_all
  have IH: "parse_records options file generation record_end (length (pre @ frame_record r)) parsed' accepted' =
    try_res (accept_records options generation rs (ps_state parsed')) (\<lambda>st.
      parse_records options file generation record_end (length ((pre @ frame_record r) @ record_stream rs))
        (parsed' \<lparr>ps_state := st, ps_records := ps_records parsed' + word_of_nat (length rs)\<rparr>)
        (accepted' @ record_stream rs))" for parsed' accepted'
    using Cons.prems by (intro Cons.IH) simp_all
  show ?case
    unfolding step IH
    by (auto simp: try_res_def add.assoc split: sum.splits)
qed (simp add: add.assoc)

lemma parse_records_end [simp]:
  "parse_records options file generation record_end record_end parsed accepted = Inr (parsed, accepted)"
  by (subst parse_records.simps) simp

section \<open>The envelope\<close>

definition snapshot_header :: "64 word \<Rightarrow> Generation \<Rightarrow> byte list" where
  "snapshot_header len gen =
     kSnapshotMagic @ le_bytes 2 kSnapshotFormatVersion @ le_bytes 2 (0 :: 16 word) @
     le_bytes 4 (0 :: 32 word) @ le_bytes 8 len @ le_bytes 8 gen"

definition snapshot_trailer :: "64 word \<Rightarrow> byte list \<Rightarrow> byte list" where
  "snapshot_trailer sq records = kRecordTrailerMagic @ le_bytes 8 sq @ le_bytes 4 (crc32c records 0)"

lemma magic_lengths [simp]: "length kSnapshotMagic = 8" "length kRecordTrailerMagic = 8"
  by (simp_all add: kSnapshotMagic_def kRecordTrailerMagic_def)

lemma envelope_lengths [simp]:
  "length (snapshot_header len gen) = 32" "length (snapshot_trailer sq records) = 20"
  by (simp_all add: snapshot_header_def snapshot_trailer_def)

lemma snapshot_file_layout:
  "snapshot_file st h =
     (let records = encode_state_records st h
      in snapshot_header (word_of_nat (length records)) (st_generation st) @ records @
         snapshot_trailer (st_next_sequence st) records)"
  by (simp add: snapshot_file_def snapshot_header_def snapshot_trailer_def append_u16_def
      append_u32_def append_u64_def Let_def)

lemma snapshot_header_fields:
  "take 8 (snapshot_header len gen @ rest) = kSnapshotMagic"
  "read_u16 (snapshot_header len gen @ rest) 8 = kSnapshotFormatVersion"
  "read_u16 (snapshot_header len gen @ rest) 10 = 0"
  "read_u32 (snapshot_header len gen @ rest) 12 = 0"
  "read_u64 (snapshot_header len gen @ rest) 16 = len"
  "read_u64 (snapshot_header len gen @ rest) 24 = gen"
proof -
  define V F R L G where d: "V = le_bytes 2 kSnapshotFormatVersion" "F = le_bytes 2 (0 :: 16 word)"
    "R = le_bytes 4 (0 :: 32 word)" "L = le_bytes 8 len" "G = le_bytes 8 gen"
  have l: "length V = 2" "length F = 2" "length R = 4" "length L = 8" "length G = 8"
    by (simp_all add: d)
  have h: "snapshot_header len gen @ rest = kSnapshotMagic @ V @ F @ R @ L @ G @ rest"
    by (simp add: snapshot_header_def d)
  show "take 8 (snapshot_header len gen @ rest) = kSnapshotMagic"
    "read_u16 (snapshot_header len gen @ rest) 8 = kSnapshotFormatVersion"
    "read_u16 (snapshot_header len gen @ rest) 10 = 0"
    "read_u32 (snapshot_header len gen @ rest) 12 = 0"
    "read_u64 (snapshot_header len gen @ rest) 16 = len"
    "read_u64 (snapshot_header len gen @ rest) 24 = gen"
    using read_le_append [of 2 kSnapshotMagic kSnapshotFormatVersion "F @ R @ L @ G @ rest"]
      read_le_append [of 2 "kSnapshotMagic @ V" "0 :: 16 word" "R @ L @ G @ rest"]
      read_le_append [of 4 "kSnapshotMagic @ V @ F" "0 :: 32 word" "L @ G @ rest"]
      read_le_append [of 8 "kSnapshotMagic @ V @ F @ R" len "G @ rest"]
      read_le_append [of 8 "kSnapshotMagic @ V @ F @ R @ L" gen rest]
    by (simp_all add: h read_u16_def read_u32_def read_u64_def l d [symmetric])
qed

text \<open>Parsing a file with a good header.\<close>

lemma parse_snapshot_body:
  assumes "20 \<le> length body" "unat len \<le> kMaxSnapshotBytes - kHeaderBytes"
  shows "parse_snapshot (snapshot_header len gen @ body) options =
    (if length body < unat len then
       torn options (length body) ''the snapshot payload is shorter than its header declares'' ParsedSnapshot_init
     else
       try_res (parse_records options (snapshot_header len gen @ body) gen (32 + unat len) 32
           (ParsedSnapshot_init \<lparr>ps_state := State_init \<lparr>st_generation := gen\<rparr>\<rparr>) [])
         (\<lambda>(parsed, accepted).
       try_res (parse_trailer options (snapshot_header len gen @ body) (32 + unat len) accepted parsed)
         (\<lambda>parsed. Inr (parsed \<lparr>ps_content_digest := sha256 accepted\<rparr>))))"
proof -
  have magic: "take 8 (snapshot_header len gen) = kSnapshotMagic"
    using snapshot_header_fields(1) [of len gen "[]"] by simp
  show ?thesis
    using assms
    by (simp add: parse_snapshot_def snapshot_header_fields magic kHeaderBytes_def Let_def
        ParsedSnapshot_init_def not_le [symmetric])
qed

section \<open>Rebuilding the maps\<close>

lemma oput_append:
  "(\<forall>k' \<in> fst ` set m. k' < k) \<Longrightarrow> oput k v m = m @ [(k, v)]"
  by (induction m) (auto simp: not_less_iff_gr_or_eq)

lemma osorted_append:
  "osorted (m @ m') \<longleftrightarrow> osorted m \<and> osorted m' \<and> (\<forall>k \<in> fst ` set m. \<forall>k' \<in> fst ` set m'. k < k')"
  by (auto simp: osorted_def sorted_wrt_append)

text \<open>Putting records back in the order of their keys gives the map they came from.\<close>

definition put_all :: "('v \<Rightarrow> 'k::linorder) \<Rightarrow> ('v \<Rightarrow> 'b) \<Rightarrow> 'v list \<Rightarrow> ('k, 'b) omap \<Rightarrow> ('k, 'b) omap" where
  "put_all key f vs m = fold (\<lambda>v. oput (key v) (f v)) vs m"

lemma put_all_simps [simp]:
  "put_all key f [] m = m" "put_all key f (v # vs) m = put_all key f vs (oput (key v) (f v) m)"
  by (simp_all add: put_all_def)

lemma put_all_sorted:
  "osorted (m @ map (\<lambda>v. (key v, f v)) vs) \<Longrightarrow> put_all key f vs m = m @ map (\<lambda>v. (key v, f v)) vs"
proof (induction vs arbitrary: m)
  case (Cons v vs)
  have "\<forall>k' \<in> fst ` set m. k' < key v" using Cons.prems by (auto simp: osorted_append osorted_Cons)
  then have "oput (key v) (f v) m = m @ [(key v, f v)]" by (rule oput_append)
  then show ?case using Cons by simp
qed simp

text \<open>A map whose records carry their key is stored in its own order.\<close>

definition keyed :: "('v \<Rightarrow> 'k::linorder) \<Rightarrow> ('k, 'v) omap \<Rightarrow> bool" where
  "keyed key m \<longleftrightarrow> osorted m \<and> (\<forall>(k, v) \<in> set m. key v = k)"

lemma keyed_values: "keyed key m \<Longrightarrow> map (\<lambda>v. (key v, f v)) (map snd m) = map (map_prod id f) m"
  by (auto simp: keyed_def)

lemma sort_key_keyed [simp]: "keyed key m \<Longrightarrow> sort_key key (map snd m) = map snd m"
proof -
  assume k: "keyed key m"
  then have "map key (map snd m) = map fst m" by (auto simp: keyed_def)
  then have "sorted (map key (map snd m))"
    using k by (simp add: keyed_def osorted_def strict_sorted_iff del: map_map)
  then show ?thesis by (rule sort_key_id_if_sorted)
qed

lemma map_prod_same [simp]: "map (map_prod id (\<lambda>x. x)) m = m"
  by (induction m) auto

lemma put_all_keyed:
  "keyed key m \<Longrightarrow> put_all key f (map snd m) [] = map (map_prod id f) m"
proof -
  assume k: "keyed key m"
  have "osorted (map (map_prod id f) m)" using k by (simp add: keyed_def osorted_def comp_def)
  then show ?thesis
    using put_all_sorted [of "[]" key f "map snd m"] keyed_values [OF k, of f] by (simp del: map_map)
qed

lemma all_entries_keyed: "all_entries P m \<Longrightarrow> (\<And>k v. P k v \<Longrightarrow> key v = k) \<Longrightarrow> keyed key m"
  by (auto simp: all_entries_def keyed_def oget_entries [symmetric])

text \<open>Two maps with the same lookups are the same, so an index is determined by its records.\<close>

lemma oget_ext:
  assumes "osorted m" "osorted m'" "\<And>k. oget m k = oget m' k"
  shows "m = m'"
proof -
  have s: "set m = set m'" using assms by (auto simp: oget_entries [symmetric])
  have d: "sorted (map fst m)" "distinct (map fst m)" "sorted (map fst m')" "distinct (map fst m')"
    using assms by (simp_all add: osorted_def strict_sorted_iff)
  then show ?thesis
    using s by (intro map_sorted_distinct_set_unique [of fst]) (simp_all add: distinct_map)
qed

lemma osorted_put_all [simp]: "osorted m \<Longrightarrow> osorted (put_all key f vs m)"
  by (induction vs arbitrary: m) simp_all

lemma oget_put_all:
  "(\<And>v. v \<in> set vs \<Longrightarrow> key v = k \<Longrightarrow> f v = x) \<Longrightarrow>
   oget (put_all key f vs m) k = (if k \<in> key ` set vs then Some x else oget m k)"
proof (induction vs arbitrary: m)
  case (Cons v vs)
  then show ?case by auto
qed simp

lemma oget_put_all_new: "k \<notin> key ` set vs \<Longrightarrow> oget (put_all key f vs m) k = oget m k"
  by (induction vs arbitrary: m) auto

lemma put_all_index:
  assumes "index_ok recs idx name" "keyed key recs"
  shows "put_all name key (map snd recs) [] = idx"
proof (rule oget_ext)
  fix n
  have rec: "oget idx n = Some k \<longleftrightarrow> (\<exists>v. (k, v) \<in> set recs \<and> name v = n)" for k
    using assms by (simp add: index_ok_def keyed_def oget_entries)
  have key: "key v = k" if "(k, v) \<in> set recs" for k v using that assms(2) by (auto simp: keyed_def)
  show "oget (put_all name key (map snd recs) []) n = oget idx n"
  proof (cases "oget idx n")
    case None
    then have "n \<notin> name ` set (map snd recs)" using rec by fastforce
    then show ?thesis using None oget_put_all [of "map snd recs" name n key _ "[]"] by force
  next
    case (Some k)
    have "key v = k" if "v \<in> set (map snd recs)" "name v = n" for v
    proof -
      obtain k' where k': "(k', v) \<in> set recs" using \<open>v \<in> set (map snd recs)\<close> by auto
      then have "oget idx n = Some k'" using rec \<open>name v = n\<close> by blast
      then show ?thesis using Some key [OF k'] by simp
    qed
    moreover have "n \<in> name ` set (map snd recs)" using Some rec by force
    ultimately show ?thesis using oget_put_all [of "map snd recs" name n key k "[]"] Some by auto
  qed
qed (use assms in \<open>simp_all add: index_ok_def\<close>)

section \<open>Accepting the records of a state\<close>

text \<open>A document that is stored: the writer writes it and the reader accepts it within its limits.\<close>

definition storable :: "LoadOptions \<Rightarrow> Value \<Rightarrow> bool" where
  "storable options v \<longleftrightarrow>
     document_fits (lo_limits options) v \<and>
     length (canonical_bytes v) \<le> unat (max_document_bytes (lo_limits options)) \<and>
     length (canonical_bytes v) < kMaxRecordBytes"

lemma rc_kind_document [simp]: "rc_kind (document_record k v) = k"
  by (simp add: document_record_def)

lemma storable_document:
  assumes "storable options v"
  shows "decode_document (rc_payload (document_record k v)) (lo_limits options) = Inr v"
    "small_record (document_record k v)"
proof -
  have w: "writable v" using assms fits_writable unfolding storable_def document_fits_def by blast
  then have "write_value v writer_empty = \<lparr>w_buffer = canonical_bytes v, w_failed = False\<rparr>"
    by (simp add: write_value_empty)
  then have p: "rc_payload (document_record k v) = canonical_bytes v"
    by (simp add: document_record_def encode_document_def Let_def)
  then show "decode_document (rc_payload (document_record k v)) (lo_limits options) = Inr v"
    "small_record (document_record k v)"
    using assms by (simp_all add: decode_document_def read_document_Inr storable_def small_record_def
        document_record_def)
qed

lemma accept_append:
  "accept_records options g (rs @ rs') st =
     try_res (accept_records options g rs st) (accept_records options g rs')"
  by (induction rs arbitrary: st) (auto simp: try_res_def split: sum.splits)

lemma accept_segment:
  assumes "\<forall>x \<in> set xs. storable options (enc x)"
    and "\<And>ys x zs. xs = ys @ x # zs \<Longrightarrow> apply_record g k (enc x) (fold f ys st) = Inr (f x (fold f ys st))"
  shows "accept_records options g (map (\<lambda>x. document_record k (enc x)) xs) st = Inr (fold f xs st)"
  using assms
proof (induction xs rule: rev_induct)
  case (snoc x xs)
  have "accept_records options g (map (\<lambda>x. document_record k (enc x)) xs) st = Inr (fold f xs st)"
    using snoc.prems(1) by (intro snoc.IH) (simp, rule snoc.prems(2), simp)
  then show ?case
    using snoc.prems(1) snoc.prems(2) [of xs x "[]"]
    by (simp add: accept_append storable_document try_res_simps)
qed simp

lemma accept_sources:
  assumes "\<forall>so \<in> set sos. valid_source so \<and> storable options (encode_source so)"
  shows "accept_records options g
      (map (\<lambda>so. document_record kRecordSource (encode_source so)) sos) st =
    Inr (st \<lparr>st_source_id_by_name := put_all so_name so_id sos (st_source_id_by_name st),
             st_sources := put_all so_id (\<lambda>so. so) sos (st_sources st)\<rparr>)"
proof -
  let ?f = "\<lambda>so st. st \<lparr>st_source_id_by_name := oput (so_name so) (so_id so) (st_source_id_by_name st),
    st_sources := oput (so_id so) so (st_sources st)\<rparr>"
  have "accept_records options g (map (\<lambda>so. document_record kRecordSource (encode_source so)) sos) st =
      Inr (fold ?f sos st)"
    using assms by (intro accept_segment)
      (simp_all add: apply_record_def kRecord_defs decode_source_encode)
  moreover have "fold ?f sos st = st \<lparr>st_source_id_by_name := put_all so_name so_id sos (st_source_id_by_name st),
      st_sources := put_all so_id (\<lambda>so. so) sos (st_sources st)\<rparr>" for st
    by (induction sos arbitrary: st) simp_all
  ultimately show ?thesis by simp
qed

lemma accept_ports:
  assumes "\<forall>po \<in> set pos. valid_port po \<and> storable options (encode_port po)"
  shows "accept_records options g (map (\<lambda>po. document_record kRecordPort (encode_port po)) pos) st =
    Inr (st \<lparr>st_ports := put_all po_key (\<lambda>po. po) pos (st_ports st)\<rparr>)"
proof -
  let ?f = "\<lambda>po st. st \<lparr>st_ports := oput (po_key po) po (st_ports st)\<rparr>"
  have "accept_records options g (map (\<lambda>po. document_record kRecordPort (encode_port po)) pos) st =
      Inr (fold ?f pos st)"
    using assms by (intro accept_segment)
      (simp_all add: apply_record_def kRecord_defs decode_port_encode)
  moreover have "fold ?f pos st = st \<lparr>st_ports := put_all po_key (\<lambda>po. po) pos (st_ports st)\<rparr>" for st
    by (induction pos arbitrary: st) simp_all
  ultimately show ?thesis by simp
qed

lemma accept_attachments:
  assumes "\<forall>ar \<in> set ars. valid_AttachmentRecord ar \<and> storable options (encode_AttachmentRecord ar)"
  shows "accept_records options g
      (map (\<lambda>ar. document_record kRecordAttachment (encode_AttachmentRecord ar)) ars) st =
    Inr (st \<lparr>st_attachments := put_all ar_slot (\<lambda>ar. ar) ars (st_attachments st)\<rparr>)"
proof -
  let ?f = "\<lambda>ar st. st \<lparr>st_attachments := oput (ar_slot ar) ar (st_attachments st)\<rparr>"
  have "accept_records options g
      (map (\<lambda>ar. document_record kRecordAttachment (encode_AttachmentRecord ar)) ars) st = Inr (fold ?f ars st)"
    using assms by (intro accept_segment)
      (simp_all add: apply_record_def kRecord_defs decode_encode_AttachmentRecord)
  moreover have "fold ?f ars st = st \<lparr>st_attachments := put_all ar_slot (\<lambda>ar. ar) ars (st_attachments st)\<rparr>" for st
    by (induction ars arbitrary: st) simp_all
  ultimately show ?thesis by simp
qed

lemma accept_rules:
  assumes "\<forall>r \<in> set rs. valid_CompatRuleRecord r \<and> storable options (encode_CompatRuleRecord r)"
  shows "accept_records options g
      (map (\<lambda>r. document_record kRecordRule (encode_CompatRuleRecord r)) rs) st =
    Inr (st \<lparr>st_rules := put_all rr_id (\<lambda>r. r) rs (st_rules st)\<rparr>)"
proof -
  let ?f = "\<lambda>r st. st \<lparr>st_rules := oput (rr_id r) r (st_rules st)\<rparr>"
  have "accept_records options g (map (\<lambda>r. document_record kRecordRule (encode_CompatRuleRecord r)) rs) st =
      Inr (fold ?f rs st)"
    using assms by (intro accept_segment)
      (simp_all add: apply_record_def kRecord_defs decode_encode_CompatRuleRecord)
  moreover have "fold ?f rs st = st \<lparr>st_rules := put_all rr_id (\<lambda>r. r) rs (st_rules st)\<rparr>" for st
    by (induction rs arbitrary: st) simp_all
  ultimately show ?thesis by simp
qed

lemma accept_thresholds:
  assumes "\<forall>tr \<in> set trs. valid_threshold tr \<and> storable options (encode_threshold tr)"
  shows "accept_records options g
      (map (\<lambda>tr. document_record kRecordThreshold (encode_threshold tr)) trs) st =
    Inr (st \<lparr>st_thresholds := st_thresholds st @ trs\<rparr>)"
proof -
  let ?f = "\<lambda>tr st. st \<lparr>st_thresholds := st_thresholds st @ [tr]\<rparr>"
  have "accept_records options g
      (map (\<lambda>tr. document_record kRecordThreshold (encode_threshold tr)) trs) st = Inr (fold ?f trs st)"
    using assms by (intro accept_segment)
      (simp_all add: apply_record_def kRecord_defs decode_threshold_encode)
  moreover have "fold ?f trs st = st \<lparr>st_thresholds := st_thresholds st @ trs\<rparr>" for st
    by (induction trs arbitrary: st) simp_all
  ultimately show ?thesis by simp
qed

text \<open>A module is refused when its identifier was seen; identifiers of one state are distinct.\<close>

lemma accept_modules:
  assumes "\<forall>md \<in> set mds. valid_module md \<and> storable options (encode_module md h)"
    and "distinct (map md_uid mds)" "\<forall>md \<in> set mds. oget (st_modules st) (md_uid md) = None"
  shows "accept_records options g
      (map (\<lambda>md. document_record kRecordModule (encode_module md h)) mds) st =
    Inr (st \<lparr>st_module_uid_by_key := put_all md_key md_uid mds (st_module_uid_by_key st),
             st_modules := put_all md_uid (stored_module h) mds (st_modules st)\<rparr>)"
proof -
  let ?f = "\<lambda>md st. st \<lparr>st_module_uid_by_key := oput (md_key md) (md_uid md) (st_module_uid_by_key st),
    st_modules := oput (md_uid md) (stored_module h md) (st_modules st)\<rparr>"
  have f: "fold ?f mds st = st \<lparr>st_module_uid_by_key := put_all md_key md_uid mds (st_module_uid_by_key st),
      st_modules := put_all md_uid (stored_module h) mds (st_modules st)\<rparr>" for mds st
    by (induction mds arbitrary: st) simp_all
  have fresh: "oget (st_modules (fold ?f ys st)) (md_uid x) = None" if "mds = ys @ x # zs" for ys x zs
    using assms(2,3) that
    by (simp add: f) (subst oget_put_all_new, auto)
  have "accept_records options g (map (\<lambda>md. document_record kRecordModule (encode_module md h)) mds) st =
      Inr (fold ?f mds st)"
    using assms(1) fresh by (intro accept_segment)
      (simp_all add: apply_record_def kRecord_defs decode_module_encode stored_module_parts)
  then show ?thesis by (simp add: f)
qed

text \<open>The records a state may hold, the state as a snapshot stores it, and its counters.\<close>

definition valid_counters :: "State \<Rightarrow> bool" where
  "valid_counters st \<longleftrightarrow>
     st_registry_incarnation st \<noteq> 0 \<and> u63 (st_generation st) \<and> u63 (st_next_module_uid st) \<and>
     u63 (st_next_rule_id st) \<and> u63 (st_next_source_id st) \<and> u63 (st_next_sequence st) \<and>
     u63 (st_mutations st) \<and> u63 (st_dropped_samples st) \<and> u63 (st_conflicts_observed st)"

lemma decode_state_header_encode:
  "valid_counters st \<Longrightarrow> decode_state_header (encode_state_header st) =
     Inr (st \<lparr>st_sources := [], st_source_id_by_name := [], st_modules := [], st_module_uid_by_key := [],
              st_ports := [], st_attachments := [], st_thresholds := [], st_rules := []\<rparr>)"
  by (cases st) (simp add: decode_state_header_def encode_state_header_def valid_counters_def
      State_init_def member_simps)

definition stored_state :: "bool \<Rightarrow> State \<Rightarrow> State" where
  "stored_state include_history st =
     st \<lparr>st_modules := map (map_prod id (stored_module include_history)) (st_modules st),
         st_thresholds := filter (\<lambda>tr. include_history \<or> tr_live tr) (st_thresholds st)\<rparr>"

definition valid_state :: "State \<Rightarrow> bool" where
  "valid_state st \<longleftrightarrow>
     valid_counters st \<and>
     (\<forall>so \<in> snd ` set (st_sources st). valid_source so) \<and>
     (\<forall>md \<in> snd ` set (st_modules st). valid_module md) \<and>
     (\<forall>po \<in> snd ` set (st_ports st). valid_port po) \<and>
     (\<forall>ar \<in> snd ` set (st_attachments st). valid_AttachmentRecord ar) \<and>
     (\<forall>tr \<in> set (st_thresholds st). valid_threshold tr) \<and>
     (\<forall>r \<in> snd ` set (st_rules st). valid_CompatRuleRecord r)"

definition state_documents :: "bool \<Rightarrow> State \<Rightarrow> Value list" where
  "state_documents h st =
     encode_state_header st # map encode_source (map snd (st_sources st)) @
     map (\<lambda>md. encode_module md h) (map snd (st_modules st)) @
     map encode_port (map snd (st_ports st)) @
     map encode_AttachmentRecord (map snd (st_attachments st)) @
     map encode_threshold (filter (\<lambda>tr. h \<or> tr_live tr) (st_thresholds st)) @
     map encode_CompatRuleRecord (map snd (st_rules st))"

lemma wf_keyed:
  assumes "wf config st"
  shows "keyed so_id (st_sources st)" "keyed md_uid (st_modules st)" "keyed po_key (st_ports st)"
    "keyed ar_slot (st_attachments st)" "keyed rr_id (st_rules st)"
  using assms unfolding wf_def wf_parts
  by (auto elim!: all_entries_keyed simp: module_core_def port_ok_def attachment_ok_def)

lemma accept_state:
  assumes wf: "wf config st" and valid: "valid_state st"
    and storable: "list_all (storable options) (state_documents h st)"
  shows "accept_records options (st_generation st) (state_records st h) st0 = Inr (stored_state h st)"
proof -
  define sos where "sos = map snd (st_sources st)"
  define mds where "mds = map snd (st_modules st)"
  define pos where "pos = map snd (st_ports st)"
  define ars where "ars = map snd (st_attachments st)"
  define trs where "trs = filter (\<lambda>tr. h \<or> tr_live tr) (st_thresholds st)"
  define rs where "rs = map snd (st_rules st)"
  note sel = sos_def mds_def pos_def ars_def trs_def rs_def
  have ok: "\<forall>so \<in> set sos. valid_source so \<and> storable options (encode_source so)"
    "\<forall>md \<in> set mds. valid_module md \<and> storable options (encode_module md h)"
    "\<forall>po \<in> set pos. valid_port po \<and> storable options (encode_port po)"
    "\<forall>ar \<in> set ars. valid_AttachmentRecord ar \<and> storable options (encode_AttachmentRecord ar)"
    "\<forall>tr \<in> set trs. valid_threshold tr \<and> storable options (encode_threshold tr)"
    "\<forall>r \<in> set rs. valid_CompatRuleRecord r \<and> storable options (encode_CompatRuleRecord r)"
    "storable options (encode_state_header st)" "valid_counters st"
    using valid storable by (auto simp: sel valid_state_def state_documents_def list_all_iff)
  have d: "distinct (map md_uid mds)"
  proof -
    have "map md_uid mds = map fst (st_modules st)"
      using wf_keyed(2) [OF wf] by (auto simp: mds_def keyed_def)
    then show ?thesis using wf_keyed(2) [OF wf] by (simp add: keyed_def osorted_distinct)
  qed
  define st1 where "st1 = st \<lparr>st_sources := [], st_source_id_by_name := [], st_modules := [],
    st_module_uid_by_key := [], st_ports := [], st_attachments := [], st_thresholds := [], st_rules := []\<rparr>"
  have head: "accept_records options (st_generation st) (state_records st h) st0 =
      accept_records options (st_generation st) (tl (state_records st h)) st1"
    using ok(7,8) by (simp add: state_records_def storable_document apply_record_def kRecord_defs
        decode_state_header_encode st1_def)
  have idx: "index_ok (st_sources st) (st_source_id_by_name st) so_name"
    "index_ok (st_modules st) (st_module_uid_by_key st) md_key"
    using wf by (simp_all add: wf_def wf_parts)
  have put: "put_all so_id (\<lambda>so. so) sos [] = st_sources st"
    "put_all so_name so_id sos [] = st_source_id_by_name st"
    "put_all md_uid (stored_module h) mds [] = map (map_prod id (stored_module h)) (st_modules st)"
    "put_all md_key md_uid mds [] = st_module_uid_by_key st"
    "put_all po_key (\<lambda>po. po) pos [] = st_ports st"
    "put_all ar_slot (\<lambda>ar. ar) ars [] = st_attachments st"
    "put_all rr_id (\<lambda>r. r) rs [] = st_rules st"
    using wf_keyed [OF wf] idx
    by (simp_all add: sel put_all_keyed put_all_index)
  have recs: "tl (state_records st h) =
      map (\<lambda>so. document_record kRecordSource (encode_source so)) sos @
      map (\<lambda>md. document_record kRecordModule (encode_module md h)) mds @
      map (\<lambda>po. document_record kRecordPort (encode_port po)) pos @
      map (\<lambda>ar. document_record kRecordAttachment (encode_AttachmentRecord ar)) ars @
      map (\<lambda>tr. document_record kRecordThreshold (encode_threshold tr)) trs @
      map (\<lambda>r. document_record kRecordRule (encode_CompatRuleRecord r)) rs"
    using wf_keyed [OF wf] by (simp add: state_records_def sel)
  show ?thesis
    unfolding head recs
    by (simp add: accept_append accept_sources accept_modules accept_ports
        accept_attachments accept_thresholds accept_rules ok d st1_def stored_state_def put trs_def [symmetric])
qed

section \<open>Saving and loading\<close>

text \<open>
  What a snapshot can hold: a registry's state, its records within the ranges of their documents, the
  documents within the reader's limits and the file within its size.
\<close>

definition snapshotable :: "RegistryConfig \<Rightarrow> LoadOptions \<Rightarrow> bool \<Rightarrow> State \<Rightarrow> bool" where
  "snapshotable config options h st \<longleftrightarrow>
     wf config st \<and> valid_state st \<and> list_all (storable options) (state_documents h st) \<and>
     length (snapshot_file st h) \<le> kMaxSnapshotBytes"

lemma snapshot_file_length: "length (snapshot_file st h) = 52 + length (encode_state_records st h)"
  by (simp add: snapshot_file_layout Let_def)

lemma state_records_small:
  assumes "wf config st" "list_all (storable options) (state_documents h st)"
  shows "list_all small_record (state_records st h)"
  using wf_keyed [OF assms(1)] assms(2)
  by (auto simp: state_records_def state_documents_def list.pred_map storable_document(2)
      elim!: list.pred_mono_strong)

lemma parse_trailer_good:
  assumes "\<not> ps_tail_recovered parsed"
  shows "parse_trailer options (pre @ snapshot_trailer sq records) (length pre) records parsed = Inr parsed"
proof -
  define whole where "whole = pre @ snapshot_trailer sq records"
  have l: "length whole = length pre + 20" by (simp add: whole_def)
  have "read_u32 whole (length pre + 16) = crc32c records 0"
    using read_le_append [of 4 "pre @ kRecordTrailerMagic @ le_bytes 8 sq" "crc32c records 0" "[]"]
    by (simp add: read_u32_def snapshot_trailer_def whole_def)
  moreover have "take 8 (drop (length pre) whole) = kRecordTrailerMagic"
    by (simp add: whole_def snapshot_trailer_def)
  ultimately have "parse_trailer options whole (length pre) records parsed = Inr parsed"
    using assms by (simp add: parse_trailer_def l add.commute [of 16])
  then show ?thesis by (simp only: whole_def)
qed

lemma parse_snapshot_saved:
  assumes "snapshotable config options h st"
  shows "parse_snapshot (snapshot_file st h) options =
    Inr \<lparr>ps_state = stored_state h st, ps_tail_recovered = False, ps_dropped_bytes = 0, ps_note = [],
         ps_content_digest = sha256 (encode_state_records st h),
         ps_format_version = kSnapshotFormatVersion,
         ps_records = word_of_nat (length (state_records st h))\<rparr>"
proof -
  note ok = assms [unfolded snapshotable_def]
  define records where "records = record_stream (state_records st h)"
  define trailer where "trailer = snapshot_trailer (st_next_sequence st) records"
  define g where "g = st_generation st"
  have size: "length records \<le> kMaxSnapshotBytes - kHeaderBytes" "length records < 2 ^ 64"
    using ok by (simp_all add: snapshot_file_length encode_state_records_stream records_def
        kMaxSnapshotBytes_def kHeaderBytes_def)
  then have u: "unat (word_of_nat (length records) :: 64 word) = length records"
    by (simp add: unat_of_nat)
  define header where "header = snapshot_header (word_of_nat (length records)) g"
  have f: "snapshot_file st h = header @ records @ trailer"
    by (simp add: snapshot_file_layout encode_state_records_stream records_def header_def trailer_def g_def Let_def)
  have hl: "length header = 32" "length trailer = 20" by (simp_all add: header_def trailer_def)
  have acc: "accept_records options g (state_records st h) st0 = Inr (stored_state h st)" for st0
    using ok unfolding g_def by (intro accept_state [where config = config]) simp_all
  have parse: "parse_records options (header @ records @ trailer) g (32 + length records) 32 parsed [] =
    Inr (parsed \<lparr>ps_state := stored_state h st,
      ps_records := ps_records parsed + word_of_nat (length (state_records st h))\<rparr>, records)" for parsed
    using parse_stream [of _ header "state_records st h" trailer "32 + length records" options g parsed "[]"]
      ok state_records_small [of config st options h]
    by (simp add: hl acc records_def [symmetric])
  have trail: "parse_trailer options (header @ records @ trailer) (32 + length records) records parsed = Inr parsed"
    if "\<not> ps_tail_recovered parsed" for parsed
    using parse_trailer_good [OF that, of options "header @ records" "st_next_sequence st" records]
    by (simp add: hl trailer_def)
  have body: "20 \<le> length (records @ trailer)" by (simp add: hl)
  show ?thesis
    using parse_snapshot_body [OF body, of "word_of_nat (length records)" g options] size
    unfolding f u
    by (simp add: parse trail ParsedSnapshot_init_def header_def [symmetric]
      encode_state_records_stream records_def [symmetric])
qed

text \<open>A write replaces the file by the bytes, or leaves it.\<close>

lemma write_file_Inr:
  "write_file_atomically path bytes fsync dk = (dk', Inr ()) \<Longrightarrow>
     dk_files dk' path = Some bytes \<and> path \<noteq> [] \<and> dk_read_error dk' = dk_read_error dk"
  by (auto simp: write_file_atomically_def Let_def split: if_splits)

lemma write_file_other:
  "write_file_atomically path bytes fsync dk = (dk', r) \<Longrightarrow> p \<noteq> path \<Longrightarrow> p \<noteq> path @ ''.tmp'' \<Longrightarrow>
     dk_files dk' p = dk_files dk p"
  by (auto simp: write_file_atomically_def Let_def split: if_splits)

text \<open>
  What a load publishes for a saved state: the stored records, the latches whose evidence does not
  hold any more reset, a new generation and a new incarnation of the registry.
\<close>

definition restored_state :: "bool \<Rightarrow> WallNs \<Rightarrow> State \<Rightarrow> State" where
  "restored_state h now st =
     (let st' = stored_state h st
      in st' \<lparr>st_modules := map (map_prod id (\<lambda>md. revalidate_module st' now md)) (st_modules st'),
             st_registry_incarnation :=
               (if st_registry_incarnation st = 0xFFFFFFFF then 1 else st_registry_incarnation st + 1),
             st_generation := st_generation st + 1,
             st_next_sequence := (if st_next_sequence st = 0 then 1 else st_next_sequence st)\<rparr>)"

lemma oget_map_prod: "oget (map (map_prod id f) m) k = map_option f (oget m k)"
  by (induction m) (auto simp: oget_def)

lemma stored_state_fields [simp]:
  "st_attachments (stored_state h st) = st_attachments st"
  "st_registry_incarnation (stored_state h st) = st_registry_incarnation st"
  "st_generation (stored_state h st) = st_generation st"
  "st_next_sequence (stored_state h st) = st_next_sequence st"
  "st_modules (stored_state h st) = map (map_prod id (stored_module h)) (st_modules st)"
  "st_sources (stored_state h st) = st_sources st"
  by (simp_all add: stored_state_def)

lemma loaded_state_stored:
  assumes "wf config st"
  shows "fst (loaded_state now (stored_state h st)) = restored_state h now st"
    "snd (snd (loaded_state now (stored_state h st))) = 0"
proof -
  define S where "S = stored_state h st"
  define present where "present = (\<lambda>(slot :: string, ar :: AttachmentRecord). oget (st_modules S) (ar_uid ar) \<noteq> None)"
  have "present (slot, ar)" if "(slot, ar) \<in> set (st_attachments st)" for slot ar
  proof -
    have "all_entries (attachment_ok st) (st_attachments st)" using assms by (simp add: wf_def)
    then have "attachment_ok st slot ar" using that by (auto simp: all_entries_def oget_entries)
    then show ?thesis by (auto simp: attachment_ok_def S_def present_def oget_map_prod)
  qed
  then have pres: "filter present (st_attachments st) = st_attachments st"
    and none: "filter (\<lambda>a. \<not> present a) (st_attachments st) = []"
    by (auto intro!: filter_True filter_False)
  obtain n where r: "revalidate_evidence now S =
      (S \<lparr>st_modules := map (map_prod id (revalidate_module S now)) (st_modules S)\<rparr>, n)"
    by (simp add: revalidate_evidence_def map_prod_def)
  have p: "(\<lambda>(slot, ar). oget (map (map_prod id (revalidate_module S now)) (st_modules S)) (ar_uid ar) \<noteq> None) =
      present"
    by (simp add: present_def oget_map_prod)
  have f: "st_attachments S = st_attachments st" "st_registry_incarnation S = st_registry_incarnation st"
    "st_generation S = st_generation st" "st_next_sequence S = st_next_sequence st"
    by (simp_all add: S_def)
  show "fst (loaded_state now (stored_state h st)) = restored_state h now st"
    "snd (snd (loaded_state now (stored_state h st))) = 0"
    unfolding S_def [symmetric] loaded_state_def restored_state_def r Let_def prod.case State.select_convs
      State.surjective State.update_convs
    using pres none
    by (simp_all add: p f S_def [symmetric] del: not_None_eq)
qed

lemma load_saved:
  assumes "snapshotable config options h st"
    and "save_snapshot st path fsync h dk = (dk', Inr ())"
    and "registry_empty (rg_state rg)" "dk_read_error dk = None"
  shows "\<exists>report. load_snapshot ck path options dk' rg =
      (rg \<lparr>rg_state := restored_state h (ck_wall ck) st\<rparr>, Inr report) \<and>
    \<not> ld_tail_recovered report \<and> ld_dropped_tail_bytes report = 0 \<and> ld_recovery_note report = [] \<and>
    ld_generation report = st_generation st + 1 \<and>
    (h \<longrightarrow> ld_content_digest report = compute_state_digest st)"
proof -
  have size: "length (snapshot_file st h) \<le> kMaxSnapshotBytes" and wf: "wf config st"
    using assms(1) by (simp_all add: snapshotable_def)
  have "dk_files dk' path = Some (snapshot_file st h)" "dk_read_error dk' = None"
    using write_file_Inr [OF assms(2) [unfolded save_snapshot_def]] assms(4) by simp_all
  then have read: "read_file path dk' = Inr (snapshot_file st h)" using size by (simp add: read_file_def)
  obtain n where l: "loaded_state (ck_wall ck) (stored_state h st) = (restored_state h (ck_wall ck) st, n, 0)"
    using loaded_state_stored [OF wf, of "ck_wall ck" h] by (metis prod.collapse)
  show ?thesis
    using assms(3)
    by (simp add: load_snapshot_def read parse_snapshot_saved [OF assms(1)] l load_report_def load_note_def
        restored_state_def compute_state_digest_def Let_def)
qed


definition loadable :: LoadOptions where
  "loadable = \<lparr>lo_allow_tail_recovery = True, lo_require_supported_version = True,
     lo_limits = \<lparr>max_document_bytes = 400, max_string_bytes = 40, max_binary_bytes = 40, max_elements = 9,
       max_object_fields = 12, max_depth = 4, max_nodes = 40\<rparr>\<rparr>"

definition example_source :: SourceRecord where
  "example_source =
     \<lparr>so_id = 1, so_name = ''lab'', so_epoch = 1,
      so_descriptor = \<lparr>ds_name = ''lab'', ds_description = [], ds_declared_kind = EK_Real, ds_instance_id = []\<rparr>,
      so_generation = 1, so_sequence = 1, so_registered_wall_ns = 5\<rparr>"

definition example_state :: State where
  "example_state = State_init
     \<lparr>st_generation := 1, st_next_source_id := 2, st_next_sequence := 2, st_sources := [(1, example_source)],
      st_source_id_by_name := [(''lab'', 1)], st_mutations := 1\<rparr>"

lemma storable_small:
  "document_fits (lo_limits options) v \<Longrightarrow> length (canonical_bytes v) \<le> 400 \<Longrightarrow>
   max_document_bytes (lo_limits options) = 400 \<Longrightarrow> storable options v"
  by (simp add: storable_def kMaxRecordBytes_def)

lemma example_snapshotable: "snapshotable config_default loadable True example_state"
proof -
  have id: "oget [(1 :: 32 word, v)] k \<noteq> None \<longleftrightarrow> 0 < unat k \<and> unat k \<le> 1" for v :: SourceRecord and k
    by (auto simp: oget_def word_unat_eq_iff)
  have "wf config_default example_state"
    using id
    by (auto simp: wf_def wf_parts thresholds_ok_def live_thresholds_def example_state_def State_init_def
        all_entries_def index_ok_def numbered_def osorted_def oget_def example_source_def config_default_def)
  moreover have "valid_state example_state"
    by (simp add: valid_state_def valid_counters_def example_state_def State_init_def valid_source_def
        example_source_def u63_def i64_def)
  moreover have "list_all (storable loadable) (state_documents True example_state)"
  proof -
    have "list_all (\<lambda>v. document_fits (lo_limits loadable) v) (state_documents True example_state)"
      by code_simp
    moreover have "list_all (\<lambda>v. length (canonical_bytes v) \<le> 400) (state_documents True example_state)"
      by code_simp
    ultimately show ?thesis
      by (auto simp: list_all_iff loadable_def intro!: storable_small)
  qed
  moreover from calculation have "list_all small_record (state_records example_state True)"
    by (intro state_records_small)
  then have "length (snapshot_file example_state True) \<le> kMaxSnapshotBytes"
    using record_stream_length [of kMaxRecordBytes "state_records example_state True"]
    by (simp add: snapshot_file_length encode_state_records_stream small_record_def state_records_def
        example_state_def State_init_def kMaxSnapshotBytes_def kMaxRecordBytes_def)
  ultimately show ?thesis by (simp add: snapshotable_def)
qed

definition example_disk :: Disk where
  "example_disk = \<lparr>dk_files = \<lambda>_. None, dk_opens = True, dk_writes = kMaxSnapshotBytes, dk_flushes = True,
     dk_closes = True, dk_renames = True, dk_read_error = None\<rparr>"

definition example_clock :: Clock where
  "example_clock = \<lparr>ck_wall = 9, ck_monotonic = 3, ck_domain = 1\<rparr>"


section \<open>Damaged files\<close>

text \<open>\<open>broken_frame\<close>: the remaining bytes of the record stream do not start with an intact record.\<close>

definition broken_frame :: "byte list \<Rightarrow> bool" where
  "broken_frame bs \<longleftrightarrow>
     bs \<noteq> [] \<and>
     (length bs < 4 \<or>
      (let n = unat (read_u32 bs 0)
       in n = 0 \<or> n > kMaxRecordBytes \<or> 8 + n > length bs \<or>
          crc32c (take n (drop 4 bs)) 0 \<noteq> read_u32 bs (4 + n)))"

lemma read_le_skip: "read_le n (pre @ bs) (length pre + k) = read_le n bs k"
  by (induction n arbitrary: k) (simp_all add: read_le_def nth_append)

lemma unat_word_of_nat: "k < 2 ^ 64 \<Longrightarrow> unat (word_of_nat k :: 64 word) = k"
  by (simp add: unat_of_nat)

lemma parse_short: "length whole < 52 \<Longrightarrow> parse_snapshot whole options = Inl Corrupt"
  by (simp add: parse_snapshot_def kHeaderBytes_def)

lemma read_le_prefix:
  "k + n \<le> length bs \<Longrightarrow> read_le n (bs @ rest) k = read_le n bs k"
  by (induction n) (simp_all add: read_le_def nth_append)

lemma parse_records_broken:
  assumes "broken_frame bs" "record_end = length pre + length bs"
  shows "\<exists>note. note \<noteq> [] \<and>
    parse_records options (pre @ bs @ rest) g record_end (length pre) parsed accepted =
    try_res (torn options (length bs) note parsed) (\<lambda>parsed. Inr (parsed, accepted))"
proof -
  define n where "n = unat (read_u32 (bs @ rest) 0)"
  define whole where "whole = pre @ bs @ rest"
  have first: "read_u32 whole (length pre) = read_u32 (bs @ rest) 0"
    using read_le_skip [of 4 pre "bs @ rest" 0] by (simp add: read_u32_def whole_def)
  have crc: "read_u32 whole (length pre + 4 + n) = read_u32 (bs @ rest) (4 + n)"
    using read_le_skip [of 4 pre "bs @ rest" "4 + n"] by (simp add: read_u32_def whole_def add.assoc)
  have body: "take n (drop (length pre + 4) whole) = take n (drop 4 (bs @ rest))"
    by (simp add: whole_def)
  have l: "length pre < record_end" "record_end - length pre = length bs"
    using assms by (auto simp: broken_frame_def)
  have len: "read_u32 (bs @ rest) 0 = read_u32 bs 0" if "4 \<le> length bs"
    using that by (simp add: read_u32_def read_le_prefix)
  have ends: "read_u32 (bs @ rest) (4 + n) = read_u32 bs (4 + n)"
    "take n (drop 4 (bs @ rest)) = take n (drop 4 bs)" if "8 + n \<le> length bs"
    using that by (simp_all add: read_u32_def read_le_prefix)
  note bad = assms(1) [unfolded broken_frame_def Let_def]
  have step: "parse_records options whole g record_end (length pre) parsed accepted =
    (let stop = (\<lambda>note. try_res (torn options (length bs) note parsed) (\<lambda>parsed. Inr (parsed, accepted)))
     in if length bs < 4 then stop ''a partial record header ends the snapshot payload''
        else if n = 0 \<or> n > kMaxRecordBytes then
          stop ''a record length is out of range; the rest of the payload was dropped''
        else if length bs < 8 + n then
          stop ''the final record is incomplete; it and everything after it were dropped''
        else stop ''a record failed its integrity check; it and everything after it were dropped'')"
  proof -
    consider "length bs < 4" | "4 \<le> length bs" "n = 0 \<or> n > kMaxRecordBytes"
      | "4 \<le> length bs" "\<not> (n = 0 \<or> n > kMaxRecordBytes)" "length bs < 8 + n"
      | "8 + n \<le> length bs" "\<not> (n = 0 \<or> n > kMaxRecordBytes)" "crc32c (take n (drop 4 bs)) 0 \<noteq> read_u32 bs (4 + n)"
      using bad len unfolding n_def
      by (cases "length bs < 4"; cases "length bs < 8 + unat (read_u32 bs 0)";
          cases "unat (read_u32 bs 0) = 0 \<or> kMaxRecordBytes < unat (read_u32 bs 0)") simp_all
    then show ?thesis
      by cases (subst parse_records.simps, use l assms(2) in
          \<open>simp add: first n_def [symmetric] crc body ends Let_def\<close>)+
  qed
  then show ?thesis unfolding whole_def [symmetric] by (auto simp: Let_def)
qed

text \<open>
  C37. Recovery keeps exactly the intact records before the damage. When the record stream of a file
  is intact up to some point and broken from there on (a partial header, a length out of range, a
  record cut short, a checksum that does not match), parsing applies the intact records one after
  the other. If one of them is refused the file is refused; otherwise, with recovery allowed, the
  result holds what these records build, the flag, the exact number of bytes dropped, a note, and the
  digest of the intact records; without recovery the file is corrupt.
\<close>

theorem damaged_stream_keeps_prefix:
  assumes "list_all small_record rs" "broken_frame bs"
    and "len = word_of_nat (length (record_stream rs @ bs))"
    and "length (record_stream rs @ bs) \<le> kMaxSnapshotBytes - kHeaderBytes"
    and "20 \<le> length (record_stream rs @ bs @ rest)"
  shows "case accept_records options g rs (State_init \<lparr>st_generation := g\<rparr>) of
      Inl e \<Rightarrow> parse_snapshot (snapshot_header len g @ record_stream rs @ bs @ rest) options = Inl e
    | Inr st \<Rightarrow>
        if lo_allow_tail_recovery options
        then \<exists>note. note \<noteq> [] \<and>
          parse_snapshot (snapshot_header len g @ record_stream rs @ bs @ rest) options =
          Inr \<lparr>ps_state = st, ps_tail_recovered = True, ps_dropped_bytes = word_of_nat (length bs),
               ps_note = note, ps_content_digest = sha256 (record_stream rs),
               ps_format_version = kSnapshotFormatVersion, ps_records = word_of_nat (length rs)\<rparr>
        else parse_snapshot (snapshot_header len g @ record_stream rs @ bs @ rest) options = Inl Corrupt"
proof -
  define S where "S = record_stream rs"
  define H where "H = snapshot_header len g"
  have hl: "length H = 32" by (simp add: H_def)
  have u: "unat len = length S + length bs" and b: "unat len \<le> kMaxSnapshotBytes - kHeaderBytes"
  proof -
    have "length (S @ bs) < 2 ^ 64"
      using assms(4) by (simp add: S_def kMaxSnapshotBytes_def kHeaderBytes_def)
    then have "unat len = length (S @ bs)" unfolding assms(3) S_def [symmetric] by (rule unat_word_of_nat)
    then show "unat len = length S + length bs" "unat len \<le> kMaxSnapshotBytes - kHeaderBytes"
      using assms(4) by (simp_all add: S_def)
  qed
  define parsed where "parsed = ParsedSnapshot_init \<lparr>ps_state := State_init \<lparr>st_generation := g\<rparr>\<rparr>"
  have stream: "parse_records options (H @ S @ bs @ rest) g (32 + unat len) 32 parsed [] =
      try_res (accept_records options g rs (ps_state parsed)) (\<lambda>st.
        parse_records options (H @ S @ bs @ rest) g (32 + unat len) (length (H @ S))
          (parsed \<lparr>ps_state := st, ps_records := ps_records parsed + word_of_nat (length rs)\<rparr>) S)"
    using parse_stream [of _ H rs "bs @ rest" "32 + unat len" options g parsed "[]"] assms(1)
    by (simp add: hl u S_def)
  have body: "parse_snapshot (H @ S @ bs @ rest) options =
      try_res (parse_records options (H @ S @ bs @ rest) g (32 + unat len) 32 parsed [])
         (\<lambda>(parsed, accepted).
       try_res (parse_trailer options (H @ S @ bs @ rest) (32 + unat len) accepted parsed)
         (\<lambda>parsed. Inr (parsed \<lparr>ps_content_digest := sha256 accepted\<rparr>)))"
    using parse_snapshot_body [OF _ b, of "S @ bs @ rest" g options] assms(5)
    by (simp add: H_def u S_def parsed_def)
  show ?thesis
  proof (cases "accept_records options g rs (State_init \<lparr>st_generation := g\<rparr>)")
    case (Inl e)
    then show ?thesis using body stream by (simp add: H_def S_def parsed_def ParsedSnapshot_init_def)
  next
    case (Inr st)
    define parsed' where
      "parsed' = parsed \<lparr>ps_state := st, ps_records := ps_records parsed + word_of_nat (length rs)\<rparr>"
    obtain m where n: "m \<noteq> []"
      "parse_records options ((H @ S) @ bs @ rest) g (32 + unat len) (length (H @ S)) parsed' S =
       try_res (torn options (length bs) m parsed') (\<lambda>parsed. Inr (parsed, S))"
      using parse_records_broken [OF assms(2), of "32 + unat len" "H @ S" options rest g parsed' S]
      by (auto simp: hl u)
    have "parse_snapshot (H @ S @ bs @ rest) options =
      try_res (torn options (length bs) m parsed') (\<lambda>parsed.
        try_res (parse_trailer options (H @ S @ bs @ rest) (32 + unat len) S parsed)
          (\<lambda>parsed. Inr (parsed \<lparr>ps_content_digest := sha256 S\<rparr>)))"
      using body stream n(2) Inr
      by (simp add: parsed_def ParsedSnapshot_init_def parsed'_def torn_def)
    then show ?thesis
      using n(1) Inr
      by (auto simp: torn_def parse_trailer_def parsed'_def parsed_def ParsedSnapshot_init_def H_def S_def)
  qed
qed

lemma damaged_stream_keeps_prefix_witness:
  "\<exists>note. parse_snapshot (snapshot_header
        (word_of_nat (length (record_stream (state_records example_state True) @ [0, 0, 7]))) 1 @
      record_stream (state_records example_state True) @ [0, 0, 7] @ replicate 20 0) loadable =
    Inr \<lparr>ps_state = stored_state True example_state, ps_tail_recovered = True, ps_dropped_bytes = 3,
         ps_note = note, ps_content_digest = sha256 (record_stream (state_records example_state True)),
         ps_format_version = kSnapshotFormatVersion, ps_records = 2\<rparr>"
proof -
  let ?rs = "state_records example_state True"
  note ok = example_snapshotable [unfolded snapshotable_def]
  have two: "length ?rs = 2" by (simp add: state_records_def example_state_def State_init_def)
  have small: "list_all small_record ?rs" using ok state_records_small by blast
  then have "length (record_stream ?rs @ [0, 0, 7]) \<le> kMaxSnapshotBytes - kHeaderBytes"
    using record_stream_length [of kMaxRecordBytes ?rs]
    by (simp add: two small_record_def [abs_def] kMaxSnapshotBytes_def kMaxRecordBytes_def kHeaderBytes_def)
  moreover have "broken_frame [0, 0, 7]" by (simp add: broken_frame_def)
  moreover have "accept_records loadable 1 ?rs (State_init \<lparr>st_generation := 1\<rparr>) =
      Inr (stored_state True example_state)"
    using accept_state [of config_default example_state loadable True] ok by (simp add: example_state_def)
  ultimately show ?thesis
    using damaged_stream_keeps_prefix [OF small, where bs = "[0, 0, 7]" and rest = "replicate 20 0"
        and options = loadable and g = 1]
    by (auto simp: two loadable_def)
qed

text \<open>
  What a file cut short recovers. Cut anywhere inside its records, a snapshot gives back nothing:
  with recovery allowed the parse succeeds with the empty initial state, however many intact records
  the file still holds. Cut inside its trailer it gives back everything. Cut below the minimum length,
  or without recovery, it is corrupt.
\<close>

theorem truncated_snapshot:
  assumes "snapshotable config options h st" "n < length (snapshot_file st h)"
  shows "parse_snapshot (take n (snapshot_file st h)) options =
    (if n < 52 \<or> \<not> lo_allow_tail_recovery options then Inl Corrupt
     else if n < 32 + length (encode_state_records st h) then
       Inr (ParsedSnapshot_init \<lparr>ps_tail_recovered := True, ps_dropped_bytes := word_of_nat (n - 32),
         ps_note := ''the snapshot payload is shorter than its header declares''\<rparr>)
     else
       Inr \<lparr>ps_state = stored_state h st, ps_tail_recovered = True,
            ps_dropped_bytes = word_of_nat (n - 32 - length (encode_state_records st h)),
            ps_note = ''the snapshot trailer is incomplete'',
            ps_content_digest = sha256 (encode_state_records st h),
            ps_format_version = kSnapshotFormatVersion,
            ps_records = word_of_nat (length (state_records st h))\<rparr>)"
proof (cases "n < 52")
  case True
  then have "length (take n (snapshot_file st h)) < 52" by simp
  from parse_short [OF this] show ?thesis using True by simp
next
  case False
  note ok = assms(1) [unfolded snapshotable_def]
  define records where "records = record_stream (state_records st h)"
  define trailer where "trailer = snapshot_trailer (st_next_sequence st) records"
  define g where "g = st_generation st"
  define body where "body = take (n - 32) (records @ trailer)"
  have e: "encode_state_records st h = records" by (simp add: encode_state_records_stream records_def)
  have size: "length records \<le> kMaxSnapshotBytes - kHeaderBytes" "length records < 2 ^ 64"
    using ok by (simp_all add: snapshot_file_length e kMaxSnapshotBytes_def kHeaderBytes_def)
  have u: "unat (word_of_nat (length records) :: 64 word) = length records"
    by (rule unat_word_of_nat [OF size(2)])
  define header where "header = snapshot_header (word_of_nat (length records)) g"
  have hl: "length header = 32" "length trailer = 20" by (simp_all add: header_def trailer_def)
  have f: "take n (snapshot_file st h) = header @ body"
    using False by (simp add: snapshot_file_layout e header_def trailer_def g_def body_def Let_def)
  have nb: "n < 52 + length records" using assms(2) by (simp add: snapshot_file_length e)
  then have bl: "length body = n - 32" by (simp add: body_def hl)
  have parsed: "parse_snapshot (header @ body) options =
    (if length body < length records then
       torn options (length body) ''the snapshot payload is shorter than its header declares'' ParsedSnapshot_init
     else
       try_res (parse_records options (header @ body) g (32 + length records) 32
           (ParsedSnapshot_init \<lparr>ps_state := State_init \<lparr>st_generation := g\<rparr>\<rparr>) [])
         (\<lambda>(parsed, accepted).
       try_res (parse_trailer options (header @ body) (32 + length records) accepted parsed)
         (\<lambda>parsed. Inr (parsed \<lparr>ps_content_digest := sha256 accepted\<rparr>))))"
    using parse_snapshot_body [of body "word_of_nat (length records)" g options] False bl size(1)
    unfolding u header_def by simp
  show ?thesis
  proof (cases "n < 32 + length records")
    case True
    then have "n - 32 < length records" using False by simp
    then show ?thesis using True False bl parsed unfolding f e by (simp add: torn_def)
  next
    case big: False
    then have b: "body = records @ take (n - 32 - length records) trailer" by (simp add: body_def)
    have acc: "accept_records options g (state_records st h) st0 = Inr (stored_state h st)" for st0
      using ok unfolding g_def by (intro accept_state [where config = config]) simp_all
    have parse: "parse_records options (header @ body) g (32 + length records) 32 parsed [] =
      Inr (parsed \<lparr>ps_state := stored_state h st,
        ps_records := ps_records parsed + word_of_nat (length (state_records st h))\<rparr>, records)" for parsed
      using parse_stream [of _ header "state_records st h" "take (n - 32 - length records) trailer"
          "32 + length records" options g parsed "[]"] ok state_records_small [of config st options h]
      by (simp add: hl acc b records_def [symmetric])
    have "length (header @ body) < 32 + length records + 20" "length (header @ body) - (32 + length records) =
        n - 32 - length records"
      using nb False bl by (simp_all add: hl)
    then have "parse_trailer options (header @ body) (32 + length records) records parsed =
      torn options (n - 32 - length records) ''the snapshot trailer is incomplete'' parsed"
      if "\<not> ps_tail_recovered parsed" for parsed
      using that by (simp add: parse_trailer_def)
    moreover have "\<not> n - 32 < length records" using big by simp
    ultimately show ?thesis
      using False big bl parsed unfolding f e by (simp add: parse torn_def ParsedSnapshot_init_def)
  qed
qed

lemma truncated_snapshot_witness:
  "parse_snapshot (take 51 (snapshot_file example_state True)) loadable = Inl Corrupt"
  using truncated_snapshot [OF example_snapshotable, of 51] by (simp add: snapshot_file_length)

section \<open>Records that no load accepts\<close>

lemma accept_records_payload:
  "accept_records options g rs st = Inr st' \<Longrightarrow> r \<in> set rs \<Longrightarrow> rc_payload r \<noteq> []"
proof (induction rs arbitrary: st)
  case (Cons r' rs)
  then show ?case
    using canonical_bytes_nonempty [symmetric]
    by (auto simp: decode_document_def read_document_Inr try_res_Inr)
qed simp

lemma unwritable_document: "\<not> writable v \<Longrightarrow> encode_document v = []"
  by (simp add: encode_document_def w_failed_write writer_empty_def Let_def)

lemma record_payloads:
  "rc_payload ` set (state_records st h) = encode_document ` set (state_documents h st)"
  by (simp add: state_documents_def state_records_def document_record_def image_Un image_image)


definition latin_descriptor :: SourceDescriptor where
  "latin_descriptor = \<lparr>ds_name = ''lab'', ds_description = [CHR 0xE9], ds_declared_kind = EK_Real,
     ds_instance_id = []\<rparr>"

definition latin_registry :: "Registry \<times> SourceHandle res" where
  "latin_registry = register_source example_clock latin_descriptor
     MP_AutoRetry (Registry_init config_default)"

lemma latin_state:
  "snd latin_registry = Inr \<lparr>sh_id = 1, sh_epoch = 1, sh_generation = 1\<rparr>"
  "rg_state (fst latin_registry) = example_state \<lparr>st_sources :=
     [(1, example_source \<lparr>so_descriptor := latin_descriptor, so_registered_wall_ns := 9\<rparr>)]\<rparr>"
  by code_simp+


section \<open>Atomic writes\<close>

lemma write_file_result:
  assumes "write_file_atomically path bytes fsync dk = (dk', r)"
  shows "dk_files dk' path = (if r = Inr () then Some bytes else dk_files dk path) \<and>
    (r = Inr () \<longleftrightarrow> path \<noteq> [] \<and> dk_opens dk \<and> length bytes \<le> dk_writes dk \<and>
      (fsync \<longrightarrow> dk_flushes dk) \<and> dk_closes dk \<and> dk_renames dk) \<and>
    (p \<noteq> path \<and> p \<noteq> path @ ''.tmp'' \<longrightarrow> dk_files dk' p = dk_files dk p) \<and>
    (path \<noteq> [] \<and> dk_opens dk \<longrightarrow> dk_files dk' (path @ ''.tmp'') = None)"
  using assms by (auto simp: write_file_atomically_def Let_def split: if_splits)

text \<open>
  Writing is atomic for the reader of the target. Whatever the file system does, the target
  afterwards is the complete new content, exactly when success is reported, or what it was before,
  exactly when an error is; success needs a path, an open temporary file, all bytes written, the flush
  where one is asked for, the close and the rename; no other file than the temporary one is touched,
  and that one does not stay behind.
\<close>

theorem write_is_atomic:
  assumes "write_file_atomically path bytes fsync dk = (dk', r)"
  shows "dk_files dk' path = (if r = Inr () then Some bytes else dk_files dk path) \<and>
    (r = Inr () \<longleftrightarrow> path \<noteq> [] \<and> dk_opens dk \<and> length bytes \<le> dk_writes dk \<and>
      (fsync \<longrightarrow> dk_flushes dk) \<and> dk_closes dk \<and> dk_renames dk) \<and>
    (p \<noteq> path \<and> p \<noteq> path @ ''.tmp'' \<longrightarrow> dk_files dk' p = dk_files dk p) \<and>
    (path \<noteq> [] \<and> dk_opens dk \<longrightarrow> dk_files dk' (path @ ''.tmp'') = None)"
  using assms by (rule write_file_result)

lemma write_is_atomic_witness:
  "dk_files (fst (write_file_atomically ''reg'' [1, 2] True (example_disk \<lparr>dk_flushes := False\<rparr>))) ''reg'' = None \<and>
   dk_files (fst (write_file_atomically ''reg'' [1, 2] True example_disk)) ''reg'' = Some [1, 2]"
  using write_is_atomic [of "''reg''" "[1, 2]" True "example_disk \<lparr>dk_flushes := False\<rparr>"]
    write_is_atomic [of "''reg''" "[1, 2]" True example_disk]
  by (auto simp: example_disk_def kMaxSnapshotBytes_def prod_eq_iff)

section \<open>A load keeps the invariant\<close>

lemma osorted_count_all: "osorted (count_all ss)"
proof -
  have "osorted (md_series_counts md) \<Longrightarrow>
      osorted (md_series_counts (foldl (\<lambda>md s. count_series (hs_metric s, hs_lane s) md) md ss))" for md
    by (induction ss arbitrary: md) (simp_all add: count_series_def osorted_oput)
  then show ?thesis unfolding count_all_def by simp
qed

lemma all_entries_map_prod:
  "all_entries P m \<Longrightarrow> (\<And>k v. P k v \<Longrightarrow> Q k (f v)) \<Longrightarrow> all_entries Q (map (map_prod id f) m)"
  by (auto simp: all_entries_def oget_map_prod osorted_def comp_def)

lemma latch_key_if [simp]:
  "lr_metric (if b then r \<lparr>lr_latch := l\<rparr> else r) = lr_metric r"
  "lr_lane (if b then r \<lparr>lr_latch := l\<rparr> else r) = lr_lane r"
  by simp_all

lemma restored_module:
  assumes "module_core srcs uid md \<and> module_sized config md"
  shows "module_core srcs uid (revalidate_module st now (stored_module h md)) \<and>
    module_sized config (revalidate_module st now (stored_module h md))"
proof -
  show ?thesis
    using assms osorted_count_all
    by (simp add: order_trans [OF length_filter_le] module_core_def module_sized_def revalidate_module_def stored_module_def Let_def comp_def
        claim_ok_def declaration_ok_def sample_ok_def)
qed

text \<open>
  Loading keeps the registry's invariant. The state that a load restores for a well-formed state
  has everything that \<open>wf\<close> says of sources, modules, ports, attachments, thresholds, rules and their
  indexes; only the equation between the generation and the number of mutations, which holds of a
  registry that was never loaded, is one off.
\<close>

theorem load_keeps_invariant:
  assumes "wf config st"
  shows "wf config (restored_state h now st \<lparr>st_generation := st_mutations st\<rparr>) \<and>
    st_generation (restored_state h now st) = st_generation st + 1 \<and>
    st_registry_incarnation (restored_state h now st) \<noteq> 0"
proof -
  define R where "R = restored_state h now st \<lparr>st_generation := st_mutations st\<rparr>"
  define f where "f = (\<lambda>md. revalidate_module (stored_state h st) now (stored_module h md))"
  have same: "st_sources R = st_sources st" "st_source_id_by_name R = st_source_id_by_name st"
    "st_next_source_id R = st_next_source_id st" "st_ports R = st_ports st"
    "st_attachments R = st_attachments st" "st_rules R = st_rules st" "st_next_rule_id R = st_next_rule_id st"
    "st_module_uid_by_key R = st_module_uid_by_key st" "st_next_module_uid R = st_next_module_uid st"
    "st_generation R = st_mutations R"
    by (simp_all add: R_def restored_state_def stored_state_def Let_def)
  have mods: "st_modules R = map (map_prod id f) (st_modules st)"
    by (auto simp: R_def restored_state_def Let_def f_def)
  have keys: "md_key (f md) = md_key md" "md_incarnation (f md) = md_incarnation md" for md
    by (simp_all add: f_def revalidate_module_def stored_module_parts)
  have live: "live_thresholds R = live_thresholds st"
    by (auto simp: live_thresholds_def R_def restored_state_def stored_state_def Let_def intro: arg_cong [where f = "map _"] filter_cong)
  have m: "modules_ok config st" using assms by (simp add: wf_def)
  have "all_entries (\<lambda>uid md. module_core (st_sources R) uid md \<and> module_sized config md) (st_modules R)"
    using m restored_module unfolding mods same f_def modules_ok_def by (blast intro: all_entries_map_prod)
  moreover have "index_ok (st_modules R) (st_module_uid_by_key R) md_key"
  proof -
    have "(\<exists>v. map_option f (oget (st_modules st) k) = Some v \<and> md_key v = n) \<longleftrightarrow>
        (\<exists>v. oget (st_modules st) k = Some v \<and> md_key v = n)" for k n
      by (cases "oget (st_modules st) k") (simp_all add: keys)
    then show ?thesis using m by (simp add: modules_ok_def index_ok_def mods same oget_map_prod)
  qed
  moreover have "numbered (st_modules R) (st_next_module_uid R)"
    using m by (simp add: modules_ok_def numbered_def mods same oget_map_prod)
  ultimately have "modules_ok config R" using m by (simp add: modules_ok_def mods)
  moreover have "all_entries (attachment_ok R) (st_attachments R)"
  proof -
    have "attachment_ok st slot ar \<Longrightarrow> attachment_ok R slot ar" for slot ar
      by (auto simp: attachment_ok_def mods oget_map_prod keys)
    then show ?thesis using assms unfolding wf_def all_entries_def same by blast
  qed
  ultimately have "wf config R"
    using assms by (simp add: wf_def sources_ok_def ports_ok_def rules_ok_def thresholds_ok_def same live)
  moreover have "st_registry_incarnation (restored_state h now st) \<noteq> 0"
  proof -
    have "x + 1 = 0 \<Longrightarrow> x = 0xFFFFFFFF" for x :: "32 word"
      using eq_neg_iff_add_eq_0 [of x 1] by simp
    then show ?thesis by (auto simp: restored_state_def Let_def)
  qed
  ultimately show ?thesis by (simp add: R_def) (simp add: restored_state_def Let_def)
qed

lemma load_keeps_invariant_witness:
  "wf config_default (restored_state True 9 example_state \<lparr>st_generation := 1\<rparr>)"
  using load_keeps_invariant [of config_default example_state True 9] example_snapshotable
  by (simp add: snapshotable_def example_state_def)

end
