(* ===== verification/Autosave.thy ===== *)
theory Autosave
  imports SnapshotLaws RegRun
begin

text \<open>
  Saving after every mutation, \<open>src/src/registry.cpp\<close> (\<open>maybe_autosave\<close>, \<open>enable_autosave\<close>,
  \<open>disable_autosave\<close>, \<open>save\<close>, \<open>load\<close>): the settings beside the registry, the disk, and what a process
  that is killed finds again: the file is always the complete snapshot of a state that was published,
  and after a successful save of the last one a load restores it.
\<close>

record SaveOptions =
  so_fsync :: bool
  so_include_history :: bool

record Daemon =
  da_registry :: Registry
  da_autosave_path :: string
  da_autosave_options :: SaveOptions
  da_autosave_enabled :: bool
  da_autosave_generation :: Generation
  da_disk :: Disk

definition daemon_init :: "RegistryConfig \<Rightarrow> Disk \<Rightarrow> Daemon" where
  "daemon_init config dk =
     \<lparr>da_registry = Registry_init config, da_autosave_path = [],
      da_autosave_options = \<lparr>so_fsync = True, so_include_history = True\<rparr>,
      da_autosave_enabled = False, da_autosave_generation = 0, da_disk = dk\<rparr>"

definition save :: "string \<Rightarrow> SaveOptions \<Rightarrow> Daemon \<Rightarrow> Daemon \<times> unit res" where
  "save path options d =
     (let (dk, r) = save_snapshot (rg_state (da_registry d)) path (so_fsync options)
            (so_include_history options) (da_disk d)
      in (d \<lparr>da_disk := dk\<rparr>, r))"

definition load :: "Clock \<Rightarrow> string \<Rightarrow> LoadOptions \<Rightarrow> Daemon \<Rightarrow> Daemon \<times> LoadReport res" where
  "load ck path options d =
     (let (rg, r) = load_snapshot ck path options (da_disk d) (da_registry d)
      in (d \<lparr>da_registry := rg\<rparr>, r))"

definition enable_autosave :: "string \<Rightarrow> SaveOptions \<Rightarrow> Daemon \<Rightarrow> Daemon \<times> unit res" where
  "enable_autosave path options d =
     (if path = [] then (d, Inl InvalidArgument)
      else (d \<lparr>da_autosave_path := path, da_autosave_options := options, da_autosave_enabled := True\<rparr>,
            Inr ()))"

definition disable_autosave :: "Daemon \<Rightarrow> Daemon" where
  "disable_autosave d = d \<lparr>da_autosave_enabled := False, da_autosave_path := []\<rparr>"

definition maybe_autosave :: "Daemon \<Rightarrow> Daemon" where
  "maybe_autosave d =
     (if \<not> da_autosave_enabled d then d
      else
        case save (da_autosave_path d) (da_autosave_options d) d of
          (d, Inl _) \<Rightarrow> d
        | (d, Inr _) \<Rightarrow> d \<lparr>da_autosave_generation := st_generation (rg_state (da_registry d))\<rparr>)"

text \<open>
  One operation of the daemon: the disk behaves as \<open>dk\<close> says, the registry takes the step, and a
  mutation that committed is saved; queries and refusals are not.
\<close>

definition on_disk :: "Disk \<Rightarrow> Daemon \<Rightarrow> Daemon" where
  "on_disk dk d = d \<lparr>da_disk := dk \<lparr>dk_files := dk_files (da_disk d)\<rparr>\<rparr>"

definition daemon_step :: "Disk \<times> Clock \<times> op \<Rightarrow> Daemon \<Rightarrow> Daemon" where
  "daemon_step = (\<lambda>(dk, ck, op) d.
     let d = on_disk dk d;
         (rg, r) = step ck op (da_registry d);
         d = d \<lparr>da_registry := rg\<rparr>
     in if op = Ask \<or> r \<noteq> Inr () then d else maybe_autosave d)"

definition daemon_run :: "(Disk \<times> Clock \<times> op) list \<Rightarrow> Daemon \<Rightarrow> Daemon" where
  "daemon_run = fold daemon_step"

section \<open>What the file holds\<close>

lemma daemon_step_registry: "da_registry (daemon_step (dk, ck, op) d) = fst (step ck op (da_registry d))"
  by (auto simp: daemon_step_def maybe_autosave_def save_def on_disk_def Let_def split: prod.splits sum.splits)

lemma daemon_step_settings:
  "da_autosave_path (daemon_step x d) = da_autosave_path d"
  "da_autosave_options (daemon_step x d) = da_autosave_options d"
  "da_autosave_enabled (daemon_step x d) = da_autosave_enabled d"
  by (auto simp: daemon_step_def maybe_autosave_def save_def on_disk_def Let_def split: prod.splits sum.splits)

lemma daemon_run_registry:
  "da_registry (daemon_run xs d) = run (map (\<lambda>(dk, ck, op). (ck, op)) xs) (da_registry d)"
  by (induction xs arbitrary: d) (auto simp: daemon_run_def daemon_step_registry)

lemma daemon_run_settings:
  "da_autosave_path (daemon_run xs d) = da_autosave_path d"
  "da_autosave_options (daemon_run xs d) = da_autosave_options d"
  "da_autosave_enabled (daemon_run xs d) = da_autosave_enabled d"
  by (induction xs arbitrary: d) (simp_all add: daemon_run_def daemon_step_settings)

lemma daemon_run_snoc: "daemon_run (xs @ [x]) d = daemon_step x (daemon_run xs d)"
  by (simp add: daemon_run_def)

text \<open>\<open>saved_as\<close>: the file is the snapshot of a state, and the settings remember its generation.\<close>

definition saved_as :: "State \<Rightarrow> Daemon \<Rightarrow> bool" where
  "saved_as st d \<longleftrightarrow>
     dk_files (da_disk d) (da_autosave_path d) =
       Some (snapshot_file st (so_include_history (da_autosave_options d))) \<and>
     da_autosave_generation d = st_generation st"

definition good_disk :: "bool \<Rightarrow> Disk \<Rightarrow> State \<Rightarrow> bool \<Rightarrow> bool" where
  "good_disk fsync dk st h \<longleftrightarrow>
     dk_opens dk \<and> length (snapshot_file st h) \<le> dk_writes dk \<and> (\<not> fsync \<or> dk_flushes dk) \<and> dk_closes dk \<and>
     dk_renames dk"

lemma daemon_step_file:
  assumes "da_autosave_enabled d"
  shows "(dk_files (da_disk (daemon_step (dk, ck, op) d)) (da_autosave_path d) =
       dk_files (da_disk d) (da_autosave_path d) \<and>
     da_autosave_generation (daemon_step (dk, ck, op) d) = da_autosave_generation d) \<or>
   saved_as (rg_state (da_registry (daemon_step (dk, ck, op) d))) (daemon_step (dk, ck, op) d)"
proof -
  obtain rg r where s: "step ck op (da_registry d) = (rg, r)" by fastforce
  define d' where "d' = on_disk dk d \<lparr>da_registry := rg\<rparr>"
  obtain dk' w where save: "save_snapshot (rg_state rg) (da_autosave_path d)
      (so_fsync (da_autosave_options d)) (so_include_history (da_autosave_options d)) (da_disk d') = (dk', w)"
    by fastforce
  have fs: "dk_files (da_disk d') = dk_files (da_disk d)" by (simp add: d'_def on_disk_def)
  show ?thesis
  proof (cases "op = Ask \<or> r \<noteq> Inr ()")
    case True
    then show ?thesis by (auto simp: daemon_step_def on_disk_def s)
  next
    case False
    have "daemon_step (dk, ck, op) d =
        (case w of Inl _ \<Rightarrow> d' \<lparr>da_disk := dk'\<rparr>
         | Inr _ \<Rightarrow> d' \<lparr>da_disk := dk', da_autosave_generation := st_generation (rg_state rg)\<rparr>)"
      using False assms save
      by (auto simp: daemon_step_def maybe_autosave_def save_def on_disk_def s d'_def Let_def split: sum.splits)
    then show ?thesis
      using write_file_result [OF save [unfolded save_snapshot_def]] fs
      by (cases w) (auto simp: saved_as_def d'_def on_disk_def)
  qed
qed

text \<open>
  Whatever the disk does, the file of a daemon that saves itself is the complete snapshot of a
  state that was published. After any run it is either what it was at the start, or byte for byte the
  snapshot of the state after some prefix of the run, and the settings hold the generation of that
  state: no failing, partial or refused write ever leaves anything else there.
\<close>

theorem autosave_file:
  assumes "da_autosave_enabled d"
  shows "(dk_files (da_disk (daemon_run xs d)) (da_autosave_path d) =
       dk_files (da_disk d) (da_autosave_path d) \<and>
     da_autosave_generation (daemon_run xs d) = da_autosave_generation d) \<or>
   (\<exists>ys zs. xs = ys @ zs \<and> ys \<noteq> [] \<and>
     (let st = rg_state (da_registry (daemon_run ys d))
      in dk_files (da_disk (daemon_run xs d)) (da_autosave_path d) =
           Some (snapshot_file st (so_include_history (da_autosave_options d))) \<and>
         da_autosave_generation (daemon_run xs d) = st_generation st))"
proof (induction xs rule: rev_induct)
  case Nil
  then show ?case by (simp add: daemon_run_def)
next
  case (snoc x xs)
  obtain dk ck op where x: "x = (dk, ck, op)" by (metis prod_cases3)
  let ?d = "daemon_run xs d"
  from daemon_step_file [of ?d dk ck op] assms
  have cases: "(dk_files (da_disk (daemon_step x ?d)) (da_autosave_path d) =
        dk_files (da_disk ?d) (da_autosave_path d) \<and>
      da_autosave_generation (daemon_step x ?d) = da_autosave_generation ?d) \<or>
    saved_as (rg_state (da_registry (daemon_step x ?d))) (daemon_step x ?d)"
    by (auto simp: x daemon_run_settings)
  define saved where "saved ys e \<longleftrightarrow> (let st = rg_state (da_registry (daemon_run ys d))
    in dk_files (da_disk e) (da_autosave_path d) =
         Some (snapshot_file st (so_include_history (da_autosave_options d))) \<and>
       da_autosave_generation e = st_generation st)" for ys and e :: Daemon
  from cases show ?case
  proof
    assume 1: "dk_files (da_disk (daemon_step x ?d)) (da_autosave_path d) =
        dk_files (da_disk ?d) (da_autosave_path d) \<and>
      da_autosave_generation (daemon_step x ?d) = da_autosave_generation ?d"
    have keep: "saved ys (daemon_run (xs @ [x]) d) = saved ys ?d" for ys
      using 1 by (simp add: saved_def daemon_run_snoc)
    have longer: "\<exists>zs. xs @ [x] = ys @ zs" if "xs = ys @ zs" for ys zs using that by simp
    from snoc.IH show ?thesis
      using 1 longer unfolding saved_def [symmetric] keep unfolding daemon_run_snoc by metis
  next
    assume "saved_as (rg_state (da_registry (daemon_step x ?d))) (daemon_step x ?d)"
    then have "saved (xs @ [x]) (daemon_run (xs @ [x]) d)"
      by (simp add: saved_def saved_as_def daemon_run_snoc daemon_step_settings daemon_run_settings Let_def)
    then show ?thesis unfolding saved_def [symmetric] by (metis append_Nil2 snoc_eq_iff_butlast)
  qed
qed


section \<open>An example\<close>

definition example_daemon :: Daemon where
  "example_daemon = fst (enable_autosave ''reg'' \<lparr>so_fsync = True, so_include_history = True\<rparr>
     (daemon_init config_default example_disk))"

definition lab_descriptor :: SourceDescriptor where
  "lab_descriptor = \<lparr>ds_name = ''lab'', ds_description = [], ds_declared_kind = EK_Real, ds_instance_id = []\<rparr>"

lemma lab_step:
  "step (example_clock \<lparr>ck_wall := 5\<rparr>) (Register_source lab_descriptor MP_AutoRetry)
     (Registry_init config_default) =
   (Registry_init config_default \<lparr>rg_state := example_state\<rparr>, Inr ())"
  by code_simp

lemma example_daemon_simps:
  "da_autosave_enabled example_daemon" "da_autosave_path example_daemon = ''reg''"
  "da_autosave_options example_daemon = \<lparr>so_fsync = True, so_include_history = True\<rparr>"
  "da_registry example_daemon = Registry_init config_default" "da_disk example_daemon = example_disk"
  by (simp_all add: example_daemon_def enable_autosave_def daemon_init_def)

lemma autosave_file_witness:
  "da_autosave_generation (daemon_run
     [(example_disk, example_clock \<lparr>ck_wall := 5\<rparr>, Register_source lab_descriptor MP_AutoRetry)]
     example_daemon) \<in> {0, 1}"
  using autosave_file [OF example_daemon_simps(1), of
      "[(example_disk, example_clock \<lparr>ck_wall := 5\<rparr>, Register_source lab_descriptor MP_AutoRetry)]"]
  by (auto simp: example_daemon_simps daemon_run_def daemon_step_registry lab_step Cons_eq_append_conv
      append_eq_Cons_conv Let_def example_state_def example_daemon_def enable_autosave_def daemon_init_def
      simp del: step.simps)


end
