(* ===== verification/Dispatch.thy ===== *)
theory Dispatch
  imports Autosave
begin

text \<open>
  Request handling, \<open>src/src/wire.cpp\<close>: one document in, at most one operation of the registry, one
  document out; then the client, which numbers its requests and checks the answers, and the loop that
  serves a connection.

  A request works on a daemon (the registry with its autosave and its disk) and returns the daemon and
  a result document or a status; \<open>dispatch\<close> wraps that into the response. The texts for people (error
  messages, the details and explanation of a decision) are functions of a \<open>Host\<close>.
\<close>

record Host =
  ho_message :: "Value \<Rightarrow> Registry \<Rightarrow> StatusCode \<Rightarrow> string"
  ho_detail :: "RequirementEvaluation \<Rightarrow> string"
  ho_explanation :: "CompatQuery \<Rightarrow> CompatDecision \<Rightarrow> string"

definition version_string :: string where
  "version_string = ''1.0.0''"

section \<open>Documents of the protocol\<close>

definition error_document :: "string \<Rightarrow> StatusCode \<Rightarrow> Value" where
  "error_document message code = value_object
     [(''code'', VText (to_string_StatusCode code)), (''message'', VText message)]"

definition make_response :: "64 word \<Rightarrow> Value \<Rightarrow> Value" where
  "make_response i result = value_object
     [(''id'', VInteger i), (''ok'', VBoolean True), (''result'', result)]"

definition make_failure :: "64 word \<Rightarrow> string \<Rightarrow> StatusCode \<Rightarrow> Value" where
  "make_failure i message code = value_object
     [(''error'', error_document message code), (''id'', VInteger i), (''ok'', VBoolean False)]"

definition request_op :: "Value \<Rightarrow> string res" where
  "request_op request =
     try_res (get_text request ''op'') (\<lambda>op'. if op' = [] \<or> length op' > 64 then Inl Malformed else Inr op')"

definition params_of :: "Value \<Rightarrow> Value" where
  "params_of request = (case value_find request ''params'' of Some params \<Rightarrow> params | None \<Rightarrow> request)"

text \<open>A member that must be there, and then decodes.\<close>

definition required :: "(Value \<Rightarrow> 'a res) \<Rightarrow> Value \<Rightarrow> string \<Rightarrow> 'a res" where
  "required decode params key =
     (case value_find params key of None \<Rightarrow> Inl InvalidArgument | Some v \<Rightarrow> decode v)"

definition read_authority_param :: "Value \<Rightarrow> AuthorityToken res" where
  "read_authority_param params = required decode_AuthorityToken params ''authority''"

definition read_policy_param :: "Value \<Rightarrow> MutationPolicy res" where
  "read_policy_param params =
     (let txt = get_text_or params ''policy'' ''require_generation''
      in if txt = ''require_generation'' then Inr MP_RequireGeneration
         else if txt = ''auto_retry'' then Inr MP_AutoRetry
         else Inl InvalidArgument)"

definition read_module_handle :: "Value \<Rightarrow> ModuleHandle res" where
  "read_module_handle params = required decode_ModuleHandle params ''module''"

definition read_module_reference :: "Value \<Rightarrow> ModuleHandle res" where
  "read_module_reference params =
     try_res (get_unsigned params ''uid'') (\<lambda>uid'.
     try_res (get_unsigned params ''incarnation'') (\<lambda>incarnation'.
     if uid' = 0 \<or> incarnation' = 0 \<or> incarnation' > 0xFFFFFFFF then Inl InvalidArgument
     else Inr \<lparr>mo_uid = uid', mo_incarnation = ucast incarnation',
               mo_generation = get_unsigned_or params ''generation'' 0, mo_key = []\<rparr>))"

definition encode_sample_list :: "HealthSample list \<Rightarrow> Value" where
  "encode_sample_list ss = VArray (map encode_HealthSample ss)"

definition encode_claim_list :: "IdentityClaim list \<Rightarrow> Value" where
  "encode_claim_list cs = VArray (map encode_IdentityClaim cs)"

definition encode_declaration_list :: "CapabilityDeclaration list \<Rightarrow> Value" where
  "encode_declaration_list ds = VArray (map encode_CapabilityDeclaration ds)"

definition encode_event_list :: "LifecycleEvent list \<Rightarrow> Value" where
  "encode_event_list es = VArray (map encode_LifecycleEvent es)"

definition flag_document :: "string \<Rightarrow> Value" where
  "flag_document key = value_object [(key, VBoolean True)]"

text \<open>A decision with its texts.\<close>

definition detailed_evaluation :: "Host \<Rightarrow> RequirementEvaluation \<Rightarrow> DetailedEvaluation" where
  "detailed_evaluation host e = RequirementEvaluation.extend e (DetailedEvaluation.fields (ho_detail host e))"

definition detailed_rule :: "Host \<Rightarrow> MatchedRule \<Rightarrow> DetailedRule" where
  "detailed_rule host r =
     \<lparr>dr_id = mr_id r, dr_name = mr_name r, dr_verdict = mr_verdict r, dr_priority = mr_priority r,
      dr_generation = mr_generation r, dr_rationale = mr_rationale r,
      dr_requirements = map (detailed_evaluation host) (mr_requirements r)\<rparr>"

definition detailed_decision :: "Host \<Rightarrow> CompatQuery \<Rightarrow> CompatDecision \<Rightarrow> DetailedDecision" where
  "detailed_decision host query d =
     \<lparr>dd_outcome = de_outcome d, dd_closure = de_closure d, dd_port = de_port d, dd_uid = de_uid d,
      dd_incarnation = de_incarnation d, dd_generation = de_generation d,
      dd_considered_rules = de_considered_rules d, dd_indeterminate_rules = de_indeterminate_rules d,
      dd_matched_rules = map (detailed_rule host) (de_matched_rules d),
      dd_unmet_requirements = map (detailed_evaluation host) (de_unmet_requirements d),
      dd_violated_requirements = map (detailed_evaluation host) (de_violated_requirements d),
      dd_inputs_digest = de_inputs_digest d, dd_decision_digest = de_decision_digest d,
      dd_evaluated_at_wall_ns = de_evaluated_at_wall_ns d, dd_clock_domain = de_clock_domain d,
      dd_explanation = ho_explanation host query d\<rparr>"

section \<open>Operations of the daemon\<close>

type_synonym reply = "Daemon \<Rightarrow> Daemon \<times> Value res"

text \<open>A parameter that was read, or the status of its reader.\<close>

definition given :: "'a res \<Rightarrow> ('a \<Rightarrow> reply) \<Rightarrow> reply" where
  "given r k d = (case r of Inl e \<Rightarrow> (d, Inl e) | Inr x \<Rightarrow> k x d)"

text \<open>A mutation of the registry (which saves itself after a commit), and the two kinds of queries.\<close>

definition mutation :: "('a \<Rightarrow> Value) \<Rightarrow> (Registry \<Rightarrow> Registry \<times> 'a res) \<Rightarrow> reply" where
  "mutation encode f d =
     (case f (da_registry d) of
        (rg, Inl e) \<Rightarrow> (d \<lparr>da_registry := rg\<rparr>, Inl e)
      | (rg, Inr x) \<Rightarrow> (maybe_autosave (d \<lparr>da_registry := rg\<rparr>), Inr (encode x)))"

definition asked :: "('a \<Rightarrow> Value) \<Rightarrow> (State \<Rightarrow> 'a res) \<Rightarrow> reply" where
  "asked encode f d =
     (let (rg, r) = answer f (da_registry d) in (d \<lparr>da_registry := rg\<rparr>, map_sum id encode r))"

definition looked_up :: "('a \<Rightarrow> Value) \<Rightarrow> (State \<Rightarrow> 'a res) \<Rightarrow> reply" where
  "looked_up encode f d = (d, map_sum id encode (f (rg_state (da_registry d))))"

section \<open>Requests\<close>

definition hello_document :: "Registry \<Rightarrow> Value" where
  "hello_document rg = value_object
     [(''protocol'', VInteger (ucast kWireProtocolVersion)),
      (''registry_incarnation'', VInteger (ucast (st_registry_incarnation (rg_state rg)))),
      (''version'', VText version_string)]"

definition handle_hello :: reply where
  "handle_hello d = (d, Inr (hello_document (da_registry d)))"

definition handle_stats :: reply where
  "handle_stats d = (d, Inr (encode_RegistryStats (registry_stats (da_registry d))))"

definition handle_generation :: reply where
  "handle_generation d =
     (d, Inr (value_object [(''generation'', VInteger (st_generation (rg_state (da_registry d))))]))"

definition handle_save :: "Value \<Rightarrow> reply" where
  "handle_save params d =
     (let path = get_text_or params ''path'' []
      in if path = [] then (d, Inl InvalidArgument)
         else
           case save path \<lparr>so_fsync = True, so_include_history = True\<rparr> d of
             (d, Inl e) \<Rightarrow> (d, Inl e)
           | (d, Inr _) \<Rightarrow> (d, Inr (flag_document ''saved'')))"

definition handle_source_register :: "Clock \<Rightarrow> Value \<Rightarrow> reply" where
  "handle_source_register ck params =
     given (get_text params ''name'') (\<lambda>name'.
     let kind_text = get_text_or params ''kind'' ''synthetic''
     in given (if kind_text = ''real'' then Inr EK_Real
               else if kind_text = ''synthetic'' then Inr EK_Synthetic
               else if kind_text = ''unsupported'' then Inr EK_Unsupported
               else Inl InvalidArgument) (\<lambda>kind'.
        mutation encode_SourceHandle (register_source ck
          \<lparr>ds_name = name', ds_description = get_text_or params ''description'' [],
           ds_declared_kind = kind', ds_instance_id = get_text_or params ''instance_id'' []\<rparr> MP_AutoRetry)))"

definition parsed :: "(string \<Rightarrow> 'e option) \<Rightarrow> string \<Rightarrow> 'e res" where
  "parsed from_string txt = (case from_string txt of None \<Rightarrow> Inl InvalidArgument | Some e \<Rightarrow> Inr e)"

definition handle_module_register :: "Clock \<Rightarrow> Value \<Rightarrow> reply" where
  "handle_module_register ck params =
     given (get_text params ''key'') (\<lambda>key_text'.
     given (parse_key key_text') (\<lambda>key'.
     given (parsed register_intent_from_string (get_text_or params ''intent'' ''current'')) (\<lambda>intent'.
     given (records_or decode_IdentityFieldValue params ''identity'') (\<lambda>identity'.
     given (required decode_Provenance params ''provenance'') (\<lambda>provenance'.
     given (read_policy_param params) (\<lambda>policy'.
     given (read_authority_param params) (\<lambda>auth.
       mutation encode_ModuleHandle (register_module ck
         \<lparr>rn_key = key', rn_identity = identity', rn_intent = intent', rn_provenance = provenance',
          rn_policy = policy', rn_expected_generation = get_unsigned_or params ''expected_generation'' 0\<rparr>
         auth))))))))"

definition handle_attachment_get :: "Value \<Rightarrow> reply" where
  "handle_attachment_get params =
     given (get_text params ''slot'') (\<lambda>slot_text.
     given (parse_key slot_text) (\<lambda>slot'.
       looked_up encode_AttachmentRecord (attachment_of_slot slot')))"

definition state_document :: "LifecycleState \<Rightarrow> Value" where
  "state_document s = value_object [(''state'', VText (to_string_LifecycleState s))]"

definition listed :: "string \<Rightarrow> ('a \<Rightarrow> Value) \<Rightarrow> 'a \<Rightarrow> Value" where
  "listed key encode xs = value_object [(key, encode xs)]"

definition handle_module_query :: "Clock \<Rightarrow> string \<Rightarrow> Value \<Rightarrow> reply" where
  "handle_module_query ck name params =
     given (read_module_reference params) (\<lambda>h.
       if name = ''module.identity'' then asked encode_IdentityView (identity h)
       else if name = ''module.capabilities'' then asked encode_CapabilityView (capabilities h)
       else if name = ''health.report'' then
         (\<lambda>d. asked encode_HealthReport (health (rg_config (da_registry d)) ck h) d)
       else if name = ''evidence.summary'' then asked encode_EvidenceSummary (evidence_summary ck h)
       else if name = ''lifecycle.state'' then looked_up state_document (lifecycle_state h)
       else looked_up (listed ''events'' encode_event_list) (lifecycle_history h))"

definition handle_identity_update :: "Clock \<Rightarrow> Value \<Rightarrow> reply" where
  "handle_identity_update ck params =
     given (read_authority_param params) (\<lambda>auth.
     given (read_module_handle params) (\<lambda>h.
     given (parsed identity_field_from_string (get_text_or params ''field'' [])) (\<lambda>field'.
     given (required decode_Provenance params ''provenance'') (\<lambda>provenance'.
     given (read_policy_param params) (\<lambda>policy'.
       mutation (\<lambda>_. flag_document ''updated'') (update_identity ck auth h
         \<lparr>iv_field = field', iv_subkey = get_text_or params ''subkey'' [],
          iv_value = get_text_or params ''value'' []\<rparr> provenance' policy'))))))"

definition handle_capability_publish :: "Clock \<Rightarrow> string \<Rightarrow> Value \<Rightarrow> reply" where
  "handle_capability_publish ck name params =
     given (read_authority_param params) (\<lambda>auth.
     given (parsed capability_key_from_string (get_text_or params ''key'' [])) (\<lambda>key'.
     given (required read_canonical params ''value'') (\<lambda>value'.
     given (required decode_Provenance params ''provenance'') (\<lambda>provenance'.
     given (read_policy_param params) (\<lambda>policy'.
     let subkey' = get_text_or params ''subkey'' []
     in if name = ''capability.publish'' then
          given (read_module_handle params) (\<lambda>h.
            mutation (\<lambda>_. flag_document ''published'')
              (publish_capability ck auth h key' subkey' value' provenance' policy'))
        else
          given (parse_key (get_text_or params ''port'' [])) (\<lambda>port'.
            mutation (\<lambda>_. flag_document ''published'')
              (publish_port_capability ck auth port' key' subkey' value' provenance' policy')))))))"

definition handle_port_capabilities :: "Value \<Rightarrow> reply" where
  "handle_port_capabilities params =
     given (parse_key (get_text_or params ''port'' [])) (\<lambda>port'.
       asked encode_CapabilityView (port_capabilities port'))"

definition handle_attach :: "Clock \<Rightarrow> Value \<Rightarrow> reply" where
  "handle_attach ck params =
     given (read_authority_param params) (\<lambda>auth.
     given (read_module_handle params) (\<lambda>h.
     given (parse_key (get_text_or params ''slot'' [])) (\<lambda>slot'.
     given (read_policy_param params) (\<lambda>policy'.
     let port_index = get_unsigned_or params ''port_index'' 0
     in given (if port_index > 255 then Inl InvalidArgument else Inr (ucast port_index)) (\<lambda>index'.
          mutation encode_AttachmentRecord (attach ck auth h slot' index' policy'))))))"

definition handle_detach :: "Clock \<Rightarrow> Value \<Rightarrow> reply" where
  "handle_detach ck params =
     given (read_authority_param params) (\<lambda>auth.
     given (parse_key (get_text_or params ''slot'' [])) (\<lambda>slot'.
     given (read_policy_param params) (\<lambda>policy'.
       mutation (\<lambda>_. flag_document ''detached'') (detach ck auth slot' policy'))))"

definition handle_ingest :: "Clock \<Rightarrow> Value \<Rightarrow> reply" where
  "handle_ingest ck params =
     given (read_authority_param params) (\<lambda>auth.
     given (read_module_handle params) (\<lambda>h.
     given (required decode_HealthSampleInput params ''sample'') (\<lambda>sample'.
     given (read_policy_param params) (\<lambda>policy'.
       mutation (\<lambda>_. flag_document ''accepted'') (ingest_health ck auth h sample' policy')))))"

definition handle_threshold :: "Value \<Rightarrow> reply" where
  "handle_threshold params =
     given (read_authority_param params) (\<lambda>auth.
     given (required decode_HealthThreshold params ''threshold'') (\<lambda>threshold'.
     given (read_policy_param params) (\<lambda>policy'.
       mutation (\<lambda>_. flag_document ''published'') (publish_threshold auth threshold' policy'))))"

definition query_limit :: "Value \<Rightarrow> 64 word res" where
  "query_limit params =
     (let limit' = get_unsigned_or params ''limit'' 64
      in if limit' > 4096 then Inl CapacityExceeded else Inr limit')"

definition handle_samples :: "Value \<Rightarrow> reply" where
  "handle_samples params =
     given (read_module_reference params) (\<lambda>h.
     given (parsed health_metric_from_string (get_text_or params ''metric'' ''unknown'')) (\<lambda>metric'.
     let lane' = get_unsigned_or params ''lane'' (ucast kModuleLane)
     in given (if lane' > 65535 then Inl InvalidArgument else Inr (ucast lane')) (\<lambda>lane'.
        given (query_limit params) (\<lambda>limit'.
          asked (listed ''samples'' encode_sample_list) (samples h
            \<lparr>sq_metric = metric', sq_lane = lane', sq_all_lanes = get_boolean_or params ''all_lanes'' True,
             sq_limit = limit', sq_include_superseded = get_boolean_or params ''include_superseded'' False\<rparr>)))))"

definition handle_claims :: "Value \<Rightarrow> reply" where
  "handle_claims params =
     given (read_module_reference params) (\<lambda>h.
     given (parsed identity_field_from_string (get_text_or params ''field'' ''unknown'')) (\<lambda>field'.
     given (query_limit params) (\<lambda>limit'.
       asked (listed ''claims'' encode_claim_list) (claim_history h
         \<lparr>cl_field = field', cl_limit = limit',
          cl_include_superseded = get_boolean_or params ''include_superseded'' True\<rparr>))))"

definition handle_declarations :: "Value \<Rightarrow> reply" where
  "handle_declarations params =
     given (read_module_reference params) (\<lambda>h.
     given (parsed capability_key_from_string (get_text_or params ''key'' ''unknown'')) (\<lambda>key'.
     given (query_limit params) (\<lambda>limit'.
       asked (listed ''declarations'' encode_declaration_list) (declaration_history h
         \<lparr>dq_key = key', dq_limit = limit',
          dq_include_superseded = get_boolean_or params ''include_superseded'' True\<rparr>))))"

definition handle_rule :: "Value \<Rightarrow> reply" where
  "handle_rule params =
     given (read_authority_param params) (\<lambda>auth.
     given (required decode_CompatRule params ''rule'') (\<lambda>rule'.
     given (read_policy_param params) (\<lambda>policy'.
       mutation (\<lambda>h. value_object [(''generation'', VInteger (rh_generation h)), (''id'', VInteger (ucast (rh_id h)))])
         (publish_rule auth rule' policy'))))"

definition handle_compat_query :: "Host \<Rightarrow> Clock \<Rightarrow> Value \<Rightarrow> reply" where
  "handle_compat_query host ck params =
     given (parse_key (get_text_or params ''port'' [])) (\<lambda>port'.
     given (read_module_reference params) (\<lambda>h.
     let query =
       \<lparr>cq_port = port', cq_uid = mo_uid h, cq_incarnation = mo_incarnation h,
        cq_require_latest_generation = get_boolean_or params ''require_latest_generation'' True,
        cq_expected_generation = get_unsigned_or params ''expected_generation'' 0,
        cq_explain = get_boolean_or params ''explain'' True, cq_max_rules = 1024\<rparr>
     in asked (\<lambda>decision. encode_CompatDecision (detailed_decision host query decision))
          (query_compatibility ck query)))"

definition handle_lifecycle :: "Clock \<Rightarrow> string \<Rightarrow> Value \<Rightarrow> reply" where
  "handle_lifecycle ck name params =
     given (read_authority_param params) (\<lambda>auth.
     given (read_module_handle params) (\<lambda>h.
     given (read_policy_param params) (\<lambda>policy'.
       if name = ''lifecycle.reconcile'' then
         mutation encode_LifecycleEvent (reconcile_lifecycle ck auth h policy')
       else
         given (parsed lifecycle_state_from_string (get_text_or params ''state'' [])) (\<lambda>target'.
           mutation encode_LifecycleEvent
             (transition ck auth h target' (get_text_or params ''reason'' []) policy')))))"

section \<open>Dispatch\<close>

definition module_queries :: "string list" where
  "module_queries = [''module.identity'', ''module.capabilities'', ''health.report'', ''evidence.summary'',
     ''lifecycle.state'', ''lifecycle.history'']"

definition handle :: "Host \<Rightarrow> Clock \<Rightarrow> string \<Rightarrow> Value \<Rightarrow> reply" where
  "handle host ck name params =
     (if name = ''hello'' \<or> name = ''ping'' then handle_hello
      else if name = ''registry.stats'' then handle_stats
      else if name = ''registry.generation'' then handle_generation
      else if name = ''registry.save'' then handle_save params
      else if name = ''source.register'' then handle_source_register ck params
      else if name = ''module.register'' then handle_module_register ck params
      else if name = ''attachment.get'' then handle_attachment_get params
      else if List.member module_queries name then handle_module_query ck name params
      else if name = ''identity.update'' then handle_identity_update ck params
      else if name = ''capability.publish'' \<or> name = ''port.capability.publish'' then
        handle_capability_publish ck name params
      else if name = ''port.capabilities'' then handle_port_capabilities params
      else if name = ''attachment.attach'' then handle_attach ck params
      else if name = ''attachment.detach'' then handle_detach ck params
      else if name = ''health.ingest'' then handle_ingest ck params
      else if name = ''health.threshold.publish'' then handle_threshold params
      else if name = ''health.samples'' then handle_samples params
      else if name = ''evidence.claims'' then handle_claims params
      else if name = ''evidence.declarations'' then handle_declarations params
      else if name = ''compat.rule.publish'' then handle_rule params
      else if name = ''compat.query'' then handle_compat_query host ck params
      else if name = ''lifecycle.transition'' \<or> name = ''lifecycle.reconcile'' then
        handle_lifecycle ck name params
      else (\<lambda>d. (d, Inl Unsupported)))"

record RequestOutcome =
  ro_type :: MessageType
  ro_body :: Value

definition dispatch :: "Host \<Rightarrow> Clock \<Rightarrow> Value \<Rightarrow> Daemon \<Rightarrow> Daemon \<times> RequestOutcome" where
  "dispatch host ck request d =
     (let i = get_unsigned_or request ''id'' 0;
          failure = (\<lambda>e. \<lparr>ro_type = MT_Failure,
            ro_body = make_failure i (ho_message host request (da_registry d) e) e\<rparr>)
      in if \<not> is_object request then (d, failure Malformed)
         else
           case request_op request of
             Inl e \<Rightarrow> (d, failure e)
           | Inr name \<Rightarrow>
               case handle host ck name (params_of request) d of
                 (d', Inl e) \<Rightarrow> (d', failure e)
               | (d', Inr result) \<Rightarrow>
                   (d', \<lparr>ro_type = MT_Response, ro_body = make_response i result\<rparr>))"

end
