(* ===== verification/DispatchLaws.thy ===== *)
theory DispatchLaws
  imports Dispatch
begin

text \<open>
  What a request can do to a registry: at most one of its operations, reported as it went. So every
  document that a client sends, well-formed or not, leaves the registry where its operations lead.
\<close>

section \<open>A request is at most one operation\<close>

text \<open>
  \<open>one_step ck f\<close>: on every daemon, \<open>f\<close> leaves the registry alone or takes one step of it; a step
  that is not a query reports the status of that operation.
\<close>

definition one_step :: "Clock \<Rightarrow> reply \<Rightarrow> bool" where
  "one_step ck f \<longleftrightarrow> (\<forall>d.
     (da_registry (fst (f d)) = da_registry d) \<or>
     (\<exists>op. da_registry (fst (f d)) = fst (step ck op (da_registry d)) \<and>
        (op = Ask \<or> map_sum id (\<lambda>_. ()) (snd (f d)) = snd (step ck op (da_registry d)))))"

lemma one_stepI:
  "(\<And>d. da_registry (fst (f d)) = da_registry d \<or>
     (\<exists>op. da_registry (fst (f d)) = fst (step ck op (da_registry d)) \<and>
        (op = Ask \<or> map_sum id (\<lambda>_. ()) (snd (f d)) = snd (step ck op (da_registry d))))) \<Longrightarrow> one_step ck f"
  unfolding one_step_def by blast

lemma one_step_same: "(\<And>d. da_registry (fst (f d)) = da_registry d) \<Longrightarrow> one_step ck f"
  unfolding one_step_def by blast

lemma one_step_given [intro]: "(\<And>x. one_step ck (k x)) \<Longrightarrow> one_step ck (given r k)"
  by (cases r) (auto simp: one_step_def given_def)

lemma one_step_if [intro]: "one_step ck f \<Longrightarrow> one_step ck g \<Longrightarrow> one_step ck (if b then f else g)"
  by simp

lemma one_step_looked_up [intro]: "one_step ck (looked_up encode f)"
  by (rule one_step_same) (simp add: looked_up_def)

lemma asked_registry: "da_registry (fst (asked encode f d)) = fst (step ck Ask (da_registry d))"
  by (simp add: asked_def answer_def forget_def Let_def)

lemma one_step_asked [intro]: "one_step ck (asked encode f)"
  using asked_registry by (intro one_stepI) blast

lemma one_step_asked_at [intro]: "one_step ck (\<lambda>d. asked encode (f d) d)"
  using asked_registry by (intro one_stepI) blast

lemma maybe_autosave_registry [simp]: "da_registry (maybe_autosave d) = da_registry d"
  by (auto simp: maybe_autosave_def save_def Let_def split: prod.splits sum.splits)

lemma one_step_mutation:
  assumes "\<And>rg. step ck op rg = forget (f rg)"
  shows "one_step ck (mutation encode f)"
proof (rule one_stepI, rule disjI2, intro exI conjI)
  fix d :: Daemon
  obtain rg r where f: "f (da_registry d) = (rg, r)" by fastforce
  show "da_registry (fst (mutation encode f d)) = fst (step ck op (da_registry d))"
    by (cases r) (simp_all add: mutation_def f assms forget_def)
  show "op = Ask \<or> map_sum id (\<lambda>_. ()) (snd (mutation encode f d)) = snd (step ck op (da_registry d))"
    by (cases r) (simp_all add: mutation_def f assms forget_def)
qed

lemmas one_step_ops [intro] =
  one_step_mutation [OF step.simps(1)] one_step_mutation [OF step.simps(2)]
  one_step_mutation [OF step.simps(3)] one_step_mutation [OF step.simps(4)]
  one_step_mutation [OF step.simps(5)] one_step_mutation [OF step.simps(6)]
  one_step_mutation [OF step.simps(7)] one_step_mutation [OF step.simps(8)]
  one_step_mutation [OF step.simps(9)] one_step_mutation [OF step.simps(10)]
  one_step_mutation [OF step.simps(12)] one_step_mutation [OF step.simps(13)]

lemmas handler_defs = handle_source_register_def handle_module_register_def handle_attachment_get_def
  handle_module_query_def handle_identity_update_def handle_capability_publish_def
  handle_port_capabilities_def handle_attach_def handle_detach_def handle_ingest_def
  handle_threshold_def handle_samples_def handle_claims_def handle_declarations_def handle_rule_def
  handle_compat_query_def handle_lifecycle_def

lemma one_step_plain [intro]:
  "one_step ck handle_hello" "one_step ck handle_stats" "one_step ck handle_generation"
  "one_step ck (handle_save params)" "one_step ck (\<lambda>d. (d, Inl e))"
  by (rule one_step_same, auto simp: handle_hello_def handle_stats_def handle_generation_def
      handle_save_def save_def Let_def split: prod.splits sum.splits)+

lemma one_step_handlers [intro]:
  "one_step ck (handle_source_register ck params)" "one_step ck (handle_module_register ck params)"
  "one_step ck (handle_attachment_get params)" "one_step ck (handle_module_query ck name params)"
  "one_step ck (handle_identity_update ck params)" "one_step ck (handle_capability_publish ck name params)"
  "one_step ck (handle_port_capabilities params)" "one_step ck (handle_attach ck params)"
  "one_step ck (handle_detach ck params)" "one_step ck (handle_ingest ck params)"
  "one_step ck (handle_threshold params)" "one_step ck (handle_samples params)"
  "one_step ck (handle_claims params)" "one_step ck (handle_declarations params)"
  "one_step ck (handle_rule params)" "one_step ck (handle_compat_query host ck params)"
  "one_step ck (handle_lifecycle ck name params)"
  unfolding handler_defs Let_def
  by (intro one_step_given one_step_if one_step_ops one_step_asked one_step_asked_at one_step_looked_up)+

lemma one_step_handle: "one_step ck (handle host ck name params)"
  unfolding handle_def by (intro one_step_if one_step_plain one_step_handlers)

text \<open>A failed handler leaves the published state alone.\<close>

lemma one_step_failed:
  assumes "one_step ck f" "snd (f d) = Inl e"
  shows "rg_state (da_registry (fst (f d))) = rg_state (da_registry d)"
proof -
  consider "da_registry (fst (f d)) = da_registry d"
    | op where "da_registry (fst (f d)) = fst (step ck op (da_registry d))"
        "op = Ask \<or> snd (step ck op (da_registry d)) = Inl e"
    using assms unfolding one_step_def by (metis id_apply map_sum.simps(1))
  then show ?thesis
  proof cases
    case (2 op)
    then show ?thesis by (cases ck op "da_registry d" rule: step_outcome) auto
  qed simp
qed

lemma dispatch_cases:
  obtains (plain) e where "dispatch host ck request d = (d, \<lparr>ro_type = MT_Failure,
      ro_body = make_failure (get_unsigned_or request ''id'' 0) (ho_message host request (da_registry d) e) e\<rparr>)"
  | (failed) name d' e where "request_op request = Inr name"
      "handle host ck name (params_of request) d = (d', Inl e)"
      "dispatch host ck request d = (d', \<lparr>ro_type = MT_Failure,
         ro_body = make_failure (get_unsigned_or request ''id'' 0) (ho_message host request (da_registry d) e) e\<rparr>)"
  | (answered) name d' result where "request_op request = Inr name"
      "handle host ck name (params_of request) d = (d', Inr result)"
      "dispatch host ck request d = (d', \<lparr>ro_type = MT_Response,
         ro_body = make_response (get_unsigned_or request ''id'' 0) result\<rparr>)"
proof (cases "is_object request")
  case False
  then show thesis using plain [of Malformed] by (simp add: dispatch_def)
next
  case True
  show thesis
  proof (cases "request_op request")
    case (Inl e)
    then show thesis using True plain [of e] by (simp add: dispatch_def)
  next
    case (Inr name)
    obtain d' r where h: "handle host ck name (params_of request) d = (d', r)" by fastforce
    then show thesis
      using True Inr failed [OF Inr, of d'] answered [OF Inr, of d'] by (cases r) (simp_all add: dispatch_def)
  qed
qed



lemma dispatch_registry:
  "da_registry (fst (dispatch host ck request d)) = da_registry d \<or>
   (\<exists>op. da_registry (fst (dispatch host ck request d)) = fst (step ck op (da_registry d)))"
proof (cases rule: dispatch_cases [where host = host and ck = ck and request = request and d = d])
  case (failed name d' e)
  have "one_step ck (handle host ck name (params_of request))" by (rule one_step_handle)
  from this [unfolded one_step_def, rule_format, of d] show ?thesis using failed by auto
next
  case (answered name d' result)
  have "one_step ck (handle host ck name (params_of request))" by (rule one_step_handle)
  from this [unfolded one_step_def, rule_format, of d] show ?thesis using answered by auto
qed simp

section \<open>Requests that only read\<close>

definition reading_requests :: "string list" where
  "reading_requests = module_queries @ [''hello'', ''ping'', ''registry.stats'', ''registry.generation'',
     ''attachment.get'', ''port.capabilities'', ''health.samples'', ''evidence.claims'',
     ''evidence.declarations'', ''compat.query'']"

definition reads_only :: "reply \<Rightarrow> bool" where
  "reads_only f \<longleftrightarrow> (\<forall>d. \<exists>n. fst (f d) =
     d \<lparr>da_registry := da_registry d \<lparr>rg_queries := rg_queries (da_registry d) + n\<rparr>\<rparr>)"

lemma reads_only_intros [intro]:
  "(\<And>x. reads_only (k x)) \<Longrightarrow> reads_only (given r k)"
  "reads_only f \<Longrightarrow> reads_only g \<Longrightarrow> reads_only (if b then f else g)"
  "reads_only (looked_up encode q)" "reads_only (asked encode q)" "reads_only (\<lambda>d. asked encode (q' d) d)"
  "reads_only handle_hello" "reads_only handle_stats" "reads_only handle_generation"
proof -
  have same: "\<exists>n. d = d \<lparr>da_registry := da_registry d \<lparr>rg_queries := rg_queries (da_registry d) + n\<rparr>\<rparr>"
    for d :: Daemon by (rule exI [of _ 0]) simp
  show "(\<And>x. reads_only (k x)) \<Longrightarrow> reads_only (given r k)"
    using same by (cases r) (auto simp: reads_only_def given_def)
  show "reads_only f \<Longrightarrow> reads_only g \<Longrightarrow> reads_only (if b then f else g)" by simp
  show "reads_only (looked_up encode q)" "reads_only handle_hello" "reads_only handle_stats"
    "reads_only handle_generation"
    using same by (simp_all add: reads_only_def looked_up_def handle_hello_def handle_stats_def
        handle_generation_def)
  show "reads_only (asked encode q)" "reads_only (\<lambda>d. asked encode (q' d) d)"
    by (auto simp: reads_only_def asked_def answer_def Let_def)
qed

text \<open>
  Reading requests only read: they leave the published state, the disk and the autosave settings
  as they were, whatever their parameters; only the count of queries moves.
\<close>

theorem reading_requests_read:
  assumes "name \<in> set reading_requests"
  shows "\<exists>n. fst (handle host ck name params d) =
    d \<lparr>da_registry := da_registry d \<lparr>rg_queries := rg_queries (da_registry d) + n\<rparr>\<rparr>"
proof -
  have "reads_only (handle_attachment_get params)" "reads_only (handle_module_query ck name params)"
    "reads_only (handle_port_capabilities params)" "reads_only (handle_samples params)"
    "reads_only (handle_claims params)" "reads_only (handle_declarations params)"
    "reads_only (handle_compat_query host ck params)"
    unfolding handler_defs Let_def by (intro reads_only_intros)+
  then have "reads_only (handle host ck name params)"
    using assms reads_only_intros(6-8)
    unfolding reading_requests_def module_queries_def append.simps list.set
    by (elim insertE emptyE) (simp_all add: handle_def module_queries_def)
  then show ?thesis by (simp add: reads_only_def)
qed

lemma reading_requests_read_witness:
  "da_disk (fst (handle \<lparr>ho_message = \<lambda>_ _ _. [], ho_detail = \<lambda>_. [], ho_explanation = \<lambda>_ _. []\<rparr>
     example_clock ''health.samples'' VNull example_daemon)) = da_disk example_daemon"
  using reading_requests_read [of "''health.samples''"
      "\<lparr>ho_message = \<lambda>_ _ _. [], ho_detail = \<lambda>_. [], ho_explanation = \<lambda>_ _. []\<rparr>" example_clock VNull example_daemon]
  by (auto simp: reading_requests_def)

end
