(* ===== verification/Server.thy ===== *)
theory Server
  imports DispatchLaws
begin

text \<open>
  The two ends of a connection, \<open>src/src/wire.cpp\<close>: the client, which numbers its requests and checks
  the answers (\<open>Client::exchange\<close>, \<open>Client::call\<close>), and the loop that serves a connection
  (\<open>Server::serve_connection\<close>). A call over a connection returns what the registry's operation
  returned, and a server answers a bounded number of requests, each at most one operation.
\<close>

section \<open>The client\<close>

record Client =
  cn_socket :: Socket
  cn_limits :: "32 word"
  cn_next_request_id :: "64 word"

definition exchange :: "Value \<Rightarrow> Client \<Rightarrow> Client \<times> Value res" where
  "exchange request c =
     (case write_frame MT_Request 0 request (cn_limits c) (cn_socket c) of
        (Inl e, s) \<Rightarrow> (c \<lparr>cn_socket := s\<rparr>, Inl e)
      | (Inr _, s) \<Rightarrow>
          case read_frame (cn_limits c) limits_request s of
            (Inl e, s) \<Rightarrow> (c \<lparr>cn_socket := s\<rparr>, Inl e)
          | (Inr frame, s) \<Rightarrow>
              (c \<lparr>cn_socket := s\<rparr>,
               if fr_type frame \<noteq> MT_Response \<and> fr_type frame \<noteq> MT_Failure then Inl Malformed
               else Inr (fr_body frame)))"

definition call_document :: "64 word \<Rightarrow> string \<Rightarrow> Value \<Rightarrow> Value" where
  "call_document i op' params = value_object
     [(''id'', VInteger i), (''op'', VText op'), (''params'', params)]"

text \<open>What the client makes of a response.\<close>

definition read_response :: "64 word \<Rightarrow> Value \<Rightarrow> Value res" where
  "read_response i response =
     try_res (get_unsigned response ''id'') (\<lambda>response_id.
     if response_id \<noteq> i then Inl Malformed
     else
       try_res (get_boolean response ''ok'') (\<lambda>ok'.
       if \<not> ok' then
         (case value_find response ''error'' of
            None \<Rightarrow> Inl Internal
          | Some failure \<Rightarrow>
              case status_code_from_string (get_text_or failure ''code'' ''internal'') of
                None \<Rightarrow> Inl Internal
              | Some code \<Rightarrow> Inl code)
       else
         case value_find response ''result'' of None \<Rightarrow> Inl Malformed | Some result \<Rightarrow> Inr result))"

definition call :: "string \<Rightarrow> Value \<Rightarrow> Client \<Rightarrow> Client \<times> Value res" where
  "call op' params c =
     (let i = cn_next_request_id c;
          (c, r) = exchange (call_document i op' params) (c \<lparr>cn_next_request_id := i + 1\<rparr>)
      in (c, try_res r (read_response i)))"

definition hello :: "32 word \<Rightarrow> Client \<Rightarrow> Client \<times> Value res" where
  "hello client_incarnation = call ''hello''
     (value_object [(''client_incarnation'', VInteger (ucast client_incarnation))])"

section \<open>The server\<close>

record ServerOptions =
  sv_max_requests_per_connection :: "32 word"
  sv_frame_limits :: "32 word"
  sv_document_limits :: CanonicalLimits

text \<open>The type of the frame that answers a frame.\<close>

definition answer_type :: "MessageType \<Rightarrow> MessageType \<Rightarrow> MessageType" where
  "answer_type asked_type outcome_type =
     (if asked_type = MT_Ping \<and> outcome_type = MT_Response then MT_Pong else outcome_type)"

text \<open>
  The loop, with the number of requests served so far; \<open>stopping\<close> tells at which of them the server
  is being stopped, \<open>clocks\<close> what the clock reads at each.
\<close>

function serve_connection ::
    "Host \<Rightarrow> (nat \<Rightarrow> Clock) \<Rightarrow> (nat \<Rightarrow> bool) \<Rightarrow> ServerOptions \<Rightarrow> nat \<Rightarrow> Socket \<Rightarrow> Daemon \<Rightarrow>
     nat \<times> Socket \<times> Daemon" where
  "serve_connection host clocks stopping options served s d =
     (if stopping served \<or> \<not> served < unat (sv_max_requests_per_connection options) then (served, s, d)
      else
        case read_frame (sv_frame_limits options) (sv_document_limits options) s of
          (Inl _, s) \<Rightarrow> (served, s, d)
        | (Inr frame, s) \<Rightarrow>
            if fr_type frame = MT_Shutdown then (served, s, d)
            else if fr_type frame \<noteq> MT_Request \<and> fr_type frame \<noteq> MT_Ping \<and> fr_type frame \<noteq> MT_Hello then
              (served,
               snd (write_frame MT_Failure 0
                 (make_failure 0 ''the server only accepts requests'' Malformed) (sv_frame_limits options) s),
               d)
            else
              case dispatch host (clocks served) (fr_body frame) d of
                (d, outcome) \<Rightarrow>
                  case write_frame (answer_type (fr_type frame) (ro_type outcome)) 0 (ro_body outcome)
                      (sv_frame_limits options) s of
                    (Inl _, s) \<Rightarrow> (served, s, d)
                  | (Inr _, s) \<Rightarrow> serve_connection host clocks stopping options (served + 1) s d)"
  by pat_completeness auto

termination serve_connection
  by (relation "measure (\<lambda>(_, _, _, options, served, _, _).
        unat (sv_max_requests_per_connection options) - served)") auto

declare serve_connection.simps [simp del]

section \<open>A connection is a bounded run of operations\<close>

lemma dispatch_run: "\<exists>ops. length ops \<le> 1 \<and>
   da_registry (fst (dispatch host ck request d)) = run ops (da_registry d)"
proof -
  have "da_registry (fst (dispatch host ck request d)) = da_registry d \<or>
      (\<exists>op. da_registry (fst (dispatch host ck request d)) = fst (step ck op (da_registry d)))"
    using dispatch_registry by blast
  then show ?thesis
  proof (elim disjE exE)
    fix op assume "da_registry (fst (dispatch host ck request d)) = fst (step ck op (da_registry d))"
    then show ?thesis by (intro exI [of _ "[(ck, op)]"]) simp
  qed (rule exI [of _ "[]"], simp)
qed

lemma run_append: "run (xs @ ys) rg = run ys (run xs rg)"
  by (simp add: run_def)

text \<open>
  C19. Serving a connection ends, after at most the configured number of answered requests, and does to
  the registry what a run of operations does that has at most one more: so whatever the peer sends,
  in whatever pieces, a registry that was reachable stays reachable and well formed, and what the
  registry promises of later states holds of the state after the connection.
\<close>

theorem connection_is_bounded_run:
  assumes "reachable config (da_registry d)"
    and "serve_connection host clocks stopping options served s d = (served', s', d')"
  shows "served' \<le> max served (unat (sv_max_requests_per_connection options)) \<and>
    (\<exists>ops. length ops \<le> unat (sv_max_requests_per_connection options) - served \<and>
       da_registry d' = run ops (da_registry d)) \<and>
    reachable config (da_registry d') \<and> wf config (rg_state (da_registry d')) \<and>
    later (rg_state (da_registry d)) (rg_state (da_registry d'))"
proof -
  let ?max = "unat (sv_max_requests_per_connection options)"
  have bounded: "served' \<le> max served ?max \<and>
      (\<exists>ops. length ops \<le> ?max - served \<and> da_registry d' = run ops (da_registry d))"
    using assms(2)
  proof (induction host clocks stopping options served s d rule: serve_connection.induct)
    case (1 host clocks stopping options served s d)
    show ?case
    proof (cases "da_registry d' = da_registry d \<and> served' = served")
      case True
      then show ?thesis by (intro conjI exI [of _ "[]"]) simp_all
    next
      case False
      then obtain frame s1 d1 outcome w s2
        where go: "\<not> (stopping served \<or> \<not> served < unat (sv_max_requests_per_connection options))"
        and r: "read_frame (sv_frame_limits options) (sv_document_limits options) s = (Inr frame, s1)"
        and ty: "fr_type frame \<noteq> MT_Shutdown"
          "\<not> (fr_type frame \<noteq> MT_Request \<and> fr_type frame \<noteq> MT_Ping \<and> fr_type frame \<noteq> MT_Hello)"
        and dp: "dispatch host (clocks served) (fr_body frame) d = (d1, outcome)"
        and wr: "write_frame (answer_type (fr_type frame) (ro_type outcome)) 0 (ro_body outcome)
          (sv_frame_limits options) s1 = (w, s2)"
        using "1.prems"
        by (subst (asm) serve_connection.simps) (auto split: if_splits prod.splits sum.splits)
      obtain ops where ops: "length ops \<le> 1" "da_registry d1 = run ops (da_registry d)"
        using dispatch_run [of host "clocks served" "fr_body frame" d] dp by auto
      show ?thesis
      proof (cases w)
        case (Inl e)
        then have "(served', s', d') = (served, s2, d1)"
          using "1.prems" go r ty dp wr by (subst (asm) serve_connection.simps) (auto split: if_splits)
        then show ?thesis using ops go by (intro conjI exI [of _ ops]) auto
      next
        case (Inr u)
        then have more: "serve_connection host clocks stopping options (served + 1) s2 d1 = (served', s', d')"
          using "1.prems" go r ty dp wr by (subst (asm) serve_connection.simps) (auto split: if_splits)
        from "1.IH" [OF go r [symmetric] refl ty dp [symmetric] wr [symmetric] Inr more]
        obtain ops' where "served' \<le> max (served + 1) (unat (sv_max_requests_per_connection options))"
          "length ops' \<le> unat (sv_max_requests_per_connection options) - (served + 1)"
          "da_registry d' = run ops' (da_registry d1)" by blast
        then show ?thesis
          using ops go by (intro conjI exI [of _ "ops @ ops'"]) (auto simp: run_append)
      qed
    qed
  qed
  then obtain ops where ops: "da_registry d' = run ops (da_registry d)" by blast
  have "reachable config (da_registry d')" using reachable_run [OF assms(1)] by (simp add: ops)
  then show ?thesis
    using bounded reachable_wf run_later [OF assms(1)] ops by metis
qed

section \<open>A call returns what the operation returned\<close>

lemma read_response_made:
  assumes "u63 i"
  shows "read_response i (make_response i v) = Inr v" "read_response i (make_failure i m e) = Inl e"
  using assms
  by (simp_all add: read_response_def make_response_def make_failure_def error_document_def member_simps)

lemma call_document_parts:
  "is_object (call_document i op' params)"
  "u63 i \<Longrightarrow> get_unsigned_or (call_document i op' params) ''id'' 0 = i"
  "op' \<noteq> [] \<Longrightarrow> length op' \<le> 64 \<Longrightarrow> request_op (call_document i op' params) = Inr op'"
  "params_of (call_document i op' params) = params"
  by (simp_all add: call_document_def request_op_def params_of_def member_simps)

text \<open>The outcome of a call document, and what the client makes of it.\<close>

lemma dispatch_call:
  assumes "u63 i" "op' \<noteq> []" "length op' \<le> 64" "handle host ck op' params d = (d', r)"
  shows "\<exists>outcome. dispatch host ck (call_document i op' params) d = (d', outcome) \<and>
    ro_type outcome \<in> {MT_Response, MT_Failure} \<and> read_response i (ro_body outcome) = r"
  using assms by (cases r) (simp_all add: dispatch_def call_document_parts read_response_made)

lemma read_frame_keeps:
  assumes "in_pieces s" "read_frame limit L s = (r, s')"
  shows "sk_sent s' = sk_sent s" "sk_room s' = sk_room s"
proof -
  obtain r' n where "frame_of_stream limit L (sk_broken s) (stream s) = (r', n)" by fastforce
  from read_frame_of_stream [OF assms(1) this] show "sk_sent s' = sk_sent s" "sk_room s' = sk_room s"
    using assms(2) by (auto simp: consumed_def)
qed

lemma serve_idle:
  assumes "in_pieces s" "stream s = []"
  shows "\<exists>s'. serve_connection host clocks stopping options served s d = (served, s', d) \<and>
    sk_sent s' = sk_sent s"
proof -
  have "frame_of_stream limit L (sk_broken s) (stream s) = (Inl IoError, 0)" for limit L
    using assms(2) by (simp add: frame_of_stream_def)
  from read_frame_of_stream [OF assms(1) this]
  obtain s' where "read_frame (sv_frame_limits options) (sv_document_limits options) s = (Inl IoError, s')"
    "sk_sent s' = sk_sent s" by (auto simp: consumed_def)
  then show ?thesis by (subst serve_connection.simps) auto
qed

text \<open>\<open>conveyable\<close>: a document that fits into a frame and within the limits of the reader.\<close>

definition conveyable :: "32 word \<Rightarrow> 32 word \<Rightarrow> CanonicalLimits \<Rightarrow> Socket \<Rightarrow> Value \<Rightarrow> bool" where
  "conveyable sender receiver L s v \<longleftrightarrow>
     document_fits L v \<and> length (canonical_bytes v) \<le> unat (max_document_bytes L) \<and>
     length (canonical_bytes v) \<le> unat sender \<and> length (canonical_bytes v) \<le> unat receiver \<and>
     20 + length (canonical_bytes v) \<le> sk_room s"

lemma conveyed:
  assumes "conveyable sender receiver L s v"
  shows "write_frame ty 0 v sender s =
      (Inr (), s \<lparr>sk_sent := sk_sent s @ encode_frame ty 0 (canonical_bytes v),
                 sk_room := sk_room s - (20 + length (canonical_bytes v))\<rparr>)"
    "in_pieces p \<Longrightarrow> stream p = encode_frame ty 0 (canonical_bytes v) @ rest \<Longrightarrow>
     \<exists>p'. read_frame receiver L p = (Inr \<lparr>fr_type = ty, fr_flags = 0, fr_body = v\<rparr>, p') \<and>
       stream p' = rest \<and> in_pieces p' \<and> sk_sent p' = sk_sent p \<and> sk_room p' = sk_room p"
proof -
  have "writable v" using assms fits_writable unfolding conveyable_def document_fits_def by blast
  then show "write_frame ty 0 v sender s =
      (Inr (), s \<lparr>sk_sent := sk_sent s @ encode_frame ty 0 (canonical_bytes v),
                 sk_room := sk_room s - (20 + length (canonical_bytes v))\<rparr>)"
    using assms by (simp add: write_frame_Inr conveyable_def)
  show "in_pieces p \<Longrightarrow> stream p = encode_frame ty 0 (canonical_bytes v) @ rest \<Longrightarrow>
     \<exists>p'. read_frame receiver L p = (Inr \<lparr>fr_type = ty, fr_flags = 0, fr_body = v\<rparr>, p') \<and>
       stream p' = rest \<and> in_pieces p' \<and> sk_sent p' = sk_sent p \<and> sk_room p' = sk_room p"
    using read_frame_encoded [of p ty 0 v rest receiver L] assms by (auto simp: conveyable_def consumed_def)
qed

text \<open>What the client sends, what it receives, and what the server does with one request.\<close>

lemma call_writes:
  assumes "conveyable (cn_limits c) receiver L (cn_socket c) (call_document (cn_next_request_id c) op' params)"
    and "in_pieces (cn_socket c)"
  shows "\<exists>s1. write_frame MT_Request 0 (call_document (cn_next_request_id c) op' params) (cn_limits c)
      (cn_socket c) = (Inr (), s1) \<and> in_pieces s1 \<and> stream s1 = stream (cn_socket c) \<and>
    sk_sent s1 = sk_sent (cn_socket c) @
      encode_frame MT_Request 0 (canonical_bytes (call_document (cn_next_request_id c) op' params))"
  using conveyed(1) [OF assms(1)] assms(2) by (simp add: in_pieces_def stream_def)

lemma call_sends:
  assumes "conveyable (cn_limits c) receiver L (cn_socket c) (call_document (cn_next_request_id c) op' params)"
    and "in_pieces (cn_socket c)" "sk_sent (cn_socket c) = []"
  shows "sk_sent (cn_socket (fst (call op' params c))) =
    encode_frame MT_Request 0 (canonical_bytes (call_document (cn_next_request_id c) op' params))"
proof -
  obtain s1 where s1: "write_frame MT_Request 0 (call_document (cn_next_request_id c) op' params) (cn_limits c)
      (cn_socket c) = (Inr (), s1)" "in_pieces s1"
    "sk_sent s1 = encode_frame MT_Request 0 (canonical_bytes (call_document (cn_next_request_id c) op' params))"
    using call_writes [OF assms(1,2)] assms(3) by auto
  obtain q s2 where q: "read_frame (cn_limits c) limits_request s1 = (q, s2)" by fastforce
  then show ?thesis
    using s1 read_frame_keeps [OF s1(2) q] by (cases q) (simp_all add: call_def exchange_def Let_def)
qed

lemma call_receives:
  assumes "conveyable (cn_limits c) receiver L (cn_socket c) (call_document (cn_next_request_id c) op' params)"
    and "in_pieces (cn_socket c)"
    and "conveyable sender (cn_limits c) limits_request s v" "ty \<in> {MT_Response, MT_Failure}"
    and "stream (cn_socket c) = encode_frame ty 0 (canonical_bytes v) @ rest"
  shows "snd (call op' params c) = read_response (cn_next_request_id c) v"
proof -
  obtain s1 where s1: "write_frame MT_Request 0 (call_document (cn_next_request_id c) op' params) (cn_limits c)
      (cn_socket c) = (Inr (), s1)" "in_pieces s1" "stream s1 = encode_frame ty 0 (canonical_bytes v) @ rest"
    using call_writes [OF assms(1,2)] assms(5) by auto
  from conveyed(2) [OF assms(3) s1(2,3)]
  obtain s6 where "read_frame (cn_limits c) limits_request s1 =
      (Inr \<lparr>fr_type = ty, fr_flags = 0, fr_body = v\<rparr>, s6)" by blast
  then show ?thesis using s1(1) assms(4) by (auto simp: call_def exchange_def Let_def)
qed

lemma serve_one:
  assumes request: "conveyable sender (sv_frame_limits options) (sv_document_limits options) s' req"
    and arrives: "stream s = encode_frame MT_Request 0 (canonical_bytes req)"
    and fresh: "in_pieces s" "sk_sent s = []"
    and serving: "\<not> stopping 0" "0 < sv_max_requests_per_connection options"
    and dp: "dispatch host (clocks 0) req d = (d', outcome)" "ro_type outcome \<in> {MT_Response, MT_Failure}"
    and reply: "conveyable (sv_frame_limits options) receiver L s (ro_body outcome)"
  shows "\<exists>s5. serve_connection host clocks stopping options 0 s d = (1, s5, d') \<and>
    sk_sent s5 = encode_frame (ro_type outcome) 0 (canonical_bytes (ro_body outcome))"
proof -
  from conveyed(2) [OF request fresh(1), of MT_Request "[]"] arrives
  obtain s3 where s3: "read_frame (sv_frame_limits options) (sv_document_limits options) s =
      (Inr \<lparr>fr_type = MT_Request, fr_flags = 0, fr_body = req\<rparr>, s3)"
    "stream s3 = []" "in_pieces s3" "sk_sent s3 = []" "sk_room s3 = sk_room s"
    using fresh(2) by auto
  have "conveyable (sv_frame_limits options) receiver L s3 (ro_body outcome)"
    using reply s3(5) by (simp add: conveyable_def)
  note answer = conveyed [OF this]
  define s4 where "s4 = s3 \<lparr>sk_sent := encode_frame (ro_type outcome) 0 (canonical_bytes (ro_body outcome)),
    sk_room := sk_room s3 - (20 + length (canonical_bytes (ro_body outcome)))\<rparr>"
  have replied: "write_frame (ro_type outcome) 0 (ro_body outcome) (sv_frame_limits options) s3 = (Inr (), s4)"
    using answer(1) s3(4) by (simp add: s4_def)
  have p4: "in_pieces s4" "stream s4 = []"
    using s3(2,3) by (simp_all add: s4_def in_pieces_def stream_def)
  obtain s5 where s5: "serve_connection host clocks stopping options 1 s4 d' = (1, s5, d')"
    "sk_sent s5 = sk_sent s4"
    using serve_idle [OF p4] by blast
  have "serve_connection host clocks stopping options 0 s d = (1, s5, d')"
    using serving s3(1) dp(1) replied s5(1)
    by (subst serve_connection.simps) (simp add: answer_type_def unat_gt_0)
  then show ?thesis using s5(2) by (simp add: s4_def)
qed

text \<open>
  C18. A call over a connection is the operation itself. The client's socket and the server's are joined
  when each receives what the other sends, in pieces of any size. If the request and its answer fit
  into the frames and limits of both ends, the client's call returns exactly the document or the
  status that the registry's operation returned, and the server's registry is exactly what that
  operation made of it: the encodings, the frames, the numbering and the status names in between are
  transparent.
\<close>

theorem call_is_operation:
  assumes id: "u63 (cn_next_request_id c)" and op: "op' \<noteq> []" "length op' \<le> 64"
    and handle: "handle host (clocks 0) op' params d = (d', r)"
    and request: "conveyable (cn_limits c) (sv_frame_limits options) (sv_document_limits options)
      (cn_socket c) (call_document (cn_next_request_id c) op' params)"
    and response: "conveyable (sv_frame_limits options) (cn_limits c) limits_request s
      (ro_body (snd (dispatch host (clocks 0) (call_document (cn_next_request_id c) op' params) d)))"
    and serving: "\<not> stopping 0" "0 < sv_max_requests_per_connection options"
    and fresh: "in_pieces s" "in_pieces (cn_socket c)" "sk_sent s = []" "sk_sent (cn_socket c) = []"
    and wire: "stream s = sk_sent (cn_socket (fst (call op' params c)))"
      "stream (cn_socket c) = sk_sent (fst (snd (serve_connection host clocks stopping options 0 s d)))"
  shows "snd (call op' params c) = r \<and>
    snd (snd (serve_connection host clocks stopping options 0 s d)) = d'"
proof -
  define req where "req = call_document (cn_next_request_id c) op' params"
  obtain outcome where dp: "dispatch host (clocks 0) req d = (d', outcome)"
    "ro_type outcome \<in> {MT_Response, MT_Failure}" "read_response (cn_next_request_id c) (ro_body outcome) = r"
    using dispatch_call [OF id op handle] unfolding req_def by blast
  have sends: "sk_sent (cn_socket (fst (call op' params c))) = encode_frame MT_Request 0 (canonical_bytes req)"
    using call_sends [OF request fresh(2,4)] by (simp add: req_def)
  have reply: "conveyable (sv_frame_limits options) (cn_limits c) limits_request s (ro_body outcome)"
    using response dp(1) by (simp add: req_def)
  note request' = request [folded req_def]
  have arrives: "stream s = encode_frame MT_Request 0 (canonical_bytes req)" using wire(1) sends by simp
  obtain s5 where served: "serve_connection host clocks stopping options 0 s d = (1, s5, d')"
    "sk_sent s5 = encode_frame (ro_type outcome) 0 (canonical_bytes (ro_body outcome))"
    using serve_one [where clocks = clocks and stopping = stopping,
        OF request' arrives fresh(1) fresh(3) serving dp(1,2) reply] by blast
  then have "stream (cn_socket c) = encode_frame (ro_type outcome) 0 (canonical_bytes (ro_body outcome)) @ []"
    using wire(2) by simp
  from call_receives [OF request fresh(2) reply dp(2) this]
  have "snd (call op' params c) = r" using dp(3) by simp
  with served show ?thesis by simp
qed

definition example_host :: Host where
  "example_host = \<lparr>ho_message = \<lambda>_ _ _. [], ho_detail = \<lambda>_. [], ho_explanation = \<lambda>_ _. []\<rparr>"

definition example_options :: ServerOptions where
  "example_options = \<lparr>sv_max_requests_per_connection = 5, sv_frame_limits = 200,
     sv_document_limits = \<lparr>max_document_bytes = 200, max_string_bytes = 40, max_binary_bytes = 40,
       max_elements = 9, max_object_fields = 12, max_depth = 4, max_nodes = 40\<rparr>\<rparr>"

definition example_call :: Value where
  "example_call = call_document 1 ''registry.generation'' VNull"

definition example_answer :: Value where
  "example_answer = make_response 1 (value_object [(''generation'', VInteger 0)])"

definition example_client :: Client where
  "example_client =
     \<lparr>cn_socket = \<lparr>sk_incoming = [encode_frame MT_Response 0 (canonical_bytes example_answer)],
        sk_broken = False, sk_sent = [], sk_room = 400\<rparr>,
      cn_limits = 200, cn_next_request_id = 1\<rparr>"

definition example_connection :: Socket where
  "example_connection =
     \<lparr>sk_incoming = [encode_frame MT_Request 0 (canonical_bytes example_call)],
      sk_broken = False, sk_sent = [], sk_room = 400\<rparr>"

text \<open>What fits within some limits fits within larger ones.\<close>

definition within :: "CanonicalLimits \<Rightarrow> CanonicalLimits \<Rightarrow> bool" where
  "within L L' \<longleftrightarrow>
     unat (max_string_bytes L) \<le> unat (max_string_bytes L') \<and>
     unat (max_binary_bytes L) \<le> unat (max_binary_bytes L') \<and>
     unat (max_elements L) \<le> unat (max_elements L') \<and>
     unat (max_object_fields L) \<le> unat (max_object_fields L') \<and>
     unat (max_depth L) \<le> unat (max_depth L') \<and> unat (max_nodes L) \<le> unat (max_nodes L')"

lemma fits_within: "within L L' \<Longrightarrow> n \<le> m \<Longrightarrow> fits L n v \<Longrightarrow> fits L' m v"
proof (induction n arbitrary: m v)
  case (Suc n)
  then obtain m' where "m = Suc m'" "n \<le> m'" by (cases m) auto
  then show ?case
    using Suc.prems Suc.IH [OF Suc.prems(1), of m']
    by (cases v) (auto simp: within_def text_fits_def list_all_iff)
qed simp

lemma document_fits_within: "within L L' \<Longrightarrow> document_fits L v \<Longrightarrow> document_fits L' v"
  using fits_within [of L L' "unat (max_depth L) + 1" "unat (max_depth L') + 1" v]
  by (auto simp: document_fits_def within_def)

lemma example_documents:
  "length (canonical_bytes example_call) = 42" "length (canonical_bytes example_answer) = 37"
  "document_fits (sv_document_limits example_options) example_call"
  "document_fits (sv_document_limits example_options) example_answer"
  by code_simp+

lemma example_conveyable:
  "sk_room s = 400 \<Longrightarrow> conveyable 200 200 (sv_document_limits example_options) s example_call"
  "sk_room s = 400 \<Longrightarrow> conveyable 200 200 limits_request s example_answer"
proof -
  have "within (sv_document_limits example_options) limits_request"
    by (simp add: within_def example_options_def limits_request_def)
  from document_fits_within [OF this example_documents(4)]
  show "sk_room s = 400 \<Longrightarrow> conveyable 200 200 limits_request s example_answer"
    by (simp add: conveyable_def example_documents limits_request_def)
  show "sk_room s = 400 \<Longrightarrow> conveyable 200 200 (sv_document_limits example_options) s example_call"
    using example_documents by (simp add: conveyable_def example_options_def)
qed

lemma example_handled:
  "handle example_host ck ''registry.generation'' VNull example_daemon =
     (example_daemon, Inr (value_object [(''generation'', VInteger 0)]))"
  by (simp add: handle_def handle_generation_def example_daemon_simps Registry_init_def State_init_def)

lemma call_is_operation_witness:
  "snd (call ''registry.generation'' VNull example_client) = Inr (value_object [(''generation'', VInteger 0)])"
proof -
  have outcome: "snd (dispatch example_host example_clock example_call example_daemon) =
      \<lparr>ro_type = MT_Response, ro_body = example_answer\<rparr>"
    by (simp add: dispatch_def example_call_def call_document_parts example_handled u63_def example_answer_def)
  have nonempty: "encode_frame ty f b \<noteq> []" for ty f b
    using frame_length [of ty f b] by (metis add_is_0 list.size(3) zero_neq_numeral)
  have sockets: "in_pieces (cn_socket example_client)" "in_pieces example_connection"
    "stream (cn_socket example_client) = encode_frame MT_Response 0 (canonical_bytes example_answer)"
    "stream example_connection = encode_frame MT_Request 0 (canonical_bytes example_call)"
    "sk_sent (cn_socket example_client) = []" "sk_sent example_connection = []"
    "sk_room (cn_socket example_client) = 400" "sk_room example_connection = 400"
    using nonempty nonempty [symmetric] by (simp_all add: example_client_def example_connection_def in_pieces_def stream_def)
  have client: "cn_limits example_client = 200" "cn_next_request_id example_client = 1"
    by (simp_all add: example_client_def)
  have options: "sv_frame_limits example_options = 200" "sv_max_requests_per_connection example_options = 5"
    by (simp_all add: example_options_def)
  have called: "call_document 1 ''registry.generation'' VNull = example_call" by (simp add: example_call_def)
  have sends: "sk_sent (cn_socket (fst (call ''registry.generation'' VNull example_client))) =
      encode_frame MT_Request 0 (canonical_bytes example_call)"
    using call_sends [of example_client 200 "sv_document_limits example_options" "''registry.generation''" VNull]
      example_conveyable(1) sockets client called by simp
  have "dispatch example_host example_clock example_call example_daemon =
      (example_daemon, \<lparr>ro_type = MT_Response, ro_body = example_answer\<rparr>)"
    by (simp add: dispatch_def example_call_def call_document_parts example_handled u63_def example_answer_def)
  then have serves: "sk_sent (fst (snd (serve_connection example_host (\<lambda>_. example_clock) (\<lambda>_. False) example_options 0
      example_connection example_daemon))) = encode_frame MT_Response 0 (canonical_bytes example_answer)"
    using serve_one [where clocks = "\<lambda>_. example_clock" and stopping = "\<lambda>_. False" and receiver = 200
        and L = limits_request and sender = 200 and options = example_options and host = example_host
        and s = example_connection and s' = example_connection and req = example_call and d = example_daemon]
      example_conveyable sockets options by fastforce
  show ?thesis
    using call_is_operation [where c = example_client and s = example_connection and d = example_daemon
        and host = example_host and options = example_options and clocks = "\<lambda>_. example_clock"
        and stopping = "\<lambda>_. False" and op' = "''registry.generation''" and params = VNull]
      example_handled example_conveyable sockets client options called sends outcome serves
    by (simp add: u63_def)
qed

lemma connection_is_bounded_run_witness:
  "fst (serve_connection example_host (\<lambda>_. example_clock) (\<lambda>_. False) example_options 0
     example_connection example_daemon) \<le> 5"
proof -
  obtain n s' d' where "serve_connection example_host (\<lambda>_. example_clock) (\<lambda>_. False) example_options 0
      example_connection example_daemon = (n, s', d')" by (cases rule: prod_cases3)
  moreover have "reachable config_default (da_registry example_daemon)"
    by (simp add: example_daemon_simps reachable.intros)
  ultimately show ?thesis
    using connection_is_bounded_run [of config_default example_daemon example_host "\<lambda>_. example_clock"
        "\<lambda>_. False" example_options 0 example_connection n s' d'] by (simp add: example_options_def)
qed

end
