(* ===== verification/Net.thy ===== *)
theory Net
  imports Frames
begin

text \<open>
  The loopback socket layer, \<open>src/src/net.cpp\<close>: platform initialisation, sending and receiving with
  bounded retries, binding, accepting and connecting, and the ownership of native handles.

  The operating system is the record \<open>Os\<close>, a parameter: what it answers to a call may depend on every
  call made before, so a history of calls is threaded through and stands for its state. Both
  branches of the conditional compilation are modelled, as a \<open>Platform\<close>. The texts of errors are left
  out, and with them \<open>is_peer_closed_error\<close>, which only chooses a text.
\<close>

section \<open>The operating system\<close>

datatype Platform = Windows | Posix

datatype SocketError =
    SE_Interrupted | SE_WouldBlock | SE_NoBuffers | SE_ConnectionAborted | SE_Other int

datatype 'a sys = Returned 'a | Failed SocketError

datatype Family = AF_Inet | AF_Inet6 | AF_Other

datatype Address = V4 "32 word" | V6 "128 word"

text \<open>The calls, with the arguments that matter.\<close>

datatype SysCall =
    Sys_socket Family
  | Sys_setsockopt int
  | Sys_bind int Address "16 word"
  | Sys_listen int int
  | Sys_getsockname int
  | Sys_select int
  | Sys_accept int
  | Sys_connect int Address "16 word"
  | Sys_send int "byte list"
  | Sys_recv int nat
  | Sys_shutdown int
  | Sys_close int

type_synonym history = "SysCall list"

text \<open>\<open>os_startup\<close> is the code and the version that \<open>WSAStartup\<close> reports.\<close>

record Os =
  os_startup :: "int \<times> nat \<times> nat"
  os_fd_setsize :: int
  os_pton4 :: "string \<Rightarrow> 32 word option"
  os_pton6 :: "string \<Rightarrow> 128 word option"
  os_socket :: "history \<Rightarrow> Family \<Rightarrow> int sys"
  os_setsockopt :: "history \<Rightarrow> int \<Rightarrow> unit sys"
  os_bind :: "history \<Rightarrow> int \<Rightarrow> Address \<Rightarrow> 16 word \<Rightarrow> unit sys"
  os_listen :: "history \<Rightarrow> int \<Rightarrow> int \<Rightarrow> unit sys"
  os_getsockname :: "history \<Rightarrow> int \<Rightarrow> (Family \<times> 16 word) sys"
  os_select :: "history \<Rightarrow> int \<Rightarrow> nat sys"
  os_accept :: "history \<Rightarrow> int \<Rightarrow> int sys"
  os_connect :: "history \<Rightarrow> int \<Rightarrow> Address \<Rightarrow> 16 word \<Rightarrow> unit sys"
  os_send :: "history \<Rightarrow> int \<Rightarrow> byte list \<Rightarrow> nat sys"
  os_recv :: "history \<Rightarrow> int \<Rightarrow> nat \<Rightarrow> byte list sys"
  os_close :: "history \<Rightarrow> int \<Rightarrow> unit sys"

definition kInvalidHandle :: int where
  "kInvalidHandle = -1"

definition kTransientRetries :: nat where
  "kTransientRetries = 1000"

definition kIoChunkLimit :: nat where
  "kIoChunkLimit = 0x7fffffff"

definition handle_valid :: "int \<Rightarrow> bool" where
  "handle_valid handle \<longleftrightarrow> handle \<noteq> kInvalidHandle"

definition is_interrupted_error :: "SocketError \<Rightarrow> bool" where
  "is_interrupted_error code \<longleftrightarrow> code = SE_Interrupted"

definition is_transient_error :: "SocketError \<Rightarrow> bool" where
  "is_transient_error code \<longleftrightarrow> code = SE_WouldBlock \<or> code = SE_NoBuffers"

definition is_connection_aborted_error :: "SocketError \<Rightarrow> bool" where
  "is_connection_aborted_error code \<longleftrightarrow> code = SE_ConnectionAborted"

definition clamp_backlog :: "32 word \<Rightarrow> int" where
  "clamp_backlog backlog =
     (if backlog = 0 then 1 else if backlog > 0x7fffffff then 0x7fffffff else uint backlog)"

text \<open>\<open>run_initialize\<close> runs once; every call of \<open>initialize\<close> reports what it stored.\<close>

definition initialize :: "Platform \<Rightarrow> Os \<Rightarrow> unit res" where
  "initialize platform os =
     (case platform of
        Posix \<Rightarrow> Inr ()
      | Windows \<Rightarrow>
          case os_startup os of
            (rc, major, minor) \<Rightarrow>
              if rc \<noteq> 0 then Inl IoError
              else if major \<noteq> 2 \<or> minor \<noteq> 2 then Inl IoError
              else Inr ())"

text \<open>The size of one \<open>send\<close> or \<open>recv\<close>: Windows takes an \<open>int\<close>.\<close>

definition io_chunk :: "Platform \<Rightarrow> nat \<Rightarrow> nat" where
  "io_chunk platform wanted =
     (if platform = Windows \<and> \<not> wanted < kIoChunkLimit then kIoChunkLimit else wanted)"

section \<open>Sending and receiving\<close>

function send_loop ::
    "Platform \<Rightarrow> Os \<Rightarrow> int \<Rightarrow> byte list \<Rightarrow> nat \<Rightarrow> nat \<Rightarrow> history \<Rightarrow> nat res \<times> nat \<times> history" where
  "send_loop platform os handle data offset transient h =
     (if offset < length data then
        let chunk = take (io_chunk platform (length data - offset)) (drop offset data);
            h' = h @ [Sys_send handle chunk]
        in case os_send os h handle chunk of
             Returned 0 \<Rightarrow> (Inl IoError, offset, h')
           | Returned (Suc n) \<Rightarrow> send_loop platform os handle data (offset + Suc n) transient h'
           | Failed code \<Rightarrow>
               if is_interrupted_error code \<or> is_transient_error code then
                 if transient \<ge> kTransientRetries then (Inl IoError, offset, h')
                 else send_loop platform os handle data offset (transient + 1) h'
               else (Inl IoError, offset, h')
      else (Inr offset, offset, h))"
  by pat_completeness auto

termination send_loop
  by (relation "measure (\<lambda>(_, _, _, data, offset, transient, _).
        (length data - offset) + (kTransientRetries - transient))") auto

declare send_loop.simps [simp del]

definition socket_send_all ::
    "Platform \<Rightarrow> Os \<Rightarrow> int \<Rightarrow> byte list \<Rightarrow> history \<Rightarrow> nat res \<times> history" where
  "socket_send_all platform os handle data h =
     (case initialize platform os of
        Inl e \<Rightarrow> (Inl e, h)
      | Inr _ \<Rightarrow>
          if \<not> handle_valid handle then (Inl IoError, h)
          else case send_loop platform os handle data 0 0 h of (r, _, h') \<Rightarrow> (r, h'))"

function recv_attempts ::
    "Platform \<Rightarrow> Os \<Rightarrow> int \<Rightarrow> nat \<Rightarrow> nat \<Rightarrow> history \<Rightarrow> byte list res \<times> history" where
  "recv_attempts platform os handle wanted attempt h =
     (let chunk = io_chunk platform wanted;
          h' = h @ [Sys_recv handle chunk]
      in case os_recv os h handle chunk of
           Returned received \<Rightarrow> (Inr received, h')
         | Failed code \<Rightarrow>
             if is_interrupted_error code \<and> attempt < kTransientRetries
             then recv_attempts platform os handle wanted (attempt + 1) h'
             else (Inl IoError, h'))"
  by pat_completeness auto

termination recv_attempts
  by (relation "measure (\<lambda>(_, _, _, _, attempt, _). kTransientRetries - attempt)") auto

declare recv_attempts.simps [simp del]

definition socket_recv_some ::
    "Platform \<Rightarrow> Os \<Rightarrow> int \<Rightarrow> nat \<Rightarrow> history \<Rightarrow> byte list res \<times> history" where
  "socket_recv_some platform os handle wanted h =
     (case initialize platform os of
        Inl e \<Rightarrow> (Inl e, h)
      | Inr _ \<Rightarrow>
          if \<not> handle_valid handle then (Inl IoError, h)
          else if wanted = 0 then (Inl InvalidArgument, h)
          else recv_attempts platform os handle wanted 0 h)"

text \<open>\<open>close_handle\<close>: on POSIX an interrupted close counts as closed.\<close>

definition close_handle :: "Platform \<Rightarrow> Os \<Rightarrow> int \<Rightarrow> history \<Rightarrow> unit res \<times> history" where
  "close_handle platform os handle h =
     (case os_close os h handle of
        Returned _ \<Rightarrow> (Inr (), h @ [Sys_close handle])
      | Failed code \<Rightarrow>
          (if platform = Posix \<and> code = SE_Interrupted then Inr () else Inl IoError,
           h @ [Sys_close handle]))"

text \<open>\<open>Socket::close\<close> and \<open>Listener::close\<close>: the handle is taken first, so the object is closed either way.\<close>

definition socket_close :: "Platform \<Rightarrow> Os \<Rightarrow> int \<Rightarrow> history \<Rightarrow> unit res \<times> int \<times> history" where
  "socket_close platform os handle h =
     (if \<not> handle_valid handle then (Inr (), kInvalidHandle, h)
      else case close_handle platform os handle h of (r, h') \<Rightarrow> (r, kInvalidHandle, h'))"

definition shutdown_both :: "int \<Rightarrow> history \<Rightarrow> history" where
  "shutdown_both handle h = (if \<not> handle_valid handle then h else h @ [Sys_shutdown handle])"

section \<open>Binding, connecting, accepting\<close>

text \<open>The literal of an address: only the loopback network, and never a name.\<close>

definition loopback_literal :: "Os \<Rightarrow> string \<Rightarrow> Address res" where
  "loopback_literal os address =
     (case os_pton4 os address of
        Some a \<Rightarrow> if a AND 0xff000000 \<noteq> 0x7f000000 then Inl Refused else Inr (V4 a)
      | None \<Rightarrow>
          case os_pton6 os address of
            None \<Rightarrow> Inl Refused
          | Some a \<Rightarrow> if a \<noteq> 1 then Inl Refused else Inr (V6 a))"

fun address_family :: "Address \<Rightarrow> Family" where
  "address_family (V4 a) = AF_Inet"
| "address_family (V6 a) = AF_Inet6"

record Listener =
  ln_handle :: int
  ln_port :: "16 word"

definition bind_loopback_address ::
    "Platform \<Rightarrow> Os \<Rightarrow> string \<Rightarrow> 16 word \<Rightarrow> 32 word \<Rightarrow> history \<Rightarrow> Listener res \<times> history" where
  "bind_loopback_address platform os address port backlog h =
     (case initialize platform os of
        Inl e \<Rightarrow> (Inl e, h)
      | Inr _ \<Rightarrow>
     case loopback_literal os address of
        Inl e \<Rightarrow> (Inl e, h)
      | Inr target \<Rightarrow>
     let h1 = h @ [Sys_socket (address_family target)]
     in case os_socket os h (address_family target) of
        Failed _ \<Rightarrow> (Inl IoError, h1)
      | Returned raw \<Rightarrow>
     let h2 = h1 @ [Sys_setsockopt raw]
     in case os_setsockopt os h1 raw of
        Failed _ \<Rightarrow> (Inl IoError, h2 @ [Sys_close raw])
      | Returned _ \<Rightarrow>
     let h3 = h2 @ [Sys_bind raw target port]
     in case os_bind os h2 raw target port of
        Failed _ \<Rightarrow> (Inl IoError, h3 @ [Sys_close raw])
      | Returned _ \<Rightarrow>
     let h4 = h3 @ [Sys_listen raw (clamp_backlog backlog)]
     in case os_listen os h3 raw (clamp_backlog backlog) of
        Failed _ \<Rightarrow> (Inl IoError, h4 @ [Sys_close raw])
      | Returned _ \<Rightarrow>
     let h5 = h4 @ [Sys_getsockname raw]
     in case os_getsockname os h4 raw of
        Failed _ \<Rightarrow> (Inl IoError, h5 @ [Sys_close raw])
      | Returned (family, actual_port) \<Rightarrow>
          if family = AF_Inet \<or> family = AF_Inet6
          then (Inr \<lparr>ln_handle = raw, ln_port = actual_port\<rparr>, h5)
          else (Inl IoError, h5 @ [Sys_close raw]))"

definition bind_loopback :: "Platform \<Rightarrow> Os \<Rightarrow> 16 word \<Rightarrow> 32 word \<Rightarrow> history \<Rightarrow> Listener res \<times> history" where
  "bind_loopback platform os = bind_loopback_address platform os ''127.0.0.1''"

function connect_attempts ::
    "Platform \<Rightarrow> Os \<Rightarrow> int \<Rightarrow> Address \<Rightarrow> 16 word \<Rightarrow> nat \<Rightarrow> history \<Rightarrow> int res \<times> history" where
  "connect_attempts platform os handle remote port transient h =
     (let h' = h @ [Sys_connect handle remote port]
      in case os_connect os h handle remote port of
           Returned _ \<Rightarrow> (Inr handle, h')
         | Failed code \<Rightarrow>
             if is_interrupted_error code \<and> transient < kTransientRetries
             then connect_attempts platform os handle remote port (transient + 1) h'
             else (Inl IoError, snd (snd (socket_close platform os handle h'))))"
  by pat_completeness auto

termination connect_attempts
  by (relation "measure (\<lambda>(_, _, _, _, _, transient, _). kTransientRetries - transient)") auto

declare connect_attempts.simps [simp del]

text \<open>A socket is its native handle.\<close>

definition connect_loopback :: "Platform \<Rightarrow> Os \<Rightarrow> string \<Rightarrow> 16 word \<Rightarrow> history \<Rightarrow> int res \<times> history" where
  "connect_loopback platform os address port h =
     (case initialize platform os of
        Inl e \<Rightarrow> (Inl e, h)
      | Inr _ \<Rightarrow>
          if port = 0 then (Inl InvalidArgument, h)
          else
            case loopback_literal os address of
              Inl e \<Rightarrow> (Inl e, h)
            | Inr remote \<Rightarrow>
                let h1 = h @ [Sys_socket (address_family remote)]
                in case os_socket os h (address_family remote) of
                     Failed _ \<Rightarrow> (Inl IoError, h1)
                   | Returned raw \<Rightarrow> connect_attempts platform os raw remote port 0 h1)"

text \<open>
  The accept loop. Another thread may close the listener at any time: \<open>handles n\<close> is what the \<open>n\<close>-th
  read of the handle returns. Nothing bounds the number of timeouts, so the loop is partial.
\<close>

partial_function (option) accept_loop ::
    "Platform \<Rightarrow> Os \<Rightarrow> (nat \<Rightarrow> int) \<Rightarrow> nat \<Rightarrow> nat \<Rightarrow> history \<Rightarrow> (int res \<times> history) option" where
  "accept_loop platform os handles n transient h =
     (if \<not> handle_valid (handles n) then Some (Inl IoError, h)
      else if platform = Posix \<and> handles n \<ge> os_fd_setsize os then Some (Inl IoError, h)
      else
        let h1 = h @ [Sys_select (handles n)]
        in case os_select os h (handles n) of
             Failed code \<Rightarrow>
               if \<not> handle_valid (handles (n + 1)) then Some (Inl IoError, h1)
               else if (is_interrupted_error code \<or> is_transient_error code) \<and> transient < kTransientRetries
                 then accept_loop platform os handles (n + 2) (transient + 1) h1
               else Some (Inl IoError, h1)
           | Returned 0 \<Rightarrow> accept_loop platform os handles (n + 1) transient h1
           | Returned (Suc _) \<Rightarrow>
               if \<not> handle_valid (handles (n + 1)) then Some (Inl IoError, h1)
               else
                 let h2 = h1 @ [Sys_accept (handles n)]
                 in case os_accept os h1 (handles n) of
                      Returned connection \<Rightarrow> Some (Inr connection, h2)
                    | Failed code \<Rightarrow>
                        if \<not> handle_valid (handles (n + 2)) then Some (Inl IoError, h2)
                        else if (is_interrupted_error code \<or> is_transient_error code \<or>
                                 is_connection_aborted_error code) \<and> transient < kTransientRetries
                          then accept_loop platform os handles (n + 3) (transient + 1) h2
                        else Some (Inl IoError, h2))"

definition listener_accept ::
    "Platform \<Rightarrow> Os \<Rightarrow> (nat \<Rightarrow> int) \<Rightarrow> history \<Rightarrow> (int res \<times> history) option" where
  "listener_accept platform os handles h =
     (case initialize platform os of
        Inl e \<Rightarrow> Some (Inl e, h)
      | Inr _ \<Rightarrow> accept_loop platform os handles 0 0 h)"

section \<open>Objects that own handles\<close>

text \<open>
  Sockets and listeners as objects with a number. \<open>hs_open\<close> holds the native handles that are open,
  \<open>hs_bad\<close> tells whether a handle was ever closed that was not.
\<close>

record Handles =
  hs_handle :: "nat \<Rightarrow> int"
  hs_open :: "int list"
  hs_bad :: bool

definition Handles_init :: Handles where
  "Handles_init = \<lparr>hs_handle = \<lambda>_. kInvalidHandle, hs_open = [], hs_bad = False\<rparr>"

definition take_handle :: "nat \<Rightarrow> Handles \<Rightarrow> int \<times> Handles" where
  "take_handle i st = (hs_handle st i, st \<lparr>hs_handle := (hs_handle st)(i := kInvalidHandle)\<rparr>)"

definition put_handle :: "nat \<Rightarrow> int \<Rightarrow> Handles \<Rightarrow> Handles" where
  "put_handle i handle st = st \<lparr>hs_handle := (hs_handle st)(i := handle)\<rparr>"

definition close_native :: "int \<Rightarrow> Handles \<Rightarrow> Handles" where
  "close_native handle st =
     st \<lparr>hs_open := remove1 handle (hs_open st), hs_bad := hs_bad st \<or> handle \<notin> set (hs_open st)\<rparr>"

text \<open>The destructors, and \<open>close\<close>: the handle is claimed before it is closed.\<close>

definition destroy_socket :: "nat \<Rightarrow> Handles \<Rightarrow> Handles" where
  "destroy_socket i st =
     (case take_handle i st of (handle, st) \<Rightarrow> if handle_valid handle then close_native handle st else st)"

definition move_construct :: "nat \<Rightarrow> nat \<Rightarrow> Handles \<Rightarrow> Handles" where
  "move_construct i other st = (case take_handle other st of (handle, st) \<Rightarrow> put_handle i handle st)"

definition move_assign :: "nat \<Rightarrow> nat \<Rightarrow> Handles \<Rightarrow> Handles" where
  "move_assign i other st =
     (if i \<noteq> other then
        case take_handle i st of
          (previous, st) \<Rightarrow>
            case take_handle other (if handle_valid previous then close_native previous st else st) of
              (handle, st) \<Rightarrow> put_handle i handle st
      else st)"

text \<open>
  What a program can do: adopt a handle that the system has just opened, construct an object by a move
  into a place that holds none, assign by a move, close, and destroy.
\<close>

inductive object_step :: "Handles \<Rightarrow> Handles \<Rightarrow> bool" where
  adopt: "hs_handle st i = kInvalidHandle \<Longrightarrow> handle_valid x \<Longrightarrow> x \<notin> set (hs_open st) \<Longrightarrow>
    object_step st (put_handle i x (st \<lparr>hs_open := x # hs_open st\<rparr>))"
| construct: "hs_handle st i = kInvalidHandle \<Longrightarrow> object_step st (move_construct i other st)"
| assign: "object_step st (move_assign i other st)"
| destroy: "object_step st (destroy_socket i st)"

inductive objects_reach :: "Handles \<Rightarrow> bool" where
  start: "objects_reach Handles_init"
| more: "objects_reach st \<Longrightarrow> object_step st st' \<Longrightarrow> objects_reach st'"

section \<open>What the calls leave in the history\<close>

fun loopback_address :: "Address \<Rightarrow> bool" where
  "loopback_address (V4 a) \<longleftrightarrow> drop_bit 24 a = 127"
| "loopback_address (V6 a) \<longleftrightarrow> a = 1"

text \<open>A call that reaches no address but \<open>a\<close>.\<close>

fun reaches_only :: "Address \<Rightarrow> SysCall \<Rightarrow> bool" where
  "reaches_only a (Sys_bind _ a' _) \<longleftrightarrow> a' = a"
| "reaches_only a (Sys_connect _ a' _) \<longleftrightarrow> a' = a"
| "reaches_only a _ \<longleftrightarrow> True"

fun closes :: "history \<Rightarrow> int list" where
  "closes [] = []"
| "closes (Sys_close handle # h) = handle # closes h"
| "closes (_ # h) = closes h"

lemma closes_append [simp]: "closes (h @ h') = closes h @ closes h'"
  by (induction h rule: closes.induct) simp_all

lemma loopback_mask: "a AND 0xff000000 = 0x7f000000 \<longleftrightarrow> drop_bit 24 a = (127 :: 32 word)"
proof -
  have top: "(0xff000000 :: 32 word) = push_bit 24 (mask 8)" by (simp add: mask_eq_exp_minus_1)
  have high: "a AND 0xff000000 = push_bit 24 (drop_bit 24 a)"
    unfolding top by (intro bit_word_eqI) (auto simp: bit_simps)
  show ?thesis
  proof
    assume "a AND 0xff000000 = 0x7f000000"
    then have "push_bit 24 (drop_bit 24 a) = push_bit 24 (127 :: 32 word)" by (simp add: high)
    then have "drop_bit 24 (push_bit 24 (drop_bit 24 a)) = drop_bit 24 (push_bit 24 (127 :: 32 word))" by simp
    moreover have "drop_bit 24 (push_bit 24 (drop_bit 24 a)) = drop_bit 24 a"
      using bit_imp_le_length [of a] by (intro bit_word_eqI) (fastforce simp: bit_simps)
    ultimately show "drop_bit 24 a = 127" by simp
  qed (simp add: high)
qed

lemma loopback_literal_Inr: "loopback_literal os address = Inr a \<Longrightarrow> loopback_address a"
  by (auto simp: loopback_literal_def loopback_mask split: option.splits if_splits)

lemma loopback_literal_Inl: "loopback_literal os address = Inl e \<Longrightarrow> e = Refused"
  by (auto simp: loopback_literal_def split: option.splits if_splits)

lemma connect_attempts_history:
  assumes "connect_attempts platform os handle remote port transient h = (r, h')" "handle_valid handle"
  shows "\<exists>calls. h' = h @ calls \<and> list_all (reaches_only remote) calls \<and>
    closes calls = (case r of Inl _ \<Rightarrow> [handle] | Inr _ \<Rightarrow> []) \<and>
    (case r of Inl e \<Rightarrow> e = IoError | Inr s \<Rightarrow> s = handle) \<and>
    length calls \<le> kTransientRetries - transient + 2"
  using assms
proof (induction platform os handle remote port transient h rule: connect_attempts.induct)
  case (1 platform os handle remote port transient h)
  show ?case
  proof (cases "\<exists>code. os_connect os h handle remote port = Failed code \<and> is_interrupted_error code \<and>
      transient < kTransientRetries")
    case True
    then obtain code where c: "os_connect os h handle remote port = Failed code" "is_interrupted_error code"
      "transient < kTransientRetries" by blast
    then have "connect_attempts platform os handle remote port (transient + 1)
        (h @ [Sys_connect handle remote port]) = (r, h')"
      using "1.prems"(1) by (subst (asm) connect_attempts.simps) (simp add: Let_def)
    from "1.IH" [OF refl c(1) conjI [OF c(2,3)] this "1.prems"(2)]
    obtain calls where "h' = (h @ [Sys_connect handle remote port]) @ calls"
      "list_all (reaches_only remote) calls"
      "closes calls = (case r of Inl _ \<Rightarrow> [handle] | Inr _ \<Rightarrow> [])"
      "case r of Inl e \<Rightarrow> e = IoError | Inr s \<Rightarrow> s = handle"
      "length calls \<le> kTransientRetries - (transient + 1) + 2" by blast
    then show ?thesis using c(3) by (intro exI [of _ "Sys_connect handle remote port # calls"])
        auto
  next
    case False
    then show ?thesis
      using "1.prems" by (subst (asm) connect_attempts.simps)
        (auto simp: Let_def socket_close_def close_handle_def split: sys.splits if_splits prod.splits)
  qed
qed

lemma send_loop_history:
  assumes "send_loop platform os handle data offset transient h = (r, n, h')"
  shows "\<exists>calls. h' = h @ calls \<and> closes calls = [] \<and>
    length calls \<le> (length data - offset) + (kTransientRetries - transient) + 1 \<and>
    (case r of Inl e \<Rightarrow> e = IoError | Inr m \<Rightarrow> m = n \<and> length data \<le> n)"
  using assms
proof (induction platform os handle data offset transient h rule: send_loop.induct)
  case (1 platform os handle data offset transient h)
  define chunk where "chunk = take (io_chunk platform (length data - offset)) (drop offset data)"
  show ?case
  proof (cases "offset < length data")
    case False
    then show ?thesis using "1.prems" by (subst (asm) send_loop.simps) auto
  next
    case more: True
    have step: "\<exists>calls. h' = (h @ [Sys_send handle chunk]) @ calls \<and> closes calls = [] \<and>
        length calls \<le> k \<and> (case r of Inl e \<Rightarrow> e = IoError | Inr m \<Rightarrow> m = n \<and> length data \<le> n) \<Longrightarrow>
        k < (length data - offset) + (kTransientRetries - transient) + 1 \<Longrightarrow> ?thesis" for k
      by (elim exE conjE, rule_tac x = "Sys_send handle chunk # calls" in exI) auto
    show ?thesis
    proof (cases "os_send os h handle chunk")
      case (Returned m)
      show ?thesis
      proof (cases m)
        case 0
        then show ?thesis using more Returned "1.prems"
          by (subst (asm) send_loop.simps) (auto simp: chunk_def Let_def)
      next
        case (Suc m')
        then have go: "send_loop platform os handle data (offset + Suc m') transient
            (h @ [Sys_send handle chunk]) = (r, n, h')"
          using more Returned "1.prems" by (subst (asm) send_loop.simps) (auto simp: chunk_def Let_def)
        show ?thesis
          by (rule step [OF "1.IH"(1) [OF more chunk_def refl Returned Suc go]]) (use more in simp)
      qed
    next
      case (Failed code)
      show ?thesis
      proof (cases "(is_interrupted_error code \<or> is_transient_error code) \<and> \<not> transient \<ge> kTransientRetries")
        case True
        then have go: "send_loop platform os handle data offset (transient + 1)
            (h @ [Sys_send handle chunk]) = (r, n, h')"
          using more Failed "1.prems" by (subst (asm) send_loop.simps) (auto simp: chunk_def Let_def)
        show ?thesis
          by (rule step [OF "1.IH"(2) [OF more chunk_def refl Failed _ _ go]]) (use True in auto)
      next
        case False
        then show ?thesis using more Failed "1.prems"
          by (subst (asm) send_loop.simps) (auto simp: chunk_def Let_def split: if_splits)
      qed
    qed
  qed
qed

lemma recv_attempts_history:
  assumes "recv_attempts platform os handle wanted attempt h = (r, h')"
  shows "\<exists>calls. h' = h @ calls \<and> closes calls = [] \<and> length calls \<le> kTransientRetries - attempt + 1 \<and>
    (case r of Inl e \<Rightarrow> e = IoError | Inr _ \<Rightarrow> True)"
  using assms
proof (induction platform os handle wanted attempt h rule: recv_attempts.induct)
  case (1 platform os handle wanted attempt h)
  define chunk where "chunk = io_chunk platform wanted"
  show ?case
  proof (cases "\<exists>code. os_recv os h handle chunk = Failed code \<and> is_interrupted_error code \<and>
      attempt < kTransientRetries")
    case True
    then obtain code where c: "os_recv os h handle chunk = Failed code" "is_interrupted_error code"
      "attempt < kTransientRetries" by blast
    then have "recv_attempts platform os handle wanted (attempt + 1) (h @ [Sys_recv handle chunk]) = (r, h')"
      using "1.prems" by (subst (asm) recv_attempts.simps) (simp add: Let_def chunk_def)
    from "1.IH" [OF chunk_def refl c(1) conjI [OF c(2,3)] this]
    obtain calls where "h' = (h @ [Sys_recv handle chunk]) @ calls" "closes calls = []"
      "length calls \<le> kTransientRetries - (attempt + 1) + 1" "case r of Inl e \<Rightarrow> e = IoError | Inr _ \<Rightarrow> True"
      by blast
    then show ?thesis using c(3) by (intro exI [of _ "Sys_recv handle chunk # calls"]) auto
  next
    case False
    then show ?thesis
      using "1.prems" by (subst (asm) recv_attempts.simps)
        (auto simp: Let_def chunk_def split: sys.splits if_splits)
  qed
qed

section \<open>Only the loopback interface is reached\<close>

fun reaches_loopback :: "SysCall \<Rightarrow> bool" where
  "reaches_loopback (Sys_bind _ a _) \<longleftrightarrow> loopback_address a"
| "reaches_loopback (Sys_connect _ a _) \<longleftrightarrow> loopback_address a"
| "reaches_loopback _ \<longleftrightarrow> True"

lemma reaches_only_loopback: "reaches_only a c \<Longrightarrow> loopback_address a \<Longrightarrow> reaches_loopback c"
  by (cases c) auto

lemma connect_loopback_started:
  assumes "initialize platform os = Inr ()" "port \<noteq> 0" "loopback_literal os address = Inr a"
    "os_socket os h (address_family a) = Returned raw"
  shows "connect_loopback platform os address port h =
    connect_attempts platform os raw a port 0 (h @ [Sys_socket (address_family a)])"
  using assms by (simp add: connect_loopback_def Let_def)

text \<open>What the two operations do before and unless they have a native socket.\<close>

lemma not_started:
  assumes "\<not> (\<exists>a raw. initialize platform os = Inr () \<and> loopback_literal os address = Inr a \<and>
    os_socket os h (address_family a) = Returned raw)"
  shows "snd (bind_loopback_address platform os address port backlog h) = h \<or>
      (\<exists>f. snd (bind_loopback_address platform os address port backlog h) = h @ [Sys_socket f])"
    "snd (connect_loopback platform os address port h) = h \<or>
      (\<exists>f. snd (connect_loopback platform os address port h) = h @ [Sys_socket f])"
  using assms
  by (auto simp: bind_loopback_address_def connect_loopback_def Let_def
      split: sum.splits sys.splits unit.splits)

lemma bind_history:
  assumes "initialize platform os = Inr ()" "loopback_literal os address = Inr a"
    "os_socket os h (address_family a) = Returned raw"
    "bind_loopback_address platform os address port backlog h = (r, h')"
  shows "\<exists>calls. h' = h @ Sys_socket (address_family a) # calls \<and> list_all (reaches_only a) calls \<and>
    closes calls = (case r of Inl _ \<Rightarrow> [raw] | Inr _ \<Rightarrow> []) \<and>
    (case r of Inl e \<Rightarrow> e = IoError | Inr l \<Rightarrow> ln_handle l = raw)"
  using assms
  by (auto simp: bind_loopback_address_def Let_def split: sys.splits if_splits prod.splits)

lemma connect_history:
  assumes "initialize platform os = Inr ()" "loopback_literal os address = Inr a" "port \<noteq> 0"
    "os_socket os h (address_family a) = Returned raw" "handle_valid raw"
    "connect_loopback platform os address port h = (r, h')"
  shows "\<exists>calls. h' = h @ Sys_socket (address_family a) # calls \<and> list_all (reaches_only a) calls \<and>
    closes calls = (case r of Inl _ \<Rightarrow> [raw] | Inr _ \<Rightarrow> []) \<and>
    (case r of Inl e \<Rightarrow> e = IoError | Inr s \<Rightarrow> s = raw)"
  using connect_attempts_history [of platform os raw a port 0 "h @ [Sys_socket (address_family a)]" r h']
    assms(6) connect_loopback_started [OF assms(1,3,2,4)] assms(5)
  by auto

text \<open>
  C25. The transport stays on the host. Whatever the address text and however the operating system
  behaves, binding and connecting never bind or connect to an address outside 127.0.0.0/8 and ::1; and
  a text that is not an address literal, such as a host name, causes no call at all. (The operating
  system is trusted to mark a failed \<open>socket\<close> call as failed.)
\<close>

theorem only_loopback_reached:
  assumes "\<And>h f. os_socket os h f \<noteq> Returned kInvalidHandle"
  shows "list_all reaches_loopback (snd (bind_loopback_address platform os address port backlog [])) \<and>
    list_all reaches_loopback (snd (connect_loopback platform os address port [])) \<and>
    (os_pton4 os address = None \<and> os_pton6 os address = None \<longrightarrow>
       snd (bind_loopback_address platform os address port backlog []) = [] \<and>
       snd (connect_loopback platform os address port []) = [])"
proof (intro conjI)
  let ?b = "bind_loopback_address platform os address port backlog []"
  let ?c = "connect_loopback platform os address port []"
  show "os_pton4 os address = None \<and> os_pton6 os address = None \<longrightarrow> snd ?b = [] \<and> snd ?c = []"
    by (auto simp: bind_loopback_address_def connect_loopback_def loopback_literal_def split: sum.splits)
  have reach: "list_all reaches_loopback calls" if "list_all (reaches_only a) calls" "loopback_address a" for a calls
    using that reaches_only_loopback by (auto simp: list_all_iff)
  obtain rb hb rc hc where eqs: "?b = (rb, hb)" "?c = (rc, hc)" by fastforce
  show "list_all reaches_loopback (snd ?b)" "list_all reaches_loopback (snd ?c)"
  proof -
    consider a raw where "initialize platform os = Inr ()" "loopback_literal os address = Inr a"
        "os_socket os [] (address_family a) = Returned raw"
      | "\<not> (\<exists>a raw. initialize platform os = Inr () \<and> loopback_literal os address = Inr a \<and>
          os_socket os [] (address_family a) = Returned raw)" by blast
    then have "list_all reaches_loopback (snd ?b) \<and> list_all reaches_loopback (snd ?c)"
    proof cases
      case (1 a raw)
      have raw: "handle_valid raw" using assms [of "[]" "address_family a"] 1(3) by (auto simp: handle_valid_def)
      have "list_all reaches_loopback hb"
        using bind_history [OF 1 eqs(1)] reach loopback_literal_Inr [OF 1(2)] by auto
      moreover have "list_all reaches_loopback hc"
      proof (cases "port = 0")
        case False
        then show ?thesis
          using connect_history [OF 1(1,2) False 1(3) raw eqs(2)] reach loopback_literal_Inr [OF 1(2)] by auto
      next
        case True
        then show ?thesis using eqs(2) 1(1) by (auto simp: connect_loopback_def)
      qed
      ultimately show ?thesis by (simp add: eqs)
    next
      case 2
      show ?thesis using not_started(1) [OF 2, of port backlog] not_started(2) [OF 2, of port] by auto
    qed
    then show "list_all reaches_loopback (snd ?b)" "list_all reaches_loopback (snd ?c)" by simp_all
  qed
qed

text \<open>
  No native handle is lost or closed twice. Once the operating system has handed out a handle,
  binding and connecting either succeed and give exactly that handle to the caller, who has to close
  it, or fail with an I/O error and have closed it exactly once.
\<close>

theorem handles_accounted_for:
  assumes "initialize platform os = Inr ()" "loopback_literal os address = Inr a"
    and "os_socket os [] (address_family a) = Returned raw" "handle_valid raw"
  shows "(case bind_loopback_address platform os address port backlog [] of
       (Inr l, h) \<Rightarrow> ln_handle l = raw \<and> closes h = []
     | (Inl e, h) \<Rightarrow> e = IoError \<and> closes h = [raw]) \<and>
    (port \<noteq> 0 \<longrightarrow>
     (case connect_loopback platform os address port [] of
       (Inr s, h) \<Rightarrow> s = raw \<and> closes h = []
     | (Inl e, h) \<Rightarrow> e = IoError \<and> closes h = [raw]))"
proof -
  obtain rb hb rc hc where eqs: "bind_loopback_address platform os address port backlog [] = (rb, hb)"
    "connect_loopback platform os address port [] = (rc, hc)" by fastforce
  from bind_history [OF assms(1-3) eqs(1)] connect_history [OF assms(1,2) _ assms(3,4) eqs(2)]
  show ?thesis by (auto simp: eqs split: sum.splits)
qed

section \<open>Bounded retries\<close>

text \<open>
  No operation of a socket loops for ever: sending makes at most one call for each byte and each
  allowed retry, receiving and connecting at most one for each retry, whatever the operating system
  answers; a failure is an I/O error, and a success of \<open>send_all\<close> means that every byte was taken.
\<close>

theorem socket_calls_bounded:
  assumes "initialize platform os = Inr ()" "handle_valid handle"
  shows "length (snd (socket_send_all platform os handle data [])) \<le> length data + kTransientRetries + 1 \<and>
    length (snd (socket_recv_some platform os handle wanted [])) \<le> kTransientRetries + 1 \<and>
    length (snd (connect_attempts platform os handle remote port 0 [])) \<le> kTransientRetries + 2 \<and>
    (case fst (socket_send_all platform os handle data []) of
       Inl e \<Rightarrow> e = IoError | Inr n \<Rightarrow> length data \<le> n)"
proof -
  obtain rs ns hs where s: "send_loop platform os handle data 0 0 [] = (rs, ns, hs)" by (cases rule: prod_cases3)
  obtain rr hr where r: "recv_attempts platform os handle wanted 0 [] = (rr, hr)" by fastforce
  obtain rc hc where c: "connect_attempts platform os handle remote port 0 [] = (rc, hc)" by fastforce
  show ?thesis
    using send_loop_history [OF s] recv_attempts_history [OF r] connect_attempts_history [OF c assms(2)] assms
    by (auto simp: socket_send_all_def socket_recv_some_def s r c split: sum.splits)
qed

section \<open>The socket of the frames is the socket of the operating system\<close>

text \<open>
  The operating system serves the handle like an abstract socket of \<open>Frames\<close>, \<open>view\<close> of the history: each
  call either is interrupted, with finite patience, or does what the abstract socket does, of which a
  send may take a part only. A send that takes nothing or fails has no room left.
\<close>

definition receives_as :: "Os \<Rightarrow> int \<Rightarrow> (history \<Rightarrow> Socket) \<Rightarrow> (history \<Rightarrow> nat) \<Rightarrow> bool" where
  "receives_as os handle view patience \<longleftrightarrow>
     (\<forall>n h. 0 < n \<longrightarrow>
        (case os_recv os h handle n of
           Returned bs \<Rightarrow> recv_some n (view h) = (Inr bs, view (h @ [Sys_recv handle n]))
         | Failed code \<Rightarrow>
             if is_interrupted_error code
             then view (h @ [Sys_recv handle n]) = view h \<and> patience (h @ [Sys_recv handle n]) < patience h
             else recv_some n (view h) = (Inl IoError, view (h @ [Sys_recv handle n]))))"

definition sends_as :: "Os \<Rightarrow> int \<Rightarrow> (history \<Rightarrow> Socket) \<Rightarrow> (history \<Rightarrow> nat) \<Rightarrow> bool" where
  "sends_as os handle view patience \<longleftrightarrow>
     (\<forall>bs h. bs \<noteq> [] \<longrightarrow>
        (case os_send os h handle bs of
           Returned n \<Rightarrow> n \<le> length bs \<and> n \<le> sk_room (view h) \<and> (n = 0 \<longrightarrow> sk_room (view h) = 0) \<and>
             view (h @ [Sys_send handle bs]) = (view h)
               \<lparr>sk_sent := sk_sent (view h) @ take n bs, sk_room := sk_room (view h) - n\<rparr> \<and>
             patience (h @ [Sys_send handle bs]) \<le> patience h
         | Failed code \<Rightarrow>
             view (h @ [Sys_send handle bs]) = view h \<and>
             (if is_interrupted_error code \<or> is_transient_error code
              then patience (h @ [Sys_send handle bs]) < patience h
              else sk_room (view h) = 0)))"

lemma receives_asD:
  assumes "receives_as os handle view patience" "0 < n"
  shows "os_recv os h handle n = Returned bs \<Longrightarrow>
      recv_some n (view h) = (Inr bs, view (h @ [Sys_recv handle n]))"
    "os_recv os h handle n = Failed code \<Longrightarrow> is_interrupted_error code \<Longrightarrow>
      view (h @ [Sys_recv handle n]) = view h \<and> patience (h @ [Sys_recv handle n]) < patience h"
    "os_recv os h handle n = Failed code \<Longrightarrow> \<not> is_interrupted_error code \<Longrightarrow>
      recv_some n (view h) = (Inl IoError, view (h @ [Sys_recv handle n]))"
  using assms(1) [unfolded receives_as_def, rule_format, OF assms(2), of h] by simp_all

lemma sends_asD:
  assumes "sends_as os handle view patience" "bs \<noteq> []"
  shows "os_send os h handle bs = Returned n \<Longrightarrow>
      n \<le> length bs \<and> n \<le> sk_room (view h) \<and> (n = 0 \<longrightarrow> sk_room (view h) = 0) \<and>
      view (h @ [Sys_send handle bs]) = (view h)
        \<lparr>sk_sent := sk_sent (view h) @ take n bs, sk_room := sk_room (view h) - n\<rparr> \<and>
      patience (h @ [Sys_send handle bs]) \<le> patience h"
    "os_send os h handle bs = Failed code \<Longrightarrow> is_interrupted_error code \<or> is_transient_error code \<Longrightarrow>
      view (h @ [Sys_send handle bs]) = view h \<and> patience (h @ [Sys_send handle bs]) < patience h"
    "os_send os h handle bs = Failed code \<Longrightarrow> \<not> (is_interrupted_error code \<or> is_transient_error code) \<Longrightarrow>
      view (h @ [Sys_send handle bs]) = view h \<and> sk_room (view h) = 0"
  using assms(1) [unfolded sends_as_def, rule_format, OF assms(2), of h] by (simp_all split: if_splits)

lemma recv_attempts_refines:
  assumes "recv_attempts platform os handle wanted attempt h = (r, h')"
    and "receives_as os handle view patience" "0 < wanted" "wanted \<le> kIoChunkLimit"
    and "attempt + patience h \<le> kTransientRetries"
  shows "recv_some wanted (view h) = (r, view h')"
  using assms
proof (induction platform os handle wanted attempt h rule: recv_attempts.induct)
  case (1 platform os handle wanted attempt h)
  have chunk: "io_chunk platform wanted = wanted" using "1.prems"(4) by (simp add: io_chunk_def)
  note recv = receives_asD [OF "1.prems"(2,3), of h]
  show ?case
  proof (cases "os_recv os h handle wanted")
    case (Returned bs)
    then show ?thesis
      using "1.prems"(1) recv(1) by (subst (asm) recv_attempts.simps) (simp add: Let_def chunk)
  next
    case (Failed code)
    show ?thesis
    proof (cases "is_interrupted_error code")
      case True
      note quiet = recv(2) [OF Failed True]
      have less: "attempt < kTransientRetries" using quiet "1.prems"(5) by linarith
      have go: "recv_attempts platform os handle wanted (attempt + 1) (h @ [Sys_recv handle wanted]) = (r, h')"
        using "1.prems"(1) Failed True less by (subst (asm) recv_attempts.simps) (simp add: Let_def chunk)
      have "recv_some wanted (view (h @ [Sys_recv handle wanted])) = (r, view h')"
        using "1.IH" [OF chunk [symmetric] refl Failed conjI [OF True less] go "1.prems"(2-4)] quiet "1.prems"(5)
        by simp
      then show ?thesis using quiet by simp
    next
      case False
      then show ?thesis
        using "1.prems"(1) Failed recv(3) [OF Failed False]
        by (subst (asm) recv_attempts.simps) (simp add: Let_def chunk)
    qed
  qed
qed

text \<open>The abstract send can be done in parts.\<close>

lemma send_all_part:
  assumes "m \<le> length bs" "m \<le> sk_room s"
  shows "send_all bs s =
    (case send_all (drop m bs) (s \<lparr>sk_sent := sk_sent s @ take m bs, sk_room := sk_room s - m\<rparr>) of
       (Inr n, s') \<Rightarrow> (Inr (m + n), s') | (Inl e, s') \<Rightarrow> (Inl e, s'))"
proof -
  have "take m bs @ take (sk_room s - m) (drop m bs) = take (sk_room s) bs"
    using assms(2) take_add [of m "sk_room s - m" bs] by simp
  then show ?thesis using assms by (auto simp: send_all_def)
qed

lemma send_loop_refines:
  assumes "send_loop platform os handle data offset transient h = (r, n, h')"
    and "sends_as os handle view patience" "offset \<le> length data" "transient + patience h \<le> kTransientRetries"
  shows "send_all (drop offset data) (view h) =
    (case r of Inr _ \<Rightarrow> Inr (length data - offset) | Inl e \<Rightarrow> Inl e, view h') \<and> (\<forall>m. r = Inr m \<longrightarrow> m = length data)"
  using assms
proof (induction platform os handle data offset transient h rule: send_loop.induct)
  case (1 platform os handle data offset transient h)
  define chunk where "chunk = take (io_chunk platform (length data - offset)) (drop offset data)"
  show ?case
  proof (cases "offset < length data")
    case False
    then have "send_loop platform os handle data offset transient h = (Inr offset, offset, h)"
      by (subst send_loop.simps) simp
    then show ?thesis using "1.prems"(1,3) False by (simp add: send_all_def)
  next
    case more: True
    then have some: "chunk \<noteq> []" by (auto simp: chunk_def io_chunk_def kIoChunkLimit_def)
    have part: "take m chunk = take m (drop offset data)" "m \<le> length data - offset" if "m \<le> length chunk" for m
      using that by (simp_all add: chunk_def)
    note sent = sends_asD [OF "1.prems"(2) some, of h]
    show ?thesis
    proof (cases "os_send os h handle chunk")
      case (Returned m)
      note took = sent(1) [OF Returned]
      show ?thesis
      proof (cases m)
        case 0
        then show ?thesis
          using more Returned "1.prems"(1) took
          by (subst (asm) send_loop.simps) (auto simp: chunk_def [symmetric] Let_def send_all_def)
      next
        case (Suc m')
        have go: "send_loop platform os handle data (offset + Suc m') transient
            (h @ [Sys_send handle chunk]) = (r, n, h')"
          using more Returned Suc "1.prems"(1)
          by (subst (asm) send_loop.simps) (auto simp: chunk_def [symmetric] Let_def)
        have le: "offset + Suc m' \<le> length data" using part(2) [of m] took Suc more by simp
        have budget: "transient + patience (h @ [Sys_send handle chunk]) \<le> kTransientRetries"
          using took "1.prems"(4) by linarith
        from "1.IH"(1) [OF more chunk_def refl Returned Suc go "1.prems"(2) le budget]
        moreover have "send_all (drop offset data) (view h) =
            (case send_all (drop (offset + Suc m') data) (view (h @ [Sys_send handle chunk])) of
               (Inr n, s') \<Rightarrow> (Inr (Suc m' + n), s') | (Inl e, s') \<Rightarrow> (Inl e, s'))"
          using send_all_part [of "Suc m'" "drop offset data" "view h"] took part [of m] Suc le
          by (simp add: drop_drop add.commute)
        ultimately show ?thesis using le by (auto split: sum.splits)
      qed
    next
      case (Failed code)
      show ?thesis
      proof (cases "is_interrupted_error code \<or> is_transient_error code")
        case True
        note quiet = sent(2) [OF Failed True]
        have less: "\<not> kTransientRetries \<le> transient" using quiet "1.prems"(4) by linarith
        have go: "send_loop platform os handle data offset (transient + 1)
            (h @ [Sys_send handle chunk]) = (r, n, h')"
          using more Failed True less "1.prems"(1)
          by (subst (asm) send_loop.simps) (auto simp: chunk_def [symmetric] Let_def)
        have budget: "transient + 1 + patience (h @ [Sys_send handle chunk]) \<le> kTransientRetries"
          using quiet "1.prems"(4) by linarith
        from "1.IH"(2) [OF more chunk_def refl Failed True less go "1.prems"(2,3) budget]
        show ?thesis using quiet by simp
      next
        case False
        then show ?thesis
          using more Failed "1.prems"(1) sent(3) [OF Failed False]
          by (subst (asm) send_loop.simps) (auto simp: chunk_def [symmetric] Let_def send_all_def)
      qed
    qed
  qed
qed

text \<open>
  C26. The socket layer implements the sockets of the frames: on an operating system that serves the
  handle as an abstract socket in pieces and with interruptions, \<open>send_all\<close> and \<open>recv_some\<close> return what
  the abstract operations return and leave the stream as they leave it, so partial writes and
  interrupted calls are invisible to the protocol above.
\<close>

theorem sockets_refine:
  assumes "initialize platform os = Inr ()" "handle_valid handle"
    and "receives_as os handle view patience" "sends_as os handle view patience"
    and "patience h \<le> kTransientRetries" "0 < wanted" "wanted \<le> kIoChunkLimit"
  shows "(case socket_send_all platform os handle data h of (r, h') \<Rightarrow> send_all data (view h) = (r, view h')) \<and>
    (case socket_recv_some platform os handle wanted h of (r, h') \<Rightarrow> recv_some wanted (view h) = (r, view h'))"
proof -
  obtain rs n hs where s: "send_loop platform os handle data 0 0 h = (rs, n, hs)" by (cases rule: prod_cases3)
  obtain rr hr where r: "recv_attempts platform os handle wanted 0 h = (rr, hr)" by fastforce
  show ?thesis
    using send_loop_refines [OF s assms(4)] recv_attempts_refines [OF r assms(3,6,7)] assms
    by (auto simp: socket_send_all_def socket_recv_some_def s r split: sum.splits)
qed

section \<open>Accepting ends when the listener is closed\<close>

text \<open>
  C28. A listener that another thread closes stops accepting: from any point of the loop, if all reads
  of the handle from some later one on find it closed, \<open>accept\<close> returns, with a connection or an I/O
  error, after at most that many rounds; nothing can keep it inside.
\<close>

theorem accept_ends_when_closed:
  assumes "\<And>m. m \<ge> closed \<Longrightarrow> handles m = kInvalidHandle"
  shows "\<exists>r h'. listener_accept platform os handles h = Some (r, h') \<and>
    (\<forall>e. r = Inl e \<longrightarrow> e = IoError) \<and> length h' \<le> length h + 2 * closed"
proof -
  have ends: "\<exists>r h'. accept_loop platform os handles n transient h = Some (r, h') \<and>
      (\<forall>e. r = Inl e \<longrightarrow> e = IoError) \<and> length h' \<le> length h + 2 * (closed - n)" for n transient h
  proof (induction "closed - n" arbitrary: n transient h rule: less_induct)
    case less
    show ?case
    proof (cases "handle_valid (handles n)")
      case False
      then show ?thesis by (subst accept_loop.simps) simp
    next
      case True
      then have n: "n < closed" using assms [of n] by (force simp: handle_valid_def)
      have again: "\<exists>r h'. accept_loop platform os handles (n + k) t (h @ calls) = Some (r, h') \<and>
          (\<forall>e. r = Inl e \<longrightarrow> e = IoError) \<and> length h' \<le> length h + 2 * (closed - n)"
        if "0 < k" "length calls \<le> 2" for k t calls
        using less [of "n + k" t "h @ calls"] n that by force
      show ?thesis
        using True n again [of 1 "[_]"] again [of 2 "[_]"] again [of 3 "[_, _]"]
        by (subst accept_loop.simps) (auto simp: Let_def split: sys.splits nat.splits)
    qed
  qed
  show ?thesis
  proof (cases "initialize platform os")
    case (Inl e)
    then show ?thesis
      by (auto simp: listener_accept_def initialize_def split: Platform.splits prod.splits if_splits)
  next
    case (Inr u)
    then show ?thesis using ends [of 0 0 h] by (simp add: listener_accept_def)
  qed
qed

section \<open>Every open handle has one owner\<close>

definition owned :: "Handles \<Rightarrow> bool" where
  "owned st \<longleftrightarrow> \<not> hs_bad st \<and> distinct (hs_open st) \<and> kInvalidHandle \<notin> set (hs_open st) \<and>
     (\<forall>x \<in> set (hs_open st). \<exists>i. hs_handle st i = x) \<and>
     (\<forall>i. handle_valid (hs_handle st i) \<longrightarrow> hs_handle st i \<in> set (hs_open st)) \<and>
     (\<forall>i j. handle_valid (hs_handle st i) \<and> hs_handle st i = hs_handle st j \<longrightarrow> i = j)"

lemma owned_destroy: "owned st \<Longrightarrow> owned (destroy_socket i st)"
  unfolding owned_def destroy_socket_def take_handle_def close_native_def handle_valid_def
  by (auto simp: set_remove1_eq) (metis+)?

lemma owned_move: "owned st \<Longrightarrow> hs_handle st i = kInvalidHandle \<Longrightarrow> owned (move_construct i j st)"
  unfolding owned_def move_construct_def take_handle_def put_handle_def handle_valid_def
  by auto (metis+)?

lemma move_assign_moves:
  "move_assign i j st = (if i = j then st else move_construct i j (destroy_socket i st))"
  by (simp add: move_assign_def move_construct_def destroy_socket_def take_handle_def)

lemma destroyed: "hs_handle (destroy_socket i st) i = kInvalidHandle"
  by (simp add: destroy_socket_def take_handle_def close_native_def)

lemma owned_step: "object_step st st' \<Longrightarrow> owned st \<Longrightarrow> owned st'"
proof (induction rule: object_step.induct)
  case (adopt st i x)
  then show ?case
    unfolding owned_def put_handle_def handle_valid_def by auto (metis+)?
next
  case (construct st i other)
  then show ?case by (simp add: owned_move)
next
  case (assign st i other)
  then show ?case by (simp add: move_assign_moves owned_move owned_destroy destroyed)
next
  case (destroy st i)
  then show ?case by (simp add: owned_destroy)
qed

text \<open>
  C27. Handles are neither leaked nor closed twice: after any sequence of adopting, moving, assigning,
  closing and destroying socket objects, every open handle is owned by exactly one object, every
  object that holds a handle holds an open one, and no handle has been closed that was not open.
\<close>

theorem handles_have_one_owner:
  assumes "objects_reach st"
  shows "\<not> hs_bad st \<and> distinct (hs_open st) \<and>
    (\<forall>x \<in> set (hs_open st). \<exists>!i. hs_handle st i = x) \<and>
    (\<forall>i. handle_valid (hs_handle st i) \<longrightarrow> hs_handle st i \<in> set (hs_open st))"
proof -
  have "owned st"
    using assms
    by (induction rule: objects_reach.induct)
      (auto simp: owned_step, simp add: owned_def Handles_init_def handle_valid_def)
  then show ?thesis unfolding owned_def handle_valid_def by metis
qed

lemma handles_have_one_owner_witness:
  "\<not> hs_bad (move_assign 2 1 (put_handle 1 7 (Handles_init \<lparr>hs_open := [7]\<rparr>)))"
proof -
  have "object_step Handles_init (put_handle 1 7 (Handles_init \<lparr>hs_open := 7 # hs_open Handles_init\<rparr>))"
    by (rule object_step.adopt) (simp_all add: Handles_init_def handle_valid_def kInvalidHandle_def)
  then have "objects_reach (move_assign 2 1 (put_handle 1 7 (Handles_init \<lparr>hs_open := 7 # hs_open Handles_init\<rparr>)))"
    by (blast intro: objects_reach.intros object_step.assign)
  then show ?thesis using handles_have_one_owner by (simp add: Handles_init_def)
qed

section \<open>Examples\<close>

text \<open>A peer that takes two bytes at a time, after a first interruption.\<close>

definition example_socket :: Socket where
  "example_socket = \<lparr>sk_incoming = [[4, 5, 6]], sk_broken = False, sk_sent = [], sk_room = 400\<rparr>"

definition example_take :: "byte list \<Rightarrow> Socket \<Rightarrow> nat" where
  "example_take bs s = min 2 (min (length bs) (sk_room s))"

fun example_served :: "SysCall \<Rightarrow> Socket \<Rightarrow> Socket" where
  "example_served (Sys_send _ bs) s =
     s \<lparr>sk_sent := sk_sent s @ take (example_take bs s) bs, sk_room := sk_room s - example_take bs s\<rparr>"
| "example_served (Sys_recv _ n) s = snd (recv_some n s)"
| "example_served _ s = s"

definition example_view :: "history \<Rightarrow> Socket" where
  "example_view h = fold example_served (drop 1 h) example_socket"

definition example_patience :: "history \<Rightarrow> nat" where
  "example_patience h = (if h = [] then 1 else 0)"

definition example_os :: Os where
  "example_os =
     \<lparr>os_startup = (0, 2, 2), os_fd_setsize = 1024,
      os_pton4 = \<lambda>s. if s = ''127.0.0.1'' then Some 0x7f000001 else None, os_pton6 = \<lambda>_. None,
      os_socket = \<lambda>_ _. Returned 5, os_setsockopt = \<lambda>_ _. Returned (), os_bind = \<lambda>_ _ _ _. Returned (),
      os_listen = \<lambda>_ _ _. Failed (SE_Other 98), os_getsockname = \<lambda>_ _. Returned (AF_Inet, 4711),
      os_select = \<lambda>_ _. Returned 0, os_accept = \<lambda>_ _. Returned 6,
      os_connect = \<lambda>_ _ _ _. Failed SE_Interrupted,
      os_send = \<lambda>h _ bs.
        if h = [] then Failed SE_Interrupted
        else if sk_room (example_view h) = 0 then Failed (SE_Other 32)
        else Returned (example_take bs (example_view h)),
      os_recv = \<lambda>h _ n.
        if h = [] then Failed SE_Interrupted
        else case fst (recv_some n (example_view h)) of
          Inl _ \<Rightarrow> Failed (SE_Other 104) | Inr bs \<Rightarrow> Returned bs,
      os_close = \<lambda>_ _. Returned ()\<rparr>"

lemma example_view_more: "h \<noteq> [] \<Longrightarrow> example_view (h @ [c]) = example_served c (example_view h)"
  by (cases h) (simp_all add: example_view_def)

lemma example_view_first: "example_view [c] = example_view []"
  by (simp add: example_view_def)

lemma recv_some_Inl: "recv_some n s = (Inl e, s') \<Longrightarrow> e = IoError"
  by (auto simp: recv_some_def split: list.splits if_splits)

lemma example_serves:
  "receives_as example_os 5 example_view example_patience"
  "sends_as example_os 5 example_view example_patience"
proof -
  show "receives_as example_os 5 example_view example_patience"
    unfolding receives_as_def
  proof (intro allI impI)
    fix n :: nat and h
    obtain r s where r: "recv_some n (example_view h) = (r, s)" by fastforce
    show "case os_recv example_os h 5 n of
           Returned bs \<Rightarrow> recv_some n (example_view h) = (Inr bs, example_view (h @ [Sys_recv 5 n]))
         | Failed code \<Rightarrow>
             if is_interrupted_error code
             then example_view (h @ [Sys_recv 5 n]) = example_view h \<and>
               example_patience (h @ [Sys_recv 5 n]) < example_patience h
             else recv_some n (example_view h) = (Inl IoError, example_view (h @ [Sys_recv 5 n]))"
      using r recv_some_Inl [of n "example_view h"]
      by (cases "h = []"; cases r)
        (auto simp: example_os_def is_interrupted_error_def example_view_more example_view_first
          example_patience_def)
  qed
  show "sends_as example_os 5 example_view example_patience"
    unfolding sends_as_def
    by (auto simp: example_os_def is_interrupted_error_def is_transient_error_def example_view_more
        example_view_first example_patience_def example_take_def)
qed

lemma example_os_simps:
  "initialize Posix example_os = Inr ()" "handle_valid 5" "kTransientRetries = 1000"
  "os_socket example_os h f = Returned 5" "example_patience h \<le> 1"
  by (simp_all add: initialize_def handle_valid_def kInvalidHandle_def kTransientRetries_def example_os_def
      example_patience_def)

lemma sockets_refine_witness:
  "fst (socket_send_all Posix example_os 5 [1, 2, 3] []) = Inr 3"
  using sockets_refine [OF example_os_simps(1,2) example_serves, of "[]" 1 "[1, 2, 3]"] example_os_simps(5) [of "[]"]
  by (auto simp: example_os_simps(3) kIoChunkLimit_def send_all_def example_view_def example_socket_def
      split: prod.splits)

lemma socket_calls_bounded_witness:
  "length (snd (socket_send_all Posix example_os 5 [1, 2, 3] [])) \<le> 1004"
  using socket_calls_bounded [OF example_os_simps(1,2), of "[1, 2, 3]"] by (simp add: example_os_simps(3))

lemma only_loopback_reached_witness:
  "snd (connect_loopback Posix example_os ''localhost'' 80 []) = []"
  using only_loopback_reached [of example_os Posix "''localhost''"]
  by (auto simp: example_os_def kInvalidHandle_def)

lemma handles_accounted_for_witness:
  "closes (snd (bind_loopback_address Posix example_os ''127.0.0.1'' 0 1 [])) = [5]"
  using handles_accounted_for [OF example_os_simps(1) _ example_os_simps(4,2), of "''127.0.0.1''" "V4 0x7f000001" 0 1]
  by (auto simp: loopback_literal_def example_os_def bind_loopback_address_def initialize_def Let_def)

lemma accept_ends_when_closed_witness:
  "\<exists>r h. listener_accept Posix example_os (\<lambda>m. if m < 3 then 5 else kInvalidHandle) [] = Some (r, h) \<and>
     length h \<le> 6"
  using accept_ends_when_closed [of 3 "\<lambda>m. if m < 3 then 5 else kInvalidHandle" Posix example_os "[]"] by auto

end
