(* ===== verification/Numerals.thy ===== *)
theory Numerals
  imports Doubles
begin

text \<open>
  The conversions between numbers and text that the tools use: \<open>std::to_string\<close>, and
  \<open>std::from_chars\<close> on integers and doubles as \<open>src/tools/cli_main.cpp\<close> calls it, where the whole text
  must be consumed. A decimal fraction is rounded to the nearest double, ties to even; a value beyond
  the range of the type is refused.
\<close>

section \<open>Digits\<close>

definition digit_char :: "nat \<Rightarrow> char" where
  "digit_char n = char_of (48 + n)"

definition is_digit :: "char \<Rightarrow> bool" where
  "is_digit c \<longleftrightarrow> 48 \<le> (of_char c :: nat) \<and> (of_char c :: nat) \<le> 57"

definition digits_value :: "string \<Rightarrow> nat" where
  "digits_value s = foldl (\<lambda>n c. 10 * n + (of_char c - 48)) 0 s"

fun nat_text :: "nat \<Rightarrow> string" where
  "nat_text n = (if n < 10 then [digit_char n] else nat_text (n div 10) @ [digit_char (n mod 10)])"

declare nat_text.simps [simp del]

definition int_text :: "int \<Rightarrow> string" where
  "int_text i = (if i < 0 then CHR ''-'' # nat_text (nat (- i)) else nat_text (nat i))"

section \<open>Integers\<close>

definition parse_unsigned :: "string \<Rightarrow> 64 word option" where
  "parse_unsigned txt =
     (if txt \<noteq> [] \<and> list_all is_digit txt \<and> digits_value txt < 2 ^ 64
      then Some (word_of_nat (digits_value txt)) else None)"

definition parse_signed :: "string \<Rightarrow> 64 word option" where
  "parse_signed txt =
     (case txt of
        [] \<Rightarrow> None
      | c # rest \<Rightarrow>
          if c = CHR ''-'' then
            if rest \<noteq> [] \<and> list_all is_digit rest \<and> digits_value rest \<le> 2 ^ 63
            then Some (word_of_int (- int (digits_value rest))) else None
          else if list_all is_digit txt \<and> digits_value txt < 2 ^ 63
            then Some (word_of_nat (digits_value txt)) else None)"

definition parse_u32 :: "string \<Rightarrow> 32 word option" where
  "parse_u32 txt =
     (case parse_unsigned txt of
        None \<Rightarrow> None
      | Some parsed \<Rightarrow> if parsed > 0xFFFFFFFF then None else Some (ucast parsed))"

definition parse_u16 :: "string \<Rightarrow> 16 word option" where
  "parse_u16 txt =
     (case parse_unsigned txt of
        None \<Rightarrow> None
      | Some parsed \<Rightarrow> if parsed > 0xFFFF then None else Some (ucast parsed))"

section \<open>Doubles\<close>

text \<open>The pattern of the double nearest to \<open>num / den\<close>, see \<open>round_mag\<close>.\<close>

definition nearest_bits :: "nat \<Rightarrow> nat \<Rightarrow> nat" where
  "nearest_bits num den =
     (let x = num * 2 ^ 1074;
          k = bit_length (x div den) - 53;
          unit = den * 2 ^ k;
          q = x div unit;
          r = x mod unit;
          q' = (if 2 * r > unit \<or> 2 * r = unit \<and> odd q then q + 1 else q)
      in min (k * 2 ^ 52 + q') dbl_inf_bits)"

definition lower_char :: "char \<Rightarrow> char" where
  "lower_char c =
     (let n = of_char c :: nat in if 65 \<le> n \<and> n \<le> 90 then char_of (n + 32) else c)"

definition is_word_char :: "char \<Rightarrow> bool" where
  "is_word_char c \<longleftrightarrow>
     is_digit c \<or> c = CHR ''_'' \<or> (let n = of_char (lower_char c) :: nat in 97 \<le> n \<and> n \<le> 122)"

text \<open>The texts of infinities and of what is not a number.\<close>

definition special_double :: "bool \<Rightarrow> string \<Rightarrow> double option" where
  "special_double neg txt =
     (let low = map lower_char txt
      in if low = ''inf'' \<or> low = ''infinity'' then Some (make_double neg dbl_inf_bits)
         else if low = ''nan'' \<or>
           (length low > 4 \<and> take 4 low = ''nan('' \<and> last low = CHR '')'' \<and>
            list_all is_word_char (butlast (drop 4 low)))
         then Some (make_double neg (dbl_bits dbl_nan))
         else None)"

text \<open>The exponent, if there is one: \<open>e\<close>, an optional sign, digits to the end.\<close>

definition exponent_value :: "string \<Rightarrow> int option" where
  "exponent_value txt =
     (case txt of
        [] \<Rightarrow> Some 0
      | c # rest \<Rightarrow>
          if lower_char c \<noteq> CHR ''e'' then None
          else
            let (neg, ds) =
              (case rest of
                 CHR ''-'' # ds \<Rightarrow> (True, ds) | CHR ''+'' # ds \<Rightarrow> (False, ds) | ds \<Rightarrow> (False, ds))
            in if ds \<noteq> [] \<and> list_all is_digit ds
               then Some (if neg then - int (digits_value ds) else int (digits_value ds)) else None)"

definition decimal_double :: "bool \<Rightarrow> string \<Rightarrow> double option" where
  "decimal_double neg txt =
     (let whole = takeWhile is_digit txt;
          rest = dropWhile is_digit txt;
          (frac, rest) =
            (case rest of
               CHR ''.'' # more \<Rightarrow> (takeWhile is_digit more, dropWhile is_digit more)
             | _ \<Rightarrow> ([], rest))
      in if whole @ frac = [] then None
         else
           case exponent_value rest of
             None \<Rightarrow> None
           | Some e \<Rightarrow>
               let m = digits_value (whole @ frac);
                   e = e - int (length frac);
                   bits = (if e \<ge> 0 then nearest_bits (m * 10 ^ nat e) 1 else nearest_bits m (10 ^ nat (- e)))
               in if bits = dbl_inf_bits \<or> (bits = 0 \<and> m \<noteq> 0) then None else Some (make_double neg bits))"

definition parse_double :: "string \<Rightarrow> double option" where
  "parse_double txt =
     (let (neg, rest) = (case txt of CHR ''-'' # rest \<Rightarrow> (True, rest) | _ \<Rightarrow> (False, txt))
      in case special_double neg rest of Some d \<Rightarrow> Some d | None \<Rightarrow> decimal_double neg rest)"

section \<open>Numbers survive their text\<close>

lemma digit_char_simps:
  assumes "n < 10"
  shows "(of_char (digit_char n) :: nat) = 48 + n" "is_digit (digit_char n)"
proof -
  show d: "(of_char (digit_char n) :: nat) = 48 + n" using assms by (simp add: digit_char_def)
  show "is_digit (digit_char n)" using assms by (simp add: is_digit_def d)
qed

lemma nat_text_digits: "list_all is_digit (nat_text n) \<and> nat_text n \<noteq> [] \<and> digits_value (nat_text n) = n"
proof (induction n rule: nat_text.induct)
  case (1 n)
  show ?case
  proof (cases "n < 10")
    case True
    then show ?thesis by (subst (1 2 3) nat_text.simps) (simp add: digit_char_simps digits_value_def)
  next
    case False
    then show ?thesis
      using 1 by (subst (1 2 3) nat_text.simps) (simp add: digit_char_simps digits_value_def)
  qed
qed

lemma not_minus: "is_digit c \<Longrightarrow> c \<noteq> CHR ''-''"
  by (auto simp: is_digit_def)

lemma parse_unsigned_text: "parse_unsigned (nat_text (unat u)) = Some u"
  using nat_text_digits [of "unat u"] unsigned_less [of u] by (simp add: parse_unsigned_def)

lemma parse_signed_text: "parse_signed (int_text (sint i)) = Some (i :: 64 word)"
proof -
  have bounds: "- (2 ^ 63) \<le> sint i" "sint i < 2 ^ 63" using sint_ge [of i] sint_lt [of i] by simp_all
  show ?thesis
  proof (cases "sint i < 0")
    case True
    have "nat (- sint i) \<le> 2 ^ 63" using bounds by simp
    then show ?thesis
      using True nat_text_digits [of "nat (- sint i)"]
      by (simp add: parse_signed_def int_text_def)
  next
    case False
    obtain c rest where t: "nat_text (nat (sint i)) = c # rest"
      using nat_text_digits [of "nat (sint i)"] by (cases "nat_text (nat (sint i))") auto
    have "nat (sint i) < 2 ^ 63" using bounds by simp
    moreover have "word_of_nat (nat (sint i)) = i" using False by (simp add: word_of_nat_eq_iff)
    ultimately show ?thesis
      using False nat_text_digits [of "nat (sint i)"] t not_minus [of c]
      by (simp add: parse_signed_def int_text_def)
  qed
qed

end
