(* ===== verification/CliDocs.thy ===== *)
theory CliDocs
  imports Numerals Server
begin

text \<open>
  The request documents of the command line client, \<open>src/tools/cli_main.cpp\<close>: scalar and list parsing,
  the documents of handles, provenance and capability values, and requirements from their text form.
  Whatever value the client builds from its arguments is one that the server reads, as a value of the
  kind that its key takes.
\<close>

section \<open>Splitting\<close>

definition is_blank :: "char \<Rightarrow> bool" where
  "is_blank c \<longleftrightarrow> c = CHR '' '' \<or> c = CHR 0x09"

definition trim :: "string \<Rightarrow> string" where
  "trim s = rev (dropWhile is_blank (rev (dropWhile is_blank s)))"

text \<open>The parts between the occurrences of a character, one more than there are occurrences.\<close>

fun split_at :: "char \<Rightarrow> string \<Rightarrow> string list" where
  "split_at d [] = [[]]"
| "split_at d (c # cs) =
     (if c = d then [] # split_at d cs
      else case split_at d cs of [] \<Rightarrow> [[c]] | part # parts \<Rightarrow> (c # part) # parts)"

definition split_commas :: "string \<Rightarrow> string list" where
  "split_commas txt = map trim (split_at (CHR '','') txt)"

section \<open>Documents\<close>

definition provenance_document :: "EvidenceKind \<Rightarrow> string \<Rightarrow> string \<Rightarrow> Value" where
  "provenance_document kind origin method = value_object
     [(''capture_ref'', VText []), (''content_digest'', VText (to_hex zero_digest)),
      (''kind'', VInteger (word_of_nat (EvidenceKind_code kind))), (''method'', VText method),
      (''origin'', VText origin)]"

definition authority_document :: "AuthorityToken \<Rightarrow> Value" where
  "authority_document auth = value_object
     [(''epoch'', VInteger (ucast (at_epoch auth))), (''source'', VInteger (ucast (at_source auth)))]"

definition module_handle_document :: "ModuleHandle \<Rightarrow> Value" where
  "module_handle_document h = value_object
     [(''generation'', VInteger (mo_generation h)), (''incarnation'', VInteger (ucast (mo_incarnation h))),
      (''key'', VText (mo_key h)), (''uid'', VInteger (mo_uid h))]"

definition module_reference_document :: "ModuleHandle \<Rightarrow> Value" where
  "module_reference_document h = value_object
     [(''generation'', VInteger (mo_generation h)), (''incarnation'', VInteger (ucast (mo_incarnation h))),
      (''uid'', VInteger (mo_uid h))]"

text \<open>The handle that a \<open>module.register\<close> response carries.\<close>

definition read_module_handle_document :: "Value \<Rightarrow> ModuleHandle option" where
  "read_module_handle_document document =
     (case (value_find document ''uid'', value_find document ''incarnation'',
            value_find document ''generation'', value_find document ''key'') of
        (Some (VInteger uid'), Some (VInteger incarnation'), Some (VInteger generation'), Some (VText key')) \<Rightarrow>
          if sint uid' \<le> 0 \<or> sint incarnation' \<le> 0 then None
          else
            (case parse_key key' of
               Inl _ \<Rightarrow> None
             | Inr parsed_key \<Rightarrow>
                 Some \<lparr>mo_uid = uid', mo_incarnation = ucast incarnation', mo_generation = generation',
                       mo_key = parsed_key\<rparr>)
      | _ \<Rightarrow> None)"

definition integer_field :: "Value \<Rightarrow> string \<Rightarrow> 64 word \<Rightarrow> 64 word" where
  "integer_field document key fallback =
     (case value_find document key of Some (VInteger i) \<Rightarrow> i | _ \<Rightarrow> fallback)"

section \<open>Capability values\<close>

definition parse_enum_value :: "CapabilityKey \<Rightarrow> string \<Rightarrow> 64 word option" where
  "parse_enum_value key txt = map_option word_of_nat
     (case key of
        CK_ModuleFamily \<Rightarrow> map_option ModuleFamily_code (module_family_from_string txt)
      | CK_MediaClass \<Rightarrow> map_option MediaClass_code (media_class_from_string txt)
      | CK_ConnectorClass \<Rightarrow> map_option ConnectorClass_code (connector_class_from_string txt)
      | CK_ReachClass \<Rightarrow> map_option ReachClass_code (reach_class_from_string txt)
      | CK_PowerClass \<Rightarrow> map_option PowerClass_code (power_class_from_string txt)
      | CK_WavelengthGrid \<Rightarrow> map_option WavelengthGrid_code (wavelength_grid_from_string txt)
      | CK_SpeedClasses \<Rightarrow> map_option SpeedClass_code (speed_class_from_string txt)
      | CK_Encodings \<Rightarrow> map_option EncodingClass_code (encoding_class_from_string txt)
      | CK_FecModes \<Rightarrow> map_option FecClass_code (fec_class_from_string txt)
      | _ \<Rightarrow> None)"

fun parse_enum_parts :: "CapabilityKey \<Rightarrow> string list \<Rightarrow> 64 word list option" where
  "parse_enum_parts key [] = Some []"
| "parse_enum_parts key (part # parts) =
     (if part = [] then None
      else
        case parse_enum_value key part of
          None \<Rightarrow> None
        | Some v \<Rightarrow> map_option (Cons v) (parse_enum_parts key parts))"

definition parse_enum_set_value :: "CapabilityKey \<Rightarrow> string \<Rightarrow> 64 word list option" where
  "parse_enum_set_value key txt =
     (case parse_enum_parts key (split_commas txt) of
        None \<Rightarrow> None
      | Some vs \<Rightarrow> if vs = [] then None else Some vs)"

definition enum_set_document :: "64 word list \<Rightarrow> Value" where
  "enum_set_document vs = value_object [(''k'', VText ''enum_set''), (''s'', VArray (map VInteger vs))]"

definition capability_value_document :: "CapabilityKey \<Rightarrow> string \<Rightarrow> Value option" where
  "capability_value_document key txt =
     (case capability_value_kind key of
        CVK_Boolean \<Rightarrow>
          if txt = ''true'' then Some (value_object [(''b'', VBoolean True), (''k'', VText ''boolean'')])
          else if txt = ''false'' then Some (value_object [(''b'', VBoolean False), (''k'', VText ''boolean'')])
          else None
      | CVK_Count \<Rightarrow>
          (case parse_signed txt of
             None \<Rightarrow> None
           | Some v \<Rightarrow>
               if sint v < 0 then None
               else Some (value_object [(''i'', VInteger v), (''k'', VText ''count'')]))
      | CVK_Real \<Rightarrow>
          map_option (\<lambda>v. value_object [(''k'', VText ''real''), (''r'', VReal v)]) (parse_double txt)
      | CVK_Text \<Rightarrow> Some (value_object [(''k'', VText ''text''), (''t'', VText txt)])
      | CVK_Enum \<Rightarrow>
          map_option (\<lambda>v. value_object [(''i'', VInteger v), (''k'', VText ''enum'')]) (parse_enum_value key txt)
      | CVK_EnumSet \<Rightarrow> map_option enum_set_document (parse_enum_set_value key txt)
      | CVK_TextSet \<Rightarrow>
          Some (value_object [(''k'', VText ''text_set''), (''s'', VArray (map VText (split_commas txt)))])
      | CVK_Spectrum \<Rightarrow> None
      | CVK_None \<Rightarrow> None)"

section \<open>Requirements\<close>

definition set_operator :: "RequirementOp \<Rightarrow> bool" where
  "set_operator op' \<longleftrightarrow> op' = RO_In \<or> op' = RO_NotIn \<or> op' = RO_SupersetOf \<or> op' = RO_SubsetOf \<or>
     op' = RO_Overlaps \<or> op' = RO_DisjointFrom"

text \<open>\<open>subject:key:op:operand\<close>; only the first three colons separate.\<close>

fun cut_at :: "string \<Rightarrow> (string \<times> string) option" where
  "cut_at [] = None"
| "cut_at (c # cs) = (if c = CHR '':'' then Some ([], cs) else map_option (apfst (Cons c)) (cut_at cs))"

definition requirement_parts :: "string \<Rightarrow> (string \<times> string \<times> string \<times> string) option" where
  "requirement_parts spec =
     (case cut_at spec of
        None \<Rightarrow> None
      | Some (subject, rest) \<Rightarrow>
          case cut_at rest of
            None \<Rightarrow> None
          | Some (key, rest) \<Rightarrow>
              case cut_at rest of None \<Rightarrow> None | Some (op', operand) \<Rightarrow> Some (subject, key, op', operand))"

definition requirement_document :: "string \<Rightarrow> Value option" where
  "requirement_document spec =
     (case requirement_parts spec of
        None \<Rightarrow> None
      | Some (subject_text, key_txt, op_text, operand_text) \<Rightarrow>
     case requirement_subject_from_string subject_text of
        None \<Rightarrow> None
      | Some subject \<Rightarrow>
     case capability_key_from_string key_txt of
        None \<Rightarrow> None
      | Some key \<Rightarrow>
     if capability_value_kind key = CVK_None then None
     else
     case requirement_op_from_string op_text of
        None \<Rightarrow> None
      | Some op' \<Rightarrow>
     if op' = RO_Unknown then None
     else
       map_option (\<lambda>operand. value_object
           [(''key'', VInteger (word_of_nat (CapabilityKey_code key))), (''note'', VText []),
            (''op'', VInteger (word_of_nat (RequirementOp_code op'))), (''operand'', operand),
            (''subject'', VInteger (word_of_nat (RequirementSubject_code subject))), (''subkey'', VText [])])
         (if set_operator op' \<and> capability_value_kind key = CVK_Enum
          then map_option enum_set_document (parse_enum_set_value key operand_text)
          else capability_value_document key operand_text))"

section \<open>Stored values, as the client prints them\<close>

fun capability_value_to_value :: "CapabilityValue \<Rightarrow> Value" where
  "capability_value_to_value (Cap_Boolean raw) = value_object [(''b'', VBoolean raw), (''k'', VText ''boolean'')]"
| "capability_value_to_value (Cap_Count raw) = value_object [(''i'', VInteger raw), (''k'', VText ''count'')]"
| "capability_value_to_value (Cap_Real raw) = value_object [(''k'', VText ''real''), (''r'', VReal raw)]"
| "capability_value_to_value (Cap_Text raw) = value_object [(''k'', VText ''text''), (''t'', VText raw)]"
| "capability_value_to_value (Cap_EnumSet vs) = enum_set_document vs"
| "capability_value_to_value (Cap_TextSet ts) =
     value_object [(''k'', VText ''text_set''), (''s'', VArray (map VText ts))]"
| "capability_value_to_value (Cap_Spectrum ds) =
     value_object [(''k'', VText ''spectrum''), (''s'', VArray (map (\<lambda>d. value_object
       [(''center_nm'', VReal (sd_center_nm d)), (''channel'', VText (sd_channel d)),
        (''frequency_thz'', VReal (sd_frequency_thz d)),
        (''grid'', VInteger (word_of_nat (WavelengthGrid_code (sd_grid d)))),
        (''lane'', VInteger (ucast (sd_lane d)))]) ds))]"
| "capability_value_to_value _ = value_object [(''k'', VText ''none'')]"

definition requirement_to_value :: "Requirement \<Rightarrow> Value" where
  "requirement_to_value rq = value_object
     [(''key'', VInteger (word_of_nat (CapabilityKey_code (rq_key rq)))), (''note'', VText (rq_note rq)),
      (''op'', VInteger (word_of_nat (RequirementOp_code (rq_op rq)))),
      (''operand'', capability_value_to_value (rq_operand rq)),
      (''subject'', VInteger (word_of_nat (RequirementSubject_code (rq_subject rq)))),
      (''subkey'', VText (rq_subkey rq))]"

definition compat_rule_to_value :: "CompatRule \<Rightarrow> Value" where
  "compat_rule_to_value rule = value_object
     [(''enabled'', VBoolean (cr_enabled rule)), (''name'', VText (cr_name rule)),
      (''priority'', VInteger (scast (cr_priority rule))),
      (''provenance'', provenance_document (pv_kind (cr_provenance rule)) (pv_origin (cr_provenance rule))
         (pv_method (cr_provenance rule))),
      (''rationale'', VText (cr_rationale rule)),
      (''requirements'', VArray (map requirement_to_value (cr_requirements rule))),
      (''verdict'', VInteger (word_of_nat (CompatVerdict_code (cr_verdict rule))))]"

definition compat_rule_record_to_value :: "CompatRuleRecord \<Rightarrow> Value" where
  "compat_rule_record_to_value r = value_object
     [(''generation'', VInteger (rr_generation r)), (''id'', VInteger (ucast (rr_id r))),
      (''live'', VBoolean (rr_live r)), (''rule'', compat_rule_to_value (rr_rule r)),
      (''sequence'', VInteger (rr_sequence r)), (''source'', VInteger (ucast (rr_source r))),
      (''source_epoch'', VInteger (ucast (rr_source_epoch r)))]"

definition load_report_document :: "LoadReport \<Rightarrow> string \<Rightarrow> 64 word \<Rightarrow> Value" where
  "load_report_document r path bytes = value_object
     [(''bytes'', VInteger bytes), (''claims'', VInteger (ld_claims r)),
      (''content_digest'', VText (to_hex (ld_content_digest r))),
      (''declarations'', VInteger (ld_declarations r)),
      (''dropped_tail_bytes'', VInteger (ld_dropped_tail_bytes r)),
      (''evidence_invalidated_on_load'', VInteger (ld_evidence_invalidated_on_load r)),
      (''fenced_incarnations'', VInteger (ld_fenced_incarnations r)),
      (''format_version'', VInteger (ucast (ld_format_version r))),
      (''generation'', VInteger (ld_generation r)), (''incarnations'', VInteger (ld_incarnations r)),
      (''loaded_at_wall_ns'', VInteger (word_of_int (ld_loaded_at_wall_ns r))),
      (''modules'', VInteger (ld_modules r)), (''path'', VText path), (''ports'', VInteger (ld_ports r)),
      (''recovery_note'', VText (ld_recovery_note r)),
      (''registry_incarnation'', VInteger (ucast (ld_registry_incarnation r))),
      (''rules'', VInteger (ld_rules r)), (''samples'', VInteger (ld_samples r)),
      (''sources'', VInteger (ld_sources r)), (''tail_recovered'', VBoolean (ld_tail_recovered r)),
      (''thresholds'', VInteger (ld_thresholds r))]"

section \<open>What is built can be read\<close>

lemma enumerator_below:
  "ModuleFamily_code a < 256" "MediaClass_code b < 256" "ConnectorClass_code c < 256" "ReachClass_code d < 256"
  "PowerClass_code e < 256" "WavelengthGrid_code f < 256" "SpeedClass_code g < 256" "EncodingClass_code h < 256"
  "FecClass_code i < 256"
  subgoal by (cases a; simp)
  subgoal by (cases b; simp)
  subgoal by (cases c; simp)
  subgoal by (cases d; simp)
  subgoal by (cases e; simp)
  subgoal by (cases f; simp)
  subgoal by (cases g; simp)
  subgoal by (cases h; simp)
  subgoal by (cases i; simp)
  done

lemma small_code: "n < 256 \<Longrightarrow> 0 \<le> sint (word_of_nat n :: 64 word) \<and> sint (word_of_nat n :: 64 word) \<le> 255"
  by (simp add: sint_word_of_nat)

lemma parse_enum_value_range: "parse_enum_value key s = Some v \<Longrightarrow> 0 \<le> sint v \<and> sint v \<le> 255"
  unfolding parse_enum_value_def
  by (auto split: CapabilityKey.splits intro!: small_code enumerator_below simp del: of_nat_less_iff)

lemma parse_enum_parts_range:
  "parse_enum_parts key parts = Some vs \<Longrightarrow> v \<in> set vs \<Longrightarrow> 0 \<le> sint v \<and> sint v \<le> 255"
  by (induction parts arbitrary: vs) (auto split: if_splits option.splits dest: parse_enum_value_range)

lemma map_res_entries [simp]:
  "map_res as_integer_entry (map VInteger vs) = Inr vs" "map_res as_text_entry (map VText ts) = Inr ts"
  by (induction vs) (simp_all add: as_integer_entry_def, induction ts, simp_all add: as_text_entry_def)

lemma read_enum_set: "read_canonical (enum_set_document vs) = Inr (cap_enum_set vs)"
  by (simp add: enum_set_document_def read_canonical_def member_simps array_of_def)

lemma valid_enum_set:
  assumes "parse_enum_set_value key s = Some vs"
  shows "validate_shape (cap_enum_set vs) = Inr ()"
proof -
  have "\<forall>v \<in> set (canonical_enum_set vs). 0 \<le> sint v \<and> sint v \<le> 255"
    using assms parse_enum_parts_range canonical_enum_set_spec
    by (auto simp: parse_enum_set_value_def split: option.splits if_splits)
  then show ?thesis by (auto simp: cap_enum_set_def try_all_Inr)
qed

lemma command_value_cases:
  assumes "capability_value_document key s = Some document"
  shows "(\<exists>v. read_canonical document = Inr v \<and> cap_kind v = capability_value_kind key \<and>
       validate_for v key = Inr ()) \<or>
     (capability_value_kind key = CVK_Real \<and> (\<exists>d. parse_double s = Some d \<and> \<not> isfinite d) \<and>
       read_canonical document = Inl Malformed)"
proof -
  note read_simps = read_canonical_def member_simps array_of_def integer_of_def boolean_of_def real_of_def text_of_def
  have as_case: "(\<exists>v. read_canonical document = Inr v \<and> cap_kind v = capability_value_kind key \<and>
      validate_for v key = Inr ()) \<longleftrightarrow>
    (case read_canonical document of Inl _ \<Rightarrow> False
      | Inr v \<Rightarrow> cap_kind v = capability_value_kind key \<and> validate_for v key = Inr ())"
    by (cases "read_canonical document") simp_all
  have "(case read_canonical document of Inl _ \<Rightarrow> False
      | Inr v \<Rightarrow> cap_kind v = capability_value_kind key \<and> validate_for v key = Inr ()) \<or>
     (capability_value_kind key = CVK_Real \<and> (\<exists>d. parse_double s = Some d \<and> \<not> isfinite d) \<and>
       read_canonical document = Inl Malformed)" (is ?read)
  proof (cases "capability_value_kind key")
    case CVK_Boolean
    then show ?read
      using assms by (auto simp: capability_value_document_def read_simps validate_for_def Let_def split: if_splits)
  next
    case CVK_Count
    then show ?read
      using assms
      by (auto simp: capability_value_document_def read_simps validate_for_def Let_def split: if_splits option.splits)
  next
    case CVK_Real
    then show ?read
      using assms
      by (auto simp: capability_value_document_def read_simps validate_for_def Let_def split: if_splits option.splits)
  next
    case CVK_Text
    then show ?read
      using assms by (auto simp: capability_value_document_def read_simps validate_for_def Let_def)
  next
    case CVK_Enum
    then show ?read
      using assms
      by (auto simp: capability_value_document_def read_simps validate_for_def Let_def dest: parse_enum_value_range)
  next
    case CVK_EnumSet
    then obtain vs where "parse_enum_set_value key s = Some vs" "document = enum_set_document vs"
      using assms by (auto simp: capability_value_document_def)
    then show ?read
      using CVK_EnumSet valid_enum_set by (auto simp: read_enum_set validate_for_def Let_def cap_enum_set_def)
  next
    case CVK_TextSet
    then show ?read
      using assms
      by (auto simp: capability_value_document_def read_simps validate_for_def Let_def cap_text_set_def)
  qed (use assms in \<open>simp_all add: capability_value_document_def\<close>)
  then show ?thesis unfolding as_case .
qed


text \<open>
  A requirement that the command line accepts is read by the server as the requirement that was
  meant: subject, key and operator are those that the text names, with no sub-key; the operand is a
  valid value of the key, or a set of valid enumerators where a set operator is put on a key with one
  enumerator. The exception is again an infinity or a NaN.
\<close>

theorem command_requirements_read:
  assumes "requirement_document spec = Some document"
    and "requirement_parts spec = Some (subject, key, op', operand)"
  shows "decode_Requirement document = Inl Malformed \<and> (\<exists>d. parse_double operand = Some d \<and> \<not> isfinite d) \<or>
    (\<exists>rq. decode_Requirement document = Inr rq \<and>
       requirement_subject_from_string subject = Some (rq_subject rq) \<and>
       capability_key_from_string key = Some (rq_key rq) \<and>
       requirement_op_from_string op' = Some (rq_op rq) \<and> rq_op rq \<noteq> RO_Unknown \<and> rq_subkey rq = [] \<and>
       (if set_operator (rq_op rq) \<and> capability_value_kind (rq_key rq) = CVK_Enum
        then cap_kind (rq_operand rq) = CVK_EnumSet \<and> validate_shape (rq_operand rq) = Inr ()
        else validate_for (rq_operand rq) (rq_key rq) = Inr ()))"
proof -
  obtain subject' key' op'' value' where parts:
    "requirement_subject_from_string subject = Some subject'" "capability_key_from_string key = Some key'"
    "requirement_op_from_string op' = Some op''" "op'' \<noteq> RO_Unknown"
    and value': "(if set_operator op'' \<and> capability_value_kind key' = CVK_Enum
        then map_option enum_set_document (parse_enum_set_value key' operand)
        else capability_value_document key' operand) = Some value'"
    and doc: "document = value_object
       [(''key'', VInteger (word_of_nat (CapabilityKey_code key'))), (''note'', VText []),
        (''op'', VInteger (word_of_nat (RequirementOp_code op''))), (''operand'', value'),
        (''subject'', VInteger (word_of_nat (RequirementSubject_code subject'))), (''subkey'', VText [])]"
    using assms unfolding requirement_document_def by (auto split: option.splits if_splits)
  have decoded: "decode_Requirement document = try_res (read_canonical value') (\<lambda>v.
      Inr \<lparr>rq_subject = subject', rq_key = key', rq_subkey = [], rq_op = op'', rq_operand = v, rq_note = []\<rparr>)"
    by (simp add: doc decode_Requirement_def member_simps text_of_def decode_CapabilityValue_def)
  show ?thesis
  proof (cases "set_operator op'' \<and> capability_value_kind key' = CVK_Enum")
    case True
    then obtain vs where "parse_enum_set_value key' operand = Some vs" "value' = enum_set_document vs"
      using value' by auto
    then show ?thesis
      using parts True valid_enum_set [of key' operand vs]
      by (intro disjI2) (simp add: decoded read_enum_set cap_enum_set_def)
  next
    case False
    then have "capability_value_document key' operand = Some value'" using value' by (simp split: if_splits)
    from command_value_cases [OF this] show ?thesis
      using parts False by (elim disjE exE conjE) (simp_all add: decoded)
  qed
qed

text \<open>
  What \<open>compat-rules\<close> prints of a stored operand is what the codec would write, for every kind of
  value but one: an enumerator is printed as no value at all, so a printed rule that tests a family, a
  medium or a connector does not say which.
\<close>

theorem printed_operand_exact: "capability_value_to_value v = encode_CapabilityValue v \<longleftrightarrow> cap_kind v \<noteq> CVK_Enum"
proof (cases v)
  case (Cap_Enum i)
  have "value_find (encode_CapabilityValue v) ''i'' \<noteq> value_find (capability_value_to_value v) ''i''"
    by (simp add: Cap_Enum encode_CapabilityValue_def member_simps)
  then show ?thesis using Cap_Enum by auto
qed (simp_all add: encode_CapabilityValue_def enum_set_document_def encode_SpectrumDescriptor_def [abs_def])


lemma command_requirements_read_witness:
  "\<exists>rq. decode_Requirement (value_object
       [(''key'', VInteger (word_of_nat (CapabilityKey_code CK_LaneCount))), (''note'', VText []),
        (''op'', VInteger (word_of_nat (RequirementOp_code RO_AtLeast))),
        (''operand'', value_object [(''i'', VInteger 4), (''k'', VText ''count'')]),
        (''subject'', VInteger (word_of_nat (RequirementSubject_code RSub_Port))), (''subkey'', VText [])]) = Inr rq \<and>
     rq_op rq = RO_AtLeast"
proof -
  have parts: "requirement_parts ''port:lane_count:at_least:4'' = Some (''port'', ''lane_count'', ''at_least'', ''4'')"
    by code_simp
  have names: "requirement_subject_from_string ''port'' = Some RSub_Port"
    "capability_key_from_string ''lane_count'' = Some CK_LaneCount"
    "requirement_op_from_string ''at_least'' = Some RO_AtLeast"
    by (code_simp, code_simp, code_simp)
  have "requirement_document ''port:lane_count:at_least:4'' = Some (value_object
       [(''key'', VInteger (word_of_nat (CapabilityKey_code CK_LaneCount))), (''note'', VText []),
        (''op'', VInteger (word_of_nat (RequirementOp_code RO_AtLeast))),
        (''operand'', value_object [(''i'', VInteger 4), (''k'', VText ''count'')]),
        (''subject'', VInteger (word_of_nat (RequirementSubject_code RSub_Port))), (''subkey'', VText [])])"
    by (simp add: requirement_document_def parts names set_operator_def capability_value_document_def
        parse_signed_def is_digit_def digits_value_def)
  from command_requirements_read [OF this parts] names show ?thesis
    by (auto simp: decode_Requirement_def member_simps text_of_def decode_CapabilityValue_def read_canonical_def
        integer_of_def simp del: CapabilityKey_code.simps RequirementOp_code.simps RequirementSubject_code.simps)
qed

end
