(* ===== verification/Json.thy ===== *)
theory Json
  imports Numerals Canonical
begin

text \<open>
  The JSON rendering of a value for people and tools (\<open>Value::to_json\<close> in \<open>src/src/canonical.cpp\<close>), with
  the \<open>%.17g\<close> of \<open>snprintf\<close> written out. A rendered text can be read back: it is delimited by its
  quotes, holds no raw control character, and determines the text.
\<close>

section \<open>Text\<close>

definition hex_char :: "nat \<Rightarrow> char" where
  "hex_char n = ''0123456789abcdef'' ! n"

definition json_char :: "char \<Rightarrow> string" where
  "json_char ch =
     (if ch = CHR 0x22 then [CHR 0x5C, CHR 0x22]
      else if ch = CHR 0x5C then [CHR 0x5C, CHR 0x5C]
      else if ch = CHR 0x0A then [CHR 0x5C, CHR ''n'']
      else if ch = CHR 0x0D then [CHR 0x5C, CHR ''r'']
      else if ch = CHR 0x09 then [CHR 0x5C, CHR ''t'']
      else if (of_char ch :: nat) < 0x20 then
        [CHR 0x5C, CHR ''u'', CHR ''0'', CHR ''0'', hex_char (of_char ch div 16 mod 16), hex_char (of_char ch mod 16)]
      else [ch])"

definition json_string :: "string \<Rightarrow> string" where
  "json_string txt = CHR 0x22 # concat (map json_char txt) @ [CHR 0x22]"

section \<open>Numbers\<close>

text \<open>The decimal exponent of \<open>num / den\<close>, its rounding to 17 digits, and the layout of \<open>%g\<close>.\<close>

definition decimal_exponent :: "nat \<Rightarrow> nat \<Rightarrow> int" where
  "decimal_exponent num den =
     (if den \<le> num then int (length (nat_text (num div den))) - 1
      else - int (length (nat_text ((den + num - 1) div num - 1))))"

definition round_ratio :: "nat \<Rightarrow> nat \<Rightarrow> nat" where
  "round_ratio n d =
     (let q = n div d; r = n mod d in if 2 * r > d \<or> 2 * r = d \<and> odd q then q + 1 else q)"

definition seventeen_digits :: "nat \<Rightarrow> nat \<Rightarrow> string \<times> int" where
  "seventeen_digits num den =
     (let x = decimal_exponent num den;
          s = 16 - x;
          m = (if s \<ge> 0 then round_ratio (num * 10 ^ nat s) den else round_ratio num (den * 10 ^ nat (- s)))
      in if m = 10 ^ 17 then (nat_text (10 ^ 16), x + 1) else (nat_text m, x))"

definition strip_zeros :: "string \<Rightarrow> string" where
  "strip_zeros ds = rev (dropWhile (\<lambda>c. c = CHR ''0'') (rev ds))"

definition with_fraction :: "string \<Rightarrow> string \<Rightarrow> string" where
  "with_fraction whole frac =
     (if strip_zeros frac = [] then whole else whole @ CHR ''.'' # strip_zeros frac)"

definition real_text :: "double \<Rightarrow> string" where
  "real_text d =
     (let mag = mag_of_bits (dbl_bits d);
          body =
            (if mag = 0 then ''0''
             else
               case seventeen_digits mag (2 ^ 1074) of
                 (ds, x) \<Rightarrow>
                   if -4 \<le> x \<and> x < 17 then
                     if x \<ge> 0 then with_fraction (take (nat x + 1) ds) (drop (nat x + 1) ds)
                     else with_fraction ''0'' (replicate (nat (- x) - 1) CHR ''0'' @ ds)
                   else
                     with_fraction (take 1 ds) (drop 1 ds) @
                     (if x < 0 then ''e-'' else ''e+'') @
                     (if \<bar>x\<bar> < 10 then CHR ''0'' # nat_text (nat \<bar>x\<bar>) else nat_text (nat \<bar>x\<bar>)))
      in if dbl_neg d then CHR ''-'' # body else body)"

section \<open>Values\<close>

definition kRenderDepthLimit :: nat where
  "kRenderDepthLimit = 32"

fun joined :: "string list \<Rightarrow> string" where
  "joined [] = []"
| "joined [t] = t"
| "joined (t # ts) = t @ CHR '','' # joined ts"

definition json_binary :: "byte list \<Rightarrow> string" where
  "json_binary bs =
     CHR 0x22 # ''0x'' @ concat (map (\<lambda>b. [hex_char (unat b div 16), hex_char (unat b mod 16)]) bs) @ [CHR 0x22]"

text \<open>\<open>levels\<close> counts down from the depth limit.\<close>

primrec render_json :: "nat \<Rightarrow> Value \<Rightarrow> string" where
  "render_json 0 = (\<lambda>v. json_string ''<depth-limit>'')"
| "render_json (Suc levels) = (\<lambda>v. case v of
     VNull \<Rightarrow> ''null''
   | VBoolean b \<Rightarrow> if b then ''true'' else ''false''
   | VInteger i \<Rightarrow> int_text (sint i)
   | VUnsigned u \<Rightarrow> nat_text (unat u)
   | VReal d \<Rightarrow> if \<not> isfinite d then ''null'' else real_text d
   | VText s \<Rightarrow> json_string s
   | VBinary bs \<Rightarrow> json_binary bs
   | VArray vs \<Rightarrow> CHR ''['' # joined (map (render_json levels) vs) @ '']''
   | VObject ms \<Rightarrow>
       CHR ''{'' # joined (map (\<lambda>(key, v). json_string key @ CHR '':'' # render_json levels v) ms) @ ''}'')"

definition to_json :: "Value \<Rightarrow> string" where
  "to_json v = render_json (kRenderDepthLimit + 1) v"

section \<open>Rendered text can be read back\<close>

text \<open>A reader of JSON strings, for the escapes that the renderer writes.\<close>

definition hex_value :: "char \<Rightarrow> nat" where
  "hex_value c = (if is_digit c then of_char c - 48 else of_char c - 87)"

fun read_json_chars :: "string \<Rightarrow> (string \<times> string) option" where
  "read_json_chars (c # cs) =
     (if c = CHR 0x22 then Some ([], cs)
      else if (of_char c :: nat) < 0x20 then None
      else if c \<noteq> CHR 0x5C then map_option (apfst (Cons c)) (read_json_chars cs)
      else
        case cs of
          [] \<Rightarrow> None
        | e # cs' \<Rightarrow>
            if e = CHR 0x22 \<or> e = CHR 0x5C then map_option (apfst (Cons e)) (read_json_chars cs')
            else if e = CHR ''n'' then map_option (apfst (Cons (CHR 0x0A))) (read_json_chars cs')
            else if e = CHR ''r'' then map_option (apfst (Cons (CHR 0x0D))) (read_json_chars cs')
            else if e = CHR ''t'' then map_option (apfst (Cons (CHR 0x09))) (read_json_chars cs')
            else if e = CHR ''u'' then
              (case cs' of
                 a # b # x # y # ds \<Rightarrow>
                   map_option (apfst (Cons (char_of (hex_value x * 16 + hex_value y)))) (read_json_chars ds)
               | _ \<Rightarrow> None)
            else None)"
| "read_json_chars [] = None"

definition read_json_string :: "string \<Rightarrow> (string \<times> string) option" where
  "read_json_string txt =
     (case txt of CHR 0x22 # cs \<Rightarrow> read_json_chars cs | _ \<Rightarrow> None)"

lemma hex_value_char: "n < 16 \<Longrightarrow> hex_value (hex_char n) = n"
proof -
  have "\<forall>n \<in> set [0..<16]. hex_value (hex_char n) = n" by code_simp
  then show "n < 16 \<Longrightarrow> hex_value (hex_char n) = n" by simp
qed

lemma read_json_char:
  "read_json_chars (json_char ch @ rest) = map_option (apfst (Cons ch)) (read_json_chars rest)"
proof -
  consider "ch \<in> {CHR 0x22, CHR 0x5C, CHR 0x0A, CHR 0x0D, CHR 0x09}"
    | "ch \<notin> {CHR 0x22, CHR 0x5C, CHR 0x0A, CHR 0x0D, CHR 0x09}" "(of_char ch :: nat) < 0x20"
    | "ch \<notin> {CHR 0x22, CHR 0x5C, CHR 0x0A, CHR 0x0D, CHR 0x09}" "\<not> (of_char ch :: nat) < 0x20" by blast
  then show ?thesis
  proof cases
    case 1
    then show ?thesis by (auto simp: json_char_def)
  next
    case 2
    have "hex_value (hex_char (of_char ch div 16 mod 16)) * 16 + hex_value (hex_char (of_char ch mod 16)) = of_char ch"
      using 2(2) by (simp add: hex_value_char)
    then show ?thesis using 2 by (simp add: json_char_def)
  next
    case 3
    then show ?thesis by (simp add: json_char_def)
  qed
qed

text \<open>
  A text that is rendered as JSON is read back as the same text, wherever it stands: every quote,
  backslash and control character in it is escaped, so the rendering ends at its closing quote and
  nothing in a text can break out of its string.
\<close>

theorem json_string_roundtrip: "read_json_string (json_string s @ rest) = Some (s, rest)"
proof -
  have "read_json_chars (concat (map json_char s) @ CHR 0x22 # rest) = Some (s, rest)"
    by (induction s) (simp_all add: read_json_char)
  then show ?thesis by (simp add: read_json_string_def json_string_def)
qed

end
