(* ===== verification/Cli.thy ===== *)
theory Cli
  imports CliDocs Json
begin

text \<open>
  The command line client, \<open>src/tools/cli_main.cpp\<close>: the command line, the session that its subcommands
  share, and every subcommand. A subcommand turns its options into request documents and
  performs them on the registry in the process or over a connection.

  A subcommand is a function of the session; it ends with a value or with an \<open>Exit\<close>. The session keeps
  the options of the running subcommand with their marks of use, and the documents printed so far.
  Overflow of the products with a million is undefined in C++; the model wraps.
\<close>

section \<open>The command line\<close>

record CliOption =
  op_name :: string
  op_value :: string
  op_used :: bool

record Command =
  cm_name :: string
  cm_options :: "CliOption list"

record Arguments =
  ar_server :: string
  ar_snapshot :: string
  ar_commands :: "Command list"

definition is_option :: "string \<Rightarrow> bool" where
  "is_option token \<longleftrightarrow> take 2 token = ''--''"

text \<open>The global prefix.\<close>

fun parse_prefix :: "string list \<Rightarrow> string \<Rightarrow> string \<Rightarrow> (string \<times> string \<times> string list) option" where
  "parse_prefix [] server snapshot = Some (server, snapshot, [])"
| "parse_prefix [token] server snapshot =
     (if token = ''--server'' \<or> token = ''--snapshot'' then None else Some (server, snapshot, [token]))"
| "parse_prefix (token # arg # rest) server snapshot =
     (if token = ''--server'' then parse_prefix rest arg snapshot
      else if token = ''--snapshot'' then parse_prefix rest server arg
      else Some (server, snapshot, token # arg # rest))"

text \<open>The options of a subcommand, and what follows them.\<close>

fun parse_options :: "string list \<Rightarrow> (CliOption list \<times> string list) option" where
  "parse_options [] = Some ([], [])"
| "parse_options [token] = (if is_option token then None else Some ([], [token]))"
| "parse_options (token # arg # rest) =
     (if \<not> is_option token then Some ([], token # arg # rest)
      else if is_option arg then None
      else
        map_option (apfst (Cons \<lparr>op_name = token, op_value = arg, op_used = False\<rparr>)) (parse_options rest))"

lemma parse_options_shorter: "parse_options tokens = Some (opts, rest) \<Longrightarrow> length rest \<le> length tokens"
proof (induction tokens arbitrary: opts rest rule: parse_options.induct)
  case (3 token arg tokens)
  then show ?case by (fastforce split: if_splits)
qed (auto split: if_splits)

function parse_commands :: "string list \<Rightarrow> Command list option" where
  "parse_commands [] = Some []"
| "parse_commands (name # tokens) =
     (if is_option name then None
      else
        case parse_options tokens of
          None \<Rightarrow> None
        | Some (opts, rest) \<Rightarrow>
            map_option (Cons \<lparr>cm_name = name, cm_options = opts\<rparr>) (parse_commands rest))"
  by pat_completeness auto

termination parse_commands
  by (relation "measure length") (auto dest: parse_options_shorter)

definition parse_arguments :: "string list \<Rightarrow> Arguments option" where
  "parse_arguments argv =
     (case parse_prefix argv [] [] of
        None \<Rightarrow> None
      | Some (server, snapshot, rest) \<Rightarrow>
          case parse_commands rest of
            None \<Rightarrow> None
          | Some [] \<Rightarrow> None
          | Some commands \<Rightarrow> Some \<lparr>ar_server = server, ar_snapshot = snapshot, ar_commands = commands\<rparr>)"

section \<open>The session\<close>

record Session =
  se_remote :: bool
  se_endpoint :: string
  se_snapshot :: string
  se_daemon :: Daemon
  se_client :: Client
  se_source :: "AuthorityToken option"
  se_modules :: "(string, ModuleHandle) omap"
  se_scratch :: "Registry option"
  se_scratch_ready :: bool
  se_ticks :: nat
  se_options :: "CliOption list"
  se_printed :: "Value list"

definition new_session :: "bool \<Rightarrow> string \<Rightarrow> string \<Rightarrow> Daemon \<Rightarrow> Client \<Rightarrow> Session" where
  "new_session remote endpoint snapshot d client =
     \<lparr>se_remote = remote, se_endpoint = endpoint, se_snapshot = snapshot, se_daemon = d, se_client = client,
      se_source = None, se_modules = [], se_scratch = None, se_scratch_ready = False, se_ticks = 0,
      se_options = [], se_printed = []\<rparr>"

text \<open>What the program is run in: the texts for people, and what the clock reads at each use,
  the environment variables and the process number.\<close>

record CliHost =
  en_host :: Host
  en_clocks :: "nat \<Rightarrow> Clock"
  en_variables :: "string \<Rightarrow> string option"
  en_pid :: nat

datatype Exit = Exit_usage | Exit_failed StatusCode

text \<open>The exit code of a run, of which nothing is kept when it succeeds.\<close>

fun exit_code :: "Exit option \<Rightarrow> nat" where
  "exit_code None = 0"
| "exit_code (Some (Exit_failed _)) = 1"
| "exit_code (Some Exit_usage) = 2"

type_synonym 'a cmd = "Session \<Rightarrow> Session \<times> (Exit + 'a)"

definition give :: "'a \<Rightarrow> 'a cmd" where
  "give x s = (s, Inr x)"

definition quit :: "Exit \<Rightarrow> 'a cmd" where
  "quit e s = (s, Inl e)"

definition chain :: "'a cmd \<Rightarrow> ('a \<Rightarrow> 'b cmd) \<Rightarrow> 'b cmd" where
  "chain m k s = (case m s of (s, Inl e) \<Rightarrow> (s, Inl e) | (s, Inr x) \<Rightarrow> k x s)"

definition needs :: "'a option \<Rightarrow> ('a \<Rightarrow> 'b cmd) \<Rightarrow> 'b cmd" where
  "needs r k = (case r of None \<Rightarrow> quit Exit_usage | Some x \<Rightarrow> k x)"

text \<open>Reading the options: the first of a name, or all of them, marked as used.\<close>

fun mark_first :: "string \<Rightarrow> CliOption list \<Rightarrow> CliOption list" where
  "mark_first name [] = []"
| "mark_first name (opt # opts) =
     (if op_name opt = name then opt \<lparr>op_used := True\<rparr> # opts else opt # mark_first name opts)"

definition take_option :: "string \<Rightarrow> string option cmd" where
  "take_option name s =
     (s \<lparr>se_options := mark_first name (se_options s)\<rparr>,
      Inr (map_option op_value (List.find (\<lambda>opt. op_name opt = name) (se_options s))))"

definition all_options :: "string \<Rightarrow> string list cmd" where
  "all_options name s =
     (s \<lparr>se_options := map (\<lambda>opt. if op_name opt = name then opt \<lparr>op_used := True\<rparr> else opt) (se_options s)\<rparr>,
      Inr (map op_value (filter (\<lambda>opt. op_name opt = name) (se_options s))))"

definition option_or :: "string \<Rightarrow> string \<Rightarrow> string cmd" where
  "option_or name fallback = chain (take_option name) (\<lambda>v. give (case v of None \<Rightarrow> fallback | Some x \<Rightarrow> x))"

definition required_option :: "string \<Rightarrow> string cmd" where
  "required_option name = chain (take_option name) (\<lambda>v. needs v give)"

definition filled_option :: "string \<Rightarrow> string cmd" where
  "filled_option name = chain (required_option name) (\<lambda>v. if v = [] then quit Exit_usage else give v)"

text \<open>An option that is parsed where it is given.\<close>

definition parsed_or :: "string \<Rightarrow> (string \<Rightarrow> 'a option) \<Rightarrow> 'a \<Rightarrow> 'a cmd" where
  "parsed_or name parse fallback =
     chain (take_option name) (\<lambda>v. case v of None \<Rightarrow> give fallback | Some s \<Rightarrow> needs (parse s) give)"

definition print_document :: "Value \<Rightarrow> unit cmd" where
  "print_document document s = (s \<lparr>se_printed := se_printed s @ [document]\<rparr>, Inr ())"

definition read_clock :: "CliHost \<Rightarrow> Clock cmd" where
  "read_clock env s = (s \<lparr>se_ticks := se_ticks s + 1\<rparr>, Inr (en_clocks env (se_ticks s)))"

definition file_size :: "string \<Rightarrow> Session \<Rightarrow> 64 word" where
  "file_size path s =
     (case dk_files (da_disk (se_daemon s)) path of None \<Rightarrow> 0 | Some bytes \<Rightarrow> word_of_nat (length bytes))"

definition file_exists :: "string \<Rightarrow> Session \<Rightarrow> bool" where
  "file_exists path s \<longleftrightarrow> dk_files (da_disk (se_daemon s)) path \<noteq> None"

section \<open>Requests\<close>

text \<open>What is made of the outcome of a dispatch in the process.\<close>

definition read_outcome :: "RequestOutcome \<Rightarrow> Value res" where
  "read_outcome outcome =
     (let failure = value_find (ro_body outcome) ''error''
      in if ro_type outcome = MT_Failure \<or> failure \<noteq> None then
           Inl (case failure of
                  None \<Rightarrow> Internal
                | Some f \<Rightarrow>
                    (case value_find f ''code'' of
                       Some (VText code) \<Rightarrow>
                         (case status_code_from_string code of None \<Rightarrow> Internal | Some c \<Rightarrow> c)
                     | _ \<Rightarrow> Internal))
         else case value_find (ro_body outcome) ''result'' of None \<Rightarrow> Inl Internal | Some result \<Rightarrow> Inr result)"

definition perform :: "CliHost \<Rightarrow> string \<Rightarrow> Value \<Rightarrow> Session \<Rightarrow> Session \<times> Value res" where
  "perform env op' parameters s =
     (if \<not> se_remote s then
        case dispatch (en_host env) (en_clocks env (se_ticks s)) (call_document 1 op' parameters) (se_daemon s) of
          (d, outcome) \<Rightarrow> (s \<lparr>se_daemon := d, se_ticks := se_ticks s + 1\<rparr>, read_outcome outcome)
      else
        case call op' parameters (se_client s) of (c, r) \<Rightarrow> (s \<lparr>se_client := c\<rparr>, r))"

text \<open>A request whose failure ends the subcommand.\<close>

definition request :: "CliHost \<Rightarrow> string \<Rightarrow> Value \<Rightarrow> Value cmd" where
  "request env op' parameters s =
     (case perform env op' parameters s of
        (s, Inl code) \<Rightarrow> (s, Inl (Exit_failed code))
      | (s, Inr document) \<Rightarrow> (s, Inr document))"

definition request_and_print :: "CliHost \<Rightarrow> string \<Rightarrow> Value \<Rightarrow> unit cmd" where
  "request_and_print env op' parameters = chain (request env op' parameters) print_document"

text \<open>The one source that a run speaks as.\<close>

definition source_parameters :: Value where
  "source_parameters = value_object
     [(''description'', VText ''Transceiver Registry command line utility''),
      (''instance_id'', VText ''trxreg-cli''), (''kind'', VText ''synthetic''), (''name'', VText ''trxreg-cli'')]"

definition source_of_document :: "Value \<Rightarrow> AuthorityToken option" where
  "source_of_document document =
     (case (value_find document ''id'', value_find document ''epoch'') of
        (Some (VInteger i), Some (VInteger e)) \<Rightarrow>
          if sint i \<le> 0 then None else Some \<lparr>at_source = ucast i, at_epoch = ucast e\<rparr>
      | _ \<Rightarrow> None)"

definition ensure_source :: "CliHost \<Rightarrow> AuthorityToken cmd" where
  "ensure_source env s =
     (case se_source s of
        Some authority \<Rightarrow> (s, Inr authority)
      | None \<Rightarrow>
          chain (request env ''source.register'' source_parameters) (\<lambda>document s.
            case source_of_document document of
              None \<Rightarrow> (s, Inl (Exit_failed Internal))
            | Some authority \<Rightarrow> (s \<lparr>se_source := Some authority\<rparr>, Inr authority)) s)"

text \<open>The local mirror that resolves keys in remote mode.\<close>

definition load_defaults :: LoadOptions where
  "load_defaults =
     \<lparr>lo_allow_tail_recovery = True, lo_require_supported_version = True, lo_limits = limits_snapshot\<rparr>"

definition ensure_scratch :: "CliHost \<Rightarrow> Session \<Rightarrow> Session" where
  "ensure_scratch env s =
     (if se_scratch_ready s then s
      else
        let s = s \<lparr>se_scratch_ready := True\<rparr>
        in if se_snapshot s = [] \<or> \<not> file_exists (se_snapshot s) s then s
           else
             case load_snapshot (en_clocks env (se_ticks s)) (se_snapshot s) load_defaults
                 (da_disk (se_daemon s)) (Registry_init config_default) of
               (_, Inl _) \<Rightarrow> s \<lparr>se_ticks := se_ticks s + 1\<rparr>
             | (rg, Inr _) \<Rightarrow> s \<lparr>se_scratch := Some rg, se_ticks := se_ticks s + 1\<rparr>)"

definition handle_of_view :: "IdentityView \<Rightarrow> ModuleHandle" where
  "handle_of_view view =
     \<lparr>mo_uid = vw_uid view, mo_incarnation = vw_incarnation view, mo_generation = vw_generation view,
      mo_key = vw_key view\<rparr>"

text \<open>\<open>identity_by_key\<close> counts as a query, and its \<open>identity\<close> as another.\<close>

definition lookup_key :: "string \<Rightarrow> Registry \<Rightarrow> Registry \<times> ModuleHandle res" where
  "lookup_key key rg =
     (rg \<lparr>rg_queries := rg_queries rg +
        (if oget (st_module_uid_by_key (rg_state rg)) key = None then 1 else 2)\<rparr>,
      map_sum id handle_of_view (identity_by_key key (rg_state rg)))"

definition register_parameters ::
    "AuthorityToken \<Rightarrow> Value list \<Rightarrow> string \<Rightarrow> string \<Rightarrow> Value \<Rightarrow> Value" where
  "register_parameters authority identity' intent' key provenance' = value_object
     [(''authority'', authority_document authority), (''expected_generation'', VInteger 0),
      (''identity'', VArray identity'), (''intent'', VText intent'), (''key'', VText key),
      (''policy'', VText ''auto_retry''), (''provenance'', provenance')]"

definition resolve_by_registration :: "CliHost \<Rightarrow> string \<Rightarrow> ModuleHandle cmd" where
  "resolve_by_registration env key =
     chain (ensure_source env) (\<lambda>authority.
       case parse_key key of
         Inl _ \<Rightarrow> quit Exit_usage
       | Inr _ \<Rightarrow>
           chain (request env ''module.register'' (register_parameters authority [] ''current'' key
               (provenance_document EK_Synthetic ''trxreg-cli'' ''key-resolution''))) (\<lambda>document s.
             case read_module_handle_document document of
               None \<Rightarrow> (s, Inl (Exit_failed Internal))
             | Some h \<Rightarrow> (s \<lparr>se_modules := oput key h (se_modules s)\<rparr>, Inr h)))"

definition resolve_by_key :: "CliHost \<Rightarrow> string \<Rightarrow> ModuleHandle cmd" where
  "resolve_by_key env key s =
     (if \<not> se_remote s then
        case lookup_key key (da_registry (se_daemon s)) of
          (rg, r) \<Rightarrow>
            (s \<lparr>se_daemon := se_daemon s \<lparr>da_registry := rg\<rparr>\<rparr>,
             case r of Inl code \<Rightarrow> Inl (Exit_failed code) | Inr h \<Rightarrow> Inr h)
      else
        let s = ensure_scratch env s
        in case se_scratch s of
             None \<Rightarrow> resolve_by_registration env key s
           | Some rg \<Rightarrow>
               case lookup_key key rg of
                 (rg, Inr h) \<Rightarrow> (s \<lparr>se_scratch := Some rg\<rparr>, Inr h)
               | (rg, Inl _) \<Rightarrow> resolve_by_registration env key (s \<lparr>se_scratch := Some rg\<rparr>))"

text \<open>The handle given by \<open>--uid\<close> and \<open>--incarnation\<close>.\<close>

definition given_reference :: "string \<Rightarrow> string option \<Rightarrow> string option \<Rightarrow> ModuleHandle option" where
  "given_reference key uid_text incarnation_text =
     (case (Option.bind uid_text parse_unsigned, Option.bind incarnation_text parse_unsigned) of
        (Some uid', Some incarnation') \<Rightarrow>
          if uid' = 0 \<or> incarnation' = 0 \<or> incarnation' > 0xFFFFFFFF then None
          else
            (case parse_key key of
               Inl _ \<Rightarrow> None
             | Inr parsed_key \<Rightarrow>
                 Some \<lparr>mo_uid = uid', mo_incarnation = ucast incarnation', mo_generation = 0,
                       mo_key = parsed_key\<rparr>)
      | _ \<Rightarrow> None)"

definition resolve_module :: "CliHost \<Rightarrow> string \<Rightarrow> ModuleHandle cmd" where
  "resolve_module env key s =
     (if key = [] then (s, Inl Exit_usage)
      else
        case oget (se_modules s) key of
          Some h \<Rightarrow> (s, Inr h)
        | None \<Rightarrow>
            chain (take_option ''--uid'') (\<lambda>uid_text.
            chain (take_option ''--incarnation'') (\<lambda>incarnation_text.
              if uid_text \<noteq> None \<or> incarnation_text \<noteq> None
              then needs (given_reference key uid_text incarnation_text) give
              else resolve_by_key env key)) s)"

section \<open>Subcommands that inspect and save\<close>

definition put :: "string \<Rightarrow> Value \<Rightarrow> Value \<Rightarrow> Value" where
  "put key v document = (case value_set document key v of None \<Rightarrow> document | Some d \<Rightarrow> d)"

definition info_fields :: "string list" where
  "info_fields = [''attachments'', ''claims'', ''declarations'', ''generation'', ''live_attachments'', ''modules'',
     ''mutations'', ''ports'', ''queries'', ''refusals'', ''rules'', ''samples'', ''sources'', ''thresholds'',
     ''state_digest'']"

definition info_document :: "Session \<Rightarrow> Value \<Rightarrow> Value \<Rightarrow> Value" where
  "info_document s greeting counters =
     (let document = value_object [];
          document = put ''mode'' (VText (if se_remote s then ''remote'' else ''in-process'')) document;
          document = put ''endpoint'' (VText (se_endpoint s)) document;
          document = put ''version'' (VText version_string) document;
          document = put ''snapshot_format_version'' (VInteger (ucast kSnapshotFormatVersion)) document;
          document = put ''wire_protocol_version'' (VInteger (integer_field greeting ''protocol'' 0)) document;
          document = put ''registry_incarnation'' (VInteger (integer_field greeting ''registry_incarnation'' 0)) document
      in fold (\<lambda>field document.
           case value_find counters field of None \<Rightarrow> document | Some v \<Rightarrow> put field v document) info_fields document)"

definition run_info :: "CliHost \<Rightarrow> unit cmd" where
  "run_info env =
     chain (request env ''hello'' (value_object [])) (\<lambda>greeting.
     chain (request env ''registry.stats'' (value_object [])) (\<lambda>counters s.
       print_document (info_document s greeting counters) s))"

definition run_save :: "CliHost \<Rightarrow> unit cmd" where
  "run_save env =
     chain (filled_option ''--out'') (\<lambda>path.
     chain (request env ''registry.save'' (value_object [(''path'', VText path)])) (\<lambda>document s.
       print_document (put ''path'' (VText path) (put ''bytes'' (VInteger (file_size path s)) document)) s))"

definition inspect_file :: "CliHost \<Rightarrow> string \<Rightarrow> unit cmd" where
  "inspect_file env path =
     chain (read_clock env) (\<lambda>ck s.
       case inspect_snapshot ck path load_defaults (da_disk (se_daemon s)) of
         Inl code \<Rightarrow> (s, Inl (Exit_failed code))
       | Inr r \<Rightarrow> print_document (load_report_document r path (file_size path s)) s)"

definition run_inspect :: "CliHost \<Rightarrow> unit cmd" where
  "run_inspect env =
     chain (take_option ''--snapshot'') (\<lambda>given_path s.
       let path = (case given_path of None \<Rightarrow> se_snapshot s | Some p \<Rightarrow> p)
       in if path = [] then (s, Inl Exit_usage) else inspect_file env path s)"

definition rules_document :: "Registry \<Rightarrow> Value" where
  "rules_document rg = value_object
     [(''count'', VInteger (word_of_nat (length (rules (rg_state rg))))),
      (''rules'', VArray (map compat_rule_record_to_value (rules (rg_state rg))))]"

definition run_compat_rules :: "CliHost \<Rightarrow> unit cmd" where
  "run_compat_rules env s =
     (if \<not> se_remote s then print_document (rules_document (da_registry (se_daemon s))) s
      else
        let s = ensure_scratch env s
        in case se_scratch s of
             None \<Rightarrow> (s, Inl (Exit_failed Unsupported))
           | Some rg \<Rightarrow> print_document (rules_document rg) s)"

section \<open>Subcommands that register\<close>

definition parse_evidence_kind :: "string \<Rightarrow> EvidenceKind option" where
  "parse_evidence_kind s =
     (if s = ''real'' then Some EK_Real else if s = ''synthetic'' then Some EK_Synthetic else None)"

definition run_source_register :: "CliHost \<Rightarrow> unit cmd" where
  "run_source_register env =
     chain (filled_option ''--name'') (\<lambda>source_name.
     chain (option_or ''--kind'' ''synthetic'') (\<lambda>kind_text.
     needs (parse_evidence_kind kind_text) (\<lambda>_.
     chain (option_or ''--instance'' []) (\<lambda>instance'.
       request_and_print env ''source.register'' (value_object
         [(''description'', VText ''registered by trxreg_cli''), (''instance_id'', VText instance'),
          (''kind'', VText kind_text), (''name'', VText source_name)])))))"

definition identity_options :: "(string \<times> IdentityField) list" where
  "identity_options = [(''--vendor'', IF_Vendor), (''--part'', IF_PartNumber), (''--serial'', IF_SerialNumber),
     (''--revision'', IF_Revision), (''--firmware'', IF_FirmwareVersion)]"

fun take_identity :: "(string \<times> IdentityField) list \<Rightarrow> Value list cmd" where
  "take_identity [] = give []"
| "take_identity ((name, field) # rest) =
     chain (take_option name) (\<lambda>v.
     chain (take_identity rest) (\<lambda>entries.
       give (case v of
               None \<Rightarrow> entries
             | Some s \<Rightarrow> value_object
                 [(''field'', VInteger (word_of_nat (IdentityField_code field))), (''subkey'', VText []),
                  (''value'', VText s)] # entries)))"

text \<open>The authority of \<open>module-register\<close>: the given source, or that of the run.\<close>

definition given_authority :: "string option \<Rightarrow> string option \<Rightarrow> AuthorityToken option" where
  "given_authority source_text epoch_text =
     (case (Option.bind source_text parse_u32, Option.bind epoch_text parse_u32) of
        (Some i, Some e) \<Rightarrow> if i = 0 \<or> e = 0 then None else Some \<lparr>at_source = i, at_epoch = e\<rparr>
      | _ \<Rightarrow> None)"

definition run_module_register :: "CliHost \<Rightarrow> unit cmd" where
  "run_module_register env =
     chain (filled_option ''--key'') (\<lambda>key.
     case parse_key key of
       Inl _ \<Rightarrow> quit Exit_usage
     | Inr _ \<Rightarrow>
     chain (option_or ''--intent'' ''current'') (\<lambda>intent_text.
     needs (register_intent_from_string intent_text) (\<lambda>_.
     chain (option_or ''--kind'' ''synthetic'') (\<lambda>kind_text.
     needs (parse_evidence_kind kind_text) (\<lambda>kind.
     chain (option_or ''--origin'' ''trxreg-cli'') (\<lambda>origin.
     chain (option_or ''--method'' ''declared'') (\<lambda>method.
     chain (take_identity identity_options) (\<lambda>identity'.
     chain (take_option ''--source-id'') (\<lambda>source_text.
     chain (take_option ''--source-epoch'') (\<lambda>epoch_text.
     chain (if source_text \<noteq> None \<or> epoch_text \<noteq> None
            then needs (given_authority source_text epoch_text) give else ensure_source env) (\<lambda>authority.
     chain (request env ''module.register'' (register_parameters authority identity' intent_text key
         (provenance_document kind origin method))) (\<lambda>document s.
       print_document document
         (case read_module_handle_document document of
            None \<Rightarrow> s
          | Some h \<Rightarrow> s \<lparr>se_modules := oput key h (se_modules s)\<rparr>)))))))))))))"

section \<open>Subcommands on a module\<close>

definition cli_provenance :: "string \<Rightarrow> Value" where
  "cli_provenance method = provenance_document EK_Synthetic ''trxreg-cli'' method"

definition run_detach :: "CliHost \<Rightarrow> unit cmd" where
  "run_detach env =
     chain (filled_option ''--slot'') (\<lambda>slot.
     chain (ensure_source env) (\<lambda>authority.
       request_and_print env ''attachment.detach'' (value_object
         [(''authority'', authority_document authority), (''policy'', VText ''auto_retry''),
          (''slot'', VText slot)])))"

text \<open>The attribute and the value of a publication.\<close>

definition take_capability :: "(string \<times> string \<times> Value) cmd" where
  "take_capability =
     chain (filled_option ''--attr'') (\<lambda>attribute.
     chain (required_option ''--value'') (\<lambda>txt.
     needs (capability_key_from_string attribute) (\<lambda>key.
     chain (option_or ''--subkey'' []) (\<lambda>subkey.
     needs (capability_value_document key txt) (\<lambda>v.
       give (attribute, subkey, v))))))"

definition run_port_publish :: "CliHost \<Rightarrow> string \<Rightarrow> unit cmd" where
  "run_port_publish env port =
     (if port = [] then quit Exit_usage
      else
        chain take_capability (\<lambda>(attribute, subkey, v).
        chain (ensure_source env) (\<lambda>authority.
          request_and_print env ''port.capability.publish'' (value_object
            [(''authority'', authority_document authority), (''key'', VText attribute),
             (''policy'', VText ''auto_retry''), (''port'', VText port),
             (''provenance'', cli_provenance ''declared''), (''subkey'', VText subkey), (''value'', v)]))))"

definition run_publish :: "CliHost \<Rightarrow> ModuleHandle \<Rightarrow> AuthorityToken \<Rightarrow> unit cmd" where
  "run_publish env h authority =
     chain take_capability (\<lambda>(attribute, subkey, v).
       request_and_print env ''capability.publish'' (value_object
         [(''authority'', authority_document authority), (''key'', VText attribute),
          (''module'', module_handle_document h), (''policy'', VText ''auto_retry''),
          (''provenance'', cli_provenance ''declared''), (''subkey'', VText subkey), (''value'', v)]))"

definition run_attach :: "CliHost \<Rightarrow> ModuleHandle \<Rightarrow> AuthorityToken \<Rightarrow> unit cmd" where
  "run_attach env h authority =
     chain (filled_option ''--slot'') (\<lambda>slot.
     chain (parsed_or ''--port-index'' parse_u32 0) (\<lambda>port_index.
       request_and_print env ''attachment.attach'' (value_object
         [(''authority'', authority_document authority), (''module'', module_handle_document h),
          (''policy'', VText ''auto_retry''), (''port_index'', VInteger (ucast port_index)),
          (''slot'', VText slot)])))"

definition run_compat_query :: "CliHost \<Rightarrow> ModuleHandle \<Rightarrow> unit cmd" where
  "run_compat_query env h =
     chain (filled_option ''--port'') (\<lambda>port.
       request_and_print env ''compat.query'' (value_object
         [(''explain'', VBoolean True), (''expected_generation'', VInteger 0),
          (''incarnation'', VInteger (ucast (mo_incarnation h))), (''port'', VText port),
          (''require_latest_generation'', VBoolean False), (''uid'', VInteger (mo_uid h))]))"

definition lifecycle_parameters :: "ModuleHandle \<Rightarrow> AuthorityToken \<Rightarrow> Value" where
  "lifecycle_parameters h authority = value_object
     [(''authority'', authority_document authority), (''module'', module_handle_document h),
      (''policy'', VText ''auto_retry'')]"

definition run_transition :: "CliHost \<Rightarrow> ModuleHandle \<Rightarrow> AuthorityToken \<Rightarrow> unit cmd" where
  "run_transition env h authority =
     chain (filled_option ''--state'') (\<lambda>state'.
     chain (required_option ''--reason'') (\<lambda>reason.
     needs (lifecycle_state_from_string state') (\<lambda>_.
       request_and_print env ''lifecycle.transition''
         (put ''state'' (VText state') (put ''reason'' (VText reason) (lifecycle_parameters h authority))))))"

text \<open>The metrics that a sample or a threshold may name.\<close>

definition parse_metric :: "string \<Rightarrow> HealthMetric option" where
  "parse_metric s =
     (case health_metric_from_string s of
        None \<Rightarrow> None
      | Some m \<Rightarrow> if m = HM_Unknown \<or> m = HM_Unsupported then None else Some m)"

definition run_health_ingest :: "CliHost \<Rightarrow> ModuleHandle \<Rightarrow> AuthorityToken \<Rightarrow> unit cmd" where
  "run_health_ingest env h authority =
     chain (filled_option ''--metric'') (\<lambda>metric_text.
     chain (required_option ''--value'') (\<lambda>value_text.
     needs (parse_metric metric_text) (\<lambda>metric.
     needs (parse_double value_text) (\<lambda>measured.
     chain (parsed_or ''--lane'' parse_u16 kModuleLane) (\<lambda>lane'.
     chain (option_or ''--presence'' ''present'') (\<lambda>presence_text.
     needs (sample_presence_from_string presence_text) (\<lambda>presence.
     chain (parsed_or ''--observed-offset-ms'' parse_signed 0) (\<lambda>offset_ms.
     chain (read_clock env) (\<lambda>ck.
       request_and_print env ''health.ingest'' (value_object
         [(''authority'', authority_document authority), (''module'', module_handle_document h),
          (''policy'', VText ''auto_retry''),
          (''sample'', value_object
             [(''clock_domain'', VInteger 0), (''lane'', VInteger (ucast lane')),
              (''metric'', VInteger (word_of_nat (HealthMetric_code metric))),
              (''observed_at_monotonic_ns'', VInteger 0),
              (''observed_at_wall_ns'', VInteger (word_of_int (ck_wall ck + sint offset_ms * 1000000))),
              (''presence'', VInteger (word_of_nat (SamplePresence_code presence))),
              (''provenance'', cli_provenance ''sampled''), (''value'', VReal measured)])]))))))))))"

definition read_operation :: "string \<Rightarrow> string" where
  "read_operation name =
     (if name = ''capabilities'' then ''module.capabilities''
      else if name = ''evidence'' then ''evidence.summary''
      else if name = ''health'' then ''health.report''
      else ''module.identity'')"

definition run_on_module :: "CliHost \<Rightarrow> string \<Rightarrow> unit cmd" where
  "run_on_module env name =
     chain (required_option ''--key'') (\<lambda>key.
     chain (resolve_module env key) (\<lambda>h.
       if name = ''identity'' \<or> name = ''capabilities'' \<or> name = ''evidence'' \<or> name = ''health''
       then request_and_print env (read_operation name) (module_reference_document h)
       else
         chain (ensure_source env) (\<lambda>authority.
           if name = ''capability-publish'' then run_publish env h authority
           else if name = ''attach'' then run_attach env h authority
           else if name = ''compat-query'' then run_compat_query env h
           else if name = ''transition'' then run_transition env h authority
           else if name = ''reconcile''
             then request_and_print env ''lifecycle.reconcile'' (lifecycle_parameters h authority)
           else run_health_ingest env h authority)))"

definition run_capability_publish :: "CliHost \<Rightarrow> unit cmd" where
  "run_capability_publish env =
     chain (take_option ''--port'') (\<lambda>port.
       case port of None \<Rightarrow> run_on_module env ''capability-publish'' | Some p \<Rightarrow> run_port_publish env p)"

section \<open>Subcommands that publish policy\<close>

text \<open>The two limits of a band, which are given together.\<close>

definition take_band :: "string \<Rightarrow> string \<Rightarrow> (double \<times> double) option cmd" where
  "take_band enter_name exit_name =
     chain (parsed_or enter_name (\<lambda>s. map_option Some (parse_double s)) None) (\<lambda>enter.
     chain (parsed_or exit_name (\<lambda>s. map_option Some (parse_double s)) None) (\<lambda>leave.
       case (enter, leave) of
         (None, None) \<Rightarrow> give None
       | (Some x, Some y) \<Rightarrow> give (Some (x, y))
       | _ \<Rightarrow> quit Exit_usage))"

definition parse_positive_u32 :: "string \<Rightarrow> 32 word option" where
  "parse_positive_u32 s = (case parse_u32 s of None \<Rightarrow> None | Some n \<Rightarrow> if n = 0 then None else Some n)"

definition parse_max_age :: "string \<Rightarrow> 64 word option" where
  "parse_max_age s = (case parse_signed s of None \<Rightarrow> None | Some n \<Rightarrow> if sint n \<le> 0 then None else Some n)"

definition parse_direction :: "string \<Rightarrow> ThresholdDirection option" where
  "parse_direction s = (if s = ''above'' then Some TD_Above else if s = ''below'' then Some TD_Below else None)"

definition threshold_document ::
    "HealthMetric \<Rightarrow> 64 word \<Rightarrow> ThresholdDirection \<Rightarrow> (double \<times> double) option \<Rightarrow> (double \<times> double) option \<Rightarrow>
     32 word \<Rightarrow> 32 word \<Rightarrow> double \<Rightarrow> Value" where
  "threshold_document metric max_age_ms direction degraded critical escalate recover tolerance =
     (let (degraded_enter, degraded_exit) = (case degraded of None \<Rightarrow> (0, 0) | Some band \<Rightarrow> band);
          (critical_enter, critical_exit) = (case critical of None \<Rightarrow> (0, 0) | Some band \<Rightarrow> band)
      in value_object
        [(''critical_enter'', VReal critical_enter), (''critical_exit'', VReal critical_exit),
         (''degraded_enter'', VReal degraded_enter), (''degraded_exit'', VReal degraded_exit),
         (''direction'', VInteger (word_of_nat (ThresholdDirection_code direction))),
         (''disagreement_tolerance'', VReal tolerance), (''escalate_after'', VInteger (ucast escalate)),
         (''generation'', VInteger 0), (''has_critical'', VBoolean (critical \<noteq> None)),
         (''has_degraded'', VBoolean (degraded \<noteq> None)), (''lane'', VInteger (ucast kModuleLane)),
         (''live'', VBoolean True), (''max_age_ns'', VInteger (max_age_ms * 1000000)),
         (''metric'', VInteger (word_of_nat (HealthMetric_code metric))),
         (''provenance'', cli_provenance ''declared''), (''recover_after'', VInteger (ucast recover)),
         (''sequence'', VInteger 0), (''source'', VInteger 0), (''source_epoch'', VInteger 0)])"

definition run_health_threshold :: "CliHost \<Rightarrow> AuthorityToken \<Rightarrow> unit cmd" where
  "run_health_threshold env authority =
     chain (filled_option ''--metric'') (\<lambda>metric_text.
     chain (required_option ''--max-age-ms'') (\<lambda>max_age_text.
     needs (parse_metric metric_text) (\<lambda>metric.
     needs (parse_max_age max_age_text) (\<lambda>max_age_ms.
     chain (option_or ''--direction'' ''above'') (\<lambda>direction_text.
     needs (parse_direction direction_text) (\<lambda>direction.
     chain (take_band ''--degraded-enter'' ''--degraded-exit'') (\<lambda>degraded.
     chain (take_band ''--critical-enter'' ''--critical-exit'') (\<lambda>critical.
     if degraded = None \<and> critical = None then quit Exit_usage
     else
     chain (parsed_or ''--escalate'' parse_positive_u32 1) (\<lambda>escalate.
     chain (parsed_or ''--recover'' parse_positive_u32 1) (\<lambda>recover.
     chain (parsed_or ''--tolerance'' parse_double 0) (\<lambda>tolerance.
       request_and_print env ''health.threshold.publish'' (value_object
         [(''authority'', authority_document authority), (''policy'', VText ''auto_retry''),
          (''threshold'', threshold_document metric max_age_ms direction degraded critical escalate recover
             tolerance)]))))))))))))"

definition parse_verdict :: "string \<Rightarrow> CompatVerdict option" where
  "parse_verdict s =
     (case compat_verdict_from_string s of None \<Rightarrow> None | Some v \<Rightarrow> if v = CV_Unknown then None else Some v)"

definition parse_priority :: "string \<Rightarrow> 32 word option" where
  "parse_priority s =
     (case parse_signed s of
        None \<Rightarrow> None
      | Some n \<Rightarrow> if sint n < -2147483648 \<or> sint n > 2147483647 then None else Some (ucast n))"

definition run_compat_rule :: "CliHost \<Rightarrow> AuthorityToken \<Rightarrow> unit cmd" where
  "run_compat_rule env authority =
     chain (filled_option ''--name'') (\<lambda>rule_name.
     chain (required_option ''--verdict'') (\<lambda>verdict_text.
     needs (parse_verdict verdict_text) (\<lambda>verdict.
     chain (parsed_or ''--priority'' parse_priority 0) (\<lambda>priority.
     chain (all_options ''--require'') (\<lambda>specs.
     if specs = [] then quit Exit_usage
     else
     needs (those (map requirement_document specs)) (\<lambda>requirements.
       request_and_print env ''compat.rule.publish'' (value_object
         [(''authority'', authority_document authority), (''policy'', VText ''auto_retry''),
          (''rule'', value_object
             [(''enabled'', VBoolean True), (''name'', VText rule_name), (''priority'', VInteger (scast priority)),
              (''provenance'', cli_provenance ''declared''),
              (''rationale'', VText ''published by trxreg_cli''), (''requirements'', VArray requirements),
              (''verdict'', VInteger (word_of_nat (CompatVerdict_code verdict)))])])))))))"

section \<open>The self test\<close>

text \<open>Paths are joined as on POSIX.\<close>

definition temporary_directory :: "CliHost \<Rightarrow> string" where
  "temporary_directory env =
     (case filter (\<lambda>v. v \<noteq> None \<and> v \<noteq> Some []) (map (en_variables env) [''TEMP'', ''TMP'', ''TMPDIR'']) of
        Some dir # _ \<Rightarrow> dir
      | _ \<Rightarrow> ''.'')"

definition join_path :: "string \<Rightarrow> string \<Rightarrow> string" where
  "join_path dir leaf =
     (if dir = [] then leaf
      else if last dir = CHR ''/'' \<or> last dir = CHR 0x5C then dir @ leaf
      else dir @ CHR ''/'' # leaf)"

definition selftest_path :: "CliHost \<Rightarrow> string option \<Rightarrow> string" where
  "selftest_path env out_path =
     (case out_path of
        Some p \<Rightarrow> if p = [] then join_path (temporary_directory env)
            (''trxreg-cli-selftest-'' @ nat_text (en_pid env) @ ''.trxr'') else p
      | None \<Rightarrow> join_path (temporary_directory env) (''trxreg-cli-selftest-'' @ nat_text (en_pid env) @ ''.trxr''))"

definition compat_outcome_text :: "64 word \<Rightarrow> string" where
  "compat_outcome_text raw =
     (if raw = 1 then ''compatible'' else if raw = 2 then ''incompatible'' else if raw = 3 then ''unsupported''
      else ''unknown'')"

definition knowledge_closure_text :: "64 word \<Rightarrow> string" where
  "knowledge_closure_text raw =
     (if raw = 1 then ''partial'' else if raw = 2 then ''closed'' else ''open'')"

definition metric_state_text :: "64 word \<Rightarrow> string" where
  "metric_state_text raw =
     (case enum_of_code kMetricStateNames (unat (ucast raw :: 8 word)) of
        None \<Rightarrow> ''unknown'' | Some state \<Rightarrow> to_string_MetricState state)"

definition selftest_provenance :: Value where
  "selftest_provenance = provenance_document EK_Synthetic ''trxreg-cli'' ''selftest''"

definition selftest_source :: "CliHost \<Rightarrow> AuthorityToken cmd" where
  "selftest_source env =
     chain (request env ''source.register'' (value_object
       [(''description'', VText ''Transceiver Registry self test''), (''instance_id'', VText ''trxreg-cli-selftest''),
        (''kind'', VText ''synthetic''), (''name'', VText ''trxreg-cli-selftest'')])) (\<lambda>document.
       let authority = \<lparr>at_source = ucast (integer_field document ''id'' 0),
                        at_epoch = ucast (integer_field document ''epoch'' 0)\<rparr>
       in if at_source authority = 0 \<or> at_epoch authority = 0 then quit (Exit_failed Internal)
          else give authority)"

definition selftest_identity :: "Value list" where
  "selftest_identity = map (\<lambda>(field, s). value_object
       [(''field'', VInteger (word_of_nat (IdentityField_code field))), (''subkey'', VText []), (''value'', VText s)])
     [(IF_Vendor, ''Summon Software Labs''), (IF_PartNumber, ''TRX-SELFTEST-1''), (IF_SerialNumber, ''SN00000001'')]"

definition selftest_module :: "CliHost \<Rightarrow> AuthorityToken \<Rightarrow> ModuleHandle cmd" where
  "selftest_module env authority =
     chain (request env ''module.register'' (register_parameters authority selftest_identity ''current''
         ''selftest/module-1'' selftest_provenance)) (\<lambda>document s.
       case read_module_handle_document document of
         None \<Rightarrow> (s, Inl (Exit_failed Internal))
       | Some h \<Rightarrow> (s \<lparr>se_modules := oput ''selftest/module-1'' h (se_modules s)\<rparr>, Inr h))"

definition selftest_steps :: "(CapabilityKey \<times> string \<times> string) list" where
  "selftest_steps =
     [(CK_SpeedClasses, ''gb100,gb400'', []), (CK_LaneCount, ''4'', []), (CK_MaxPowerMilliWatts, ''3.5'', []),
      (CK_TemperatureTelemetry, ''true'', []), (CK_VendorSpecific, ''selftest-fixture'', ''selftest'')]"

fun selftest_capabilities ::
    "CliHost \<Rightarrow> AuthorityToken \<Rightarrow> ModuleHandle \<Rightarrow> (CapabilityKey \<times> string \<times> string) list \<Rightarrow> nat \<Rightarrow> nat cmd" where
  "selftest_capabilities env authority h [] published = give published"
| "selftest_capabilities env authority h ((key, txt, subkey) # steps) published =
     (case capability_value_document key txt of
        None \<Rightarrow> quit (Exit_failed Internal)
      | Some v \<Rightarrow>
          chain (request env ''capability.publish'' (value_object
            [(''authority'', authority_document authority), (''key'', VText (to_string_CapabilityKey key)),
             (''module'', module_handle_document h), (''policy'', VText ''auto_retry''),
             (''provenance'', selftest_provenance), (''subkey'', VText subkey), (''value'', v)])) (\<lambda>_.
            selftest_capabilities env authority h steps (published + 1)))"

definition selftest_port :: "CliHost \<Rightarrow> AuthorityToken \<Rightarrow> Value cmd" where
  "selftest_port env authority =
     (case capability_value_document CK_LaneCount ''4'' of
        None \<Rightarrow> quit (Exit_failed Internal)
      | Some v \<Rightarrow> request env ''port.capability.publish'' (value_object
          [(''authority'', authority_document authority), (''key'', VText ''lane_count''),
           (''policy'', VText ''auto_retry''), (''port'', VText ''selftest/port-1''),
           (''provenance'', selftest_provenance), (''subkey'', VText []), (''value'', v)]))"

definition selftest_threshold :: "AuthorityToken \<Rightarrow> Value" where
  "selftest_threshold authority = value_object
     [(''authority'', authority_document authority), (''policy'', VText ''auto_retry''),
      (''threshold'', value_object
        [(''critical_enter'', VReal (dbl_of_int 80)), (''critical_exit'', VReal (dbl_of_int 75)),
         (''degraded_enter'', VReal (dbl_of_int 70)), (''degraded_exit'', VReal (dbl_of_int 65)),
         (''direction'', VInteger (word_of_nat (ThresholdDirection_code TD_Above))),
         (''disagreement_tolerance'', VReal 0x3FE0000000000000), (''escalate_after'', VInteger 1),
         (''generation'', VInteger 0), (''has_critical'', VBoolean True), (''has_degraded'', VBoolean True),
         (''lane'', VInteger (ucast kModuleLane)), (''live'', VBoolean True),
         (''max_age_ns'', VInteger 60000000000),
         (''metric'', VInteger (word_of_nat (HealthMetric_code HM_TemperatureCelsius))),
         (''provenance'', selftest_provenance), (''recover_after'', VInteger 1), (''sequence'', VInteger 0),
         (''source'', VInteger 0), (''source_epoch'', VInteger 0)])]"

text \<open>The sample, of 55.25 degrees.\<close>

definition selftest_sample :: "AuthorityToken \<Rightarrow> ModuleHandle \<Rightarrow> Clock \<Rightarrow> Value" where
  "selftest_sample authority h ck = value_object
     [(''authority'', authority_document authority), (''module'', module_handle_document h),
      (''policy'', VText ''auto_retry''),
      (''sample'', value_object
        [(''clock_domain'', VInteger 0), (''lane'', VInteger (ucast kModuleLane)),
         (''metric'', VInteger (word_of_nat (HealthMetric_code HM_TemperatureCelsius))),
         (''observed_at_monotonic_ns'', VInteger 0),
         (''observed_at_wall_ns'', VInteger (word_of_int (ck_wall ck))),
         (''presence'', VInteger (word_of_nat (SamplePresence_code SP_Present))),
         (''provenance'', selftest_provenance), (''value'', VReal 0x404BA00000000000)])]"

definition selftest_rule_name :: string where
  "selftest_rule_name = ''selftest.gb100-and-four-lanes''"

definition selftest_rule :: "AuthorityToken \<Rightarrow> Value list \<Rightarrow> Value" where
  "selftest_rule authority requirements = value_object
     [(''authority'', authority_document authority), (''policy'', VText ''auto_retry''),
      (''rule'', value_object
        [(''enabled'', VBoolean True), (''name'', VText selftest_rule_name), (''priority'', VInteger 10),
         (''provenance'', selftest_provenance), (''rationale'', VText ''self test rule''),
         (''requirements'', VArray requirements),
         (''verdict'', VInteger (word_of_nat (CompatVerdict_code CV_Compatible)))])]"

definition selftest_query :: "ModuleHandle \<Rightarrow> Value" where
  "selftest_query h = value_object
     [(''explain'', VBoolean True), (''expected_generation'', VInteger 0),
      (''incarnation'', VInteger (ucast (mo_incarnation h))), (''port'', VText ''selftest/port-1''),
      (''require_latest_generation'', VBoolean False), (''uid'', VInteger (mo_uid h))]"

text \<open>Whether the reloaded registry counts what the live one counts, one generation on.\<close>

definition selftest_matches :: "Value \<Rightarrow> 64 word \<Rightarrow> LoadReport \<Rightarrow> bool" where
  "selftest_matches counters live_generation loaded \<longleftrightarrow>
     integer_field counters ''modules'' (-1) = ld_modules loaded \<and>
     integer_field counters ''claims'' (-1) = ld_claims loaded \<and>
     integer_field counters ''declarations'' (-1) = ld_declarations loaded \<and>
     integer_field counters ''samples'' (-1) = ld_samples loaded \<and>
     integer_field counters ''rules'' (-1) = ld_rules loaded \<and>
     integer_field counters ''thresholds'' (-1) = ld_thresholds loaded \<and>
     integer_field counters ''sources'' (-1) = ld_sources loaded \<and>
     integer_field counters ''ports'' (-1) = ld_ports loaded \<and>
     ld_generation loaded = live_generation + 1"

text \<open>The state of the first metric of a report.\<close>

definition first_metric_state :: "Value \<Rightarrow> 64 word" where
  "first_metric_state health_document =
     (case value_find health_document ''metrics'' of
        Some (VArray (m # _)) \<Rightarrow> integer_field m ''state'' 0
      | _ \<Rightarrow> 0)"

definition matched_count :: "Value \<Rightarrow> 64 word" where
  "matched_count decision_document =
     (case value_find decision_document ''matched_rules'' of
        Some (VArray ms) \<Rightarrow> word_of_nat (length ms)
      | _ \<Rightarrow> 0)"

definition selftest_summary ::
    "Session \<Rightarrow> string \<Rightarrow> AuthorityToken \<Rightarrow> ModuleHandle \<Rightarrow> nat \<Rightarrow> Value \<Rightarrow> Value \<Rightarrow> Value \<Rightarrow> Value \<Rightarrow> Value \<Rightarrow>
     LoadReport \<Rightarrow> Value" where
  "selftest_summary s path authority h published health_document rule_document decision_document
      generation_document counters loaded =
     (let live_generation = integer_field generation_document ''generation'' 0
      in value_object
       [(''capabilities_published'', VInteger (word_of_nat published)),
        (''decision'', value_object
          [(''closure'', VText (knowledge_closure_text (integer_field decision_document ''closure'' 0))),
           (''matched_rules'', VInteger (matched_count decision_document)),
           (''outcome'', VText (compat_outcome_text (integer_field decision_document ''outcome'' 0)))]),
        (''matches'', VBoolean (selftest_matches counters live_generation loaded)),
        (''mode'', VText (if se_remote s then ''remote'' else ''in-process'')),
        (''module'', value_object
          [(''incarnation'', VInteger (ucast (mo_incarnation h))), (''key'', VText ''selftest/module-1''),
           (''uid'', VInteger (mo_uid h))]),
        (''port_capabilities_published'', VInteger 1),
        (''registry_generation'', VInteger live_generation),
        (''reloaded'', value_object
          [(''claims'', VInteger (ld_claims loaded)), (''declarations'', VInteger (ld_declarations loaded)),
           (''generation'', VInteger (ld_generation loaded)), (''modules'', VInteger (ld_modules loaded)),
           (''ports'', VInteger (ld_ports loaded)), (''rules'', VInteger (ld_rules loaded)),
           (''samples'', VInteger (ld_samples loaded)), (''sources'', VInteger (ld_sources loaded)),
           (''thresholds'', VInteger (ld_thresholds loaded))]),
        (''rule'', value_object
          [(''generation'', VInteger (integer_field rule_document ''generation'' 0)),
           (''id'', VInteger (integer_field rule_document ''id'' 0)), (''name'', VText selftest_rule_name)]),
        (''sample'', value_object
          [(''metric'', VText ''temperature_celsius''),
           (''state'', VText (metric_state_text (first_metric_state health_document))),
           (''value'', VReal 0x404BA00000000000)]),
        (''saved'', value_object [(''bytes'', VInteger (file_size path s)), (''path'', VText path)]),
        (''source'', value_object
          [(''epoch'', VInteger (ucast (at_epoch authority))), (''id'', VInteger (ucast (at_source authority)))]),
        (''threshold'', value_object
          [(''max_age_ns'', VInteger 60000000000), (''metric'', VText ''temperature_celsius'')])])"

text \<open>Reloading into a fresh registry; the outcome of \<open>registry.generation\<close> is not checked.\<close>

definition selftest_reload :: "CliHost \<Rightarrow> string \<Rightarrow> LoadReport cmd" where
  "selftest_reload env path =
     chain (read_clock env) (\<lambda>ck s.
       case snd (load_snapshot ck path load_defaults (da_disk (se_daemon s)) (Registry_init config_default)) of
         Inl code \<Rightarrow> (s, Inl (Exit_failed code))
       | Inr r \<Rightarrow> (s, Inr r))"

definition perform_unchecked :: "CliHost \<Rightarrow> string \<Rightarrow> Value cmd" where
  "perform_unchecked env op' s =
     (case perform env op' (value_object []) s of
        (s, Inl _) \<Rightarrow> (s, Inr VNull)
      | (s, Inr document) \<Rightarrow> (s, Inr document))"

definition run_selftest :: "CliHost \<Rightarrow> unit cmd" where
  "run_selftest env =
     chain (take_option ''--out'') (\<lambda>out_path.
     let path = selftest_path env out_path
     in
     chain (selftest_source env) (\<lambda>authority.
     chain (selftest_module env authority) (\<lambda>h.
     chain (selftest_capabilities env authority h selftest_steps 0) (\<lambda>published.
     chain (selftest_port env authority) (\<lambda>_.
     chain (request env ''health.threshold.publish'' (selftest_threshold authority)) (\<lambda>_.
     chain (read_clock env) (\<lambda>ck.
     chain (request env ''health.ingest'' (selftest_sample authority h ck)) (\<lambda>_.
     chain (request env ''health.report'' (module_reference_document h)) (\<lambda>health_document.
     case (requirement_document ''module:speed_classes:superset_of:gb100'',
           requirement_document ''port:lane_count:at_least:4'') of
       (Some first, Some second) \<Rightarrow>
         chain (request env ''compat.rule.publish'' (selftest_rule authority [first, second])) (\<lambda>rule_document.
         chain (request env ''compat.query'' (selftest_query h)) (\<lambda>decision_document.
         chain (request env ''registry.save'' (value_object [(''path'', VText path)])) (\<lambda>_.
         chain (perform_unchecked env ''registry.generation'') (\<lambda>generation_document.
         chain (selftest_reload env path) (\<lambda>loaded.
         chain (request env ''registry.stats'' (value_object [])) (\<lambda>counters s.
           print_document (selftest_summary s path authority h published health_document rule_document
             decision_document generation_document counters loaded) s))))))
     | _ \<Rightarrow> quit (Exit_failed Internal))))))))))"

section \<open>Running the command line\<close>

definition module_commands :: "string list" where
  "module_commands = [''identity'', ''capabilities'', ''evidence'', ''health'', ''attach'', ''health-ingest'',
     ''transition'', ''reconcile'', ''compat-query'']"

text \<open>A subcommand by its name; an unknown one is a usage error.\<close>

definition run_command :: "CliHost \<Rightarrow> string \<Rightarrow> unit cmd" where
  "run_command env name =
     (if name = ''selftest'' then run_selftest env
      else if name = ''stats'' then request_and_print env ''registry.stats'' (value_object [])
      else if name = ''info'' then run_info env
      else if name = ''save'' then run_save env
      else if name = ''inspect'' then run_inspect env
      else if name = ''compat-rules'' then run_compat_rules env
      else if name = ''source-register'' then run_source_register env
      else if name = ''module-register'' then run_module_register env
      else if name = ''detach'' then run_detach env
      else if name = ''capability-publish'' then run_capability_publish env
      else if List.member module_commands name then run_on_module env name
      else if name = ''health-threshold'' then chain (ensure_source env) (run_health_threshold env)
      else if name = ''compat-rule'' then chain (ensure_source env) (run_compat_rule env)
      else quit Exit_usage)"

text \<open>The subcommands in order; after each, every option must have been used.\<close>

fun run_commands :: "CliHost \<Rightarrow> Command list \<Rightarrow> Session \<Rightarrow> Session \<times> Exit option" where
  "run_commands env [] s = (s, None)"
| "run_commands env (c # cs) s =
     (case run_command env (cm_name c) (s \<lparr>se_options := cm_options c\<rparr>) of
        (s, Inl e) \<Rightarrow> (s, Some e)
      | (s, Inr _) \<Rightarrow>
          if list_all op_used (se_options s) then run_commands env cs s else (s, Some Exit_usage))"

text \<open>The session of a run in the process, with the snapshot loaded if there is one.\<close>

definition local_session :: "CliHost \<Rightarrow> string \<Rightarrow> Daemon \<Rightarrow> Client \<Rightarrow> Session \<times> Exit option" where
  "local_session env snapshot d unconnected =
     (let s = new_session False ''in-process'' snapshot d unconnected
      in if snapshot = [] \<or> \<not> file_exists snapshot s then (s, None)
         else
           case load (en_clocks env 0) snapshot load_defaults d of
             (d, Inl code) \<Rightarrow> (s \<lparr>se_daemon := d, se_ticks := 1\<rparr>, Some (Exit_failed code))
           | (d, Inr _) \<Rightarrow> (s \<lparr>se_daemon := d, se_ticks := 1\<rparr>, None))"

text \<open>\<open>HOST:PORT\<close>, cut at the last colon.\<close>

definition server_endpoint :: "string \<Rightarrow> (string \<times> 16 word) option" where
  "server_endpoint server =
     (let port_text = rev (takeWhile (\<lambda>c. c \<noteq> CHR '':'') (rev server));
          host = take (length server - length port_text - 1) server
      in if CHR '':'' \<notin> set server \<or> host = [] then None
         else
           case parse_u32 port_text of
             None \<Rightarrow> None
           | Some port \<Rightarrow> if port = 0 \<or> port > 65535 then None else Some (host, ucast port))"

text \<open>
  A run in the process; \<open>connected\<close> is what \<open>Client::connect\<close> returns for a server, and the session then
  speaks over it.
\<close>

definition run_cli ::
    "CliHost \<Rightarrow> (string \<Rightarrow> 16 word \<Rightarrow> Client res) \<Rightarrow> Client \<Rightarrow> string list \<Rightarrow> Daemon \<Rightarrow> Session option \<times> Exit option" where
  "run_cli env connect unconnected argv d =
     (case argv of
        first # _ \<Rightarrow> if first = ''--help'' \<or> first = ''-h'' then (None, None) else
          (case parse_arguments argv of
             None \<Rightarrow> (None, Some Exit_usage)
           | Some arguments \<Rightarrow>
               if ar_server arguments \<noteq> [] then
                 case server_endpoint (ar_server arguments) of
                   None \<Rightarrow> (None, Some Exit_usage)
                 | Some (host, port) \<Rightarrow>
                     (case connect host port of
                        Inl code \<Rightarrow> (None, Some (Exit_failed code))
                      | Inr client \<Rightarrow>
                          apfst Some (run_commands env (ar_commands arguments)
                            (new_session True (ar_server arguments) (ar_snapshot arguments) d client)))
               else
                 case local_session env (ar_snapshot arguments) d unconnected of
                   (s, Some e) \<Rightarrow> (Some s, Some e)
                 | (s, None) \<Rightarrow> apfst Some (run_commands env (ar_commands arguments) s))
      | [] \<Rightarrow> (None, Some Exit_usage))"

end
