(* ===== verification/CliLaws.thy ===== *)
theory CliLaws
  imports Cli
begin

text \<open>
  What the command line client promises: the command line is read exactly, what a run does to the registry and
  to its session, what it prints, and when a mistake in the options is noticed.
\<close>

section \<open>The command line is read exactly\<close>

definition option_tokens :: "CliOption \<Rightarrow> string list" where
  "option_tokens opt = [op_name opt, op_value opt]"

definition command_tokens :: "Command \<Rightarrow> string list" where
  "command_tokens c = cm_name c # concat (map option_tokens (cm_options c))"

definition option_ok :: "CliOption \<Rightarrow> bool" where
  "option_ok opt \<longleftrightarrow> is_option (op_name opt) \<and> \<not> is_option (op_value opt) \<and> \<not> op_used opt"

definition command_ok :: "Command \<Rightarrow> bool" where
  "command_ok c \<longleftrightarrow> \<not> is_option (cm_name c) \<and> list_all option_ok (cm_options c)"

text \<open>The settings of the global prefix, of which the last of each name counts.\<close>

datatype Setting = Set_server string | Set_snapshot string

fun setting_tokens :: "Setting \<Rightarrow> string list" where
  "setting_tokens (Set_server v) = [''--server'', v]"
| "setting_tokens (Set_snapshot v) = [''--snapshot'', v]"

fun apply_setting :: "Setting \<Rightarrow> string \<times> string \<Rightarrow> string \<times> string" where
  "apply_setting (Set_server v) (server, snapshot) = (v, snapshot)"
| "apply_setting (Set_snapshot v) (server, snapshot) = (server, v)"

definition starts_command :: "string list \<Rightarrow> bool" where
  "starts_command tokens \<longleftrightarrow> (case tokens of [] \<Rightarrow> True | t # _ \<Rightarrow> \<not> is_option t)"

lemma starts_command_simps [simp]: "starts_command []" "starts_command (t # ts) \<longleftrightarrow> \<not> is_option t"
  by (simp_all add: starts_command_def)

lemma option_ok_iff: "option_ok opt \<longleftrightarrow> is_option (op_name opt) \<and> \<not> is_option (op_value opt) \<and>
    opt = \<lparr>op_name = op_name opt, op_value = op_value opt, op_used = False\<rparr>"
  by (cases opt) (simp add: option_ok_def)

lemma parse_options_iff:
  "parse_options tokens = Some (opts, rest) \<longleftrightarrow>
     list_all option_ok opts \<and> starts_command rest \<and> tokens = concat (map option_tokens opts) @ rest"
proof (induction tokens arbitrary: opts rest rule: parse_options.induct)
  case 1
  show ?case by (cases opts) (auto simp: option_tokens_def)
next
  case (2 token)
  show ?case by (cases opts) (auto simp: option_tokens_def option_ok_def)
next
  case (3 token arg tokens)
  show ?case
  proof (cases opts)
    case Nil
    show ?thesis by (auto simp: Nil)
  next
    case (Cons opt opts')
    show ?thesis
      using 3 by (cases opt) (auto simp: Cons option_tokens_def option_ok_def)
  qed
qed

lemma starts_command_commands:
  "list_all command_ok cs \<Longrightarrow> starts_command (concat (map command_tokens cs))"
  by (cases cs) (auto simp: command_tokens_def command_ok_def)

lemma parse_commands_iff:
  "parse_commands tokens = Some cs \<longleftrightarrow>
     list_all command_ok cs \<and> tokens = concat (map command_tokens cs)"
proof (induction tokens arbitrary: cs rule: parse_commands.induct)
  case 1
  show ?case by (cases cs) (auto simp: command_tokens_def)
next
  case (2 name tokens)
  show ?case
  proof (cases cs)
    case Nil
    then show ?thesis by (auto split: option.splits)
  next
    case (Cons c cs')
    show ?thesis
    proof
      assume "parse_commands (name # tokens) = Some cs"
      then obtain opts rest where *: "\<not> is_option name" "parse_options tokens = Some (opts, rest)"
        "c = \<lparr>cm_name = name, cm_options = opts\<rparr>" "parse_commands rest = Some cs'"
        using Cons by (auto split: if_splits option.splits)
      have "command_tokens c = name # concat (map option_tokens opts)" "command_ok c \<longleftrightarrow> list_all option_ok opts"
        using *(1,3) by (simp_all add: command_tokens_def command_ok_def)
      then show "list_all command_ok cs \<and> name # tokens = concat (map command_tokens cs)"
        using 2 [OF *(1,2) refl, of cs'] * Cons by (simp add: parse_options_iff)
    next
      assume *: "list_all command_ok cs \<and> name # tokens = concat (map command_tokens cs)"
      then have **: "\<not> is_option name" "parse_options tokens = Some (cm_options c, concat (map command_tokens cs'))"
        "c = \<lparr>cm_name = name, cm_options = cm_options c\<rparr>"
        using Cons starts_command_commands [of cs']
        by (auto simp: parse_options_iff command_tokens_def command_ok_def)
      have "parse_commands (concat (map command_tokens cs')) = Some cs'"
        using 2 [OF **(1,2) refl, of cs'] * Cons by simp
      then show "parse_commands (name # tokens) = Some cs"
        using **(1,2) **(3) [symmetric] by (simp add: Cons)
    qed
  qed
qed

lemma parse_prefix_iff:
  "starts_command rest \<Longrightarrow>
   parse_prefix (concat (map setting_tokens settings) @ rest) server snapshot =
     (let (v, w) = fold apply_setting settings (server, snapshot) in Some (v, w, rest))"
proof (induction settings arbitrary: server snapshot)
  case Nil
  then show ?case by (cases rest rule: parse_options.cases) (auto simp: is_option_def)
next
  case (Cons setting settings)
  then show ?case by (cases setting) simp_all
qed

lemma parse_prefix_sound:
  "parse_prefix tokens server snapshot = Some (v, w, rest) \<Longrightarrow>
   \<exists>settings. tokens = concat (map setting_tokens settings) @ rest \<and>
     fold apply_setting settings (server, snapshot) = (v, w)"
proof (induction tokens server snapshot rule: parse_prefix.induct)
  case (3 token arg tokens server snapshot)
  show ?case
  proof (cases "token = ''--server'' \<or> token = ''--snapshot''")
    case True
    define setting where "setting = (if token = ''--server'' then Set_server arg else Set_snapshot arg)"
    obtain settings where "tokens = concat (map setting_tokens settings) @ rest"
      "fold apply_setting settings (apply_setting setting (server, snapshot)) = (v, w)"
      using True 3 by (fastforce simp: setting_def split: if_splits)
    then show ?thesis using True
      by (intro exI [of _ "setting # settings"]) (auto simp: setting_def)
  next
    case False
    then show ?thesis using 3 by (intro exI [of _ "[]"]) simp
  qed
qed (auto split: if_splits intro: exI [of _ "[]"])

text \<open>
  C23. The command line is read exactly. Arguments are accepted if and only if they are a prefix of
  \<open>--server\<close> and \<open>--snapshot\<close> settings followed by at least one subcommand, each a name that is no option
  with its options, each option a name that starts with two dashes with a value that does not; and then
  what is read is those subcommands with those options in order, none used yet, and the last setting of
  each kind. Nothing is dropped, reordered or attached to another subcommand.
\<close>

theorem command_line_exact:
  "parse_arguments argv = Some a \<longleftrightarrow>
     ar_commands a \<noteq> [] \<and> list_all command_ok (ar_commands a) \<and>
     (\<exists>settings. argv = concat (map setting_tokens settings) @ concat (map command_tokens (ar_commands a)) \<and>
        fold apply_setting settings ([], []) = (ar_server a, ar_snapshot a))"
  (is "_ \<longleftrightarrow> ?right")
proof
  assume "parse_arguments argv = Some a"
  then show ?right
    by (cases a) (auto simp: parse_arguments_def parse_commands_iff neq_Nil_conv
        split: option.splits list.splits dest!: parse_prefix_sound)
next
  assume right: ?right
  then obtain settings where
    "argv = concat (map setting_tokens settings) @ concat (map command_tokens (ar_commands a))"
    "fold apply_setting settings ([], []) = (ar_server a, ar_snapshot a)" by blast
  then have "parse_prefix argv [] [] = Some (ar_server a, ar_snapshot a, concat (map command_tokens (ar_commands a)))"
    using right by (simp add: parse_prefix_iff starts_command_commands)
  moreover have "parse_commands (concat (map command_tokens (ar_commands a))) = Some (ar_commands a)"
    using right by (simp add: parse_commands_iff)
  ultimately show "parse_arguments argv = Some a"
    using right by (cases a) (auto simp: parse_arguments_def split: list.splits)
qed

section \<open>What a subcommand does to the session\<close>

text \<open>
  A subcommand works silently until it prints its document and ends. \<open>silent\<close> and \<open>printing\<close> say
  what relation the session after a part of it has to the session before.
\<close>

definition same_world :: "Session \<Rightarrow> Session \<Rightarrow> bool" where
  "same_world s t \<longleftrightarrow> se_remote t = se_remote s \<and> se_endpoint t = se_endpoint s \<and>
     se_snapshot t = se_snapshot s \<and> se_daemon t = se_daemon s \<and> se_client t = se_client s"

definition silent :: "(Session \<Rightarrow> Session \<Rightarrow> bool) \<Rightarrow> 'a cmd \<Rightarrow> bool" where
  "silent Q m \<longleftrightarrow> (\<forall>s. Q s (fst (m s)))"

definition printing :: "(Session \<Rightarrow> Session \<Rightarrow> bool) \<Rightarrow> (Session \<Rightarrow> Session \<Rightarrow> bool) \<Rightarrow> 'a cmd \<Rightarrow> bool" where
  "printing Q P m \<longleftrightarrow> (\<forall>s. (isl (snd (m s)) \<longrightarrow> Q s (fst (m s))) \<and> (\<not> isl (snd (m s)) \<longrightarrow> P s (fst (m s))))"

lemmas reading_defs = option_or_def required_option_def filled_option_def parsed_or_def take_band_def
  take_capability_def

lemmas plain_commands = run_info_def run_save_def run_source_register_def run_detach_def run_health_threshold_def
  run_compat_rule_def run_capability_publish_def run_port_publish_def run_on_module_def run_publish_def
  run_attach_def run_compat_query_def run_transition_def run_health_ingest_def Let_def

text \<open>
  The contract of a relation \<open>Q\<close> for silent work and a relation \<open>P\<close> for a subcommand that succeeded: it is
  enough that they allow what the session does with its own fields, a request, a lookup in the process,
  and the printing of one document.
\<close>

locale command_effects =
  fixes env :: CliHost and Q P :: "Session \<Rightarrow> Session \<Rightarrow> bool"
  assumes own: "same_world s t \<Longrightarrow> se_printed t = se_printed s \<Longrightarrow> Q s t"
    and onward: "Q s t \<Longrightarrow> Q t u \<Longrightarrow> Q s u"
    and performed: "Q s (fst (perform env op' params s))"
    and looked_up: "\<not> se_remote s \<Longrightarrow> Q s (s \<lparr>se_daemon := se_daemon s
        \<lparr>da_registry := fst (lookup_key key (da_registry (se_daemon s)))\<rparr>\<rparr>)"
    and silent_first: "Q s t \<Longrightarrow> P t u \<Longrightarrow> P s u"
    and printed: "P s (s \<lparr>se_printed := se_printed s @ [document]\<rparr>)"
begin

lemma own_work: "same_world s t \<and> se_printed t = se_printed s \<Longrightarrow> Q s t"
  by (simp add: own)

lemma same: "Q s s"
  by (simp add: own same_world_def)

lemma silent_basic [intro]:
  "silent Q (give x)" "silent Q (quit e)" "silent Q (take_option name)" "silent Q (all_options name)"
  "silent Q (read_clock env)" "silent Q (\<lambda>s. (s, r' s))"
  unfolding silent_def give_def quit_def take_option_def all_options_def read_clock_def
  by (auto intro!: own_work simp: same_world_def)

lemma silent_chain [intro]:
  assumes "silent Q m" "\<And>x. silent Q (k x)"
  shows "silent Q (chain m k)"
  unfolding silent_def
proof
  fix s
  obtain t r where m: "m s = (t, r)" by fastforce
  have "Q s t" using assms(1) m by (simp add: silent_def) (metis fst_conv)
  moreover have "Q t (fst (k x t))" for x using assms(2) by (simp add: silent_def)
  ultimately show "Q s (fst (chain m k s))"
    by (cases r) (auto simp: chain_def m intro: onward)
qed

lemma silent_cases [intro]:
  "silent Q f \<Longrightarrow> (\<And>x. silent Q (g x)) \<Longrightarrow> silent Q (case v of None \<Rightarrow> f | Some x \<Rightarrow> g x)"
  "(\<And>x y. silent Q (h x y)) \<Longrightarrow> silent Q (case p of (x, y) \<Rightarrow> h x y)"
  "silent Q f \<Longrightarrow> silent Q f' \<Longrightarrow> silent Q (if b then f else f')"
  "(\<And>x. silent Q (g x)) \<Longrightarrow> silent Q (needs v g)"
  "(\<And>e. silent Q (l e)) \<Longrightarrow> (\<And>x. silent Q (g x)) \<Longrightarrow> silent Q (case u of Inl e \<Rightarrow> l e | Inr x \<Rightarrow> g x)"
  by (auto simp: needs_def split: option.split prod.split sum.split)

lemma silent_request [intro]: "silent Q (request env op' params)" "silent Q (perform_unchecked env op')"
  using performed unfolding silent_def request_def perform_unchecked_def
  by (auto split: prod.split sum.split) (metis fst_conv)+

lemma silent_options [intro]:
  "silent Q (option_or name fallback)" "silent Q (required_option name)" "silent Q (filled_option name)"
  "silent Q (parsed_or name parse v)" "silent Q (take_band name name')" "silent Q take_capability"
  unfolding reading_defs by (intro silent_basic silent_chain silent_cases)+

lemma printing_silent [intro]:
  assumes "silent Q m" "\<And>x. printing Q P (k x)"
  shows "printing Q P (chain m k)"
  unfolding printing_def
proof
  fix s
  obtain t r where m: "m s = (t, r)" by fastforce
  have "Q s t" using assms(1) m by (simp add: silent_def) (metis fst_conv)
  moreover have "isl (snd (k x t)) \<Longrightarrow> Q t (fst (k x t))" "\<not> isl (snd (k x t)) \<Longrightarrow> P t (fst (k x t))" for x
    using assms(2) by (simp_all add: printing_def)
  ultimately show "(isl (snd (chain m k s)) \<longrightarrow> Q s (fst (chain m k s))) \<and>
      (\<not> isl (snd (chain m k s)) \<longrightarrow> P s (fst (chain m k s)))"
    by (cases r) (auto simp: chain_def m intro: onward silent_first)
qed

lemma printing_quit [intro]: "printing Q P (quit e)"
  by (simp add: printing_def quit_def same)

lemma printing_cases [intro]:
  "printing Q P f \<Longrightarrow> (\<And>x. printing Q P (g x)) \<Longrightarrow> printing Q P (case v of None \<Rightarrow> f | Some x \<Rightarrow> g x)"
  "(\<And>x y. printing Q P (h x y)) \<Longrightarrow> printing Q P (case p of (x, y) \<Rightarrow> h x y)"
  "printing Q P f \<Longrightarrow> printing Q P f' \<Longrightarrow> printing Q P (if b then f else f')"
  "(\<And>x. printing Q P (g x)) \<Longrightarrow> printing Q P (needs v g)"
  "(\<And>e. printing Q P (l e)) \<Longrightarrow> (\<And>x. printing Q P (g x)) \<Longrightarrow>
     printing Q P (case u of Inl e \<Rightarrow> l e | Inr x \<Rightarrow> g x)"
  by (simp_all add: needs_def printing_quit split: option.split prod.split sum.split)

lemma printing_print [intro]: "printing Q P (\<lambda>s. print_document (d s) s)"
  by (simp add: printing_def print_document_def printed)

lemma printing_request [intro]: "printing Q P (request_and_print env op' params)"
proof -
  have "printing Q P (\<lambda>s. print_document d s)" for d by (rule printing_print)
  then have "printing Q P (print_document d)" for d by simp
  then show ?thesis unfolding request_and_print_def by (intro printing_silent silent_request)
qed

text \<open>The source of the run and the lookup of modules are silent.\<close>

lemma silent_source [intro]: "silent Q (ensure_source env)"
proof -
  have "silent Q (\<lambda>s. case source_of_document document of
              None \<Rightarrow> (s, Inl (Exit_failed Internal))
            | Some authority \<Rightarrow> (s \<lparr>se_source := Some authority\<rparr>, Inr authority))" for document
    unfolding silent_def by (auto intro!: own_work simp: same_world_def split: option.split)
  then have "silent Q (chain (request env ''source.register'' source_parameters) (\<lambda>document s.
            case source_of_document document of
              None \<Rightarrow> (s, Inl (Exit_failed Internal))
            | Some authority \<Rightarrow> (s \<lparr>se_source := Some authority\<rparr>, Inr authority)))"
    by (intro silent_chain silent_request)
  then show ?thesis
    by (auto simp: silent_def ensure_source_def same split: option.split)
qed

lemma scratch_silent: "Q s (ensure_scratch env s)"
  unfolding ensure_scratch_def Let_def
  by (auto intro!: own_work simp: same_world_def split: prod.split sum.split)

lemma silent_learn [intro]:
  "silent Q (\<lambda>s. case read_module_handle_document document of
      None \<Rightarrow> (s, Inl e) | Some h \<Rightarrow> (s \<lparr>se_modules := oput key h (se_modules s)\<rparr>, Inr h))"
  unfolding silent_def by (auto intro!: own_work simp: same_world_def split: option.split)

lemma silent_registration [intro]: "silent Q (resolve_by_registration env key)"
  unfolding resolve_by_registration_def
  by (intro silent_chain silent_source silent_cases silent_basic silent_request silent_learn)

lemma silent_by_key [intro]: "silent Q (resolve_by_key env key)"
  unfolding silent_def
proof
  fix s
  show "Q s (fst (resolve_by_key env key s))"
  proof (cases "se_remote s")
    case False
    then show ?thesis
      using looked_up [of s key] by (auto simp: resolve_by_key_def split: prod.splits)
  next
    case True
    define t where "t = ensure_scratch env s"
    have st: "Q s t" by (simp add: t_def scratch_silent)
    have reg: "Q u (fst (resolve_by_registration env key u))" for u
      using silent_registration by (simp add: silent_def)
    have scr: "Q t (t\<lparr>se_scratch := x\<rparr>)" for x
      by (rule own_work) (simp add: same_world_def)
    have "Q t (fst (resolve_by_registration env key (t\<lparr>se_scratch := x\<rparr>)))" for x
      by (rule onward [OF scr reg])
    then show ?thesis
      using True onward [OF st] reg scr
      by (auto simp: resolve_by_key_def t_def [symmetric] Let_def split: option.split prod.split sum.split)
  qed
qed

lemma silent_resolve [intro]: "silent Q (resolve_module env key)"
proof -
  have "silent Q (chain (take_option ''--uid'') (\<lambda>uid_text.
            chain (take_option ''--incarnation'') (\<lambda>incarnation_text.
              if uid_text \<noteq> None \<or> incarnation_text \<noteq> None
              then needs (given_reference key uid_text incarnation_text) give
              else resolve_by_key env key)))"
    by (intro silent_chain silent_basic silent_cases silent_by_key)
  then show ?thesis
    by (auto simp: silent_def resolve_module_def same split: option.split)
qed

text \<open>The subcommands, one after the other.\<close>

lemmas steps = silent_basic silent_chain silent_cases silent_options silent_request silent_source silent_resolve
  printing_silent printing_cases printing_print printing_request printing_quit

lemma printing_at: "(\<And>s. printing Q P (m s)) \<Longrightarrow> printing Q P (\<lambda>s. m s s)"
  by (simp add: printing_def)

lemma printing_quits [intro]: "printing Q P (\<lambda>s. (s, Inl e))"
  by (simp add: printing_def same)

lemma printing_inspect [intro]: "printing Q P (run_inspect env)"
proof -
  have "printing Q P (inspect_file env path)" for path
    unfolding inspect_file_def
    by (rule printing_silent) (auto simp: printing_def print_document_def same printed split: sum.split)
  then have "printing Q P (\<lambda>s. let path = (case given_path of None \<Rightarrow> se_snapshot s | Some p \<Rightarrow> p)
      in if path = [] then (s, Inl Exit_usage) else inspect_file env path s)" for given_path
    by (simp add: printing_def Let_def same)
  then show ?thesis unfolding run_inspect_def by (intro printing_silent silent_basic)
qed

lemma printing_after: "Q s t \<Longrightarrow> printing Q P m \<Longrightarrow>
    (isl (snd (m t)) \<longrightarrow> Q s (fst (m t))) \<and> (\<not> isl (snd (m t)) \<longrightarrow> P s (fst (m t)))"
  by (auto simp: printing_def intro: onward silent_first)

lemma printing_rules [intro]: "printing Q P (run_compat_rules env)"
proof -
  have "(isl (snd (run_compat_rules env s)) \<longrightarrow> Q s (fst (run_compat_rules env s))) \<and>
      (\<not> isl (snd (run_compat_rules env s)) \<longrightarrow> P s (fst (run_compat_rules env s)))" for s
  proof (cases "se_remote s")
    case False
    then show ?thesis by (simp add: run_compat_rules_def print_document_def printed)
  next
    case True
    show ?thesis
    proof (cases "se_scratch (ensure_scratch env s)")
      case None
      then show ?thesis using True scratch_silent [of s] by (simp add: run_compat_rules_def Let_def)
    next
      case (Some rg)
      have "printing Q P (\<lambda>s. print_document (rules_document rg) s)" by (rule printing_print)
      from printing_after [OF scratch_silent this, of s] show ?thesis
        using True Some by (simp add: run_compat_rules_def Let_def)
    qed
  qed
  then show ?thesis by (simp add: printing_def)
qed

lemma silent_identity [intro]: "silent Q (take_identity options)"
  by (induction options rule: take_identity.induct) (auto intro: silent_chain)

lemma printing_register [intro]: "printing Q P (run_module_register env)"
proof -
  have "printing Q P (\<lambda>s. print_document document (case read_module_handle_document document of
        None \<Rightarrow> s | Some h \<Rightarrow> s \<lparr>se_modules := oput key h (se_modules s)\<rparr>))" for document key
  proof -
    have pr: "printing Q P (\<lambda>s. print_document document s)" by (rule printing_print)
    have "Q s (case read_module_handle_document document of
        None \<Rightarrow> s | Some h \<Rightarrow> s \<lparr>se_modules := oput key h (se_modules s)\<rparr>)" for s
      by (auto intro!: own_work simp: same_world_def split: option.split)
    from printing_after [OF this pr] show ?thesis by (simp add: printing_def)
  qed
  then show ?thesis unfolding run_module_register_def by (intro steps silent_identity)
qed

lemma printing_plain [intro]:
  "printing Q P (run_info env)" "printing Q P (run_save env)" "printing Q P (run_source_register env)"
  "printing Q P (run_detach env)" "printing Q P (run_health_threshold env authority)"
  "printing Q P (run_compat_rule env authority)" "printing Q P (run_on_module env name)"
  unfolding plain_commands by (intro steps)+

lemma printing_capability [intro]: "printing Q P (run_capability_publish env)"
  unfolding run_capability_publish_def run_port_publish_def by (intro steps printing_plain)

text \<open>The self test.\<close>

lemma silent_selftest [intro]:
  "silent Q (selftest_source env)" "silent Q (selftest_module env authority)"
  "silent Q (selftest_capabilities env authority h todo n)" "silent Q (selftest_port env authority)"
  "silent Q (selftest_reload env path)"
proof -
  show "silent Q (selftest_source env)" "silent Q (selftest_module env authority)"
    "silent Q (selftest_port env authority)"
    unfolding selftest_source_def selftest_module_def selftest_port_def Let_def
    by (intro steps silent_learn)+
  show "silent Q (selftest_capabilities env authority h todo n)"
  proof (induction todo arbitrary: n)
    case (Cons entry todo)
    then show ?case by (cases entry) (auto split: option.split)
  qed auto
  show "silent Q (selftest_reload env path)"
  proof -
    have "silent Q (\<lambda>s.
       case snd (load_snapshot ck path load_defaults (da_disk (se_daemon s)) (Registry_init config_default)) of
         Inl code \<Rightarrow> (s, Inl (Exit_failed code))
       | Inr r \<Rightarrow> (s, Inr r))" for ck
      by (simp add: silent_def same split: sum.split)
    then show ?thesis unfolding selftest_reload_def by (intro silent_chain silent_basic)
  qed
qed

lemma printing_selftest [intro]: "printing Q P (run_selftest env)"
  unfolding run_selftest_def Let_def
  by (auto intro!: printing_silent printing_print printing_quit split: option.split)

theorem command_effect: "printing Q P (run_command env name)"
proof -
  have "printing Q P (chain (ensure_source env) (run_health_threshold env))"
    "printing Q P (chain (ensure_source env) (run_compat_rule env))"
    by (intro printing_silent silent_source printing_plain)+
  then show ?thesis
    unfolding run_command_def
    by (intro printing_cases printing_selftest printing_request printing_plain printing_inspect printing_rules
        printing_register printing_capability printing_quit)
qed

text \<open>A run of subcommands that ends: some succeed, and the next may fail.\<close>

lemma run_commands_induct:
  assumes "R s s"
    and opts: "\<And>t opts. R s t \<Longrightarrow> R s (t \<lparr>se_options := opts\<rparr>)"
    and P: "\<And>t u. R s t \<Longrightarrow> P t u \<Longrightarrow> R s u"
    and Q: "\<And>t u. R s t \<Longrightarrow> Q t u \<Longrightarrow> R s u"
  shows "R s (fst (run_commands env cs s))"
proof -
  have "R s t \<Longrightarrow> R s (fst (run_commands env cs t))" for t
  proof (induction cs arbitrary: t)
    case (Cons c cs)
    define t' where "t' = t \<lparr>se_options := cm_options c\<rparr>"
    have t': "R s t'" using Cons.prems opts by (simp add: t'_def)
    obtain u r where u: "run_command env (cm_name c) t' = (u, r)" by fastforce
    then have "R s u"
      using command_effect [of "cm_name c"] t' P Q unfolding printing_def by (metis fst_conv)
    then show ?case using Cons.IH u by (cases r) (simp_all add: t'_def)
  qed simp
  then show ?thesis using assms(1) .
qed

end

section \<open>A run takes the registry along its operations\<close>

text \<open>In the process a session takes its registry along a run of operations; over a connection it has none.\<close>

definition registry_run :: "Session \<Rightarrow> Session \<Rightarrow> bool" where
  "registry_run s t \<longleftrightarrow> se_remote t = se_remote s \<and>
     (if se_remote s then se_daemon t = se_daemon s
      else \<exists>ops. da_registry (se_daemon t) = run ops (da_registry (se_daemon s)))"

lemma registry_run_trans: "registry_run s t \<Longrightarrow> registry_run t u \<Longrightarrow> registry_run s u"
  unfolding registry_run_def by (metis run_append)

lemma registry_run_same: "same_world s t \<Longrightarrow> registry_run s t"
  by (auto simp: registry_run_def same_world_def intro: exI [of _ "[]"])

lemma registry_run_perform: "registry_run s (fst (perform env op' params s))"
proof (cases "se_remote s")
  case True
  then show ?thesis by (simp add: registry_run_def perform_def split_beta)
next
  case False
  then show ?thesis
    using dispatch_run [of "en_host env" "en_clocks env (se_ticks s)" "call_document 1 op' params" "se_daemon s"]
    by (auto simp: registry_run_def perform_def split_beta)
qed

text \<open>A lookup is one query or two.\<close>

lemma lookup_run: "\<exists>ops. fst (lookup_key key rg) = run ops rg"
proof -
  have ask: "run [(ck, Ask)] rg = rg \<lparr>rg_queries := rg_queries rg + 1\<rparr>" for ck and rg :: Registry
    by (simp add: forget_def answer_def)
  have twice: "run [(ck, Ask), (ck, Ask)] rg = rg \<lparr>rg_queries := rg_queries rg + 2\<rparr>" for ck
    using run_append [of "[(ck, Ask)]" "[(ck, Ask)]" rg] ask by simp
  show ?thesis
  proof (cases "oget (st_module_uid_by_key (rg_state rg)) key = None")
    case True
    show ?thesis unfolding lookup_key_def fst_conv if_P [OF True]
      by (rule exI, rule ask [of example_clock rg, symmetric])
  next
    case False
    show ?thesis unfolding lookup_key_def fst_conv if_not_P [OF False]
      by (rule exI, rule twice [of example_clock, symmetric])
  qed
qed

lemma registry_run_lookup:
  "\<not> se_remote s \<Longrightarrow> registry_run s (s \<lparr>se_daemon := se_daemon s
     \<lparr>da_registry := fst (lookup_key key (da_registry (se_daemon s)))\<rparr>\<rparr>)"
  using lookup_run by (simp add: registry_run_def)

interpretation cli_registry: command_effects env registry_run registry_run for env
  by unfold_locales (rule registry_run_perform | erule registry_run_lookup | erule registry_run_same |
      erule registry_run_trans, assumption | simp add: registry_run_same same_world_def)+

lemma run_commands_registry: "registry_run s (fst (run_commands env cs s))"
proof (rule cli_registry.run_commands_induct [where R = registry_run])
  show "registry_run s s" by (simp add: registry_run_same same_world_def)
  show "registry_run s (t \<lparr>se_options := opts\<rparr>)" if "registry_run s t" for t opts
    by (rule registry_run_trans [OF that]) (simp add: registry_run_same same_world_def)
qed (erule registry_run_trans, assumption)+

lemma new_session_simps [simp]:
  "se_remote (new_session r w snapshot d client) = r" "se_daemon (new_session r w snapshot d client) = d"
  "se_printed (new_session r w snapshot d client) = []"
  by (simp_all add: new_session_def)

text \<open>What a run amounts to: over a connection, or in the process after the snapshot.\<close>

lemma run_cli_cases:
  assumes "run_cli env connect unconnected argv d = (Some s, e)"
  obtains (remote) a client where "parse_arguments argv = Some a"
      "run_commands env (ar_commands a) (new_session True (ar_server a) (ar_snapshot a) d client) = (s, e)"
    | (loading_failed) a where "parse_arguments argv = Some a" "e \<noteq> None"
      "local_session env (ar_snapshot a) d unconnected = (s, e)"
    | (in_process) a s0 where "parse_arguments argv = Some a"
      "local_session env (ar_snapshot a) d unconnected = (s0, None)"
      "run_commands env (ar_commands a) s0 = (s, e)"
proof -
  obtain a where a: "parse_arguments argv = Some a"
    using assms by (cases argv) (auto simp: run_cli_def split: if_splits option.splits)
  show thesis
  proof (cases "ar_server a = []")
    case False
    then show thesis
      using assms a by (cases argv) (auto simp: run_cli_def apfst_def map_prod_def
          split: if_splits option.splits prod.splits sum.splits intro: remote)
  next
    case True
    obtain s0 stop where "local_session env (ar_snapshot a) d unconnected = (s0, stop)" by fastforce
    then show thesis
      using assms a True by (cases argv; cases stop) (auto simp: run_cli_def apfst_def map_prod_def
          split: if_splits prod.splits intro: loading_failed in_process)
  qed
qed

lemma local_session_registry:
  assumes "local_session env snapshot d unconnected = (s, stop)"
  shows "\<not> se_remote s" "se_printed s = []"
    "da_registry (se_daemon s) = da_registry d \<or>
     (\<exists>path ck. da_registry (se_daemon s) = fst (load_snapshot ck path load_defaults (da_disk d) (da_registry d)))"
  using assms
  by (auto simp: local_session_def new_session_def Let_def load_def split: if_splits prod.splits sum.splits)
    (metis fst_conv)+

text \<open>
  C20. A run of the client is a run of the registry's operations. Whatever subcommands and options are
  given, a run in the process leaves the registry where some sequence of its operations leads, from the
  state it was given or from what loading the snapshot made of it; so everything proved of runs holds of
  it, and no subcommand reaches into the state by another way. Over a connection the registry of the process
  is not touched at all.
\<close>

theorem cli_run_is_operations:
  assumes "run_cli env connect unconnected argv d = (Some s, e)"
  shows "if se_remote s then se_daemon s = d
    else \<exists>start ops. da_registry (se_daemon s) = run ops start \<and>
      (start = da_registry d \<or>
       (\<exists>path ck. start = fst (load_snapshot ck path load_defaults (da_disk d) (da_registry d))))"
  using assms
proof (cases rule: run_cli_cases)
  case (remote a client)
  from run_commands_registry [of "new_session True (ar_server a) (ar_snapshot a) d client" env "ar_commands a"]
  show ?thesis by (simp add: remote registry_run_def)
next
  case (loading_failed a)
  note s = local_session_registry [OF loading_failed(3)]
  have "da_registry (se_daemon s) = run [] (da_registry (se_daemon s))" by simp
  then show ?thesis using s by metis
next
  case (in_process a s0)
  note s0 = local_session_registry [OF in_process(2)]
  from run_commands_registry [of s0 env "ar_commands a"]
  have "\<not> se_remote s" "\<exists>ops. da_registry (se_daemon s) = run ops (da_registry (se_daemon s0))"
    using s0(1) by (simp_all add: in_process(3) registry_run_def)
  then show ?thesis using s0(3) by metis
qed

definition example_cli :: CliHost where
  "example_cli = \<lparr>en_host = example_host, en_clocks = (\<lambda>_. example_clock), en_variables = (\<lambda>_. None), en_pid = 7\<rparr>"

definition example_session :: Session where
  "example_session = new_session False ''in-process'' [] example_daemon example_client"

text \<open>\<open>trxreg_cli detach\<close> lacks its slot.\<close>

lemma example_cli_run:
  "run_cli example_cli (\<lambda>_ _. Inl Internal) example_client [''detach''] example_daemon =
     (Some example_session, Some Exit_usage)"
proof -
  have "parse_arguments [''detach''] =
      Some \<lparr>ar_server = [], ar_snapshot = [], ar_commands = [\<lparr>cm_name = ''detach'', cm_options = []\<rparr>]\<rparr>"
    by (simp add: parse_arguments_def is_option_def)
  moreover have "run_command example_cli ''detach'' example_session = (example_session, Inl Exit_usage)"
    by (simp add: run_command_def run_detach_def filled_option_def required_option_def chain_def take_option_def
        needs_def quit_def example_session_def new_session_def)
  moreover have "example_session \<lparr>se_options := []\<rparr> = example_session"
    by (simp add: example_session_def new_session_def)
  ultimately show ?thesis
    by (simp add: run_cli_def local_session_def example_session_def [symmetric])
qed

lemma cli_run_is_operations_witness:
  "\<exists>start ops. da_registry (se_daemon example_session) = run ops start"
  using cli_run_is_operations [OF example_cli_run] by (auto simp: example_session_def)

section \<open>One document per subcommand\<close>

definition prints_nothing :: "Session \<Rightarrow> Session \<Rightarrow> bool" where
  "prints_nothing s t \<longleftrightarrow> se_printed t = se_printed s"

definition prints_one :: "Session \<Rightarrow> Session \<Rightarrow> bool" where
  "prints_one s t \<longleftrightarrow> (\<exists>document. se_printed t = se_printed s @ [document])"

interpretation cli_output: command_effects env prints_nothing prints_one for env
  by unfold_locales
    (auto simp: prints_nothing_def prints_one_def perform_def split: prod.splits)

lemma run_command_printed:
  assumes "run_command env name s = (t, r)"
  shows "\<exists>documents. se_printed t = se_printed s @ documents \<and> length documents = (if isl r then 0 else 1)"
proof (cases "isl r")
  case True
  then have "prints_nothing s t"
    using cli_output.command_effect [of env name, unfolded printing_def, rule_format, of s] assms by simp
  then show ?thesis using True by (simp add: prints_nothing_def)
next
  case False
  then have "prints_one s t"
    using cli_output.command_effect [of env name, unfolded printing_def, rule_format, of s] assms by simp
  then show ?thesis using False by (auto simp: prints_one_def)
qed

lemma run_commands_printed:
  "run_commands env cs s = (t, e) \<Longrightarrow>
   \<exists>documents. se_printed t = se_printed s @ documents \<and> length documents \<le> length cs \<and>
     (e = None \<longrightarrow> length documents = length cs) \<and>
     (\<forall>code. e = Some (Exit_failed code) \<longrightarrow> length documents < length cs)"
proof (induction cs arbitrary: s)
  case (Cons c cs)
  obtain u r where u: "run_command env (cm_name c) (s \<lparr>se_options := cm_options c\<rparr>) = (u, r)" by fastforce
  from run_command_printed [OF this] obtain ds where ds: "se_printed u = se_printed s @ ds"
    "length ds = (if isl r then 0 else 1)" by auto
  show ?case
  proof (cases "\<not> isl r \<and> list_all op_used (se_options u)")
    case True
    then have "run_commands env cs u = (t, e)" using Cons.prems u by (cases r) simp_all
    from Cons.IH [OF this] ds True show ?thesis by auto
  next
    case False
    then have "t = u" "e = Some (case r of Inl e \<Rightarrow> e | Inr _ \<Rightarrow> Exit_usage)"
      using Cons.prems u by (auto split: sum.splits if_splits)
    then show ?thesis using ds by (cases r) simp_all
  qed
qed simp



section \<open>Mistakes in the options\<close>

text \<open>Every option that some subcommand asks for.\<close>

definition known_options :: "string list" where
  "known_options = [''--uid'', ''--incarnation'', ''--out'', ''--snapshot'', ''--name'', ''--kind'', ''--instance'',
     ''--key'', ''--intent'', ''--origin'', ''--method'', ''--vendor'', ''--part'', ''--serial'', ''--revision'',
     ''--firmware'', ''--source-id'', ''--source-epoch'', ''--slot'', ''--attr'', ''--value'', ''--subkey'',
     ''--port'', ''--port-index'', ''--state'', ''--reason'', ''--metric'', ''--lane'', ''--presence'',
     ''--observed-offset-ms'', ''--max-age-ms'', ''--direction'', ''--degraded-enter'', ''--degraded-exit'',
     ''--critical-enter'', ''--critical-exit'', ''--escalate'', ''--recover'', ''--tolerance'', ''--verdict'',
     ''--priority'', ''--require'']"

definition stray :: "CliOption \<Rightarrow> bool" where
  "stray x \<longleftrightarrow> \<not> op_used x \<and> op_name x \<notin> set known_options"

definition add_option :: "CliOption \<Rightarrow> Session \<Rightarrow> Session" where
  "add_option x s = s \<lparr>se_options := se_options s @ [x]\<rparr>"

text \<open>A part of a subcommand that works the same with the option added.\<close>

definition blind :: "CliOption \<Rightarrow> 'a cmd \<Rightarrow> bool" where
  "blind x m \<longleftrightarrow> (\<forall>s. m (add_option x s) = apfst (add_option x) (m s))"

lemma add_option_parts [simp]:
  "se_remote (add_option x s) = se_remote s" "se_endpoint (add_option x s) = se_endpoint s"
  "se_snapshot (add_option x s) = se_snapshot s" "se_daemon (add_option x s) = se_daemon s"
  "se_client (add_option x s) = se_client s" "se_source (add_option x s) = se_source s"
  "se_modules (add_option x s) = se_modules s" "se_scratch (add_option x s) = se_scratch s"
  "se_scratch_ready (add_option x s) = se_scratch_ready s" "se_ticks (add_option x s) = se_ticks s"
  "se_printed (add_option x s) = se_printed s" "se_options (add_option x s) = se_options s @ [x]"
  by (simp_all add: add_option_def)

lemma add_option_updates [simp]:
  "(add_option x s) \<lparr>se_daemon := d\<rparr> = add_option x (s \<lparr>se_daemon := d\<rparr>)"
  "(add_option x s) \<lparr>se_client := c\<rparr> = add_option x (s \<lparr>se_client := c\<rparr>)"
  "(add_option x s) \<lparr>se_source := src\<rparr> = add_option x (s \<lparr>se_source := src\<rparr>)"
  "(add_option x s) \<lparr>se_modules := ms\<rparr> = add_option x (s \<lparr>se_modules := ms\<rparr>)"
  "(add_option x s) \<lparr>se_scratch := rg\<rparr> = add_option x (s \<lparr>se_scratch := rg\<rparr>)"
  "(add_option x s) \<lparr>se_scratch_ready := b\<rparr> = add_option x (s \<lparr>se_scratch_ready := b\<rparr>)"
  "(add_option x s) \<lparr>se_ticks := n\<rparr> = add_option x (s \<lparr>se_ticks := n\<rparr>)"
  "(add_option x s) \<lparr>se_printed := ds\<rparr> = add_option x (s \<lparr>se_printed := ds\<rparr>)"
  by (simp_all add: add_option_def)

lemma file_blind [simp]: "file_size path (add_option x s) = file_size path s"
  "file_exists path (add_option x s) = file_exists path s"
  by (simp_all add: file_size_def file_exists_def)

lemma blind_chain [intro]: "blind x m \<Longrightarrow> (\<And>v. blind x (k v)) \<Longrightarrow> blind x (chain m k)"
  by (auto simp: blind_def chain_def split: prod.splits sum.splits)

lemma mark_first_append: "name \<notin> {op_name x} \<Longrightarrow> mark_first name (opts @ [x]) = mark_first name opts @ [x]"
  by (induction opts) auto

lemma find_append_other: "name \<noteq> op_name x \<Longrightarrow>
    List.find (\<lambda>opt. op_name opt = name) (opts @ [x]) = List.find (\<lambda>opt. op_name opt = name) opts"
  by (induction opts) auto

lemma blind_take [intro]:
  assumes "stray x" "name \<in> set known_options"
  shows "blind x (take_option name)" "blind x (all_options name)"
proof -
  have "op_name x \<noteq> name" "name \<noteq> op_name x" using assms by (auto simp: stray_def)
  then show "blind x (take_option name)" "blind x (all_options name)"
    by (simp_all add: blind_def take_option_def all_options_def mark_first_append find_append_other add_option_def)
qed

lemma blind_basic [intro]:
  "blind x (give v)" "blind x (quit e)" "blind x (read_clock env)" "blind x (print_document d)"
  "blind x (request env op' params)" "blind x (perform_unchecked env op')"
  "blind x (request_and_print env op' params)"
proof -
  have perform: "perform env op' params (add_option x s) = apfst (add_option x) (perform env op' params s)"
    for params s by (simp add: perform_def split: prod.split)
  show "blind x (give v)" "blind x (quit e)" "blind x (read_clock env)" "blind x (print_document d)"
    by (simp_all add: blind_def give_def quit_def read_clock_def print_document_def)
  show request: "blind x (request env op' params)" "blind x (perform_unchecked env op')"
    by (simp_all add: blind_def request_def perform_unchecked_def perform split: prod.split sum.split)
  have "blind x (print_document document)" for document by (simp add: blind_def print_document_def)
  then show "blind x (request_and_print env op' params)"
    unfolding request_and_print_def by (intro blind_chain request)
qed

lemma blind_cases [intro]:
  "blind x f \<Longrightarrow> (\<And>y. blind x (g y)) \<Longrightarrow> blind x (case v of None \<Rightarrow> f | Some y \<Rightarrow> g y)"
  "(\<And>y z. blind x (h y z)) \<Longrightarrow> blind x (case p of (y, z) \<Rightarrow> h y z)"
  "blind x f \<Longrightarrow> blind x f' \<Longrightarrow> blind x (if b then f else f')"
  "(\<And>e. blind x (l e)) \<Longrightarrow> (\<And>y. blind x (g y)) \<Longrightarrow> blind x (case u of Inl e \<Rightarrow> l e | Inr y \<Rightarrow> g y)"
  by (simp_all split: option.split prod.split sum.split)

lemma blind_needs [intro]: "(\<And>y. blind x (g y)) \<Longrightarrow> blind x (needs v g)"
  by (simp add: needs_def blind_basic split: option.split)

text \<open>Reading the options that are known.\<close>

lemma blind_options [intro]:
  assumes "stray x" "name \<in> set known_options"
  shows "blind x (option_or name fallback)" "blind x (required_option name)" "blind x (filled_option name)"
    "blind x (parsed_or name parse v)" "name' \<in> set known_options \<Longrightarrow> blind x (take_band name name')"
proof -
  note take = blind_take(1) [OF assms]
  show "blind x (option_or name fallback)" "blind x (required_option name)" "blind x (filled_option name)"
    unfolding option_or_def filled_option_def required_option_def
    by (intro blind_chain take blind_basic blind_cases blind_needs)+
  have parsed: "blind x (parsed_or n parse v)" if "n \<in> set known_options" for n parse and v :: 'z
    unfolding parsed_or_def
    by (intro blind_chain blind_take(1) [OF assms(1) that] blind_basic blind_cases blind_needs)
  show "blind x (parsed_or name parse v)"
    unfolding parsed_or_def by (intro blind_chain take blind_basic blind_cases blind_needs)
  show "blind x (take_band name name')" if "name' \<in> set known_options"
    unfolding take_band_def
    by (intro blind_chain parsed [OF assms(2)] parsed [OF that] blind_basic blind_cases)
qed

lemma blind_capability [intro]: "stray x \<Longrightarrow> blind x take_capability"
  unfolding take_capability_def
  by (intro blind_chain blind_options blind_basic blind_needs blind_cases) (simp_all add: known_options_def)

lemma blind_source [intro]: "blind x (ensure_source env)"
proof -
  have "blind x (\<lambda>s. case source_of_document document of
              None \<Rightarrow> (s, Inl (Exit_failed Internal))
            | Some authority \<Rightarrow> (s \<lparr>se_source := Some authority\<rparr>, Inr authority))" for document
    by (simp add: blind_def split: option.split)
  then have "blind x (chain (request env ''source.register'' source_parameters) (\<lambda>document s.
            case source_of_document document of
              None \<Rightarrow> (s, Inl (Exit_failed Internal))
            | Some authority \<Rightarrow> (s \<lparr>se_source := Some authority\<rparr>, Inr authority)))"
    by (intro blind_chain blind_basic)
  then show ?thesis by (simp add: blind_def ensure_source_def split: option.split)
qed

lemma blind_learn [intro]:
  "blind x (\<lambda>s. case read_module_handle_document document of
      None \<Rightarrow> (s, Inl e) | Some h \<Rightarrow> (s \<lparr>se_modules := oput key h (se_modules s)\<rparr>, Inr h))"
  by (simp add: blind_def split: option.split)

lemma scratch_blind [simp]: "ensure_scratch env (add_option x s) = add_option x (ensure_scratch env s)"
  by (simp add: ensure_scratch_def Let_def split: prod.split sum.split)

lemma blind_registration [intro]: "blind x (resolve_by_registration env key)"
  unfolding resolve_by_registration_def
  by (intro blind_chain blind_source blind_cases blind_basic blind_learn)

lemma blind_by_key [intro]: "blind x (resolve_by_key env key)"
proof -
  have "resolve_by_registration env key (add_option x s) =
      apfst (add_option x) (resolve_by_registration env key s)" for s
    using blind_registration by (simp add: blind_def)
  then show ?thesis
    by (simp add: blind_def resolve_by_key_def Let_def split: prod.split sum.split option.split)
qed

lemma blind_resolve [intro]:
  assumes "stray x"
  shows "blind x (resolve_module env key)"
proof -
  have "blind x (chain (take_option ''--uid'') (\<lambda>uid_text.
            chain (take_option ''--incarnation'') (\<lambda>incarnation_text.
              if uid_text \<noteq> None \<or> incarnation_text \<noteq> None
              then needs (given_reference key uid_text incarnation_text) give
              else resolve_by_key env key)))"
    using assms by (intro blind_chain blind_take blind_basic blind_cases blind_needs blind_by_key)
      (simp_all add: known_options_def)
  then show ?thesis by (simp add: blind_def resolve_module_def split: option.split)
qed

text \<open>The subcommands.\<close>

lemma blind_printed: "(\<And>s. d (add_option x s) = d s) \<Longrightarrow> blind x (\<lambda>s. print_document (d s) s)"
  by (simp add: blind_def print_document_def)

lemma blind_identity [intro]:
  "stray x \<Longrightarrow> fst ` set options \<subseteq> set known_options \<Longrightarrow> blind x (take_identity options)"
  by (induction options rule: take_identity.induct) (auto intro!: blind_chain blind_take)

lemmas blinds = blind_chain blind_options blind_take blind_basic blind_needs blind_cases blind_source
  blind_resolve blind_capability blind_learn

lemma blind_plain [intro]:
  assumes "stray x"
  shows "blind x (run_source_register env)" "blind x (run_detach env)" "blind x (run_health_threshold env authority)"
    "blind x (run_compat_rule env authority)" "blind x (run_on_module env name)"
    "blind x (run_capability_publish env)"
  unfolding plain_commands by (intro blinds assms; simp add: known_options_def)+

lemma blind_inspection [intro]:
  assumes "stray x"
  shows "blind x (run_info env)" "blind x (run_save env)" "blind x (run_inspect env)" "blind x (run_compat_rules env)"
proof -
  note taken = blind_options(3) [OF assms] blind_take(1) [OF assms]
  have "info_document (add_option x s) = info_document s" for s
    by (intro ext) (simp add: info_document_def)
  then show "blind x (run_info env)"
    unfolding run_info_def by (intro blind_chain blind_basic blind_printed) simp
  show "blind x (run_save env)"
    unfolding run_save_def by (intro blind_chain blind_basic blind_printed taken) (simp_all add: known_options_def)
  have "blind x (inspect_file env path)" for path
    unfolding inspect_file_def
    by (rule blind_chain, rule blind_basic) (auto simp: blind_def print_document_def split: sum.split)
  then have "inspect_file env path (add_option x s) = apfst (add_option x) (inspect_file env path s)" for path s
    by (simp add: blind_def)
  then have "blind x (\<lambda>s. let path = (case given_path of None \<Rightarrow> se_snapshot s | Some p \<Rightarrow> p)
      in if path = [] then (s, Inl Exit_usage) else inspect_file env path s)" for given_path
    by (cases given_path) (simp_all add: blind_def Let_def)
  then show "blind x (run_inspect env)"
    unfolding run_inspect_def by (intro blind_chain taken) (simp_all add: known_options_def)
  show "blind x (run_compat_rules env)"
    by (simp add: blind_def run_compat_rules_def Let_def print_document_def split: option.split)
qed

lemma blind_register [intro]:
  assumes "stray x"
  shows "blind x (run_module_register env)"
proof -
  have "blind x (\<lambda>s. print_document document (case read_module_handle_document document of
        None \<Rightarrow> s | Some h \<Rightarrow> s \<lparr>se_modules := oput key h (se_modules s)\<rparr>))" for document key
    by (simp add: blind_def print_document_def split: option.split)
  moreover have "blind x (take_identity identity_options)"
    using assms by (rule blind_identity) (simp add: identity_options_def known_options_def)
  ultimately show ?thesis
    unfolding run_module_register_def by (intro blinds assms) (simp_all add: known_options_def)
qed

lemma blind_capabilities: "blind x (selftest_capabilities env authority h todo n)"
proof (induction todo arbitrary: n)
  case (Cons entry todo)
  then show ?case by (cases entry) (auto split: option.split)
qed auto

lemma blind_selftest [intro]:
  assumes "stray x"
  shows "blind x (run_selftest env)"
proof -
  have "blind x (selftest_source env)" "blind x (selftest_module env authority)"
    "blind x (selftest_port env authority)" for authority
    unfolding selftest_source_def selftest_module_def selftest_port_def Let_def
    by (intro blind_chain blind_basic blind_cases blind_learn)+
  moreover have "blind x (selftest_reload env path)" for path
  proof -
    have "blind x (\<lambda>s.
       case snd (load_snapshot ck path load_defaults (da_disk (se_daemon s)) (Registry_init config_default)) of
         Inl code \<Rightarrow> (s, Inl (Exit_failed code))
       | Inr r \<Rightarrow> (s, Inr r))" for ck
      by (simp add: blind_def split: sum.split)
    then show ?thesis unfolding selftest_reload_def by (intro blind_chain blind_basic)
  qed
  moreover have "selftest_summary (add_option x s) = selftest_summary s" for s
    by (intro ext) (simp add: selftest_summary_def)
  moreover have "blind x (take_option ''--out'')"
    using assms by (rule blind_take) (simp add: known_options_def)
  ultimately show ?thesis
    unfolding run_selftest_def Let_def
    by (intro blind_chain blind_cases blind_basic blind_capabilities blind_printed) simp_all
qed

theorem command_blind:
  assumes "stray x"
  shows "blind x (run_command env name)"
proof -
  have "blind x (chain (ensure_source env) (run_health_threshold env))"
    "blind x (chain (ensure_source env) (run_compat_rule env))"
    by (intro blind_chain blind_source blind_plain [OF assms])+
  then show ?thesis
    unfolding run_command_def
    by (intro blind_cases blind_basic blind_selftest [OF assms] blind_inspection [OF assms] blind_register [OF assms]
        blind_plain [OF assms])
qed

text \<open>
  C22. A mistaken option is reported too late. When a subcommand is given an option that no subcommand
  knows, it still runs to its end, with every change to the registry or the server and with its document
  printed, exactly as it would without that option; only then does the client exit with the code
  of a usage error, and leaves the subcommands after it undone. A subcommand that fails by itself
  fails just the same.
\<close>

theorem mistaken_option_after_commit:
  assumes "stray x" "run_command env (cm_name c) (s \<lparr>se_options := cm_options c\<rparr>) = (t, r)"
  shows "run_commands env (c \<lparr>cm_options := cm_options c @ [x]\<rparr> # cs) s =
    (add_option x t, Some (case r of Inl e \<Rightarrow> e | Inr _ \<Rightarrow> Exit_usage))"
proof -
  have with_stray: "s \<lparr>se_options := cm_options c @ [x]\<rparr> = add_option x (s \<lparr>se_options := cm_options c\<rparr>)"
    by (simp add: add_option_def)
  have "run_command env (cm_name c) (s \<lparr>se_options := cm_options c @ [x]\<rparr>) = (add_option x t, r)"
    unfolding with_stray
    using command_blind [OF assms(1), of env "cm_name c", unfolded blind_def, rule_format,
        of "s \<lparr>se_options := cm_options c\<rparr>"] assms(2) by simp
  then show ?thesis using assms(1) by (cases r) (simp_all add: stray_def)
qed

lemma mistaken_option_after_commit_witness:
  "run_commands example_cli [\<lparr>cm_name = ''compat-rules'',
       cm_options = [\<lparr>op_name = ''--dry-run'', op_value = ''1'', op_used = False\<rparr>]\<rparr>] example_session =
     (add_option \<lparr>op_name = ''--dry-run'', op_value = ''1'', op_used = False\<rparr>
        (example_session \<lparr>se_printed := [rules_document (Registry_init config_default)]\<rparr>), Some Exit_usage)"
proof -
  have "run_command example_cli ''compat-rules'' (example_session \<lparr>se_options := []\<rparr>) =
      (example_session \<lparr>se_printed := [rules_document (Registry_init config_default)]\<rparr>, Inr ())"
    by (simp add: run_command_def run_compat_rules_def print_document_def example_session_def new_session_def
        example_daemon_simps)
  then show ?thesis
    using mistaken_option_after_commit [of "\<lparr>op_name = ''--dry-run'', op_value = ''1'', op_used = False\<rparr>"
        example_cli "\<lparr>cm_name = ''compat-rules'', cm_options = []\<rparr>" example_session]
    by (simp add: stray_def known_options_def)
qed

end
