(* ===== verification/Spec2Isabelle.thy ===== *)
theory Spec2Isabelle
  imports RegLaws CodecLaws Frames Server Net CliLaws
begin

text \<open>
  Transceiver Registry: a verification development.

  The program is a registry of pluggable optical transceivers. Independent sources publish claims
  about modules (identity), declarations (capabilities of modules and of ports) and samples (health);
  the registry keeps all of it with its provenance, fences what is superseded, and answers
  questions on the evidence: what is this module, what can it do, is it healthy, is it compatible
  with that port. Every change is a mutation that copies the state, changes the copy and publishes
  it under the next generation, or refuses and publishes nothing.

  \<^bold>\<open>Theories, in the order of the layers, and the code they model.\<close>

  \<^item> \<open>TrxPrelude\<close> (\<open>result.hpp\<close>, \<open>ids.hpp\<close>): status codes as the error side of a sum, the
    propagation macros as \<open>try_res\<close>, identifiers as words, text keys, and \<open>std::map\<close> as a sorted
    association list behind the locale \<open>ordered_store\<close>, with grouping and sorting of evidence.
  \<^item> \<open>Doubles\<close>: IEEE 754 binary64 as its 64-bit pattern, with the comparisons and the subtraction the
    code uses; values are rationals read off the pattern.
  \<^item> \<open>Taxonomy\<close> (\<open>taxonomy.hpp\<close>, \<open>taxonomy.cpp\<close>): every enumeration, its number, its texts in both
    directions and the classification tables.
  \<^item> \<open>Lifecycle\<close> (\<open>lifecycle.cpp\<close>): the bit table of the lifecycle machine and its queries.
  \<^item> \<open>Digests\<close> (\<open>digest.cpp\<close>): SHA-256 with its streaming state, CRC-32C, FNV-1a, hexadecimal form.
  \<^item> \<open>Utf8\<close>, \<open>Varint\<close>, \<open>Canonical\<close> (\<open>canonical.cpp\<close>): the UTF-8 validator, LEB128 numbers with zigzag,
    canonical values, the streaming writer and the strict reader. \<open>ValueFields\<close> (\<open>value_fields.hpp\<close>):
    typed access to decoded objects.
  \<^item> \<open>Evidence\<close>, \<open>Identity\<close> (\<open>provenance.hpp\<close>, \<open>identity.cpp\<close>) and \<open>Capability\<close> (\<open>capability.cpp\<close>): claims
    and declarations, consensus per attribute, canonical forms and digests.
  \<^item> \<open>Compat\<close> (\<open>compatibility.cpp\<close>): rules, requirements and the decision procedure.
  \<^item> \<open>Health\<close> (\<open>health.cpp\<close>): thresholds, the hysteresis latch, classification of a series of samples.
  \<^item> \<open>RegState\<close>, \<open>Reports\<close>, \<open>RegOps\<close> (\<open>registry.cpp\<close>, \<open>registry_internal.hpp\<close>): the state of the registry,
    its queries as functions of one published state, and its mutations, each a guard and a body run
    by \<open>mutate\<close>.
  \<^item> \<open>RegRun\<close>: all operations as one datatype with a step function, runs, and the reachable states.
    \<open>RegInv\<close>: the well-formedness \<open>wf\<close>, the order \<open>later\<close>, and the locales \<open>registry_invariant\<close> and
    \<open>registry_relation\<close> that carry them from one commit to every run. \<open>RegLaws\<close>: what the registry
    promises its clients.
  \<^item> \<open>Codec\<close>, \<open>CodecLaws\<close> (\<open>codec.cpp\<close>): encoder and decoder of every stored or sent record, and the
    locale \<open>record_codec\<close> that is their contract.
  \<^item> \<open>Frames\<close> (\<open>wire.cpp\<close>, \<open>wire.hpp\<close>): the frame codec, and frames on a socket that delivers bytes in
    pieces of any size.
  \<^item> \<open>Snapshot\<close>, \<open>SnapshotLaws\<close> (\<open>snapshot.cpp\<close>): the documents of a state, the checksummed record
    stream and its digest, the atomic write over a disk that may fail at every call, parsing with
    recovery of a damaged tail, and loading. \<open>Autosave\<close> (\<open>registry.cpp\<close>): the daemon that saves after
    every commit, and what it finds again after a kill.
  \<^item> \<open>Dispatch\<close>, \<open>DispatchLaws\<close>, \<open>Server\<close> (\<open>wire.cpp\<close>): every request of the protocol as a function of its
    document and the daemon, the client with its numbered calls, and the loop that serves a
    connection. The texts for people are functions of the record \<open>Host\<close>.
  \<^item> \<open>Net\<close> (\<open>net.cpp\<close>): the socket layer on an operating system that is a parameter, its bounded retries,
    the refusal of every address outside the loopback network, and the ownership of native handles.
  \<^item> \<open>Numerals\<close>, \<open>Json\<close> (\<open>canonical.cpp\<close>): numbers as text in both directions, and the JSON rendering of
    canonical values.
  \<^item> \<open>CliDocs\<close>, \<open>Cli\<close>, \<open>CliLaws\<close> (\<open>tools/cli_main.cpp\<close>): the request documents that the command line client
    makes of its options, its subcommands as functions of a session that either holds the registry or
    speaks over a connection, and what a run does and prints. The locale \<open>command_effects\<close> is the contract
    of what a subcommand may do to its session, proved once for all of them and interpreted for the
    registry and for the output.
  \<^bold>\<open>How state and operations correspond.\<close> A C++ struct is a record with the fields in the same order
  and a two-letter prefix (\<open>State\<close>, prefix \<open>st_\<close>; \<open>ModuleRecord\<close>, prefix \<open>md_\<close>). An operation of class
  \<open>Registry\<close> is a function of the same name that takes the clock reading, the arguments and the
  registry, and returns the registry and a result; its lambda is the definition \<open>..._body\<close>. Errors are
  values of the sum type \<open>res\<close>, and every early return of the source is a branch. Identifiers,
  generations and counters are words of the width the code gives them; wall-clock times are integers,
  because their overflow is undefined in C++.

  \<^bold>\<open>What the lemmas show.\<close> The lower layers are shown equal to their specifications (the CRC table to
  bitwise division, the validator to the encodings of scalar values, the reader to the inverse of the
  writer, the lifecycle bits to the documented table). Consensus loses and invents nothing, a disputed
  attribute has no value, and an unknown never becomes compatible. Health zones rest on current
  evidence only, and hysteresis is exact. The registry is well formed in every reachable state, its
  mutations are atomic and fenced, superseded authorities and incarnations never come back, a
  replacement starts blank, and the internal errors of the code are unreachable. Every record survives
  its codec and every frame its transport; a saved registry is what a load restores, an acknowledged
  mutation survives a kill, and a damaged file gives back exactly its intact records.

  \<^bold>\<open>Bounds and fuel.\<close> The reader recurses on the remaining nesting depth, which the limits bound, so it
  is total and no fuel can run out unnoticed: exhaustion is the code's own \<open>CapacityExceeded\<close>. The
  eviction loops carry the code's own guard. The padding loop of SHA-256 is given the number of steps
  that \<open>sha256_padded\<close> shows to be exact. Runs are bounded only where a 64-bit counter could wrap
  (\<open>fenced_once\<close>).

  \<^bold>\<open>Not modelled.\<close> The free text of errors and of explanations for people (\<open>describe\<close>,
  \<open>explain_decision\<close>), which no code branches on; locks and atomics, since every
  operation takes one mutex and works on one published state; the file system and the sockets
  themselves, which appear as a disk and a byte stream with faults; the threads of the server, and the server and benchmark programs.
\<close>

end
